(* ===== verification/Sun_Prelude.thy ===== *)
theory Sun_Prelude
  imports Main "HOL-Library.Word" "HOL-Library.AList"
begin

text \<open>
  Shared vocabulary of the development.

  Machine integers of the source are words: \<open>u8\<close>, \<open>u16\<close>, \<open>u32\<close>, \<open>u64\<close>; \<open>usize\<close> is 64 bits
  wide. A length or count that only ever comes from a collection in memory is a \<open>nat\<close>.
  A Rust \<open>HashMap\<close> that the code iterates over is an association list with distinct keys,
  in the (unspecified) order of the iteration; a \<open>BTreeMap\<close> is an association list with
  strictly increasing keys; a map that is only looked up and updated is a partial function.
  A Rust \<open>Result\<close> is a sum with \<open>Inl\<close> for the error.
\<close>

type_synonym u8 = "8 word"
type_synonym u16 = "16 word"
type_synonym u32 = "32 word"
type_synonym u64 = "64 word"
type_synonym uuid = "128 word"
type_synonym bytes = "8 word list"

named_theorems rust_arith "unsigned values of the integer operations of the standard library"
named_theorems amap_simps "lookups in updated association lists"

section \<open>Integer operations of the Rust standard library\<close>

definition sat_add :: "'a::len word \<Rightarrow> 'a word \<Rightarrow> 'a word" where
  "sat_add a b = (if unat a + unat b < 2 ^ LENGTH('a) then a + b else - 1)"

definition sat_sub :: "'a::len word \<Rightarrow> 'a word \<Rightarrow> 'a word" where
  "sat_sub a b = (if b \<le> a then a - b else 0)"

definition checked_add :: "'a::len word \<Rightarrow> 'a word \<Rightarrow> 'a word option" where
  "checked_add a b = (if unat a + unat b < 2 ^ LENGTH('a) then Some (a + b) else None)"

lemma unat_sat_add [rust_arith]:
  "unat (sat_add a b) = min (unat a + unat b) (2 ^ LENGTH('a) - 1)" for a b :: "'a::len word"
  by (auto simp: sat_add_def unat_word_ariths unsigned_minus_1_eq_mask mask_eq_exp_minus_1)

lemma unat_sat_sub [rust_arith]: "unat (sat_sub a b) = unat a - unat b"
  by (auto simp: sat_sub_def unat_sub word_le_nat_alt)

lemma checked_add_Some [rust_arith]:
  "checked_add a b = Some c \<Longrightarrow> unat c = unat a + unat b"
  by (auto simp: checked_add_def unat_word_ariths split: if_splits)

lemma sat_add_mono: "a \<le> sat_add a b" for a b :: "'a::len word"
proof -
  have "unat a < 2 ^ LENGTH('a)" by (rule unsigned_less)
  then have "unat a \<le> 2 ^ LENGTH('a) - 1" by linarith
  then show ?thesis by (simp add: word_le_nat_alt unat_sat_add)
qed

text \<open>The sum of an iterator of integers; it wraps as an unchecked release build does.\<close>

definition word_sum :: "'a::len word list \<Rightarrow> 'a word" where
  "word_sum ws = sum_list ws"

lemma unat_word_sum:
  "sum_list (map unat ws) < 2 ^ LENGTH('a) \<Longrightarrow> unat (word_sum ws) = sum_list (map unat ws)"
  for ws :: "'a::len word list"
  by (induction ws) (auto simp: word_sum_def unat_word_ariths)

lemma unat_of_nat_small: "n < 2 ^ LENGTH('a) \<Longrightarrow> unat (of_nat n :: 'a::len word) = n"
  by (simp add: unat_of_nat)

section \<open>Decimal rendering of integers\<close>

fun digit_char :: "nat \<Rightarrow> char" where
  "digit_char d = char_of (48 + d)"

fun show_nat :: "nat \<Rightarrow> string" where
  "show_nat n = (if n < 10 then [digit_char n] else show_nat (n div 10) @ [digit_char (n mod 10)])"

declare show_nat.simps [simp del]

lemma show_nat_nonempty: "show_nat n \<noteq> []"
  by (subst show_nat.simps) simp

lemma show_nat_digits: "c \<in> set (show_nat n) \<Longrightarrow> \<exists>d < 10. c = digit_char d"
proof (induction n arbitrary: c rule: show_nat.induct)
  case (1 n)
  show ?case
  proof (cases "n < 10")
    case True
    with 1(2) show ?thesis by (subst (asm) show_nat.simps) auto
  next
    case False
    with 1(2) have "c \<in> set (show_nat (n div 10)) \<or> c = digit_char (n mod 10)"
      by (subst (asm) show_nat.simps) auto
    then show ?thesis
    proof
      assume "c = digit_char (n mod 10)"
      then show ?thesis by (intro exI [of _ "n mod 10"]) simp
    qed (use 1(1) False in blast)
  qed
qed

section \<open>Association lists as hash maps\<close>

lemmas amap_update [amap_simps] = AList.update_conv'
lemmas amap_delete [amap_simps] = AList.delete_conv'

definition amap_wf :: "('k \<times> 'v) list \<Rightarrow> bool" where
  "amap_wf m \<longleftrightarrow> distinct (map fst m)"

lemma amap_wf_Nil [simp, intro]: "amap_wf []"
  by (simp add: amap_wf_def)

lemma amap_wf_update [simp, intro]: "amap_wf m \<Longrightarrow> amap_wf (AList.update k v m)"
  by (simp add: amap_wf_def distinct_update)

lemma amap_wf_delete [simp, intro]: "amap_wf m \<Longrightarrow> amap_wf (AList.delete k m)"
  by (simp add: amap_wf_def distinct_delete)

lemma amap_mem_iff: "amap_wf m \<Longrightarrow> (k, v) \<in> set m \<longleftrightarrow> map_of m k = Some v"
  by (simp add: amap_wf_def)

lemma amap_dom: "map_of m k = None \<longleftrightarrow> k \<notin> fst ` set m"
  by (rule map_of_eq_None_iff)

lemma amap_update_new: "k \<notin> fst ` set m \<Longrightarrow> AList.update k v m = m @ [(k, v)]"
  by (induction m) auto

lemma amap_length_update:
  "length (AList.update k v m) = (if k \<in> fst ` set m then length m else Suc (length m))"
  by (induction m) auto

lemma amap_length_delete:
  "amap_wf m \<Longrightarrow> length (AList.delete k m) = (if k \<in> fst ` set m then length m - 1 else length m)"
proof (induction m)
  case (Cons p m)
  obtain a b where p: "p = (a, b)" by (cases p)
  show ?case
  proof (cases "a = k")
    case True
    with Cons.prems p have "k \<notin> fst ` set m" by (auto simp: amap_wf_def)
    then show ?thesis using True p by simp
  next
    case False
    with Cons.prems p have wf: "amap_wf m" by (simp add: amap_wf_def)
    have pos: "k \<in> fst ` set m \<Longrightarrow> 0 < length m" by (cases m) auto
    from False Cons.IH [OF wf] p pos show ?thesis by auto
  qed
qed simp

section \<open>Ordered maps\<close>

fun btree_insert :: "'k::linorder \<Rightarrow> 'v \<Rightarrow> ('k \<times> 'v) list \<Rightarrow> ('k \<times> 'v) list" where
  "btree_insert k v [] = [(k, v)]"
| "btree_insert k v ((k', v') # m) =
     (if k < k' then (k, v) # (k', v') # m
      else if k = k' then (k, v) # m
      else (k', v') # btree_insert k v m)"

definition btree_wf :: "('k::linorder \<times> 'v) list \<Rightarrow> bool" where
  "btree_wf m \<longleftrightarrow> sorted_wrt (<) (map fst m)"

lemma btree_wf_Nil [simp, intro]: "btree_wf []"
  by (simp add: btree_wf_def)

lemma btree_insert_keys: "fst ` set (btree_insert k v m) = insert k (fst ` set m)"
  by (induction k v m rule: btree_insert.induct) auto

lemma btree_wf_insert [simp, intro]: "btree_wf m \<Longrightarrow> btree_wf (btree_insert k v m)"
proof (induction k v m rule: btree_insert.induct)
  case (2 k v k' v' m)
  have keys: "x \<in> fst ` set (btree_insert k v m) \<longleftrightarrow> x = k \<or> x \<in> fst ` set m" for x
    using btree_insert_keys [of k v m] by auto
  from 2 show ?case
    by (auto simp: btree_wf_def dest: less_trans)
       (metis fst_conv image_eqI keys not_less_iff_gr_or_eq image_iff)
qed (simp add: btree_wf_def)

lemma btree_lookup_insert [amap_simps]:
  "btree_wf m \<Longrightarrow> map_of (btree_insert k v m) = (map_of m)(k \<mapsto> v)"
proof (induction k v m rule: btree_insert.induct)
  case (2 k v k' v' m)
  then show ?case by (auto simp: btree_wf_def fun_eq_iff)
qed auto

lemma btree_distinct: "btree_wf m \<Longrightarrow> distinct (map fst m)"
  by (auto simp: btree_wf_def strict_sorted_iff)

lemma sorted_wrt_less_unique:
  "sorted_wrt (<) xs \<Longrightarrow> sorted_wrt (<) ys \<Longrightarrow> set xs = set ys \<Longrightarrow> xs = ys"
  for xs ys :: "'a::linorder list"
  by (simp add: strict_sorted_equal)

section \<open>Results, slices and little-endian integers\<close>

text \<open>The \<open>?\<close> operator, \<open>ok_or\<close>, and a check that returns early with an error.\<close>

definition and_then :: "'e + 'a \<Rightarrow> ('a \<Rightarrow> 'e + 'b) \<Rightarrow> 'e + 'b" where
  "and_then r f = (case r of Inl e \<Rightarrow> Inl e | Inr x \<Rightarrow> f x)"

definition ok_or :: "'e \<Rightarrow> 'a option \<Rightarrow> 'e + 'a" where
  "ok_or e x = (case x of None \<Rightarrow> Inl e | Some y \<Rightarrow> Inr y)"

definition ensure :: "bool \<Rightarrow> 'e \<Rightarrow> 'e + unit" where
  "ensure b e = (if b then Inr () else Inl e)"

named_theorems result_simps "evaluation of results"

lemma and_then_simps [simp]: "and_then (Inl e) f = Inl e" "and_then (Inr x) f = f x"
  by (simp_all add: and_then_def)

lemma and_then_Inr_iff [result_simps]:
  "and_then r f = Inr y \<longleftrightarrow> (\<exists>x. r = Inr x \<and> f x = Inr y)"
  by (cases r) auto

lemma ok_or_simps [simp]: "ok_or e None = Inl e" "ok_or e (Some x) = Inr x"
  by (simp_all add: ok_or_def)

lemma ok_or_Inr_iff [result_simps]: "ok_or e x = Inr y \<longleftrightarrow> x = Some y"
  by (cases x) auto

lemma ensure_simps [simp]: "ensure True e = Inr ()" "ensure False e = Inl e"
  by (simp_all add: ensure_def)

lemma ensure_Inr_iff [result_simps]: "ensure b e = Inr u \<longleftrightarrow> b"
  by (simp add: ensure_def)

text \<open>\<open>get(a..b)\<close> on a slice, and \<open>checked_add\<close> on \<open>usize\<close> values that are kept as \<open>nat\<close>.\<close>

definition slice_get :: "nat \<Rightarrow> nat \<Rightarrow> 'a list \<Rightarrow> 'a list option" where
  "slice_get a b xs = (if a \<le> b \<and> b \<le> length xs then Some (take (b - a) (drop a xs)) else None)"

definition usize_add :: "nat \<Rightarrow> nat \<Rightarrow> nat option" where
  "usize_add a b = (if a + b < 2 ^ 64 then Some (a + b) else None)"

lemma slice_get_Some_iff [result_simps]:
  "slice_get a b xs = Some ys \<longleftrightarrow> a \<le> b \<and> b \<le> length xs \<and> ys = take (b - a) (drop a xs)"
  by (auto simp: slice_get_def)

lemma usize_add_Some_iff [result_simps]: "usize_add a b = Some c \<longleftrightarrow> a + b < 2 ^ 64 \<and> c = a + b"
  by (auto simp: usize_add_def)

lemma slice_get_append [simp]:
  "slice_get (length xs) (length xs + length ys) (xs @ ys @ zs) = Some ys"
  by (simp add: slice_get_def)

primrec le_bytes :: "nat \<Rightarrow> nat \<Rightarrow> bytes" where
  "le_bytes 0 n = []"
| "le_bytes (Suc k) n = of_nat (n mod 256) # le_bytes k (n div 256)"

primrec le_value :: "bytes \<Rightarrow> nat" where
  "le_value [] = 0"
| "le_value (b # bs) = unat b + 256 * le_value bs"

lemma length_le_bytes [simp]: "length (le_bytes k n) = k"
  by (induction k arbitrary: n) auto

lemma le_value_le_bytes: "n < 256 ^ k \<Longrightarrow> le_value (le_bytes k n) = n"
proof (induction k arbitrary: n)
  case (Suc k)
  from Suc.prems have "n div 256 < 256 ^ k" by (simp add: less_mult_imp_div_less mult.commute)
  with Suc.IH show ?case by (simp add: unat_of_nat_small)
qed simp

lemma le_bytes_le_value: "length bs = k \<Longrightarrow> le_bytes k (le_value bs) = bs"
proof (induction bs arbitrary: k)
  case (Cons b bs)
  have "unat b < 256" using unsigned_less [of b] by simp
  then show ?case using Cons by auto
qed simp

section \<open>Lists\<close>

lemma sum_list_filter_le: "sum_list (map f (filter P xs)) \<le> sum_list (map f xs)" for f :: "'a \<Rightarrow> nat"
  by (induction xs) auto

lemma length_le_of_distinct_bounded:
  assumes "distinct xs" and "\<And>x. x \<in> set xs \<Longrightarrow> f x < n" and "inj_on f (set xs)"
  shows "length xs \<le> n"
proof -
  have "length xs = card (f ` set xs)"
    using assms(1,3) by (simp add: card_image distinct_card)
  also have "\<dots> \<le> card {..<n}"
    using assms(2) by (intro card_mono) auto
  finally show ?thesis by simp
qed

lemma sum_list_bounded:
  "(\<And>x. x \<in> set xs \<Longrightarrow> f x \<le> b) \<Longrightarrow> sum_list (map f xs) \<le> length xs * b" for f :: "'a \<Rightarrow> nat"
  by (induction xs) (auto intro: add_mono)

lemma strict_sorted_is_upt:
  assumes "sorted_wrt (<) xs" and "length xs = n" and "\<And>x. x \<in> set xs \<Longrightarrow> x < n"
  shows "xs = [0..<n]"
proof -
  have sub: "set xs \<subseteq> {..<n}" using assms(3) by auto
  have "card (set xs) = n"
    using assms(1,2) by (simp add: distinct_card strict_sorted_iff)
  with sub have "set xs = {..<n}"
    by (simp add: card_subset_eq)
  with assms(1) show ?thesis
    by (intro sorted_wrt_less_unique) (auto simp: lessThan_atLeast0)
qed

end
