(* ===== verification/Wire_Types.thy ===== *)
theory Wire_Types
  imports Sun_Prelude
begin

text \<open>
  The shared data of the workspace (\<open>_black_hole_type/src/lib.rs\<close>): tensor contracts and
  envelopes, artifact references, the records of the progressive transfer protocol and the
  capability sets of the Mass protocol. Field names carry a prefix per struct, because two
  Rust structs may share a field name. Phantom type parameters (\<open>ObjectRef<T>\<close>) are
  dropped: they have no run-time content. Floating point configuration values are carried
  by a type variable \<open>'f\<close>: the code stores and forwards them and never computes on them.
\<close>

section \<open>Protocol constants\<close>

definition MASS_OPERATION_PROTOCOL_VERSION :: u16 where
  "MASS_OPERATION_PROTOCOL_VERSION = 2"

definition TRANSFER_PROTOCOL_VERSION :: u16 where
  "TRANSFER_PROTOCOL_VERSION = 1"

definition TENSOR_ENVELOPE_VERSION :: u16 where
  "TENSOR_ENVELOPE_VERSION = 1"

section \<open>Artifact references\<close>

type_synonym object_id = uuid

datatype artifact_ref =
    ACommitted object_id
  | ATransfer object_id
  | AStream (stream_ticket: object_id) (stream_fallback: object_id)

datatype operation_artifact_ref =
    OpCommitted object_id
  | OpTransfer object_id
  | OpStream object_id object_id

fun committed_object_ref :: "artifact_ref \<Rightarrow> object_id option" where
  "committed_object_ref (ACommitted r) = Some r"
| "committed_object_ref (ATransfer _) = None"
| "committed_object_ref (AStream _ _) = None"

fun durable_id :: "artifact_ref \<Rightarrow> object_id" where
  "durable_id (ACommitted r) = r"
| "durable_id (ATransfer r) = r"
| "durable_id (AStream t f) = f"

fun op_object_id :: "operation_artifact_ref \<Rightarrow> object_id" where
  "op_object_id (OpCommitted i) = i"
| "op_object_id (OpTransfer i) = i"
| "op_object_id (OpStream t f) = f"

fun into_typed :: "operation_artifact_ref \<Rightarrow> artifact_ref" where
  "into_typed (OpCommitted i) = ACommitted i"
| "into_typed (OpTransfer i) = ATransfer i"
| "into_typed (OpStream t f) = AStream t f"

fun from_artifact_ref :: "artifact_ref \<Rightarrow> operation_artifact_ref" where
  "from_artifact_ref (ACommitted r) = OpCommitted r"
| "from_artifact_ref (ATransfer r) = OpTransfer r"
| "from_artifact_ref (AStream t f) = OpStream t f"

lemma from_artifact_ref_into_typed [simp]: "from_artifact_ref (into_typed r) = r"
  by (cases r) auto

lemma into_typed_from_artifact_ref [simp]: "into_typed (from_artifact_ref a) = a"
  by (cases a) auto

lemma durable_id_into_typed [simp]: "durable_id (into_typed r) = op_object_id r"
  by (cases r) auto

section \<open>Tensor contracts\<close>

datatype contract_id = ContractId bytes
datatype contract_hash = ContractHash bytes

definition contract_id_from_u128 :: "128 word \<Rightarrow> contract_id" where
  "contract_id_from_u128 v = ContractId (map (\<lambda>i. ucast (drop_bit (8 * (15 - i)) v)) [0..<16])"

datatype tensor_dtype =
    DBool | DU8 | DU16 | DU32 | DU64 | DI8 | DI16 | DI32 | DI64
  | DF8E4M3 | DF8E5M2 | DF16 | DBF16 | DF32 | DF64
  | DF4 | DF6E2M3 | DF6E3M2 | DF8E8M0 | DC64

datatype dtype_constraint = DAny | DExact tensor_dtype | DOneOf "tensor_dtype list"

fun accepts :: "dtype_constraint \<Rightarrow> tensor_dtype \<Rightarrow> bool" where
  "accepts DAny d = True"
| "accepts (DExact e) d = (e = d)"
| "accepts (DOneOf es) d = (d \<in> set es)"

datatype dimension_descriptor = DimStatic u64 | DimSymbolic string | DimDynamic

datatype layout_constraint = LayoutAny | LayoutContiguous

record tensor_port_descriptor =
  tp_name :: string
  tp_dimensions :: "dimension_descriptor list"
  tp_dtype :: dtype_constraint
  tp_layout :: layout_constraint

record contract_descriptor =
  cd_id :: contract_id
  cd_version :: u32
  cd_inputs :: "tensor_port_descriptor list"
  cd_outputs :: "tensor_port_descriptor list"

datatype encoding_id = EncodingId u16

definition SAFETENSORS_V1 :: encoding_id where "SAFETENSORS_V1 = EncodingId 1"
definition POSTCARD_V1 :: encoding_id where "POSTCARD_V1 = EncodingId 2"

datatype contract_side = SideInput | SideOutput

record tensor_envelope =
  te_envelope_version :: u16
  te_contract_id :: contract_id
  te_contract_version :: u32
  te_contract_hash :: contract_hash
  te_side :: contract_side
  te_tensor_encoding :: encoding_id
  te_metadata_encoding :: encoding_id
  te_metadata_len :: u64
  te_tensor_len :: u64

section \<open>Operation capabilities\<close>

record operation_capabilities =
  cap_forward :: bool
  cap_backward :: bool
  cap_step :: bool
  cap_reset :: bool
  cap_perturb :: bool
  cap_optimize :: bool
  cap_checkpoint :: bool
  cap_fuse :: bool
  cap_query :: bool

definition FORWARD_ONLY :: operation_capabilities where
  "FORWARD_ONLY = \<lparr>cap_forward = True, cap_backward = False, cap_step = False, cap_reset = False,
     cap_perturb = False, cap_optimize = False, cap_checkpoint = False, cap_fuse = False,
     cap_query = False\<rparr>"

definition OPTIMIZING :: operation_capabilities where
  "OPTIMIZING = \<lparr>cap_forward = True, cap_backward = False, cap_step = False, cap_reset = True,
     cap_perturb = True, cap_optimize = True, cap_checkpoint = True, cap_fuse = True,
     cap_query = True\<rparr>"

definition satisfies :: "operation_capabilities \<Rightarrow> operation_capabilities \<Rightarrow> bool" where
  "satisfies self required \<longleftrightarrow>
     (\<not> cap_forward required \<or> cap_forward self)
     \<and> (\<not> cap_backward required \<or> cap_backward self)
     \<and> (\<not> cap_step required \<or> cap_step self)
     \<and> (\<not> cap_reset required \<or> cap_reset self)
     \<and> (\<not> cap_perturb required \<or> cap_perturb self)
     \<and> (\<not> cap_optimize required \<or> cap_optimize self)
     \<and> (\<not> cap_checkpoint required \<or> cap_checkpoint self)
     \<and> (\<not> cap_fuse required \<or> cap_fuse self)
     \<and> (\<not> cap_query required \<or> cap_query self)"

lemma satisfies_refl [simp]: "satisfies c c"
  by (simp add: satisfies_def)

lemma satisfies_trans: "satisfies a b \<Longrightarrow> satisfies b c \<Longrightarrow> satisfies a c"
  by (auto simp: satisfies_def)

record backward_capability =
  bc_descriptor :: contract_descriptor
  bc_descriptor_hash :: contract_hash

record operation_capability =
  oc_descriptor :: contract_descriptor
  oc_descriptor_hash :: contract_hash
  oc_tensor_encodings :: "encoding_id list"
  oc_metadata_encodings :: "encoding_id list"
  oc_operations :: operation_capabilities
  oc_backward :: "backward_capability option"

record operation_config =
  cfg_encoding :: encoding_id
  cfg_data :: bytes

section \<open>The progressive transfer protocol\<close>

datatype transfer_hash = TransferHash bytes

record transfer_begin =
  tb_protocol_version :: u16
  tb_transfer_id :: object_id
  tb_envelope :: tensor_envelope
  tb_tensor_header :: bytes
  tb_expected_chunks :: u32
  tb_expected_len :: u64
  tb_expected_hash :: transfer_hash
  tb_deadline_unix_ms :: u64
  tb_authorization_hash :: transfer_hash

record transfer_chunk =
  tc_index :: u32
  tc_object_id :: object_id
  tc_len :: u64
  tc_hash :: transfer_hash

record transfer_manifest =
  tm_begin :: transfer_begin
  tm_chunks :: "transfer_chunk list"
  tm_committed_unix_ms :: u64

record transfer_abort =
  ta_begin :: transfer_begin
  ta_reason :: string
  ta_aborted_unix_ms :: u64

datatype transfer_record =
    InProgress transfer_begin "transfer_chunk list" u64
  | Committed transfer_manifest
  | Aborted transfer_abort

fun record_begin :: "transfer_record \<Rightarrow> transfer_begin" where
  "record_begin (InProgress b _ _) = b"
| "record_begin (Committed m) = tm_begin m"
| "record_begin (Aborted a) = ta_begin a"

datatype durability_policy = ReplayRequired | Ephemeral

record transfer_ticket =
  tt_descriptor :: contract_descriptor
  tt_envelope :: tensor_envelope
  tt_tensor_header :: bytes
  tt_transfer_id :: object_id
  tt_source :: string
  tt_authorization :: bytes
  tt_expected_len :: u64
  tt_expected_hash :: transfer_hash
  tt_deadline_unix_ms :: u64
  tt_durability :: durability_policy
  tt_eventual_void_id :: object_id

datatype transfer_stream_frame =
    FBegin transfer_begin
  | FChunk u32 bytes transfer_hash
  | FCommit transfer_hash
  | FAbort string

section \<open>Mass configuration\<close>

datatype mass_architecture =
    Qwen35_0p8b | Qwen35_2b | Qwen35_4b | Qwen35_9b | Qwen35_27b | Qwen38_27b

record worker_capabilities =
  wc_architectures :: "mass_architecture list"
  wc_operations :: "operation_capability list"

datatype mass_perturbation_mode = PWeight | PLowRank u64

datatype 'f mass_error_feedback_config =
    EFOff
  | EFPersistent 'f 'f
  | EFReplay u32 'f 'f

record 'f mass_model_config =
  mc_top_k :: "u64 option"
  mc_temperature :: "'f option"
  mc_top_p :: "'f option"
  mc_repeat_penalty :: "'f option"
  mc_presence_penalty :: "'f option"
  mc_inference_limit :: "u32 option"
  mc_training_lr :: "'f option"
  mc_training_epsilon :: "'f option"
  mc_training_z_loss :: "'f option"
  mc_training_lb_loss :: "'f option"
  mc_training_clip_threshold :: "'f option"
  mc_training_perturbation_mode :: "mass_perturbation_mode option"
  mc_training_error_feedback :: "'f mass_error_feedback_config option"
  mc_frozen :: "bool option"
  mc_oscillation_period_steps :: "u32 option"
  mc_oscillation_train_steps :: "u32 option"
  mc_oscillation_phase_steps :: "u32 option"
  mc_oscillation_warmup_steps :: "u32 option"
  mc_checkpoint_id :: "object_id option"
  mc_required_architecture :: "mass_architecture option"

record 'f mass_model_params =
  mp_inference_limit :: u32
  mp_top_k :: u64
  mp_temperature :: 'f
  mp_top_p :: "'f option"
  mp_repeat_penalty :: 'f
  mp_presence_penalty :: 'f
  mp_training_lr :: 'f
  mp_training_epsilon :: 'f
  mp_training_z_loss :: 'f
  mp_training_lb_loss :: 'f
  mp_training_clip_threshold :: 'f
  mp_training_perturbation_mode :: mass_perturbation_mode
  mp_training_error_feedback :: "'f mass_error_feedback_config"
  mp_is_frozen :: bool
  mp_optimize_steps :: u32
  mp_oscillation_period_steps :: "u32 option"
  mp_oscillation_train_steps :: "u32 option"
  mp_oscillation_phase_steps :: "u32 option"
  mp_oscillation_warmup_steps :: "u32 option"

end
