(* ===== verification/Object_Store.thy ===== *)
theory Object_Store
  imports Sun_Prelude
begin

text \<open>
  Object storage of the Void service (\<open>_black_hole_void/src/object_store.rs\<close>): the trait
  \<open>ObjectStore\<close> as a record of operations over a backend state \<open>'o\<close>, its in-memory
  implementation, and the contract the server relies on as a locale. A backend operation
  returns its result and the new backend state; where the backend draws a random session
  identifier (\<open>Uuid::new_v4().to_string()\<close>) the drawn text is an argument.
\<close>

datatype object_store_error =
    OsNotFound string
  | OsS3 string
  | OsMessage string

type_synonym 'a os_result = "object_store_error + 'a"

record 'o object_store_ops =
  os_put :: "string \<Rightarrow> bytes \<Rightarrow> 'o \<Rightarrow> unit os_result \<times> 'o"
  os_get :: "string \<Rightarrow> 'o \<Rightarrow> bytes os_result"
  os_delete :: "string \<Rightarrow> 'o \<Rightarrow> unit os_result \<times> 'o"
  os_get_range :: "string \<Rightarrow> u64 \<Rightarrow> u64 \<Rightarrow> 'o \<Rightarrow> bytes os_result"
  os_begin_multipart :: "string \<Rightarrow> string \<Rightarrow> 'o \<Rightarrow> string os_result \<times> 'o"
  os_upload_part :: "string \<Rightarrow> string \<Rightarrow> u32 \<Rightarrow> bytes \<Rightarrow> 'o \<Rightarrow> string os_result \<times> 'o"
  os_finish_multipart :: "string \<Rightarrow> string \<Rightarrow> (u32 \<times> string) list \<Rightarrow> 'o \<Rightarrow> unit os_result \<times> 'o"
  os_abort_multipart :: "string \<Rightarrow> string \<Rightarrow> 'o \<Rightarrow> unit os_result \<times> 'o"

section \<open>The default range read of the trait\<close>

text \<open>
  \<open>start.saturating_add(length as usize)\<close>, capped at the length of the object; the slice
  is \<open>data[start..end]\<close>.
\<close>

definition slice :: "nat \<Rightarrow> nat \<Rightarrow> 'a list \<Rightarrow> 'a list" where
  "slice a b xs = take (b - a) (drop a xs)"

definition default_get_range :: "bytes os_result \<Rightarrow> u64 \<Rightarrow> u64 \<Rightarrow> bytes os_result" where
  "default_get_range got offset len =
     (case got of
        Inl e \<Rightarrow> Inl e
      | Inr data \<Rightarrow>
          let start = unat offset in
          if length data \<le> start then Inr []
          else
            let end' = min (length data) (unat (sat_add offset len))
            in Inr (slice start end' data))"

section \<open>The in-memory object store\<close>

record mem_object_store =
  mos_map :: "string \<rightharpoonup> bytes"
  mos_multipart :: "string \<rightharpoonup> (u32 \<rightharpoonup> bytes)"

definition mem_new :: mem_object_store where
  "mem_new = \<lparr>mos_map = Map.empty, mos_multipart = Map.empty\<rparr>"

definition mem_put :: "string \<Rightarrow> bytes \<Rightarrow> mem_object_store \<Rightarrow> unit os_result \<times> mem_object_store" where
  "mem_put key data s = (Inr (), s\<lparr>mos_map := (mos_map s)(key \<mapsto> data)\<rparr>)"

definition mem_get :: "string \<Rightarrow> mem_object_store \<Rightarrow> bytes os_result" where
  "mem_get key s = (case mos_map s key of Some d \<Rightarrow> Inr d | None \<Rightarrow> Inl (OsNotFound key))"

definition mem_delete :: "string \<Rightarrow> mem_object_store \<Rightarrow> unit os_result \<times> mem_object_store" where
  "mem_delete key s = (Inr (), s\<lparr>mos_map := (mos_map s)(key := None)\<rparr>)"

definition mem_get_range :: "string \<Rightarrow> u64 \<Rightarrow> u64 \<Rightarrow> mem_object_store \<Rightarrow> bytes os_result" where
  "mem_get_range key offset len s = default_get_range (mem_get key s) offset len"

definition mem_begin_multipart ::
  "string \<Rightarrow> string \<Rightarrow> mem_object_store \<Rightarrow> string os_result \<times> mem_object_store" where
  "mem_begin_multipart drawn key s =
     (Inr drawn, s\<lparr>mos_multipart := (mos_multipart s)(drawn \<mapsto> Map.empty)\<rparr>)"

definition mem_upload_part ::
  "string \<Rightarrow> string \<Rightarrow> u32 \<Rightarrow> bytes \<Rightarrow> mem_object_store \<Rightarrow> string os_result \<times> mem_object_store" where
  "mem_upload_part key session_id part_number data s =
     (case mos_multipart s session_id of
        None \<Rightarrow> (Inl (OsNotFound (''multipart session '' @ session_id)), s)
      | Some parts \<Rightarrow>
          (Inr (''inmemory-part-'' @ show_nat (unat part_number)),
           s\<lparr>mos_multipart := (mos_multipart s)(session_id \<mapsto> parts(part_number \<mapsto> data))\<rparr>))"

fun collect_parts :: "(u32 \<rightharpoonup> bytes) \<Rightarrow> (u32 \<times> string) list \<Rightarrow> bytes os_result" where
  "collect_parts stored [] = Inr []"
| "collect_parts stored ((n, tok) # ps) =
     (case stored n of
        None \<Rightarrow> Inl (OsMessage (''missing part '' @ show_nat (unat n)))
      | Some part \<Rightarrow>
          (case collect_parts stored ps of
             Inl e \<Rightarrow> Inl e
           | Inr rest \<Rightarrow> Inr (part @ rest)))"

definition mem_finish_multipart ::
  "string \<Rightarrow> string \<Rightarrow> (u32 \<times> string) list \<Rightarrow> mem_object_store \<Rightarrow> unit os_result \<times> mem_object_store" where
  "mem_finish_multipart key session_id parts s =
     (case mos_multipart s session_id of
        None \<Rightarrow> (Inl (OsNotFound (''multipart session '' @ session_id)), s)
      | Some stored \<Rightarrow>
          let s1 = s\<lparr>mos_multipart := (mos_multipart s)(session_id := None)\<rparr> in
          (case collect_parts stored parts of
             Inl e \<Rightarrow> (Inl e, s1)
           | Inr data \<Rightarrow> (Inr (), s1\<lparr>mos_map := (mos_map s1)(key \<mapsto> data)\<rparr>)))"

definition mem_abort_multipart ::
  "string \<Rightarrow> string \<Rightarrow> mem_object_store \<Rightarrow> unit os_result \<times> mem_object_store" where
  "mem_abort_multipart key session_id s =
     (Inr (), s\<lparr>mos_multipart := (mos_multipart s)(session_id := None)\<rparr>)"

definition mem_object_ops :: "mem_object_store object_store_ops" where
  "mem_object_ops =
     \<lparr>os_put = mem_put, os_get = mem_get, os_delete = mem_delete, os_get_range = mem_get_range,
      os_begin_multipart = mem_begin_multipart, os_upload_part = mem_upload_part,
      os_finish_multipart = mem_finish_multipart, os_abort_multipart = mem_abort_multipart\<rparr>"

lemmas mem_object_defs =
  mem_put_def mem_get_def mem_delete_def mem_get_range_def mem_begin_multipart_def
  mem_upload_part_def mem_finish_multipart_def mem_abort_multipart_def

lemma mem_object_ops_simps [simp]:
  "os_put mem_object_ops = mem_put"
  "os_get mem_object_ops = mem_get"
  "os_delete mem_object_ops = mem_delete"
  "os_get_range mem_object_ops = mem_get_range"
  "os_begin_multipart mem_object_ops = mem_begin_multipart"
  "os_upload_part mem_object_ops = mem_upload_part"
  "os_finish_multipart mem_object_ops = mem_finish_multipart"
  "os_abort_multipart mem_object_ops = mem_abort_multipart"
  by (simp_all add: mem_object_ops_def)

section \<open>The contract of an object store\<close>

text \<open>
  \<open>contents\<close> abstracts the backend state to the visible objects, \<open>sessions\<close> to the open
  multipart sessions. A failed operation leaves the visible objects alone; reads report only
  what is there. The second locale adds what a backend without faults does.
\<close>

locale object_store_spec =
  fixes ops :: "'o object_store_ops"
    and contents :: "'o \<Rightarrow> string \<rightharpoonup> bytes"
    and sessions :: "'o \<Rightarrow> string \<rightharpoonup> (u32 \<rightharpoonup> bytes)"
  assumes put_ok: "os_put ops k d s = (Inr u, s') \<Longrightarrow>
      contents s' = (contents s)(k \<mapsto> d) \<and> sessions s' = sessions s"
    and put_err: "os_put ops k d s = (Inl e, s') \<Longrightarrow>
      contents s' = contents s \<and> sessions s' = sessions s"
    and get_ok: "os_get ops k s = Inr d \<Longrightarrow> contents s k = Some d"
    and delete_ok: "os_delete ops k s = (Inr u, s') \<Longrightarrow>
      contents s' = (contents s)(k := None) \<and> sessions s' = sessions s"
    and delete_err: "os_delete ops k s = (Inl e, s') \<Longrightarrow>
      contents s' = contents s \<and> sessions s' = sessions s"
    and begin_ok: "os_begin_multipart ops drawn k s = (Inr sid, s') \<Longrightarrow>
      contents s' = contents s \<and> sessions s' = (sessions s)(sid \<mapsto> Map.empty)"
    and begin_err: "os_begin_multipart ops drawn k s = (Inl e, s') \<Longrightarrow> contents s' = contents s"
    and part_ok: "os_upload_part ops k sid n d s = (Inr tok, s') \<Longrightarrow>
      contents s' = contents s \<and>
      (\<exists>ps. sessions s sid = Some ps \<and> sessions s' = (sessions s)(sid \<mapsto> ps(n \<mapsto> d)))"
    and part_err: "os_upload_part ops k sid n d s = (Inl e, s') \<Longrightarrow> contents s' = contents s"
    and finish_ok: "os_finish_multipart ops k sid parts s = (Inr u, s') \<Longrightarrow>
      (\<exists>ps d. sessions s sid = Some ps \<and> collect_parts ps parts = Inr d \<and>
        contents s' = (contents s)(k \<mapsto> d) \<and> sessions s' = (sessions s)(sid := None))"
    and finish_err: "os_finish_multipart ops k sid parts s = (Inl e, s') \<Longrightarrow> contents s' = contents s"
    and abort_any: "os_abort_multipart ops k sid s = (r, s') \<Longrightarrow> contents s' = contents s"

locale reliable_object_store = object_store_spec +
  assumes put_total: "\<exists>s'. os_put ops k d s = (Inr (), s')"
    and get_total: "contents s k = Some d \<Longrightarrow> os_get ops k s = Inr d"
    and delete_total: "\<exists>s'. os_delete ops k s = (Inr (), s')"
    and begin_total: "\<exists>s'. os_begin_multipart ops drawn k s = (Inr drawn, s')"
    and part_total: "sessions s sid = Some ps \<Longrightarrow> \<exists>tok s'. os_upload_part ops k sid n d s = (Inr tok, s')"
    and finish_total: "sessions s sid = Some ps \<Longrightarrow> collect_parts ps parts = Inr d \<Longrightarrow>
      \<exists>s'. os_finish_multipart ops k sid parts s = (Inr (), s')"
    and range_default: "os_get_range ops k off len s = default_get_range (os_get ops k s) off len"

interpretation mem_os: reliable_object_store mem_object_ops mos_map mos_multipart
  by unfold_locales
     (auto simp: mem_object_defs Let_def fun_upd_def split: option.splits sum.splits if_splits)

section \<open>Facts about ranges and parts\<close>

text \<open>
  A range read returns the requested window of the object, cut at its end; the saturating
  addition cannot shorten it, because no object is as long as the largest 64-bit value.
\<close>

lemma default_get_range_window:
  assumes "length data < 2 ^ 64"
  shows "default_get_range (Inr data) off len = Inr (take (unat len) (drop (unat off) data))"
proof (cases "length data \<le> unat off")
  case True
  then show ?thesis by (simp add: default_get_range_def)
next
  case False
  have "min (length data) (unat (sat_add off len)) = min (length data) (unat off + unat len)"
    using assms by (simp add: unat_sat_add)
  then show ?thesis
    using False by (auto simp: default_get_range_def slice_def min_def Let_def)
qed

lemma collect_parts_all:
  assumes "\<And>n tok. (n, tok) \<in> set parts \<Longrightarrow> stored n \<noteq> None"
  shows "collect_parts stored parts = Inr (concat (map (\<lambda>p. the (stored (fst p))) parts))"
  using assms
proof (induction parts)
  case (Cons p parts)
  obtain n tok where p: "p = (n, tok)" by (cases p)
  with Cons.prems obtain d where "stored n = Some d" by fastforce
  moreover have "collect_parts stored parts = Inr (concat (map (\<lambda>p. the (stored (fst p))) parts))"
    using Cons.prems by (intro Cons.IH) (meson list.set_intros(2))
  ultimately show ?case using p by simp
qed simp

lemma collect_parts_Inr_iff:
  "(\<exists>d. collect_parts stored parts = Inr d) \<longleftrightarrow> (\<forall>p \<in> set parts. stored (fst p) \<noteq> None)"
  by (induction parts) (auto split: option.splits sum.splits)

end
