(* ===== verification/Meta_Store.thy ===== *)
theory Meta_Store
  imports Sun_Prelude
begin

text \<open>
  Object metadata of the Void service (\<open>_black_hole_void/src/persist/mod.rs\<close>): the trait
  \<open>VoidStore\<close> as a record of operations, the in-memory store, the registry of download
  waiters, and the contract of a metadata store as a locale.
\<close>

datatype persistence_error = PMessage string

type_synonym 'a p_result = "persistence_error + 'a"

record object_record =
  rec_id :: uuid
  rec_bucket :: string
  rec_key :: string
  rec_size_bytes :: int

record 'm void_store_ops =
  vs_insert_object :: "uuid \<Rightarrow> string \<Rightarrow> string \<Rightarrow> int \<Rightarrow> 'm \<Rightarrow> unit p_result \<times> 'm"
  vs_get_object :: "uuid \<Rightarrow> 'm \<Rightarrow> object_record option p_result"
  vs_delete_object :: "uuid \<Rightarrow> 'm \<Rightarrow> unit p_result \<times> 'm"
  vs_publish_upload_notification :: "uuid \<Rightarrow> 'm \<Rightarrow> unit p_result \<times> 'm"
  vs_supports_wait_notifications :: bool

section \<open>The in-memory metadata store\<close>

type_synonym mem_store = "uuid \<rightharpoonup> object_record"

definition mem_insert_object ::
  "uuid \<Rightarrow> string \<Rightarrow> string \<Rightarrow> int \<Rightarrow> mem_store \<Rightarrow> unit p_result \<times> mem_store" where
  "mem_insert_object oid bucket key size_bytes m =
     (let r = \<lparr>rec_id = oid, rec_bucket = bucket, rec_key = key, rec_size_bytes = size_bytes\<rparr>
      in (Inr (), m(oid \<mapsto> r)))"

definition mem_get_object :: "uuid \<Rightarrow> mem_store \<Rightarrow> object_record option p_result" where
  "mem_get_object oid m = Inr (m oid)"

definition mem_delete_object :: "uuid \<Rightarrow> mem_store \<Rightarrow> unit p_result \<times> mem_store" where
  "mem_delete_object oid m = (Inr (), m(oid := None))"

text \<open>The default of the trait: backends without cross-instance notification do nothing.\<close>

definition default_publish_upload_notification :: "uuid \<Rightarrow> 'm \<Rightarrow> unit p_result \<times> 'm" where
  "default_publish_upload_notification oid m = (Inr (), m)"

definition mem_store_ops :: "mem_store void_store_ops" where
  "mem_store_ops =
     \<lparr>vs_insert_object = mem_insert_object, vs_get_object = mem_get_object,
      vs_delete_object = mem_delete_object,
      vs_publish_upload_notification = default_publish_upload_notification,
      vs_supports_wait_notifications = False\<rparr>"

lemma mem_store_ops_simps [simp]:
  "vs_insert_object mem_store_ops = mem_insert_object"
  "vs_get_object mem_store_ops = mem_get_object"
  "vs_delete_object mem_store_ops = mem_delete_object"
  "vs_publish_upload_notification mem_store_ops = default_publish_upload_notification"
  "vs_supports_wait_notifications mem_store_ops = False"
  by (simp_all add: mem_store_ops_def)

lemmas mem_store_defs =
  mem_insert_object_def mem_get_object_def mem_delete_object_def
  default_publish_upload_notification_def

section \<open>The contract of a metadata store\<close>

locale void_store_spec =
  fixes mops :: "'m void_store_ops"
    and records :: "'m \<Rightarrow> uuid \<rightharpoonup> object_record"
  assumes insert_ok: "vs_insert_object mops oid b k n m = (Inr u, m') \<Longrightarrow> records m' =
      (records m)(oid \<mapsto> \<lparr>rec_id = oid, rec_bucket = b, rec_key = k, rec_size_bytes = n\<rparr>)"
    and insert_err: "vs_insert_object mops oid b k n m = (Inl e, m') \<Longrightarrow> records m' = records m"
    and lookup_ok: "vs_get_object mops oid m = Inr r \<Longrightarrow> r = records m oid"
    and remove_ok: "vs_delete_object mops oid m = (Inr u, m') \<Longrightarrow> records m' = (records m)(oid := None)"
    and remove_err: "vs_delete_object mops oid m = (Inl e, m') \<Longrightarrow> records m' = records m"
    and publish_any: "vs_publish_upload_notification mops oid m = (res, m') \<Longrightarrow> records m' = records m"

locale reliable_void_store = void_store_spec +
  assumes insert_total: "\<exists>m'. vs_insert_object mops oid b k n m = (Inr (), m')"
    and lookup_total: "vs_get_object mops oid m = Inr (records m oid)"
    and remove_total: "\<exists>m'. vs_delete_object mops oid m = (Inr (), m')"

interpretation mem_vs: reliable_void_store mem_store_ops "\<lambda>m. m"
  by unfold_locales (auto simp: mem_store_defs Let_def)

section \<open>The registry of download waiters\<close>

text \<open>
  \<open>WaitRegistry\<close> maps an object id to the shared \<open>Notify\<close> its waiters block on. A \<open>Notify\<close>
  is a number; \<open>woken\<close> records the handles whose waiters have been notified, in order.
\<close>

record wait_registry =
  wr_waiters :: "uuid \<rightharpoonup> nat"
  wr_next :: nat
  wr_woken :: "nat list"

definition waiter_for :: "uuid \<Rightarrow> wait_registry \<Rightarrow> nat \<times> wait_registry" where
  "waiter_for oid w =
     (case wr_waiters w oid of
        Some n \<Rightarrow> (n, w)
      | None \<Rightarrow> (wr_next w, w\<lparr>wr_waiters := (wr_waiters w)(oid \<mapsto> wr_next w), wr_next := Suc (wr_next w)\<rparr>))"

definition notify_upload :: "uuid \<Rightarrow> wait_registry \<Rightarrow> wait_registry" where
  "notify_upload oid w =
     (case wr_waiters w oid of
        None \<Rightarrow> w
      | Some n \<Rightarrow> w\<lparr>wr_waiters := (wr_waiters w)(oid := None), wr_woken := wr_woken w @ [n]\<rparr>)"

definition release_if_idle :: "uuid \<Rightarrow> nat \<Rightarrow> nat \<Rightarrow> wait_registry \<Rightarrow> wait_registry" where
  \<comment> \<open>\<open>strong\<close> is the strong count of the shared handle at the time of the call\<close>
  "release_if_idle oid waiter strong w =
     (case wr_waiters w oid of
        None \<Rightarrow> w
      | Some current \<Rightarrow>
          if current = waiter \<and> strong = 2 then w\<lparr>wr_waiters := (wr_waiters w)(oid := None)\<rparr> else w)"

lemma waiter_for_registers: "wr_waiters (snd (waiter_for oid w)) oid = Some (fst (waiter_for oid w))"
  by (simp add: waiter_for_def split: option.splits)

lemma notify_upload_wakes:
  "wr_waiters w oid = Some n \<Longrightarrow> n \<in> set (wr_woken (notify_upload oid w))
     \<and> wr_waiters (notify_upload oid w) oid = None"
  by (simp add: notify_upload_def)

end
