(* ===== verification/Void_Server.thy ===== *)
theory Void_Server
  imports Wire_Types Object_Store Meta_Store
begin

text \<open>
  The request handlers of the Void object server (\<open>_black_hole_void/src/lib.rs\<close>) outside the
  transfer protocol: plain and multipart uploads, whole, ranged and waiting downloads.

  A handler takes the server's dependencies, the values it draws from its surroundings
  (\<open>readings\<close>: clock readings and random identifiers), its arguments and the context, and
  returns the response and the new context. Every early return is a branch. An error message
  is a constructor of \<open>void_error\<close> that carries the values the code formats into the text.
\<close>

definition S3_MAX_FRAME_SIZE :: nat where
  "S3_MAX_FRAME_SIZE = 1024 * 1024 * 1024"

definition MAX_DOWNLOAD_WAIT_TIMEOUT_MS :: u64 where
  "MAX_DOWNLOAD_WAIT_TIMEOUT_MS = 30000"

definition MAX_MULTIPART_PARTS :: u32 where
  "MAX_MULTIPART_PARTS = 10000"

definition IMMUTABLE_TRANSFER_CHUNK_PREFIX :: string where
  "IMMUTABLE_TRANSFER_CHUNK_PREFIX = ''transfer-chunk-''"

definition TRANSFER_RECORD_PREFIX :: string where
  "TRANSFER_RECORD_PREFIX = ''transfer-record-''"

section \<open>Requests and responses\<close>

datatype void_in =
    VUpload bytes
  | VUploadWith uuid bytes
  | VDownload uuid
  | VDownloadWait uuid u64
  | VUploadBegin "uuid option" u64
  | VUploadPart uuid u32 bytes
  | VUploadFinish uuid u32
  | VDownloadRange uuid u64 u64
  | VTransferBegin transfer_begin
  | VTransferChunk uuid u32 bytes transfer_hash
  | VTransferInspect uuid
  | VTransferCommit uuid transfer_hash
  | VTransferAbort uuid string
  | VTransferStreamUpload transfer_begin bytes
  | VTransferStreamDownload uuid bytes

datatype transfer_error =
    ETransferVersion u16
  | ETransferNil
  | EExpectedChunks u32
  | EZeroLength
  | EDeadlineExpired
  | ETransferExists object_id
  | ECheckTransfer persistence_error
  | EInspectRecordMetadata persistence_error
  | EPersistRecord object_store_error
  | EPersistRecordMetadata persistence_error
  | EInvalidRecord uuid
  | ETransferNotFound uuid
  | ENotInProgress uuid
  | EChunkIndex u32 u32
  | EDuplicateChunk u32 uuid
  | EChunkHash u32 uuid
  | EExceedsLength uuid u64
  | EUnexpectedChunkResponse
  | ECommitHash uuid
  | EChunkCount uuid nat u32
  | ETotalLength uuid u64 u64
  | EChunkMissing object_id
  | EChunkInvalid object_id
  | EAggregateHash uuid
  | EStreamIndex u32 u32
  | EDuplicateBegin
  | EAuthorization

datatype void_error =
    EUploadTooLarge nat nat
  | EManagedByTransfer uuid
  | ECheckExisting uuid persistence_error
  | EUploadFailed object_store_error
  | EObjectExists uuid
  | ECheckChunkObject uuid persistence_error
  | EChunkUploadFailed object_store_error
  | EChunkMetadata persistence_error
  | EMultipartInFlight uuid
  | EBeginMultipart object_store_error
  | EPartNumber u32
  | ENoMultipart uuid
  | EUploadPart u32 object_store_error
  | EPartCount u32
  | EPartsMismatch uuid nat u32
  | EFinishMultipart object_store_error
  | EObjectNotFound uuid
  | ELookupFailed persistence_error
  | ENotFound object_store_error
  | EWaitTimeout u64
  | EDeleteLookup uuid persistence_error
  | EDeleteObject uuid object_store_error
  | EDeleteMetadata uuid persistence_error
  | EDedicatedChannel
  | ETransfer transfer_error

datatype void_out =
    VUploaded uuid
  | VDownloaded bytes
  | VTimedOut uuid
  | VAck
  | VError void_error
  | VTransfer transfer_record
  | VTransferChunkStored transfer_chunk

section \<open>The server context\<close>

record multipart_session =
  ms_store_session_id :: string
  ms_parts :: "(u32 \<times> string) list"
  ms_total_size :: u64

record ('o, 'm) void_context =
  object_namespace :: string
  object_store :: 'o
  store :: 'm
  registry :: wait_registry
  multipart_uploads :: "uuid \<rightharpoonup> multipart_session"
  active_transfers :: "uuid list"

text \<open>
  What the handlers use of other packages: the two backends, SHA-256, the textual form of
  UUIDs, and the postcard codec of transfer records (\<open>None\<close> is a decoding error).
\<close>

record ('o, 'm) void_env =
  ve_objects :: "'o object_store_ops"
  ve_meta :: "'m void_store_ops"
  ve_sha256 :: "bytes \<Rightarrow> bytes"
  ve_uuid_text :: "uuid \<Rightarrow> string"
  ve_encode :: "transfer_record \<Rightarrow> bytes"
  ve_decode :: "bytes \<Rightarrow> transfer_record option"

text \<open>
  Values drawn while a request is served: the clock where the handler checks a deadline,
  the clock where it stamps a record, a fresh object identifier, and the identifier of a
  multipart session of the backend.
\<close>

record readings =
  rd_now_check :: u64
  rd_now_stamp :: u64
  rd_uuid :: uuid
  rd_session :: string

definition hash_transfer :: "('o, 'm) void_env \<Rightarrow> bytes \<Rightarrow> transfer_hash" where
  "hash_transfer E d = TransferHash (ve_sha256 E d)"

definition managed_key :: "string \<Rightarrow> bool" where
  "managed_key key \<longleftrightarrow>
     take (length IMMUTABLE_TRANSFER_CHUNK_PREFIX) key = IMMUTABLE_TRANSFER_CHUNK_PREFIX
     \<or> take (length TRANSFER_RECORD_PREFIX) key = TRANSFER_RECORD_PREFIX"

text \<open>\<open>i64::try_from(data.len()).unwrap_or(i64::MAX)\<close>\<close>

definition size_i64 :: "nat \<Rightarrow> int" where
  "size_i64 n = min (int n) (2 ^ 63 - 1)"

section \<open>Downloads\<close>

datatype download_attempt = Found bytes | Missing | Failed void_error

definition try_download :: "('o, 'm) void_env \<Rightarrow> ('o, 'm) void_context \<Rightarrow> uuid \<Rightarrow> download_attempt" where
  "try_download E ctx oid =
     (case vs_get_object (ve_meta E) oid (store ctx) of
        Inl e \<Rightarrow> Failed (ELookupFailed e)
      | Inr None \<Rightarrow> Missing
      | Inr (Some r) \<Rightarrow>
          (case os_get (ve_objects E) (rec_key r) (object_store ctx) of
             Inl e \<Rightarrow> Failed (ENotFound e)
           | Inr data \<Rightarrow> Found data))"

definition handle_download :: "('o, 'm) void_env \<Rightarrow> uuid \<Rightarrow> ('o, 'm) void_context \<Rightarrow>
    void_out \<times> ('o, 'm) void_context" where
  "handle_download E oid ctx =
     (case try_download E ctx oid of
        Found data \<Rightarrow> (VDownloaded data, ctx)
      | Missing \<Rightarrow> (VError (EObjectNotFound oid), ctx)
      | Failed e \<Rightarrow> (VError e, ctx))"

definition handle_download_range :: "('o, 'm) void_env \<Rightarrow> uuid \<Rightarrow> u64 \<Rightarrow> u64 \<Rightarrow>
    ('o, 'm) void_context \<Rightarrow> void_out \<times> ('o, 'm) void_context" where
  "handle_download_range E oid offset len ctx =
     (if len = 0 then (VDownloaded [], ctx)
      else
        (case vs_get_object (ve_meta E) oid (store ctx) of
           Inl e \<Rightarrow> (VError (ELookupFailed e), ctx)
         | Inr None \<Rightarrow> (VError (EObjectNotFound oid), ctx)
         | Inr (Some r) \<Rightarrow>
             (case os_get_range (ve_objects E) (rec_key r) offset len (object_store ctx) of
                Inl e \<Rightarrow> (VError (ENotFound e), ctx)
              | Inr data \<Rightarrow> (VDownloaded data, ctx))))"

text \<open>
  A waiting download gives up the processor between its steps. \<open>ws_before\<close> is what the other
  tasks do between the first look-up and the registration of the waiter, \<open>ws_gap\<close> what they do
  between the second look-up and the creation of the \<open>notified()\<close> future, \<open>ws_during\<close> what they
  do until the deadline or the wake-up. A future completes when its \<open>Notify\<close> is notified after
  its creation. \<open>ws_backend\<close> is the outcome of the backend's own wait, if it comes first, and
  \<open>ws_strong\<close> the number of references to the \<open>Notify\<close> at the end.
\<close>

record ('o, 'm) wait_schedule =
  ws_before :: "('o, 'm) void_context \<Rightarrow> ('o, 'm) void_context"
  ws_gap :: "('o, 'm) void_context \<Rightarrow> ('o, 'm) void_context"
  ws_during :: "('o, 'm) void_context \<Rightarrow> ('o, 'm) void_context"
  ws_backend :: "(persistence_error + bool) option"
  ws_strong :: nat

definition wait_woken :: "('o, 'm) void_env \<Rightarrow> ('o, 'm) wait_schedule \<Rightarrow> nat \<Rightarrow>
    ('o, 'm) void_context \<Rightarrow> ('o, 'm) void_context \<Rightarrow> bool" where
  \<comment> \<open>\<open>ctx0\<close> is the context at the creation of the future, \<open>ctx1\<close> the one at the end of the wait\<close>
  "wait_woken E W waiter ctx0 ctx1 =
     (let notified = waiter \<in> set (drop (length (wr_woken (registry ctx0))) (wr_woken (registry ctx1)))
      in if vs_supports_wait_notifications (ve_meta E) then
           (case ws_backend W of
              Some (Inr arrived) \<Rightarrow> arrived
            | Some (Inl _) \<Rightarrow> notified
            | None \<Rightarrow> notified)
         else notified)"

definition handle_download_wait :: "('o, 'm) void_env \<Rightarrow> ('o, 'm) wait_schedule \<Rightarrow> uuid \<Rightarrow> u64 \<Rightarrow>
    ('o, 'm) void_context \<Rightarrow> void_out \<times> ('o, 'm) void_context" where
  "handle_download_wait E W oid timeout_ms ctx =
     (if timeout_ms = 0 \<or> timeout_ms > MAX_DOWNLOAD_WAIT_TIMEOUT_MS
      then (VError (EWaitTimeout timeout_ms), ctx)
      else
        (case try_download E ctx oid of
           Found data \<Rightarrow> (VDownloaded data, ctx)
         | Failed e \<Rightarrow> (VError e, ctx)
         | Missing \<Rightarrow>
             let ctx1 = ws_before W ctx;
                 (waiter, reg) = waiter_for oid (registry ctx1);
                 ctx2 = ctx1\<lparr>registry := reg\<rparr>
             in (case try_download E ctx2 oid of
                   Found data \<Rightarrow> (VDownloaded data, ctx2)
                 | Failed e \<Rightarrow> (VError e, ctx2)
                 | Missing \<Rightarrow>
                     let ctx3 = ws_gap W ctx2;
                         ctx4 = ws_during W ctx3;
                         ctx5 = ctx4\<lparr>registry := release_if_idle oid waiter (ws_strong W) (registry ctx4)\<rparr>
                     in if wait_woken E W waiter ctx3 ctx4 then
                          (case try_download E ctx5 oid of
                             Found data \<Rightarrow> (VDownloaded data, ctx5)
                           | Failed e \<Rightarrow> (VError e, ctx5)
                           | Missing \<Rightarrow> (VTimedOut oid, ctx5))
                        else (VTimedOut oid, ctx5))))"

section \<open>Plain uploads\<close>

text \<open>
  A failure to persist the metadata of a plain upload is only logged: the response is the
  same, and so is the notification of waiters.
\<close>

definition announce_upload :: "('o, 'm) void_env \<Rightarrow> uuid \<Rightarrow> ('o, 'm) void_context \<Rightarrow>
    ('o, 'm) void_context" where
  "announce_upload E oid ctx =
     (let (_, m) = vs_publish_upload_notification (ve_meta E) oid (store ctx)
      in ctx\<lparr>store := m, registry := notify_upload oid (registry ctx)\<rparr>)"

definition handle_upload :: "('o, 'm) void_env \<Rightarrow> readings \<Rightarrow> uuid option \<Rightarrow> bytes \<Rightarrow>
    ('o, 'm) void_context \<Rightarrow> void_out \<times> ('o, 'm) void_context" where
  "handle_upload E R given data ctx =
     (if S3_MAX_FRAME_SIZE < length data
      then (VError (EUploadTooLarge (length data) S3_MAX_FRAME_SIZE), ctx)
      else
        let oid = (case given of Some i \<Rightarrow> i | None \<Rightarrow> rd_uuid R) in
        (case vs_get_object (ve_meta E) oid (store ctx) of
           Inl e \<Rightarrow> (VError (ECheckExisting oid e), ctx)
         | Inr found \<Rightarrow>
             if (case found of Some existing \<Rightarrow> managed_key (rec_key existing) | None \<Rightarrow> False)
             then (VError (EManagedByTransfer oid), ctx)
             else
               let key = ve_uuid_text E oid;
                   (put, os) = os_put (ve_objects E) key data (object_store ctx);
                   ctx1 = ctx\<lparr>object_store := os\<rparr>
               in (case put of
                     Inl e \<Rightarrow> (VError (EUploadFailed e), ctx1)
                   | Inr _ \<Rightarrow>
                       let (_, m) = vs_insert_object (ve_meta E) oid (object_namespace ctx1) key
                             (size_i64 (length data)) (store ctx1)
                       in (VUploaded oid, announce_upload E oid (ctx1\<lparr>store := m\<rparr>)))))"

section \<open>Multipart uploads\<close>

definition handle_upload_begin :: "('o, 'm) void_env \<Rightarrow> readings \<Rightarrow> uuid option \<Rightarrow> u64 \<Rightarrow>
    ('o, 'm) void_context \<Rightarrow> void_out \<times> ('o, 'm) void_context" where
  "handle_upload_begin E R given total_size ctx =
     (let oid = (case given of Some i \<Rightarrow> i | None \<Rightarrow> rd_uuid R) in
      if multipart_uploads ctx oid \<noteq> None then (VError (EMultipartInFlight oid), ctx)
      else
        let key = ve_uuid_text E oid;
            (res, os) = os_begin_multipart (ve_objects E) (rd_session R) key (object_store ctx);
            ctx1 = ctx\<lparr>object_store := os\<rparr>
        in (case res of
              Inl e \<Rightarrow> (VError (EBeginMultipart e), ctx1)
            | Inr sid \<Rightarrow>
                (VUploaded oid,
                 ctx1\<lparr>multipart_uploads := (multipart_uploads ctx1)(oid \<mapsto>
                   \<lparr>ms_store_session_id = sid, ms_parts = [], ms_total_size = 0\<rparr>)\<rparr>)))"

definition handle_upload_part :: "('o, 'm) void_env \<Rightarrow> uuid \<Rightarrow> u32 \<Rightarrow> bytes \<Rightarrow>
    ('o, 'm) void_context \<Rightarrow> void_out \<times> ('o, 'm) void_context" where
  "handle_upload_part E oid part_number data ctx =
     (if part_number = 0 \<or> part_number > MAX_MULTIPART_PARTS
      then (VError (EPartNumber part_number), ctx)
      else
        (case multipart_uploads ctx oid of
           None \<Rightarrow> (VError (ENoMultipart oid), ctx)
         | Some session \<Rightarrow>
             let key = ve_uuid_text E oid;
                 (res, os) = os_upload_part (ve_objects E) key (ms_store_session_id session)
                    part_number data (object_store ctx);
                 ctx1 = ctx\<lparr>object_store := os\<rparr>
             in (case res of
                   Inr tok \<Rightarrow>
                     (VAck,
                      ctx1\<lparr>multipart_uploads := (multipart_uploads ctx1)(oid \<mapsto>
                        session\<lparr>ms_parts := btree_insert part_number tok (ms_parts session),
                                ms_total_size := sat_add (ms_total_size session)
                                  (of_nat (length data))\<rparr>)\<rparr>)
                 | Inl e \<Rightarrow>
                     let ctx2 = ctx1\<lparr>multipart_uploads := (multipart_uploads ctx1)(oid := None)\<rparr>;
                         (_, os2) = os_abort_multipart (ve_objects E) key (ms_store_session_id session)
                            (object_store ctx2)
                     in (VError (EUploadPart part_number e), ctx2\<lparr>object_store := os2\<rparr>))))"

text \<open>The set \<open>1..=part_count\<close> that the part numbers are compared with, in increasing order.\<close>

definition expected_parts :: "u32 \<Rightarrow> u32 list" where
  "expected_parts n = map of_nat [1..<Suc (unat n)]"

definition handle_upload_finish :: "('o, 'm) void_env \<Rightarrow> uuid \<Rightarrow> u32 \<Rightarrow>
    ('o, 'm) void_context \<Rightarrow> void_out \<times> ('o, 'm) void_context" where
  "handle_upload_finish E oid part_count ctx =
     (if part_count = 0 \<or> part_count > MAX_MULTIPART_PARTS
      then (VError (EPartCount part_count), ctx)
      else
        (case multipart_uploads ctx oid of
           None \<Rightarrow> (VError (ENoMultipart oid), ctx)
         | Some session \<Rightarrow>
             let key = ve_uuid_text E oid;
                 ctx1 = ctx\<lparr>multipart_uploads := (multipart_uploads ctx)(oid := None)\<rparr>
             in if map fst (ms_parts session) \<noteq> expected_parts part_count then
                  let (_, os) = os_abort_multipart (ve_objects E) key (ms_store_session_id session)
                        (object_store ctx1)
                  in (VError (EPartsMismatch oid (length (ms_parts session)) part_count),
                      ctx1\<lparr>object_store := os\<rparr>)
                else
                  let (res, os) = os_finish_multipart (ve_objects E) key
                        (ms_store_session_id session) (ms_parts session) (object_store ctx1);
                      ctx2 = ctx1\<lparr>object_store := os\<rparr>
                  in (case res of
                        Inl e \<Rightarrow> (VError (EFinishMultipart e), ctx2)
                      | Inr _ \<Rightarrow>
                          let (_, m) = vs_insert_object (ve_meta E) oid (object_namespace ctx2) key
                                (sint (ms_total_size session)) (store ctx2)
                          in (VUploaded oid, announce_upload E oid (ctx2\<lparr>store := m\<rparr>)))))"

end
