(* ===== verification/Void_Backend.thy ===== *)
theory Void_Backend
  imports Void_Server
begin

text \<open>
  The plain object service of Void against its abstract specification, a map from object
  identifiers to bytes. The backends enter through the contracts of object stores and
  metadata stores; the locale \<open>void_backend\<close> allows them to fail, \<open>reliable_backend\<close> does not.
\<close>

section \<open>Keys and the visible objects\<close>

definition key_shape :: "(uuid \<Rightarrow> string) \<Rightarrow> uuid \<Rightarrow> string \<Rightarrow> bool" where
  "key_shape txt i k \<longleftrightarrow>
     k = txt i \<or> k = IMMUTABLE_TRANSFER_CHUNK_PREFIX @ txt i \<or> k = TRANSFER_RECORD_PREFIX @ txt i"

definition keys_ok :: "(uuid \<Rightarrow> string) \<Rightarrow> (uuid \<rightharpoonup> object_record) \<Rightarrow> bool" where
  "keys_ok txt recs \<longleftrightarrow> (\<forall>i r. recs i = Some r \<longrightarrow> key_shape txt i (rec_key r))"

definition visible :: "(string \<rightharpoonup> bytes) \<Rightarrow> (uuid \<rightharpoonup> object_record) \<Rightarrow> uuid \<rightharpoonup> bytes" where
  "visible objs recs i = (case recs i of None \<Rightarrow> None | Some r \<Rightarrow> objs (rec_key r))"

text \<open>
  What the server relies on of the UUID and postcard packages: the textual form is injective
  and never starts like a managed key, and decoding inverts encoding.
\<close>

definition sound_env :: "('o, 'm) void_env \<Rightarrow> bool" where
  "sound_env E \<longleftrightarrow> inj (ve_uuid_text E) \<and> (\<forall>i. \<not> managed_key (ve_uuid_text E i))
     \<and> (\<forall>r. ve_decode E (ve_encode E r) = Some r)"

definition mem_env :: "(mem_object_store, mem_store) void_env \<Rightarrow> bool" where
  "mem_env E \<longleftrightarrow> ve_objects E = mem_object_ops \<and> ve_meta E = mem_store_ops \<and> sound_env E"

definition mem_view :: "(mem_object_store, mem_store) void_context \<Rightarrow> uuid \<rightharpoonup> bytes" where
  "mem_view ctx = visible (mos_map (object_store ctx)) (store ctx)"

lemma managed_chunk_key [simp]: "managed_key (IMMUTABLE_TRANSFER_CHUNK_PREFIX @ t)"
  by (simp add: managed_key_def IMMUTABLE_TRANSFER_CHUNK_PREFIX_def)

lemma managed_record_key [simp]: "managed_key (TRANSFER_RECORD_PREFIX @ t)"
  by (simp add: managed_key_def TRANSFER_RECORD_PREFIX_def)

lemma chunk_key_not_record_key [simp]:
  "IMMUTABLE_TRANSFER_CHUNK_PREFIX @ t \<noteq> TRANSFER_RECORD_PREFIX @ u"
  "TRANSFER_RECORD_PREFIX @ u \<noteq> IMMUTABLE_TRANSFER_CHUNK_PREFIX @ t"
  by (simp_all add: IMMUTABLE_TRANSFER_CHUNK_PREFIX_def TRANSFER_RECORD_PREFIX_def)

lemma key_shape_intros [simp, intro]:
  "key_shape txt i (txt i)"
  "key_shape txt i (IMMUTABLE_TRANSFER_CHUNK_PREFIX @ txt i)"
  "key_shape txt i (TRANSFER_RECORD_PREFIX @ txt i)"
  by (simp_all add: key_shape_def)

lemma key_shape_unique:
  assumes sound: "sound_env E"
    and i: "key_shape (ve_uuid_text E) i k" and j: "key_shape (ve_uuid_text E) j k"
  shows "i = j"
proof -
  let ?t = "ve_uuid_text E"
  let ?C = IMMUTABLE_TRANSFER_CHUNK_PREFIX and ?T = TRANSFER_RECORD_PREFIX
  have inj: "?t x = ?t y \<Longrightarrow> x = y" and nm: "\<not> managed_key (?t x)" for x y
    using sound by (auto simp: sound_env_def dest: injD)
  show ?thesis
  proof (cases "managed_key k")
    case False
    have "k = ?t i" using i False unfolding key_shape_def by (metis managed_chunk_key managed_record_key)
    moreover have "k = ?t j" using j False unfolding key_shape_def by (metis managed_chunk_key managed_record_key)
    ultimately show ?thesis by (intro inj) (erule subst, assumption)
  next
    case True
    have i': "k = ?C @ ?t i \<or> k = ?T @ ?t i" using i True nm unfolding key_shape_def by metis
    have j': "k = ?C @ ?t j \<or> k = ?T @ ?t j" using j True nm unfolding key_shape_def by metis
    have "?t i = ?t j"
      using i' j' chunk_key_not_record_key by (metis append_eq_append_conv)
    then show ?thesis by (rule inj)
  qed
qed

lemma keys_okD: "keys_ok txt recs \<Longrightarrow> recs i = Some r \<Longrightarrow> key_shape txt i (rec_key r)"
  by (simp add: keys_ok_def)

lemma keys_ok_empty [simp]: "keys_ok txt Map.empty"
  by (simp add: keys_ok_def)

lemma keys_ok_upd: "keys_ok txt recs \<Longrightarrow> key_shape txt i (rec_key r) \<Longrightarrow> keys_ok txt (recs(i \<mapsto> r))"
  by (simp add: keys_ok_def)

lemma keys_ok_del: "keys_ok txt recs \<Longrightarrow> keys_ok txt (recs(i := None))"
  by (simp add: keys_ok_def)

text \<open>A write under a key of one object is invisible in every other object.\<close>

lemma visible_put_other:
  assumes "sound_env E" "keys_ok (ve_uuid_text E) recs" "key_shape (ve_uuid_text E) i k" "j \<noteq> i"
  shows "visible (objs(k := d)) recs j = visible objs recs j"
proof (cases "recs j")
  case (Some r)
  then have "rec_key r \<noteq> k"
    using key_shape_unique [OF assms(1) _ assms(3)] keys_okD [OF assms(2) Some] assms(4) by metis
  with Some show ?thesis by (simp add: visible_def)
qed (simp add: visible_def)

lemma visible_rec_other [simp]: "j \<noteq> i \<Longrightarrow> visible objs (recs(i := r)) j = visible objs recs j"
  by (simp add: visible_def)

lemma visible_upload:
  assumes "sound_env E" "keys_ok (ve_uuid_text E) recs" "key_shape (ve_uuid_text E) i k"
  shows "visible (objs(k \<mapsto> d)) (recs(i \<mapsto> \<lparr>rec_id = i, rec_bucket = b, rec_key = k, rec_size_bytes = n\<rparr>))
    = (visible objs recs)(i \<mapsto> d)"
proof
  fix j
  show "visible (objs(k \<mapsto> d)) (recs(i \<mapsto> \<lparr>rec_id = i, rec_bucket = b, rec_key = k, rec_size_bytes = n\<rparr>)) j
      = ((visible objs recs)(i \<mapsto> d)) j"
    using visible_put_other [OF assms, of j objs "Some d"] by (cases "j = i") (auto simp: visible_def)
qed

text \<open>A client that sends the parts of a multipart upload one after the other.\<close>

primrec upload_parts :: "('o, 'm) void_env \<Rightarrow> uuid \<Rightarrow> (u32 \<times> bytes) list \<Rightarrow> ('o, 'm) void_context \<Rightarrow>
    ('o, 'm) void_context" where
  "upload_parts E i [] ctx = ctx"
| "upload_parts E i (p # ps) ctx =
     upload_parts E i ps (snd (handle_upload_part E i (fst p) (snd p) ctx))"

lemma expected_parts_props:
  "sorted_wrt (<) (expected_parts k)" "n \<in> set (expected_parts k) \<longleftrightarrow> 0 < n \<and> n \<le> k"
proof -
  have bound: "unat k < 2 ^ 32" using unsigned_less [of k] by simp
  have less: "of_nat a < (of_nat b :: u32)" if "a < b" "b < Suc (unat k)" for a b
    using that bound by (simp add: word_less_nat_alt unat_of_nat_small)
  show "sorted_wrt (<) (expected_parts k)"
    unfolding expected_parts_def sorted_wrt_map
    by (rule sorted_wrt_mono_rel [OF _ sorted_wrt_upt]) (auto intro: less)
  have "n \<in> set (expected_parts k) \<longleftrightarrow> (\<exists>a. 1 \<le> a \<and> a \<le> unat k \<and> n = of_nat a)"
    by (auto simp: expected_parts_def)
  also have "\<dots> \<longleftrightarrow> 0 < n \<and> n \<le> k"
  proof
    assume "\<exists>a. 1 \<le> a \<and> a \<le> unat k \<and> n = of_nat a"
    then show "0 < n \<and> n \<le> k"
      using bound by (auto simp: word_less_nat_alt word_le_nat_alt unat_of_nat_small)
  next
    assume "0 < n \<and> n \<le> k"
    then have "1 \<le> unat n \<and> unat n \<le> unat k \<and> n = of_nat (unat n)"
      by (auto simp: word_less_nat_alt word_le_nat_alt)
    then show "\<exists>a. 1 \<le> a \<and> a \<le> unat k \<and> n = of_nat a" by blast
  qed
  finally show "n \<in> set (expected_parts k) \<longleftrightarrow> 0 < n \<and> n \<le> k" .
qed

section \<open>Backends behind the server\<close>

locale void_backend =
  objs: object_store_spec "ve_objects E" contents sessions +
  meta: void_store_spec "ve_meta E" records
  for E :: "('o, 'm) void_env"
    and contents :: "'o \<Rightarrow> string \<rightharpoonup> bytes"
    and sessions :: "'o \<Rightarrow> string \<rightharpoonup> (u32 \<rightharpoonup> bytes)"
    and records :: "'m \<Rightarrow> uuid \<rightharpoonup> object_record" +
  assumes env: "sound_env E"

locale reliable_backend = void_backend E contents sessions records +
  robjs: reliable_object_store "ve_objects E" contents sessions +
  rmeta: reliable_void_store "ve_meta E" records
  for E :: "('o, 'm) void_env"
    and contents :: "'o \<Rightarrow> string \<rightharpoonup> bytes"
    and sessions :: "'o \<Rightarrow> string \<rightharpoonup> (u32 \<rightharpoonup> bytes)"
    and records :: "'m \<Rightarrow> uuid \<rightharpoonup> object_record"

context void_backend
begin

lemma try_download_Found:
  assumes "try_download E ctx i = Found d"
  obtains r where "records (store ctx) i = Some r" "contents (object_store ctx) (rec_key r) = Some d"
  using assms meta.lookup_ok objs.get_ok
  by (auto simp: try_download_def split: sum.splits option.splits)

lemma try_download_visible:
  "try_download E ctx i = Found d \<Longrightarrow> visible (contents (object_store ctx)) (records (store ctx)) i = Some d"
  by (erule try_download_Found) (simp add: visible_def)

lemma announce_records [simp]: "records (store (announce_upload E i ctx)) = records (store ctx)"
  by (simp add: announce_upload_def split: prod.splits) (metis meta.publish_any)

lemma announce_simps [simp]:
  "registry (announce_upload E i ctx) = notify_upload i (registry ctx)"
  "object_store (announce_upload E i ctx) = object_store ctx"
  "object_namespace (announce_upload E i ctx) = object_namespace ctx"
  "multipart_uploads (announce_upload E i ctx) = multipart_uploads ctx"
  "active_transfers (announce_upload E i ctx) = active_transfers ctx"
  by (simp_all add: announce_upload_def split: prod.splits)

text \<open>
  What a plain upload can do to the visible objects, faults included: nothing, or it replaces
  the bytes and perhaps the metadata of an object that no transfer manages.
\<close>

lemma handle_upload_effect:
  assumes "handle_upload E R given data ctx = (resp, ctx')"
  obtains (none) "contents (object_store ctx') = contents (object_store ctx)"
      "records (store ctx') = records (store ctx)"
  | (stored) i where "i = (case given of Some i \<Rightarrow> i | None \<Rightarrow> rd_uuid R)"
      "\<And>r. records (store ctx) i = Some r \<Longrightarrow> \<not> managed_key (rec_key r)"
      "contents (object_store ctx') = (contents (object_store ctx))(ve_uuid_text E i \<mapsto> data)"
      "records (store ctx') = records (store ctx) \<or>
       records (store ctx') = (records (store ctx))(i \<mapsto> \<lparr>rec_id = i,
          rec_bucket = object_namespace ctx, rec_key = ve_uuid_text E i,
          rec_size_bytes = size_i64 (length data)\<rparr>)"
proof -
  define i where "i = (case given of Some i \<Rightarrow> i | None \<Rightarrow> rd_uuid R)"
  show ?thesis
  proof (cases "ctx' = ctx")
    case True
    then show ?thesis by (intro none) auto
  next
    case False
    obtain found where found: "vs_get_object (ve_meta E) i (store ctx) = Inr found"
      and nm: "\<not> (case found of Some e \<Rightarrow> managed_key (rec_key e) | None \<Rightarrow> False)"
      using assms False by (auto simp: handle_upload_def Let_def i_def split: if_splits sum.splits option.splits)
    obtain res os where put: "os_put (ve_objects E) (ve_uuid_text E i) data (object_store ctx) = (res, os)"
      by force
    show ?thesis
    proof (cases res)
      case (Inl e)
      then show ?thesis
        using assms found nm put objs.put_err [of _ _ _ e os]
        by (intro none) (auto simp: handle_upload_def Let_def i_def split: if_splits)
    next
      case (Inr u)
      obtain ins m where ins: "vs_insert_object (ve_meta E) i (object_namespace ctx) (ve_uuid_text E i)
          (size_i64 (length data)) (store ctx) = (ins, m)" by force
      have ctx': "ctx' = announce_upload E i (ctx\<lparr>object_store := os, store := m\<rparr>)"
        using assms found nm put ins Inr False
        by (auto simp: handle_upload_def Let_def i_def split: if_splits prod.splits)
      have "records m = records (store ctx) \<or>
         records m = (records (store ctx))(i \<mapsto> \<lparr>rec_id = i, rec_bucket = object_namespace ctx,
            rec_key = ve_uuid_text E i, rec_size_bytes = size_i64 (length data)\<rparr>)"
        using ins meta.insert_ok meta.insert_err by (cases ins) blast+
      then show ?thesis
        using ctx' nm found meta.lookup_ok [OF found] objs.put_ok [of _ _ _ u os] put Inr
        by (intro stored [OF i_def]) (auto split: option.splits)
    qed
  qed
qed

text \<open>Beginning a multipart upload and adding parts leave the visible objects alone.\<close>

lemma handle_upload_begin_effect:
  assumes "handle_upload_begin E R given n ctx = (resp, ctx')"
  shows "contents (object_store ctx') = contents (object_store ctx)" "store ctx' = store ctx"
  using assms objs.begin_ok objs.begin_err
  by (auto simp: handle_upload_begin_def Let_def split: if_splits prod.splits sum.splits)

lemma handle_upload_part_effect:
  assumes "handle_upload_part E i n d ctx = (resp, ctx')"
  shows "contents (object_store ctx') = contents (object_store ctx)" "store ctx' = store ctx"
  using assms objs.part_ok objs.part_err objs.abort_any
  by (fastforce simp: handle_upload_part_def Let_def split: if_splits prod.splits sum.splits option.splits)+

lemma upload_parts_effect:
  "contents (object_store (upload_parts E i ps ctx)) = contents (object_store ctx)
   \<and> store (upload_parts E i ps ctx) = store ctx"
proof (induction ps arbitrary: ctx)
  case (Cons p ps)
  then show ?case
    using handle_upload_part_effect [OF prod.collapse [symmetric], of i "fst p" "snd p" ctx] by simp
qed simp

lemma handle_upload_finish_effect:
  assumes "handle_upload_finish E i k ctx = (resp, ctx')"
  obtains (none) "contents (object_store ctx') = contents (object_store ctx)"
      "records (store ctx') = records (store ctx)"
  | (stored) data n where
      "contents (object_store ctx') = (contents (object_store ctx))(ve_uuid_text E i \<mapsto> data)"
      "records (store ctx') = records (store ctx) \<or>
       records (store ctx') = (records (store ctx))(i \<mapsto> \<lparr>rec_id = i,
          rec_bucket = object_namespace ctx, rec_key = ve_uuid_text E i, rec_size_bytes = n\<rparr>)"
proof (cases "multipart_uploads ctx i")
  case None
  then show ?thesis using assms none by (auto simp: handle_upload_finish_def split: if_splits)
next
  case (Some session)
  let ?sid = "ms_store_session_id session"
  obtain ab os1 where ab: "os_abort_multipart (ve_objects E) (ve_uuid_text E i) ?sid (object_store ctx) = (ab, os1)"
    by force
  obtain res os where fin: "os_finish_multipart (ve_objects E) (ve_uuid_text E i) ?sid (ms_parts session)
      (object_store ctx) = (res, os)" by force
  consider (early) "ctx' = ctx" | (mismatch) "object_store ctx' = os1" "store ctx' = store ctx"
    | (failed) e where "res = Inl e" "object_store ctx' = os" "store ctx' = store ctx"
    | (fin_ok) u ins m where "res = Inr u" "object_store ctx' = os" "records (store ctx') = records m"
        "vs_insert_object (ve_meta E) i (object_namespace ctx) (ve_uuid_text E i)
           (sint (ms_total_size session)) (store ctx) = (ins, m)"
    using assms Some ab fin
    by (auto simp: handle_upload_finish_def Let_def split: if_splits sum.splits prod.splits)
  then show ?thesis
  proof cases
    case mismatch
    then show ?thesis using none objs.abort_any [OF ab] by simp
  next
    case failed
    then show ?thesis using none fin objs.finish_err by (metis)
  next
    case fin_ok
    from fin fin_ok(1) obtain data where "contents os = (contents (object_store ctx))(ve_uuid_text E i \<mapsto> data)"
      using objs.finish_ok by blast
    moreover have "records m = records (store ctx) \<or>
       records m = (records (store ctx))(i \<mapsto> \<lparr>rec_id = i, rec_bucket = object_namespace ctx,
         rec_key = ve_uuid_text E i, rec_size_bytes = sint (ms_total_size session)\<rparr>)"
      using fin_ok(4) meta.insert_ok meta.insert_err by (cases ins) blast+
    ultimately show ?thesis using fin_ok by (intro stored) auto
  qed (use none in simp)
qed

text \<open>No download changes anything.\<close>

lemma handle_download_state [simp]: "snd (handle_download E i ctx) = ctx"
  by (simp add: handle_download_def split: download_attempt.splits)

lemma handle_download_range_state [simp]: "snd (handle_download_range E i off len ctx) = ctx"
  by (simp add: handle_download_range_def split: sum.splits option.splits)

end

section \<open>Functional behaviour over reliable backends\<close>

context reliable_backend
begin

lemma get_eq: "os_get (ve_objects E) k os = Inr d \<longleftrightarrow> contents os k = Some d"
  using objs.get_ok robjs.get_total by blast

lemma try_download_eq:
  "try_download E ctx i = Found d \<longleftrightarrow> visible (contents (object_store ctx)) (records (store ctx)) i = Some d"
  by (auto simp: try_download_def visible_def rmeta.lookup_total get_eq [symmetric] split: option.splits sum.splits)

lemma handle_download_eq:
  "visible (contents (object_store ctx)) (records (store ctx)) i = Some d \<Longrightarrow>
   handle_download E i ctx = (VDownloaded d, ctx)"
  by (simp add: handle_download_def try_download_eq [THEN iffD2])

lemma handle_download_range_eq:
  assumes "visible (contents (object_store ctx)) (records (store ctx)) i = Some d" "length d < 2 ^ 64"
  shows "handle_download_range E i off len ctx = (VDownloaded (take (unat len) (drop (unat off) d)), ctx)"
proof -
  from assms(1) obtain r where r: "records (store ctx) i = Some r"
    and d: "contents (object_store ctx) (rec_key r) = Some d"
    by (auto simp: visible_def split: option.splits)
  have "os_get_range (ve_objects E) (rec_key r) off len (object_store ctx)
      = Inr (take (unat len) (drop (unat off) d))"
    using get_eq [THEN iffD2, OF d] default_get_range_window [OF assms(2)] by (simp add: robjs.range_default)
  then show ?thesis
    using r by (simp add: handle_download_range_def rmeta.lookup_total)
qed

lemma handle_upload_ok:
  assumes "length data \<le> S3_MAX_FRAME_SIZE"
    and "\<And>r. records (store ctx) i = Some r \<Longrightarrow> \<not> managed_key (rec_key r)"
    and "i = (case given of Some i \<Rightarrow> i | None \<Rightarrow> rd_uuid R)"
  obtains ctx' where "handle_upload E R given data ctx = (VUploaded i, ctx')"
    "contents (object_store ctx') = (contents (object_store ctx))(ve_uuid_text E i \<mapsto> data)"
    "records (store ctx') = (records (store ctx))(i \<mapsto> \<lparr>rec_id = i, rec_bucket = object_namespace ctx,
       rec_key = ve_uuid_text E i, rec_size_bytes = size_i64 (length data)\<rparr>)"
    "registry ctx' = notify_upload i (registry ctx)"
proof -
  obtain os where put: "os_put (ve_objects E) (ve_uuid_text E i) data (object_store ctx) = (Inr (), os)"
    using robjs.put_total by blast
  obtain m where ins: "vs_insert_object (ve_meta E) i (object_namespace ctx) (ve_uuid_text E i)
      (size_i64 (length data)) (store ctx) = (Inr (), m)" using rmeta.insert_total by blast
  have "handle_upload E R given data ctx
      = (VUploaded i, announce_upload E i (ctx\<lparr>object_store := os, store := m\<rparr>))"
    using assms put ins
    by (auto simp: handle_upload_def rmeta.lookup_total Let_def split: option.splits)
  then show ?thesis
    using objs.put_ok [OF put] meta.insert_ok [OF ins] by (intro that) auto
qed

lemma handle_upload_refused:
  assumes "records (store ctx) i = Some r" "managed_key (rec_key r)"
    and "i = (case given of Some i \<Rightarrow> i | None \<Rightarrow> rd_uuid R)"
  shows "\<exists>e. handle_upload E R given data ctx = (VError e, ctx)"
  using assms by (auto simp: handle_upload_def rmeta.lookup_total Let_def)

text \<open>
  An upload in flight: the server's part list is ordered, and it names exactly the parts that
  the backend stores for the session.
\<close>

definition in_flight :: "('o, 'm) void_context \<Rightarrow> uuid \<Rightarrow> (u32 \<rightharpoonup> bytes) \<Rightarrow> bool" where
  "in_flight ctx i stored \<longleftrightarrow>
     (\<exists>session. multipart_uploads ctx i = Some session \<and> btree_wf (ms_parts session)
        \<and> sessions (object_store ctx) (ms_store_session_id session) = Some stored
        \<and> fst ` set (ms_parts session) = dom stored)"

lemma upload_begin_in_flight:
  assumes "multipart_uploads ctx i = None"
    and "i = (case given of Some i \<Rightarrow> i | None \<Rightarrow> rd_uuid R)"
  shows "in_flight (snd (handle_upload_begin E R given n ctx)) i Map.empty"
    and "fst (handle_upload_begin E R given n ctx) = VUploaded i"
proof -
  obtain os where b: "os_begin_multipart (ve_objects E) (rd_session R) (ve_uuid_text E i) (object_store ctx)
      = (Inr (rd_session R), os)" using robjs.begin_total by blast
  show "in_flight (snd (handle_upload_begin E R given n ctx)) i Map.empty"
    "fst (handle_upload_begin E R given n ctx) = VUploaded i"
    using assms b objs.begin_ok [OF b] by (auto simp: handle_upload_begin_def Let_def in_flight_def)
qed

lemma upload_part_in_flight:
  assumes "in_flight ctx i stored" "0 < n" "n \<le> MAX_MULTIPART_PARTS"
  shows "in_flight (snd (handle_upload_part E i n d ctx)) i (stored(n \<mapsto> d))"
    and "fst (handle_upload_part E i n d ctx) = VAck"
proof -
  from assms(1) obtain session where s: "multipart_uploads ctx i = Some session" "btree_wf (ms_parts session)"
      "sessions (object_store ctx) (ms_store_session_id session) = Some stored"
      "fst ` set (ms_parts session) = dom stored" by (auto simp: in_flight_def)
  obtain tok os where p: "os_upload_part (ve_objects E) (ve_uuid_text E i)
      (ms_store_session_id session) n d (object_store ctx) = (Inr tok, os)"
    using robjs.part_total [OF s(3)] by blast
  have "sessions os = (sessions (object_store ctx))(ms_store_session_id session \<mapsto> stored(n \<mapsto> d))"
    using objs.part_ok [OF p] s(3) by (metis option.inject)
  moreover have "n \<noteq> 0" "\<not> MAX_MULTIPART_PARTS < n" using assms(2,3) by auto
  then have res: "handle_upload_part E i n d ctx = (VAck, ctx\<lparr>object_store := os, multipart_uploads :=
      (multipart_uploads ctx)(i \<mapsto> session\<lparr>ms_parts := btree_insert n tok (ms_parts session),
         ms_total_size := sat_add (ms_total_size session) (of_nat (length d))\<rparr>)\<rparr>)"
    by (simp add: handle_upload_part_def Let_def s(1) p)
  ultimately show "in_flight (snd (handle_upload_part E i n d ctx)) i (stored(n \<mapsto> d))"
    using s(2,4) by (simp add: in_flight_def btree_insert_keys)
  show "fst (handle_upload_part E i n d ctx) = VAck" by (simp add: res)
qed

lemma upload_parts_in_flight:
  assumes "in_flight ctx i stored" "\<And>p. p \<in> set ps \<Longrightarrow> 0 < fst p \<and> fst p \<le> MAX_MULTIPART_PARTS"
  shows "in_flight (upload_parts E i ps ctx) i (stored ++ map_of (rev ps))"
  using assms
proof (induction ps arbitrary: ctx stored)
  case (Cons p ps)
  have step: "in_flight (snd (handle_upload_part E i (fst p) (snd p) ctx)) i (stored(fst p \<mapsto> snd p))"
    using Cons.prems by (intro upload_part_in_flight) auto
  have eq: "stored ++ map_of (rev (p # ps)) = (stored(fst p \<mapsto> snd p)) ++ map_of (rev ps)"
    by (cases p) (auto simp: map_add_def fun_eq_iff split: option.splits)
  show ?case
    unfolding eq upload_parts.simps
    by (rule Cons.IH [OF step]) (use Cons.prems(2) in auto)
qed simp

lemma upload_finish_ok:
  assumes "in_flight ctx i stored" "0 < k" "k \<le> MAX_MULTIPART_PARTS" "dom stored = {n. 0 < n \<and> n \<le> k}"
  defines "data \<equiv> concat (map (\<lambda>n. the (stored n)) (expected_parts k))"
  obtains ctx' b n where "handle_upload_finish E i k ctx = (VUploaded i, ctx')"
    "multipart_uploads ctx' = (multipart_uploads ctx)(i := None)"
    "contents (object_store ctx') = (contents (object_store ctx))(ve_uuid_text E i \<mapsto> data)"
    "records (store ctx') = (records (store ctx))(i \<mapsto> \<lparr>rec_id = i, rec_bucket = b,
       rec_key = ve_uuid_text E i, rec_size_bytes = n\<rparr>)"
proof -
  from assms(1) obtain session where s: "multipart_uploads ctx i = Some session" "btree_wf (ms_parts session)"
      "sessions (object_store ctx) (ms_store_session_id session) = Some stored"
      "fst ` set (ms_parts session) = dom stored" by (auto simp: in_flight_def)
  have keys: "map fst (ms_parts session) = expected_parts k"
    using s(2,4) assms(4) expected_parts_props
    by (intro sorted_wrt_less_unique) (auto simp: btree_wf_def)
  have "collect_parts stored (ms_parts session)
      = Inr (concat (map (\<lambda>p. the (stored (fst p))) (ms_parts session)))"
    using s(4) by (intro collect_parts_all) (force simp: dom_def image_def)
  also have "map (\<lambda>p. the (stored (fst p))) (ms_parts session) = map (\<lambda>n. the (stored n)) (expected_parts k)"
    unfolding keys [symmetric] by simp
  finally have cp: "collect_parts stored (ms_parts session) = Inr data" by (simp add: data_def)
  obtain os where f: "os_finish_multipart (ve_objects E) (ve_uuid_text E i) (ms_store_session_id session)
      (ms_parts session) (object_store ctx) = (Inr (), os)"
    using robjs.finish_total [OF s(3) cp] by blast
  have os: "contents os = (contents (object_store ctx))(ve_uuid_text E i \<mapsto> data)"
    using objs.finish_ok [OF f] s(3) cp by auto
  obtain m where ins: "vs_insert_object (ve_meta E) i (object_namespace ctx) (ve_uuid_text E i)
      (sint (ms_total_size session)) (store ctx) = (Inr (), m)" using rmeta.insert_total by blast
  have "handle_upload_finish E i k ctx = (VUploaded i, announce_upload E i (ctx\<lparr>multipart_uploads :=
      (multipart_uploads ctx)(i := None), object_store := os, store := m\<rparr>))"
    using assms(2,3) s(1) keys f ins by (auto simp: handle_upload_finish_def Let_def)
  then show ?thesis using os meta.insert_ok [OF ins] by (intro that) auto
qed

lemma upload_finish_gap:
  assumes "in_flight ctx i stored" "0 < k" "k \<le> MAX_MULTIPART_PARTS" "dom stored \<noteq> {n. 0 < n \<and> n \<le> k}"
  obtains ctx' n where "handle_upload_finish E i k ctx = (VError (EPartsMismatch i n k), ctx')"
    "contents (object_store ctx') = contents (object_store ctx)" "store ctx' = store ctx"
    "multipart_uploads ctx' = (multipart_uploads ctx)(i := None)"
proof -
  from assms(1) obtain session where s: "multipart_uploads ctx i = Some session"
      "fst ` set (ms_parts session) = dom stored" by (auto simp: in_flight_def)
  have keys: "map fst (ms_parts session) \<noteq> expected_parts k"
  proof
    assume "map fst (ms_parts session) = expected_parts k"
    then have "set (map fst (ms_parts session)) = set (expected_parts k)" by (rule arg_cong)
    then show False using s(2) assms(4) expected_parts_props(2) [of _ k] by auto
  qed
  obtain ab os where ab: "os_abort_multipart (ve_objects E) (ve_uuid_text E i) (ms_store_session_id session)
      (object_store ctx) = (ab, os)" by force
  show ?thesis
    using assms(2,3) s(1) keys ab objs.abort_any [OF ab]
    by (intro that [of "length (ms_parts session)" "ctx\<lparr>multipart_uploads := (multipart_uploads ctx)(i := None),
          object_store := os\<rparr>"])
       (auto simp: handle_upload_finish_def Let_def)
qed

end

end
