(* ===== verification/Void_Transfer.thy ===== *)
theory Void_Transfer
  imports Void_Backend
begin

text \<open>
  The progressive transfer protocol of the Void server (\<open>_black_hole_void/src/lib.rs\<close>): the
  durable transfer record, its state machine, chunk storage, commit and abort, the periodic
  clean-up, and the dispatch of requests. Every transfer handler runs under the lock
  \<open>transfer_mutation\<close>, so each one is a single step of the model.
\<close>

section \<open>Chunk and record storage\<close>

definition chunk_key :: "('o, 'm) void_env \<Rightarrow> uuid \<Rightarrow> string" where
  "chunk_key E i = IMMUTABLE_TRANSFER_CHUNK_PREFIX @ ve_uuid_text E i"

definition record_key :: "('o, 'm) void_env \<Rightarrow> uuid \<Rightarrow> string" where
  "record_key E i = TRANSFER_RECORD_PREFIX @ ve_uuid_text E i"

definition handle_transfer_chunk_upload :: "('o, 'm) void_env \<Rightarrow> uuid \<Rightarrow> bytes \<Rightarrow>
    ('o, 'm) void_context \<Rightarrow> void_out \<times> ('o, 'm) void_context" where
  "handle_transfer_chunk_upload E oid data ctx =
     (if S3_MAX_FRAME_SIZE < length data
      then (VError (EUploadTooLarge (length data) S3_MAX_FRAME_SIZE), ctx)
      else
        (case vs_get_object (ve_meta E) oid (store ctx) of
           Inl e \<Rightarrow> (VError (ECheckChunkObject oid e), ctx)
         | Inr (Some _) \<Rightarrow> (VError (EObjectExists oid), ctx)
         | Inr None \<Rightarrow>
             let key = chunk_key E oid;
                 (put, os) = os_put (ve_objects E) key data (object_store ctx);
                 ctx1 = ctx\<lparr>object_store := os\<rparr>
             in (case put of
                   Inl e \<Rightarrow> (VError (EChunkUploadFailed e), ctx1)
                 | Inr _ \<Rightarrow>
                     let (ins, m) = vs_insert_object (ve_meta E) oid (object_namespace ctx1) key
                           (size_i64 (length data)) (store ctx1);
                         ctx2 = ctx1\<lparr>store := m\<rparr>
                     in (case ins of
                           Inl e \<Rightarrow>
                             let (_, os2) = os_delete (ve_objects E) key (object_store ctx2)
                             in (VError (EChunkMetadata e), ctx2\<lparr>object_store := os2\<rparr>)
                         | Inr _ \<Rightarrow> (VUploaded oid, announce_upload E oid ctx2)))))"

definition persist_transfer_record :: "('o, 'm) void_env \<Rightarrow> uuid \<Rightarrow> transfer_record \<Rightarrow>
    ('o, 'm) void_context \<Rightarrow> (void_error + unit) \<times> ('o, 'm) void_context" where
  "persist_transfer_record E tid record ctx =
     (let data = ve_encode E record;
          key = record_key E tid
      in (case vs_get_object (ve_meta E) tid (store ctx) of
            Inl e \<Rightarrow> (Inl (ETransfer (EInspectRecordMetadata e)), ctx)
          | Inr found \<Rightarrow>
              let existed = (found \<noteq> None);
                  (put, os) = os_put (ve_objects E) key data (object_store ctx);
                  ctx1 = ctx\<lparr>object_store := os\<rparr>
              in (case put of
                    Inl e \<Rightarrow> (Inl (ETransfer (EPersistRecord e)), ctx1)
                  | Inr _ \<Rightarrow>
                      let (ins, m) = vs_insert_object (ve_meta E) tid (object_namespace ctx1) key
                            (size_i64 (length data)) (store ctx1);
                          ctx2 = ctx1\<lparr>store := m\<rparr>
                      in (case ins of
                            Inl e \<Rightarrow>
                              if \<not> existed then
                                let (_, os2) = os_delete (ve_objects E) key (object_store ctx2)
                                in (Inl (ETransfer (EPersistRecordMetadata e)), ctx2\<lparr>object_store := os2\<rparr>)
                              else (Inr (), announce_upload E tid ctx2)
                          | Inr _ \<Rightarrow> (Inr (), announce_upload E tid ctx2)))))"

definition load_transfer_record :: "('o, 'm) void_env \<Rightarrow> ('o, 'm) void_context \<Rightarrow> uuid \<Rightarrow>
    void_error + transfer_record" where
  "load_transfer_record E ctx tid =
     (case try_download E ctx tid of
        Found data \<Rightarrow>
          (case ve_decode E data of
             Some record \<Rightarrow> Inr record
           | None \<Rightarrow> Inl (ETransfer (EInvalidRecord tid)))
      | Missing \<Rightarrow> Inl (ETransfer (ETransferNotFound tid))
      | Failed e \<Rightarrow> Inl e)"

definition delete_object :: "('o, 'm) void_env \<Rightarrow> uuid \<Rightarrow> ('o, 'm) void_context \<Rightarrow>
    (void_error + unit) \<times> ('o, 'm) void_context" where
  "delete_object E oid ctx =
     (case vs_get_object (ve_meta E) oid (store ctx) of
        Inl e \<Rightarrow> (Inl (EDeleteLookup oid e), ctx)
      | Inr None \<Rightarrow> (Inr (), ctx)
      | Inr (Some r) \<Rightarrow>
          let (del, os) = os_delete (ve_objects E) (rec_key r) (object_store ctx);
              ctx1 = ctx\<lparr>object_store := os\<rparr>
          in (case del of
                Inl e \<Rightarrow> (Inl (EDeleteObject oid e), ctx1)
              | Inr _ \<Rightarrow>
                  let (del2, m) = vs_delete_object (ve_meta E) oid (store ctx1);
                      ctx2 = ctx1\<lparr>store := m\<rparr>
                  in (case del2 of
                        Inl e \<Rightarrow> (Inl (EDeleteMetadata oid e), ctx2)
                      | Inr _ \<Rightarrow> (Inr (), ctx2))))"

primrec delete_objects :: "('o, 'm) void_env \<Rightarrow> transfer_chunk list \<Rightarrow> ('o, 'm) void_context \<Rightarrow>
    ('o, 'm) void_context" where
  "delete_objects E [] ctx = ctx"
| "delete_objects E (c # cs) ctx = delete_objects E cs (snd (delete_object E (tc_object_id c) ctx))"

section \<open>Aborting and expiring\<close>

definition abort_transfer_locked :: "('o, 'm) void_env \<Rightarrow> readings \<Rightarrow> transfer_begin \<Rightarrow>
    transfer_chunk list \<Rightarrow> string \<Rightarrow> ('o, 'm) void_context \<Rightarrow>
    (void_error + transfer_record) \<times> ('o, 'm) void_context" where
  "abort_transfer_locked E R b chunks reason ctx =
     (let ctx1 = delete_objects E chunks ctx;
          tid = tb_transfer_id b;
          record = Aborted \<lparr>ta_begin = b, ta_reason = reason, ta_aborted_unix_ms = rd_now_stamp R\<rparr>;
          (res, ctx2) = persist_transfer_record E tid record ctx1
      in (case res of
            Inl e \<Rightarrow> (Inl e, ctx2)
          | Inr _ \<Rightarrow> (Inr record, ctx2\<lparr>active_transfers := removeAll tid (active_transfers ctx2)\<rparr>)))"

definition expire_transfer_locked :: "('o, 'm) void_env \<Rightarrow> readings \<Rightarrow> transfer_record \<Rightarrow>
    ('o, 'm) void_context \<Rightarrow> (void_error + transfer_record) \<times> ('o, 'm) void_context" where
  "expire_transfer_locked E R record ctx =
     (case record of
        InProgress b chunks _ \<Rightarrow>
          if rd_now_check R \<ge> tb_deadline_unix_ms b
          then abort_transfer_locked E R b chunks ''transfer lease expired'' ctx
          else (Inr record, ctx)
      | Committed _ \<Rightarrow> (Inr record, ctx)
      | Aborted _ \<Rightarrow> (Inr record, ctx))"

text \<open>The common head of the chunk, inspect and commit handlers.\<close>

definition load_and_expire :: "('o, 'm) void_env \<Rightarrow> readings \<Rightarrow> uuid \<Rightarrow> ('o, 'm) void_context \<Rightarrow>
    (void_error + transfer_record) \<times> ('o, 'm) void_context" where
  "load_and_expire E R tid ctx =
     (case load_transfer_record E ctx tid of
        Inl e \<Rightarrow> (Inl e, ctx)
      | Inr record \<Rightarrow> expire_transfer_locked E R record ctx)"

text \<open>
  One pass of the clean-up task over a snapshot of the active transfers. The readings are
  drawn once per transfer.
\<close>

primrec cleanup_transfers :: "('o, 'm) void_env \<Rightarrow> (uuid \<Rightarrow> readings) \<Rightarrow> uuid list \<Rightarrow>
    ('o, 'm) void_context \<Rightarrow> ('o, 'm) void_context" where
  "cleanup_transfers E R [] ctx = ctx"
| "cleanup_transfers E R (tid # tids) ctx =
     cleanup_transfers E R tids
       (case load_transfer_record E ctx tid of
          Inl _ \<Rightarrow> ctx\<lparr>active_transfers := removeAll tid (active_transfers ctx)\<rparr>
        | Inr record \<Rightarrow> snd (expire_transfer_locked E (R tid) record ctx))"

definition transfer_cleanup_pass :: "('o, 'm) void_env \<Rightarrow> (uuid \<Rightarrow> readings) \<Rightarrow>
    ('o, 'm) void_context \<Rightarrow> ('o, 'm) void_context" where
  "transfer_cleanup_pass E R ctx = cleanup_transfers E R (active_transfers ctx) ctx"

section \<open>The transfer handlers\<close>

definition handle_transfer_begin :: "('o, 'm) void_env \<Rightarrow> readings \<Rightarrow> transfer_begin \<Rightarrow>
    ('o, 'm) void_context \<Rightarrow> void_out \<times> ('o, 'm) void_context" where
  "handle_transfer_begin E R b ctx =
     (if tb_protocol_version b \<noteq> TRANSFER_PROTOCOL_VERSION
      then (VError (ETransfer (ETransferVersion (tb_protocol_version b))), ctx)
      else if tb_transfer_id b = 0 then (VError (ETransfer ETransferNil), ctx)
      else if tb_expected_chunks b > MAX_MULTIPART_PARTS
      then (VError (ETransfer (EExpectedChunks (tb_expected_chunks b))), ctx)
      else if (tb_expected_chunks b = 0) \<noteq> (tb_expected_len b = 0)
      then (VError (ETransfer EZeroLength), ctx)
      else if tb_deadline_unix_ms b \<le> rd_now_check R
      then (VError (ETransfer EDeadlineExpired), ctx)
      else
        (case vs_get_object (ve_meta E) (tb_transfer_id b) (store ctx) of
           Inl e \<Rightarrow> (VError (ETransfer (ECheckTransfer e)), ctx)
         | Inr (Some _) \<Rightarrow> (VError (ETransfer (ETransferExists (tb_transfer_id b))), ctx)
         | Inr None \<Rightarrow>
             let tid = tb_transfer_id b;
                 record = InProgress b [] 0;
                 (res, ctx1) = persist_transfer_record E tid record ctx
             in (case res of
                   Inl e \<Rightarrow> (VError e, ctx1)
                 | Inr _ \<Rightarrow>
                     (VTransfer record,
                      ctx1\<lparr>active_transfers := List.insert tid (active_transfers ctx1)\<rparr>))))"

definition chunk_sum :: "transfer_chunk list \<Rightarrow> u64" where
  "chunk_sum chunks = word_sum (map tc_len chunks)"

definition handle_transfer_chunk :: "('o, 'm) void_env \<Rightarrow> readings \<Rightarrow> uuid \<Rightarrow> u32 \<Rightarrow> bytes \<Rightarrow>
    transfer_hash \<Rightarrow> ('o, 'm) void_context \<Rightarrow> void_out \<times> ('o, 'm) void_context" where
  "handle_transfer_chunk E R tid index data hash ctx =
     (let (res, ctx1) = load_and_expire E R tid ctx in
      (case res of
         Inl e \<Rightarrow> (VError e, ctx1)
       | Inr (Committed _) \<Rightarrow> (VError (ETransfer (ENotInProgress tid)), ctx1)
       | Inr (Aborted _) \<Rightarrow> (VError (ETransfer (ENotInProgress tid)), ctx1)
       | Inr (InProgress b chunks revision) \<Rightarrow>
           if index \<ge> tb_expected_chunks b
           then (VError (ETransfer (EChunkIndex index (tb_expected_chunks b))), ctx1)
           else if list_ex (\<lambda>c. tc_index c = index) chunks
           then (VError (ETransfer (EDuplicateChunk index tid)), ctx1)
           else if hash_transfer E data \<noteq> hash
           then (VError (ETransfer (EChunkHash index tid)), ctx1)
           else
             let prospective_len = sat_add (chunk_sum chunks) (of_nat (length data)) in
             if prospective_len > tb_expected_len b
             then (VError (ETransfer (EExceedsLength tid (tb_expected_len b))), ctx1)
             else
               let oid = rd_uuid R;
                   (stored, ctx2) = handle_transfer_chunk_upload E oid data ctx1
               in (case stored of
                     VUploaded _ \<Rightarrow>
                       let chunk = \<lparr>tc_index = index, tc_object_id = oid,
                             tc_len = prospective_len - chunk_sum chunks, tc_hash = hash\<rparr>;
                           chunks' = sort_key tc_index (chunks @ [chunk]);
                           (res2, ctx3) = persist_transfer_record E tid
                             (InProgress b chunks' (sat_add revision 1)) ctx2
                       in (case res2 of
                             Inl e \<Rightarrow> (VError e, snd (delete_object E oid ctx3))
                           | Inr _ \<Rightarrow> (VTransferChunkStored chunk, ctx3))
                   | VError e \<Rightarrow> (VError e, ctx2)
                   | _ \<Rightarrow> (VError (ETransfer EUnexpectedChunkResponse), ctx2))))"

definition handle_transfer_inspect :: "('o, 'm) void_env \<Rightarrow> readings \<Rightarrow> uuid \<Rightarrow>
    ('o, 'm) void_context \<Rightarrow> void_out \<times> ('o, 'm) void_context" where
  "handle_transfer_inspect E R tid ctx =
     (let (res, ctx1) = load_and_expire E R tid ctx in
      (case res of
         Inl e \<Rightarrow> (VError e, ctx1)
       | Inr record \<Rightarrow> (VTransfer record, ctx1)))"

text \<open>
  The validation loop of a commit: every chunk is read back and checked against its recorded
  length and hash, and the bytes go into the aggregate digest in order.
\<close>

primrec collect_chunks :: "('o, 'm) void_env \<Rightarrow> ('o, 'm) void_context \<Rightarrow> transfer_chunk list \<Rightarrow>
    void_error + bytes" where
  "collect_chunks E ctx [] = Inr []"
| "collect_chunks E ctx (c # cs) =
     (case try_download E ctx (tc_object_id c) of
        Missing \<Rightarrow> Inl (ETransfer (EChunkMissing (tc_object_id c)))
      | Failed e \<Rightarrow> Inl e
      | Found data \<Rightarrow>
          if of_nat (length data) \<noteq> tc_len c \<or> hash_transfer E data \<noteq> tc_hash c
          then Inl (ETransfer (EChunkInvalid (tc_object_id c)))
          else (case collect_chunks E ctx cs of
                  Inl e \<Rightarrow> Inl e
                | Inr rest \<Rightarrow> Inr (data @ rest)))"

definition handle_transfer_commit :: "('o, 'm) void_env \<Rightarrow> readings \<Rightarrow> uuid \<Rightarrow> transfer_hash \<Rightarrow>
    ('o, 'm) void_context \<Rightarrow> void_out \<times> ('o, 'm) void_context" where
  "handle_transfer_commit E R tid aggregate_hash ctx =
     (let (res, ctx1) = load_and_expire E R tid ctx in
      (case res of
         Inl e \<Rightarrow> (VError e, ctx1)
       | Inr (Committed _) \<Rightarrow> (VError (ETransfer (ENotInProgress tid)), ctx1)
       | Inr (Aborted _) \<Rightarrow> (VError (ETransfer (ENotInProgress tid)), ctx1)
       | Inr (InProgress b chunks _) \<Rightarrow>
           if aggregate_hash \<noteq> tb_expected_hash b
           then (VError (ETransfer (ECommitHash tid)), ctx1)
           else if length chunks \<noteq> unat (tb_expected_chunks b)
             \<or> list_ex (\<lambda>(i, c). unat (tc_index c) \<noteq> i) (List.enumerate 0 chunks)
           then (VError (ETransfer (EChunkCount tid (length chunks) (tb_expected_chunks b))), ctx1)
           else
             let total_len = chunk_sum chunks in
             if total_len \<noteq> tb_expected_len b
             then (VError (ETransfer (ETotalLength tid total_len (tb_expected_len b))), ctx1)
             else
               (case collect_chunks E ctx1 chunks of
                  Inl e \<Rightarrow> (VError e, ctx1)
                | Inr data \<Rightarrow>
                    if hash_transfer E data \<noteq> aggregate_hash
                    then (VError (ETransfer (EAggregateHash tid)), ctx1)
                    else
                      let committed = Committed \<lparr>tm_begin = b, tm_chunks = chunks,
                            tm_committed_unix_ms = rd_now_stamp R\<rparr>;
                          (res2, ctx2) = persist_transfer_record E tid committed ctx1
                      in (case res2 of
                            Inl e \<Rightarrow> (VError e, ctx2)
                          | Inr _ \<Rightarrow>
                              (VTransfer committed,
                               ctx2\<lparr>active_transfers := removeAll tid (active_transfers ctx2)\<rparr>)))))"

definition handle_transfer_abort :: "('o, 'm) void_env \<Rightarrow> readings \<Rightarrow> uuid \<Rightarrow> string \<Rightarrow>
    ('o, 'm) void_context \<Rightarrow> void_out \<times> ('o, 'm) void_context" where
  "handle_transfer_abort E R tid reason ctx =
     (case load_transfer_record E ctx tid of
        Inl e \<Rightarrow> (VError e, ctx)
      | Inr (Committed _) \<Rightarrow> (VError (ETransfer (ENotInProgress tid)), ctx)
      | Inr (Aborted _) \<Rightarrow> (VError (ETransfer (ENotInProgress tid)), ctx)
      | Inr (InProgress b chunks _) \<Rightarrow>
          let (res, ctx1) = abort_transfer_locked E R b chunks reason ctx in
          (case res of
             Inl e \<Rightarrow> (VError e, ctx1)
           | Inr record \<Rightarrow> (VTransfer record, ctx1)))"

section \<open>Dispatch\<close>

definition handle_request :: "('o, 'm) void_env \<Rightarrow> readings \<Rightarrow> ('o, 'm) wait_schedule \<Rightarrow> void_in \<Rightarrow>
    ('o, 'm) void_context \<Rightarrow> void_out \<times> ('o, 'm) void_context" where
  "handle_request E R W request ctx =
     (case request of
        VUpload data \<Rightarrow> handle_upload E R None data ctx
      | VUploadWith oid data \<Rightarrow> handle_upload E R (Some oid) data ctx
      | VDownload oid \<Rightarrow> handle_download E oid ctx
      | VDownloadWait oid timeout_ms \<Rightarrow> handle_download_wait E W oid timeout_ms ctx
      | VUploadBegin oid total_size \<Rightarrow> handle_upload_begin E R oid total_size ctx
      | VUploadPart oid part_number data \<Rightarrow> handle_upload_part E oid part_number data ctx
      | VUploadFinish oid part_count \<Rightarrow> handle_upload_finish E oid part_count ctx
      | VDownloadRange oid offset len \<Rightarrow> handle_download_range E oid offset len ctx
      | VTransferBegin b \<Rightarrow> handle_transfer_begin E R b ctx
      | VTransferChunk tid index data hash \<Rightarrow> handle_transfer_chunk E R tid index data hash ctx
      | VTransferInspect tid \<Rightarrow> handle_transfer_inspect E R tid ctx
      | VTransferCommit tid aggregate_hash \<Rightarrow> handle_transfer_commit E R tid aggregate_hash ctx
      | VTransferAbort tid reason \<Rightarrow> handle_transfer_abort E R tid reason ctx
      | VTransferStreamUpload _ _ \<Rightarrow> (VError EDedicatedChannel, ctx)
      | VTransferStreamDownload _ _ \<Rightarrow> (VError EDedicatedChannel, ctx))"

end
