(* ===== verification/Transfer_Stream.thy ===== *)
theory Transfer_Stream
  imports Void_Transfer
begin

text \<open>
  Streaming transfers: the server's upload and download streams
  (\<open>_black_hole_void/src/lib.rs\<close>) and the Void client of the operation host, which chunks an
  artifact, receives a stream frame by frame, reads a committed transfer back by polling, and
  moves files through multipart uploads and ranged downloads (\<open>_black_hole_mass/src/lib.rs\<close>).

  A connection is the list of frames that arrive on it; its end is the end of the list.
\<close>

section \<open>The server's upload stream\<close>

definition valid_transfer_authorization :: "('o, 'm) void_env \<Rightarrow> transfer_begin \<Rightarrow> bytes \<Rightarrow> bool" where
  "valid_transfer_authorization E b authorization \<longleftrightarrow>
     hash_transfer E authorization = tb_authorization_hash b"

definition handle_stream_upload_frame :: "('o, 'm) void_env \<Rightarrow> readings \<Rightarrow> uuid \<Rightarrow> u32 \<Rightarrow>
    transfer_stream_frame \<Rightarrow> ('o, 'm) void_context \<Rightarrow> void_out \<times> u32 \<times> ('o, 'm) void_context" where
  "handle_stream_upload_frame E R tid expected_index frame ctx =
     (case frame of
        FChunk index data hash \<Rightarrow>
          if index \<noteq> expected_index
          then (VError (ETransfer (EStreamIndex index expected_index)), expected_index, ctx)
          else
            let (response, ctx1) = handle_transfer_chunk E R tid index data hash ctx in
            (case response of
               VTransferChunkStored _ \<Rightarrow> (response, sat_add expected_index 1, ctx1)
             | _ \<Rightarrow> (response, expected_index, ctx1))
      | FCommit aggregate_hash \<Rightarrow>
          let (response, ctx1) = handle_transfer_commit E R tid aggregate_hash ctx
          in (response, expected_index, ctx1)
      | FAbort reason \<Rightarrow>
          let (response, ctx1) = handle_transfer_abort E R tid reason ctx
          in (response, expected_index, ctx1)
      | FBegin _ \<Rightarrow> (VError (ETransfer EDuplicateBegin), expected_index, ctx))"

fun terminal_frame :: "transfer_stream_frame \<Rightarrow> bool" where
  "terminal_frame (FCommit _) = True"
| "terminal_frame (FAbort _) = True"
| "terminal_frame (FChunk _ _ _) = False"
| "terminal_frame (FBegin _) = False"

fun is_error :: "void_out \<Rightarrow> bool" where
  "is_error (VError _) = True"
| "is_error _ = False"

text \<open>
  The loop over the frames of an open upload stream, each with the readings of its handling.
  The result is the response written back, if any; the end of the connection writes none.
\<close>

fun upload_frames :: "('o, 'm) void_env \<Rightarrow> uuid \<Rightarrow> u32 \<Rightarrow> (readings \<times> transfer_stream_frame) list \<Rightarrow>
    ('o, 'm) void_context \<Rightarrow> void_out option \<times> ('o, 'm) void_context" where
  "upload_frames E tid expected_index [] ctx = (None, ctx)"
| "upload_frames E tid expected_index ((R, frame) # frames) ctx =
     (let (response, next, ctx1) = handle_stream_upload_frame E R tid expected_index frame ctx in
      if terminal_frame frame \<or> is_error response then (Some response, ctx1)
      else upload_frames E tid next frames ctx1)"

text \<open>The responses of a whole upload stream: the answer to its begin, and the final one.\<close>

definition handle_transfer_stream_upload :: "('o, 'm) void_env \<Rightarrow> readings \<Rightarrow> transfer_begin \<Rightarrow> bytes \<Rightarrow>
    (readings \<times> transfer_stream_frame) list \<Rightarrow> ('o, 'm) void_context \<Rightarrow>
    void_out list \<times> ('o, 'm) void_context" where
  "handle_transfer_stream_upload E R b authorization frames ctx =
     (if \<not> valid_transfer_authorization E b authorization
      then ([VError (ETransfer EAuthorization)], ctx)
      else
        let (response, ctx1) = handle_transfer_begin E R b ctx in
        (case response of
           VTransfer (InProgress _ _ _) \<Rightarrow>
             let (final, ctx2) = upload_frames E (tb_transfer_id b) 0 frames ctx1
             in (response # (case final of None \<Rightarrow> [] | Some r \<Rightarrow> [r]), ctx2)
         | _ \<Rightarrow> ([response], ctx1)))"

section \<open>The server's download stream\<close>

definition transfer_stream_snapshot :: "('o, 'm) void_env \<Rightarrow> readings \<Rightarrow> uuid \<Rightarrow>
    ('o, 'm) void_context \<Rightarrow> (void_error + transfer_record) \<times> ('o, 'm) void_context" where
  "transfer_stream_snapshot E R tid ctx =
     (let (response, ctx1) = handle_transfer_inspect E R tid ctx in
      (case response of
         VTransfer record \<Rightarrow> (Inr record, ctx1)
       | VError e \<Rightarrow> (Inl e, ctx1)
       | _ \<Rightarrow> (Inl (ETransfer EUnexpectedChunkResponse), ctx1)))"

definition read_transfer_chunk_frame :: "('o, 'm) void_env \<Rightarrow> ('o, 'm) void_context \<Rightarrow> transfer_chunk \<Rightarrow>
    void_error + transfer_stream_frame" where
  "read_transfer_chunk_frame E ctx c =
     (case try_download E ctx (tc_object_id c) of
        Missing \<Rightarrow> Inl (ETransfer (EChunkMissing (tc_object_id c)))
      | Failed e \<Rightarrow> Inl e
      | Found data \<Rightarrow>
          if of_nat (length data) \<noteq> tc_len c \<or> hash_transfer E data \<noteq> tc_hash c
          then Inl (ETransfer (EChunkInvalid (tc_object_id c)))
          else Inr (FChunk (tc_index c) data (tc_hash c)))"

primrec read_chunk_frames :: "('o, 'm) void_env \<Rightarrow> ('o, 'm) void_context \<Rightarrow> transfer_chunk list \<Rightarrow>
    transfer_stream_frame list \<times> void_error option" where
  \<comment> \<open>the frames written, and the error that ended the writing\<close>
  "read_chunk_frames E ctx [] = ([], None)"
| "read_chunk_frames E ctx (c # cs) =
     (case read_transfer_chunk_frame E ctx c of
        Inl e \<Rightarrow> ([], Some e)
      | Inr frame \<Rightarrow> (let (frames, err) = read_chunk_frames E ctx cs in (frame # frames, err)))"

fun snapshot_chunks :: "transfer_record \<Rightarrow> transfer_chunk list" where
  "snapshot_chunks (InProgress _ chunks _) = chunks"
| "snapshot_chunks (Committed m) = tm_chunks m"
| "snapshot_chunks (Aborted _) = []"

fun snapshot_terminal :: "transfer_record \<Rightarrow> transfer_stream_frame option" where
  "snapshot_terminal (InProgress _ _ _) = None"
| "snapshot_terminal (Committed m) = Some (FCommit (tb_expected_hash (tm_begin m)))"
| "snapshot_terminal (Aborted a) = Some (FAbort (ta_reason a))"

text \<open>
  The polling loop. \<open>polls\<close> gives for every round the readings of its snapshot and what the
  other tasks do in the ten milliseconds after it; the loop is followed for as many rounds as
  there are polls. The result is the frames written and whether the stream has ended.
\<close>

datatype stream_end = StreamOpen | StreamDone | StreamFailed void_error

fun stream_download_loop :: "('o, 'm) void_env \<Rightarrow> uuid \<Rightarrow> nat \<Rightarrow>
    (readings \<times> (('o, 'm) void_context \<Rightarrow> ('o, 'm) void_context)) list \<Rightarrow> ('o, 'm) void_context \<Rightarrow>
    transfer_stream_frame list \<times> stream_end \<times> ('o, 'm) void_context" where
  "stream_download_loop E tid next_index [] ctx = ([], StreamOpen, ctx)"
| "stream_download_loop E tid next_index ((R, others) # polls) ctx =
     (let (res, ctx1) = transfer_stream_snapshot E R tid ctx in
      (case res of
         Inl e \<Rightarrow> ([], StreamFailed e, ctx1)
       | Inr record \<Rightarrow>
           let chunks = snapshot_chunks record;
               (frames, err) = read_chunk_frames E ctx1 (drop next_index chunks)
           in (case err of
                 Some e \<Rightarrow> (frames, StreamFailed e, ctx1)
               | None \<Rightarrow>
                   (case snapshot_terminal record of
                      Some terminal \<Rightarrow> (frames @ [terminal], StreamDone, ctx1)
                    | None \<Rightarrow>
                        let (more, final, ctx2) = stream_download_loop E tid
                              (max next_index (length chunks)) polls (others ctx1)
                        in (frames @ more, final, ctx2)))))"

definition handle_transfer_stream_download :: "('o, 'm) void_env \<Rightarrow> readings \<Rightarrow> uuid \<Rightarrow> bytes \<Rightarrow>
    (readings \<times> (('o, 'm) void_context \<Rightarrow> ('o, 'm) void_context)) list \<Rightarrow> ('o, 'm) void_context \<Rightarrow>
    transfer_stream_frame list \<times> stream_end \<times> ('o, 'm) void_context" where
  "handle_transfer_stream_download E R tid authorization polls ctx =
     (let (res, ctx1) = transfer_stream_snapshot E R tid ctx in
      (case res of
         Inl e \<Rightarrow> ([], StreamFailed e, ctx1)
       | Inr initial' \<Rightarrow>
           if \<not> valid_transfer_authorization E (record_begin initial') authorization
           then ([], StreamFailed (ETransfer EAuthorization), ctx1)
           else
             let (frames, final, ctx2) = stream_download_loop E tid 0 polls ctx1
             in (FBegin (record_begin initial') # frames, final, ctx2)))"

section \<open>The client: sending an artifact\<close>

definition VOID_CHUNK_SIZE :: nat where
  "VOID_CHUNK_SIZE = 16 * 1024 * 1024"

definition MASS_MAX_FRAME_SIZE :: nat where
  "MASS_MAX_FRAME_SIZE = 64 * 1024 * 1024"

text \<open>\<open>data.chunks(n)\<close> for a positive \<open>n\<close>.\<close>

function chunks_of :: "nat \<Rightarrow> bytes \<Rightarrow> bytes list" where
  "chunks_of n data =
     (if n = 0 \<or> data = [] then [] else take n data # chunks_of n (drop n data))"
  by pat_completeness auto
termination by (relation "measure (\<lambda>(n, data). length data)") auto

declare chunks_of.simps [simp del]

definition upload_stream_frames :: "('o, 'm) void_env \<Rightarrow> nat \<Rightarrow> bytes \<Rightarrow> transfer_hash \<Rightarrow>
    transfer_stream_frame list" where
  "upload_stream_frames E n data aggregate_hash =
     map (\<lambda>(i, d). FChunk (of_nat i) d (hash_transfer E d)) (List.enumerate 0 (chunks_of n data))
     @ [FCommit aggregate_hash]"

definition finish_transfer_upload :: "('o, 'm) void_env \<Rightarrow> bytes \<Rightarrow> transfer_hash \<Rightarrow>
    transfer_stream_frame list option" where
  \<comment> \<open>the frames written; \<open>None\<close> when the index of a chunk does not fit 32 bits\<close>
  "finish_transfer_upload E data aggregate_hash =
     (if length (chunks_of VOID_CHUNK_SIZE data) \<le> 2 ^ 32
      then Some (upload_stream_frames E VOID_CHUNK_SIZE data aggregate_hash) else None)"

section \<open>The client: receiving a stream\<close>

datatype client_error =
    CDuplicateBegin
  | CBeginMismatch
  | CChunkBeforeBegin
  | CChunkOrder u32 u32
  | CChunkInvalid u32
  | CHeaderMismatch u32
  | CCommitBeforeBegin
  | CAggregate
  | CAborted string
  | CEndOfStream
  | CTicketMismatch
  | CPayloadInvalid
  | CVoidError void_error
  | CTransferAborted uuid string
  | CTransferChunk uuid u32
  | CInvalidManifest uuid
  | CMissingChunk uuid u32
  | CTransferAggregate uuid
  | CLeaseExpired uuid
  | CUnexpected

definition stream_begin_matches :: "('o, 'm) void_env \<Rightarrow> transfer_begin \<Rightarrow> transfer_ticket \<Rightarrow> bool" where
  "stream_begin_matches E b ticket \<longleftrightarrow>
     \<not> (tb_transfer_id b \<noteq> tt_transfer_id ticket
        \<or> tb_envelope b \<noteq> tt_envelope ticket
        \<or> tb_tensor_header b \<noteq> tt_tensor_header ticket
        \<or> tb_expected_len b \<noteq> tt_expected_len ticket
        \<or> tb_expected_hash b \<noteq> tt_expected_hash ticket
        \<or> tb_deadline_unix_ms b \<noteq> tt_deadline_unix_ms ticket
        \<or> tb_authorization_hash b \<noteq> hash_transfer E (tt_authorization ticket))"

record receiver =
  rx_begin :: "transfer_begin option"
  rx_next_index :: u32
  rx_aggregate :: bytes
  rx_output :: bytes

definition rx_init :: receiver where
  "rx_init = \<lparr>rx_begin = None, rx_next_index = 0, rx_aggregate = [], rx_output = []\<rparr>"

text \<open>\<open>Inr True\<close> is the end of the stream. \<open>rx_aggregate\<close> is what the digest has consumed.\<close>

definition apply_transfer_frame :: "('o, 'm) void_env \<Rightarrow> transfer_ticket \<Rightarrow> transfer_stream_frame \<Rightarrow>
    receiver \<Rightarrow> (client_error + bool) \<times> receiver" where
  "apply_transfer_frame E ticket frame rx =
     (case frame of
        FBegin received \<Rightarrow>
          if rx_begin rx \<noteq> None then (Inl CDuplicateBegin, rx)
          else if \<not> stream_begin_matches E received ticket then (Inl CBeginMismatch, rx)
          else (Inr False, rx\<lparr>rx_begin := Some received\<rparr>)
      | FChunk index data hash \<Rightarrow>
          if rx_begin rx = None then (Inl CChunkBeforeBegin, rx)
          else if index \<noteq> rx_next_index rx then (Inl (CChunkOrder index (rx_next_index rx)), rx)
          else if hash_transfer E data \<noteq> hash then (Inl (CChunkInvalid index), rx)
          else
            let header = tt_tensor_header ticket;
                prefix_start = min (length (rx_output rx)) (length header);
                prefix_end = min (length (rx_output rx) + length data) (length header)
            in if prefix_start < prefix_end
                  \<and> take (prefix_end - prefix_start) data \<noteq> take (prefix_end - prefix_start) (drop prefix_start header)
               then (Inl (CHeaderMismatch index), rx)
               else (Inr False,
                     rx\<lparr>rx_next_index := sat_add (rx_next_index rx) 1,
                        rx_aggregate := rx_aggregate rx @ data,
                        rx_output := rx_output rx @ data\<rparr>)
      | FCommit aggregate_hash \<Rightarrow>
          (case rx_begin rx of
             None \<Rightarrow> (Inl CCommitBeforeBegin, rx)
           | Some b \<Rightarrow>
               let actual_hash = hash_transfer E (rx_aggregate rx) in
               if rx_next_index rx \<noteq> tb_expected_chunks b
                 \<or> of_nat (length (rx_output rx)) \<noteq> tb_expected_len b
                 \<or> aggregate_hash \<noteq> tb_expected_hash b
                 \<or> actual_hash \<noteq> aggregate_hash
               then (Inl CAggregate, rx)
               else (Inr True, rx))
      | FAbort reason \<Rightarrow> (Inl (CAborted reason), rx))"

fun receive_transfer_frames :: "('o, 'm) void_env \<Rightarrow> transfer_ticket \<Rightarrow> transfer_stream_frame list \<Rightarrow>
    receiver \<Rightarrow> client_error + bytes" where
  "receive_transfer_frames E ticket [] rx = Inl CEndOfStream"
| "receive_transfer_frames E ticket (frame # frames) rx =
     (case apply_transfer_frame E ticket frame rx of
        (Inl e, _) \<Rightarrow> Inl e
      | (Inr True, rx') \<Rightarrow> Inr (rx_output rx')
      | (Inr False, rx') \<Rightarrow> receive_transfer_frames E ticket frames rx')"

text \<open>
  The validation of the whole artifact against its contract is a parameter here; the tensor
  codec is modelled in its own theory.
\<close>

definition validate_received_transfer :: "('o, 'm) void_env \<Rightarrow>
    (contract_descriptor \<Rightarrow> contract_side \<Rightarrow> bytes \<Rightarrow> bool) \<Rightarrow> transfer_ticket \<Rightarrow> bytes \<Rightarrow>
    client_error + bytes" where
  "validate_received_transfer E valid_artifact ticket data =
     (if of_nat (length data) \<noteq> tt_expected_len ticket
        \<or> hash_transfer E data \<noteq> tt_expected_hash ticket
        \<or> take (length (tt_tensor_header ticket)) data \<noteq> tt_tensor_header ticket
      then Inl CTicketMismatch
      else if \<not> valid_artifact (tt_descriptor ticket) (te_side (tt_envelope ticket)) data
      then Inl CPayloadInvalid
      else Inr data)"

definition receive_stream :: "('o, 'm) void_env \<Rightarrow>
    (contract_descriptor \<Rightarrow> contract_side \<Rightarrow> bytes \<Rightarrow> bool) \<Rightarrow> transfer_ticket \<Rightarrow>
    transfer_stream_frame list \<Rightarrow> client_error + bytes" where
  "receive_stream E valid_artifact ticket frames =
     (case receive_transfer_frames E ticket frames rx_init of
        Inl e \<Rightarrow> Inl e
      | Inr data \<Rightarrow> validate_received_transfer E valid_artifact ticket data)"

section \<open>The client: polling a committed transfer\<close>

text \<open>
  \<open>staged\<close> keeps the chunks already fetched. A round inspects the transfer, fetches the chunks
  that are not staged yet, and assembles the bytes when the record is committed.
\<close>

fun fetch_chunks :: "('o, 'm) void_env \<Rightarrow> ('o, 'm) void_context \<Rightarrow> uuid \<Rightarrow> transfer_chunk list \<Rightarrow>
    (u32 \<rightharpoonup> bytes) \<Rightarrow> client_error + (u32 \<rightharpoonup> bytes)" where
  "fetch_chunks E ctx tid [] staged = Inr staged"
| "fetch_chunks E ctx tid (c # cs) staged =
     (if staged (tc_index c) \<noteq> None then fetch_chunks E ctx tid cs staged
      else
        (case fst (handle_download E (tc_object_id c) ctx) of
           VDownloaded data \<Rightarrow>
             if of_nat (length data) \<noteq> tc_len c \<or> hash_transfer E data \<noteq> tc_hash c
             then Inl (CTransferChunk tid (tc_index c))
             else fetch_chunks E ctx tid cs (staged(tc_index c \<mapsto> data))
         | VError e \<Rightarrow> Inl (CVoidError e)
         | _ \<Rightarrow> Inl CUnexpected))"

text \<open>The loop \<open>for index in 0..begin.expected_chunks\<close>, which takes the chunks out of the map.\<close>

primrec assemble_chunks :: "uuid \<Rightarrow> u32 list \<Rightarrow> (u32 \<rightharpoonup> bytes) \<Rightarrow> client_error + bytes" where
  "assemble_chunks tid [] staged = Inr []"
| "assemble_chunks tid (i # is) staged =
     (case staged i of
        None \<Rightarrow> Inl (CMissingChunk tid i)
      | Some data \<Rightarrow>
          (case assemble_chunks tid is (staged(i := None)) of
             Inl e \<Rightarrow> Inl e
           | Inr rest \<Rightarrow> Inr (data @ rest)))"

definition index_range :: "u32 \<Rightarrow> u32 list" where
  "index_range n = map of_nat [0..<unat n]"

definition finish_committed :: "('o, 'm) void_env \<Rightarrow> uuid \<Rightarrow> transfer_begin \<Rightarrow> transfer_chunk list \<Rightarrow>
    (u32 \<rightharpoonup> bytes) \<Rightarrow> client_error + bytes" where
  "finish_committed E tid b chunks staged =
     (if length chunks \<noteq> unat (tb_expected_chunks b) then Inl (CInvalidManifest tid)
      else
        (case assemble_chunks tid (index_range (tb_expected_chunks b)) staged of
           Inl e \<Rightarrow> Inl e
         | Inr data \<Rightarrow>
             if of_nat (length data) \<noteq> tb_expected_len b \<or> hash_transfer E data \<noteq> tb_expected_hash b
             then Inl (CTransferAggregate tid)
             else Inr data))"

fun download_committed_transfer :: "('o, 'm) void_env \<Rightarrow> uuid \<Rightarrow> (u32 \<rightharpoonup> bytes) \<Rightarrow>
    (readings \<times> u64 \<times> (('o, 'm) void_context \<Rightarrow> ('o, 'm) void_context)) list \<Rightarrow>
    ('o, 'm) void_context \<Rightarrow> (client_error + bytes) option \<times> ('o, 'm) void_context" where
  \<comment> \<open>every poll: the server's readings, the client's clock, and what the other tasks do after it\<close>
  "download_committed_transfer E tid staged [] ctx = (None, ctx)"
| "download_committed_transfer E tid staged ((R, now_ms, others) # polls) ctx =
     (let (response, ctx1) = handle_transfer_inspect E R tid ctx in
      (case response of
         VTransfer (InProgress b chunks _) \<Rightarrow>
           (case fetch_chunks E ctx1 tid chunks staged of
              Inl e \<Rightarrow> (Some (Inl e), ctx1)
            | Inr staged' \<Rightarrow>
                if now_ms \<ge> tb_deadline_unix_ms b then (Some (Inl (CLeaseExpired tid)), ctx1)
                else download_committed_transfer E tid staged' polls (others ctx1))
       | VTransfer (Committed m) \<Rightarrow>
           (case fetch_chunks E ctx1 tid (tm_chunks m) staged of
              Inl e \<Rightarrow> (Some (Inl e), ctx1)
            | Inr staged' \<Rightarrow> (Some (finish_committed E tid (tm_begin m) (tm_chunks m) staged'), ctx1))
       | VTransfer (Aborted a) \<Rightarrow> (Some (Inl (CTransferAborted tid (ta_reason a))), ctx1)
       | VError e \<Rightarrow> (Some (Inl (CVoidError e)), ctx1)
       | _ \<Rightarrow> (Some (Inl CUnexpected), ctx1)))"

section \<open>The client: files\<close>

text \<open>
  \<open>upload_file\<close> for a file above one frame: \<open>reads\<close> are the buffers the file system returns, none
  of them empty, and part numbers count from 1.
\<close>

fun send_parts :: "('o, 'm) void_env \<Rightarrow> uuid \<Rightarrow> u32 \<Rightarrow> bytes list \<Rightarrow> ('o, 'm) void_context \<Rightarrow>
    (client_error + u32) \<times> ('o, 'm) void_context" where
  "send_parts E oid part_number [] ctx = (Inr (part_number - 1), ctx)"
| "send_parts E oid part_number (buffer # reads) ctx =
     (let (response, ctx1) = handle_upload_part E oid part_number buffer ctx in
      (case response of
         VAck \<Rightarrow> send_parts E oid (part_number + 1) reads ctx1
       | VError e \<Rightarrow> (Inl (CVoidError e), ctx1)
       | _ \<Rightarrow> (Inl CUnexpected, ctx1)))"

definition upload_file_multipart :: "('o, 'm) void_env \<Rightarrow> readings \<Rightarrow> bytes list \<Rightarrow> u64 \<Rightarrow>
    ('o, 'm) void_context \<Rightarrow> (client_error + uuid) \<times> ('o, 'm) void_context" where
  "upload_file_multipart E R reads file_size ctx =
     (let (response, ctx1) = handle_upload_begin E R None file_size ctx in
      (case response of
         VUploaded oid \<Rightarrow>
           let (sent, ctx2) = send_parts E oid 1 reads ctx1 in
           (case sent of
              Inl e \<Rightarrow> (Inl e, ctx2)
            | Inr part_count \<Rightarrow>
                let (response', ctx3) = handle_upload_finish E oid part_count ctx2 in
                (case response' of
                   VUploaded i \<Rightarrow> (Inr i, ctx3)
                 | VError e \<Rightarrow> (Inl (CVoidError e), ctx3)
                 | _ \<Rightarrow> (Inl CUnexpected, ctx3)))
       | VError e \<Rightarrow> (Inl (CVoidError e), ctx1)
       | _ \<Rightarrow> (Inl CUnexpected, ctx1)))"

text \<open>
  \<open>download_to_file\<close> with a bound on the number of ranged reads: \<open>None\<close> when the bound is too
  small, otherwise the bytes written to the file or the error.
\<close>

fun download_to_file :: "('o, 'm) void_env \<Rightarrow> uuid \<Rightarrow> nat \<Rightarrow> u64 \<Rightarrow> ('o, 'm) void_context \<Rightarrow>
    (client_error + bytes) option" where
  "download_to_file E oid 0 offset ctx = None"
| "download_to_file E oid (Suc fuel) offset ctx =
     (case fst (handle_download_range E oid offset (of_nat VOID_CHUNK_SIZE) ctx) of
        VDownloaded data \<Rightarrow>
          if data = [] then Some (Inr [])
          else if length data < VOID_CHUNK_SIZE then Some (Inr data)
          else (case download_to_file E oid fuel (offset + of_nat (length data)) ctx of
                  Some (Inr rest) \<Rightarrow> Some (Inr (data @ rest))
                | r \<Rightarrow> r)
      | VError e \<Rightarrow> Some (Inl (CVoidError e))
      | _ \<Rightarrow> Some (Inl CUnexpected))"

end
