(* ===== verification/Transfer_Model.thy ===== *)
theory Transfer_Model
  imports Void_Transfer "HOL-Library.Multiset"
begin

text \<open>
  The abstract transfer protocol. The durable state of a transfer is what its record decodes
  to; \<open>transfer_view\<close> reads it off the stored objects, \<open>transfer_step\<close> is the state machine that
  the requests are allowed to drive, and \<open>transfer_inv\<close> ties records to the stored chunks.
\<close>

section \<open>The view and the state machine\<close>

definition transfer_view :: "('o, 'm) void_env \<Rightarrow> (string \<rightharpoonup> bytes) \<Rightarrow> (uuid \<rightharpoonup> object_record) \<Rightarrow>
    uuid \<rightharpoonup> transfer_record" where
  "transfer_view E objs recs t =
     (case recs t of
        None \<Rightarrow> None
      | Some r \<Rightarrow>
          if rec_key r = record_key E t
          then (case objs (record_key E t) of None \<Rightarrow> None | Some d \<Rightarrow> ve_decode E d)
          else None)"

definition chunk_lens :: "transfer_chunk list \<Rightarrow> nat" where
  "chunk_lens cs = sum_list (map (\<lambda>c. unat (tc_len c)) cs)"

definition valid_begin :: "transfer_begin \<Rightarrow> bool" where
  "valid_begin b \<longleftrightarrow> tb_protocol_version b = TRANSFER_PROTOCOL_VERSION \<and> tb_transfer_id b \<noteq> 0
     \<and> tb_expected_chunks b \<le> MAX_MULTIPART_PARTS
     \<and> (tb_expected_chunks b = 0 \<longleftrightarrow> tb_expected_len b = 0)"

definition complete :: "transfer_begin \<Rightarrow> transfer_chunk list \<Rightarrow> bool" where
  "complete b cs \<longleftrightarrow> map (\<lambda>c. unat (tc_index c)) cs = [0..<unat (tb_expected_chunks b)]
     \<and> chunk_lens cs = unat (tb_expected_len b)"

inductive transfer_step :: "readings \<Rightarrow> uuid \<Rightarrow> transfer_record option \<Rightarrow> transfer_record option \<Rightarrow> bool"
  for R t where
  ts_stay: "transfer_step R t s s"
| ts_begin: "valid_begin b \<Longrightarrow> tb_transfer_id b = t \<Longrightarrow> rd_now_check R < tb_deadline_unix_ms b \<Longrightarrow>
    transfer_step R t None (Some (InProgress b [] 0))"
| ts_chunk: "tc_index c < tb_expected_chunks b \<Longrightarrow> tc_index c \<notin> tc_index ` set cs \<Longrightarrow>
    chunk_lens cs + unat (tc_len c) \<le> unat (tb_expected_len b) \<Longrightarrow>
    rd_now_check R < tb_deadline_unix_ms b \<Longrightarrow>
    transfer_step R t (Some (InProgress b cs rv))
      (Some (InProgress b (sort_key tc_index (cs @ [c])) (sat_add rv 1)))"
| ts_commit: "complete b cs \<Longrightarrow> rd_now_check R < tb_deadline_unix_ms b \<Longrightarrow>
    transfer_step R t (Some (InProgress b cs rv))
      (Some (Committed \<lparr>tm_begin = b, tm_chunks = cs, tm_committed_unix_ms = rd_now_stamp R\<rparr>))"
| ts_abort: "transfer_step R t (Some (InProgress b cs rv))
      (Some (Aborted \<lparr>ta_begin = b, ta_reason = reason, ta_aborted_unix_ms = rd_now_stamp R\<rparr>))"

inductive_cases transfer_step_committed: "transfer_step R t (Some (Committed m)) s"
inductive_cases transfer_step_aborted: "transfer_step R t (Some (Aborted a)) s"

lemma transfer_step_terminal:
  "transfer_step R t (Some (Committed m)) s \<Longrightarrow> s = Some (Committed m)"
  "transfer_step R t (Some (Aborted a)) s \<Longrightarrow> s = Some (Aborted a)"
  by (auto elim: transfer_step_committed transfer_step_aborted)

section \<open>Well-formed records\<close>

fun record_wf :: "uuid \<Rightarrow> transfer_record \<Rightarrow> bool" where
  "record_wf t (InProgress b cs rv) \<longleftrightarrow> valid_begin b \<and> tb_transfer_id b = t
     \<and> sorted_wrt (<) (map tc_index cs) \<and> (\<forall>c \<in> set cs. tc_index c < tb_expected_chunks b)
     \<and> chunk_lens cs \<le> unat (tb_expected_len b)"
| "record_wf t (Committed m) \<longleftrightarrow> valid_begin (tm_begin m) \<and> tb_transfer_id (tm_begin m) = t
     \<and> complete (tm_begin m) (tm_chunks m)"
| "record_wf t (Aborted a) \<longleftrightarrow> valid_begin (ta_begin a) \<and> tb_transfer_id (ta_begin a) = t"

fun record_chunks :: "transfer_record \<Rightarrow> transfer_chunk list" where
  "record_chunks (InProgress b cs rv) = cs"
| "record_chunks (Committed m) = tm_chunks m"
| "record_chunks (Aborted a) = []"

lemma chunk_lens_simps [simp]:
  "chunk_lens [] = 0" "chunk_lens (c # cs) = unat (tc_len c) + chunk_lens cs"
  "chunk_lens (cs @ ds) = chunk_lens cs + chunk_lens ds"
  by (simp_all add: chunk_lens_def)

lemma chunk_lens_sort [simp]: "chunk_lens (sort_key f cs) = chunk_lens cs"
proof -
  have "mset (map (\<lambda>c. unat (tc_len c)) (sort_key f cs)) = mset (map (\<lambda>c. unat (tc_len c)) cs)" by simp
  then show ?thesis unfolding chunk_lens_def by (metis sum_mset_sum_list)
qed

lemma sorted_insert_chunk:
  assumes "sorted_wrt (<) (map tc_index cs)" "tc_index c \<notin> tc_index ` set cs"
  shows "sorted_wrt (<) (map tc_index (sort_key tc_index (cs @ [c])))"
proof -
  have "distinct (map tc_index (cs @ [c]))" using assms by (auto simp: strict_sorted_iff)
  then have "distinct (map tc_index (sort_key tc_index (cs @ [c])))"
    by (metis distinct_map distinct_sort set_sort)
  then show ?thesis by (simp add: strict_sorted_iff)
qed

text \<open>Every transition keeps records well formed.\<close>

lemma transfer_step_wf:
  assumes "transfer_step R t s s'" and "\<And>r. s = Some r \<Longrightarrow> record_wf t r" and "s' = Some r'"
  shows "record_wf t r'"
  using assms
proof (cases rule: transfer_step.cases)
  case (ts_chunk c b cs rv)
  then show ?thesis
    using assms(2,3) sorted_insert_chunk [of cs c] by auto
qed auto

text \<open>The accounting of lengths in 64-bit integers is exact: nothing wraps or saturates.\<close>

lemma chunk_sum_exact:
  assumes "chunk_lens cs \<le> unat (n :: u64)"
  shows "unat (chunk_sum cs) = chunk_lens cs"
proof -
  have "unat n < 2 ^ LENGTH(64)" by (rule unsigned_less)
  then have "sum_list (map unat (map tc_len cs)) < 2 ^ LENGTH(64)"
    using assms by (simp add: chunk_lens_def comp_def)
  then show ?thesis using unat_word_sum [of "map tc_len cs"]
    by (simp add: chunk_sum_def chunk_lens_def comp_def)
qed

section \<open>The invariant\<close>

definition chunk_stored :: "('o, 'm) void_env \<Rightarrow> (string \<rightharpoonup> bytes) \<Rightarrow> (uuid \<rightharpoonup> object_record) \<Rightarrow>
    transfer_chunk \<Rightarrow> bool" where
  "chunk_stored E objs recs c \<longleftrightarrow>
     (\<exists>r d. recs (tc_object_id c) = Some r \<and> rec_key r = chunk_key E (tc_object_id c)
        \<and> objs (chunk_key E (tc_object_id c)) = Some d \<and> length d \<le> S3_MAX_FRAME_SIZE
        \<and> unat (tc_len c) = length d \<and> hash_transfer E d = tc_hash c)"

definition chunk_data :: "('o, 'm) void_env \<Rightarrow> (string \<rightharpoonup> bytes) \<Rightarrow> transfer_chunk \<Rightarrow> bytes" where
  "chunk_data E objs c = (case objs (chunk_key E (tc_object_id c)) of Some d \<Rightarrow> d | None \<Rightarrow> [])"

fun aggregate_ok :: "('o, 'm) void_env \<Rightarrow> (string \<rightharpoonup> bytes) \<Rightarrow> transfer_record \<Rightarrow> bool" where
  "aggregate_ok E objs (Committed m) \<longleftrightarrow>
     hash_transfer E (concat (map (chunk_data E objs) (tm_chunks m))) = tb_expected_hash (tm_begin m)"
| "aggregate_ok E objs (InProgress _ _ _) \<longleftrightarrow> True"
| "aggregate_ok E objs (Aborted _) \<longleftrightarrow> True"

definition record_ok :: "('o, 'm) void_env \<Rightarrow> (string \<rightharpoonup> bytes) \<Rightarrow> (uuid \<rightharpoonup> object_record) \<Rightarrow>
    uuid \<Rightarrow> transfer_record \<Rightarrow> bool" where
  "record_ok E objs recs t r \<longleftrightarrow> record_wf t r \<and> distinct (map tc_object_id (record_chunks r))
     \<and> (\<forall>c \<in> set (record_chunks r). chunk_stored E objs recs c) \<and> aggregate_ok E objs r"

definition chunk_ids :: "transfer_record \<Rightarrow> uuid set" where
  "chunk_ids r = tc_object_id ` set (record_chunks r)"

definition transfer_inv :: "('o, 'm) void_env \<Rightarrow> (string \<rightharpoonup> bytes) \<Rightarrow> (uuid \<rightharpoonup> object_record) \<Rightarrow> bool" where
  "transfer_inv E objs recs \<longleftrightarrow>
     keys_ok (ve_uuid_text E) recs
     \<and> (\<forall>t r. transfer_view E objs recs t = Some r \<longrightarrow> record_ok E objs recs t r)
     \<and> (\<forall>t t' r r'. transfer_view E objs recs t = Some r \<longrightarrow> transfer_view E objs recs t' = Some r' \<longrightarrow>
          t \<noteq> t' \<longrightarrow> chunk_ids r \<inter> chunk_ids r' = {})"

text \<open>
  An identifier is genuine for the transfer protocol when an object stored under it by other
  means (a plain object or a chunk) does not happen to decode as a transfer record.
\<close>

definition genuine :: "('o, 'm) void_env \<Rightarrow> (string \<rightharpoonup> bytes) \<Rightarrow> (uuid \<rightharpoonup> object_record) \<Rightarrow> uuid \<Rightarrow> bool" where
  "genuine E objs recs t \<longleftrightarrow>
     (\<forall>r d. recs t = Some r \<longrightarrow> objs (rec_key r) = Some d \<longrightarrow> ve_decode E d \<noteq> None \<longrightarrow>
        rec_key r = record_key E t)"

lemma transfer_invD:
  assumes "transfer_inv E objs recs"
  shows "keys_ok (ve_uuid_text E) recs"
    and "transfer_view E objs recs t = Some r \<Longrightarrow> record_ok E objs recs t r"
    and "transfer_view E objs recs t = Some r \<Longrightarrow> transfer_view E objs recs t' = Some r' \<Longrightarrow>
      t \<noteq> t' \<Longrightarrow> chunk_ids r \<inter> chunk_ids r' = {}"
  using assms unfolding transfer_inv_def by blast+

section \<open>How storage updates act on the view\<close>

lemma key_eqs:
  assumes "sound_env E"
  shows "record_key E i = record_key E j \<longleftrightarrow> i = j" "chunk_key E i = chunk_key E j \<longleftrightarrow> i = j"
    "chunk_key E i \<noteq> record_key E j" "record_key E i \<noteq> chunk_key E j"
    "ve_uuid_text E i \<noteq> record_key E j" "record_key E i \<noteq> ve_uuid_text E j"
    "ve_uuid_text E i \<noteq> chunk_key E j" "chunk_key E i \<noteq> ve_uuid_text E j"
    "managed_key (record_key E i)" "managed_key (chunk_key E i)"
proof -
  have inj: "ve_uuid_text E i = ve_uuid_text E j \<longleftrightarrow> i = j" for i j
    using assms by (auto simp: sound_env_def dest: injD)
  have nm: "\<not> managed_key (ve_uuid_text E i)" for i
    using assms by (auto simp: sound_env_def)
  show "record_key E i = record_key E j \<longleftrightarrow> i = j" "chunk_key E i = chunk_key E j \<longleftrightarrow> i = j"
    "chunk_key E i \<noteq> record_key E j" "record_key E i \<noteq> chunk_key E j"
    "managed_key (record_key E i)" "managed_key (chunk_key E i)"
    by (simp_all add: record_key_def chunk_key_def inj)
  show "ve_uuid_text E i \<noteq> record_key E j" "ve_uuid_text E i \<noteq> chunk_key E j" for i j
    using nm [of i] managed_record_key [of "ve_uuid_text E j"] managed_chunk_key [of "ve_uuid_text E j"]
    unfolding record_key_def chunk_key_def by metis+
  then show "record_key E i \<noteq> ve_uuid_text E j" "chunk_key E i \<noteq> ve_uuid_text E j" by metis+
qed

lemma transfer_view_cong:
  "recs' t = recs t \<Longrightarrow> objs' (record_key E t) = objs (record_key E t) \<Longrightarrow>
   transfer_view E objs' recs' t = transfer_view E objs recs t"
  by (simp add: transfer_view_def split: option.split)

lemma transfer_view_other_key:
  "recs t = Some r \<Longrightarrow> rec_key r \<noteq> record_key E t \<Longrightarrow> transfer_view E objs recs t = None"
  by (simp add: transfer_view_def)

lemma transfer_view_None: "recs t = None \<Longrightarrow> transfer_view E objs recs t = None"
  by (simp add: transfer_view_def)

lemma record_ok_frame:
  assumes "record_ok E objs recs t r"
    and "\<And>c. c \<in> set (record_chunks r) \<Longrightarrow> recs' (tc_object_id c) = recs (tc_object_id c)
      \<and> objs' (chunk_key E (tc_object_id c)) = objs (chunk_key E (tc_object_id c))"
  shows "record_ok E objs' recs' t r"
proof -
  have cs: "chunk_stored E objs' recs' c" if "c \<in> set (record_chunks r)" for c
    using assms(1) assms(2) [OF that] that by (auto simp: record_ok_def chunk_stored_def)
  have "aggregate_ok E objs' r"
  proof (cases r)
    case (Committed m)
    then have eq: "map (chunk_data E objs') (tm_chunks m) = map (chunk_data E objs) (tm_chunks m)"
      using assms(2) by (auto simp: chunk_data_def)
    have "aggregate_ok E objs' r = aggregate_ok E objs r"
      unfolding Committed aggregate_ok.simps eq ..
    then show ?thesis using assms(1) by (simp add: record_ok_def)
  qed simp_all
  with cs show ?thesis using assms(1) by (simp add: record_ok_def)
qed

lemma chunk_of_view:
  assumes "transfer_inv E objs recs" "transfer_view E objs recs t = Some r" "c \<in> set (record_chunks r)"
  obtains q where "recs (tc_object_id c) = Some q" "rec_key q = chunk_key E (tc_object_id c)"
  using transfer_invD(2) [OF assms(1,2)] assms(3) by (auto simp: record_ok_def chunk_stored_def)

lemma transfer_inv_frame:
  assumes inv: "transfer_inv E objs recs"
    and keys: "keys_ok (ve_uuid_text E) recs'"
    and view: "\<And>t. transfer_view E objs' recs' t = transfer_view E objs recs t"
    and chunks: "\<And>t r c. transfer_view E objs recs t = Some r \<Longrightarrow> c \<in> set (record_chunks r) \<Longrightarrow>
      recs' (tc_object_id c) = recs (tc_object_id c)
      \<and> objs' (chunk_key E (tc_object_id c)) = objs (chunk_key E (tc_object_id c))"
  shows "transfer_inv E objs' recs'"
  unfolding transfer_inv_def view
proof (intro conjI allI impI)
  show "keys_ok (ve_uuid_text E) recs'" by (rule keys)
  show "record_ok E objs' recs' t r" if "transfer_view E objs recs t = Some r" for t r
    using transfer_invD(2) [OF inv that] chunks [OF that] by (rule record_ok_frame)
  show "chunk_ids r \<inter> chunk_ids r' = {}" if "transfer_view E objs recs t = Some r"
    "transfer_view E objs recs t' = Some r'" "t \<noteq> t'" for t t' r r'
    using that by (rule transfer_invD(3) [OF inv])
qed

text \<open>A plain write under an identifier that no transfer manages.\<close>

lemma transfer_inv_plain_write:
  assumes sound: "sound_env E" and inv: "transfer_inv E objs recs"
    and nm: "\<And>r. recs i = Some r \<Longrightarrow> \<not> managed_key (rec_key r)"
    and recs': "recs' = recs \<or> (\<exists>q. recs' = recs(i \<mapsto> q) \<and> rec_key q = ve_uuid_text E i)"
  shows "transfer_inv E (objs(ve_uuid_text E i \<mapsto> d)) recs'
    \<and> transfer_view E (objs(ve_uuid_text E i \<mapsto> d)) recs' = transfer_view E objs recs"
proof -
  let ?objs = "objs(ve_uuid_text E i \<mapsto> d)"
  note keq = key_eqs [OF sound]
  have view: "transfer_view E ?objs recs' t = transfer_view E objs recs t" for t
  proof (cases "t = i")
    case True
    have "transfer_view E objs recs i = None"
      using nm keq(9) [of i] by (auto simp: transfer_view_def split: option.split)
    moreover have "transfer_view E ?objs recs' i = None"
      using recs' nm keq(9) [of i] keq(5) [of i i] by (auto simp: transfer_view_def split: option.split)
    ultimately show ?thesis using True by simp
  next
    case False
    then show ?thesis using recs' keq(6) by (intro transfer_view_cong) auto
  qed
  have keys: "keys_ok (ve_uuid_text E) recs'"
    using transfer_invD(1) [OF inv] recs' keys_ok_upd by auto
  have "transfer_inv E ?objs recs'"
  proof (rule transfer_inv_frame [OF inv keys view])
    fix t r c assume v: "transfer_view E objs recs t = Some r" "c \<in> set (record_chunks r)"
    obtain q where "recs (tc_object_id c) = Some q" "rec_key q = chunk_key E (tc_object_id c)"
      by (rule chunk_of_view [OF inv v])
    then have "tc_object_id c \<noteq> i" using nm keq(10) by metis
    then show "recs' (tc_object_id c) = recs (tc_object_id c)
      \<and> ?objs (chunk_key E (tc_object_id c)) = objs (chunk_key E (tc_object_id c))"
      using recs' keq(8) by auto
  qed
  with view show ?thesis by auto
qed

text \<open>Storing a chunk under a fresh identifier.\<close>

lemma transfer_inv_chunk_write:
  assumes sound: "sound_env E" and inv: "transfer_inv E objs recs" and fresh: "recs i = None"
    and q: "rec_key q = chunk_key E i"
  shows "transfer_inv E (objs(chunk_key E i \<mapsto> d)) (recs(i \<mapsto> q))
    \<and> transfer_view E (objs(chunk_key E i \<mapsto> d)) (recs(i \<mapsto> q)) = transfer_view E objs recs"
proof -
  let ?objs = "objs(chunk_key E i \<mapsto> d)" and ?recs = "recs(i \<mapsto> q)"
  note keq = key_eqs [OF sound]
  have view: "transfer_view E ?objs ?recs t = transfer_view E objs recs t" for t
  proof (cases "t = i")
    case True
    then show ?thesis using fresh q keq(3) [of i i] by (simp add: transfer_view_def)
  next
    case False
    then show ?thesis using keq(4) by (intro transfer_view_cong) auto
  qed
  have keys: "keys_ok (ve_uuid_text E) ?recs"
    using transfer_invD(1) [OF inv] by (rule keys_ok_upd) (simp add: q chunk_key_def)
  have "transfer_inv E ?objs ?recs"
  proof (rule transfer_inv_frame [OF inv keys view])
    fix t r c assume v: "transfer_view E objs recs t = Some r" "c \<in> set (record_chunks r)"
    obtain q where "recs (tc_object_id c) = Some q" by (rule chunk_of_view [OF inv v])
    then have "tc_object_id c \<noteq> i" using fresh by auto
    then show "?recs (tc_object_id c) = recs (tc_object_id c)
      \<and> ?objs (chunk_key E (tc_object_id c)) = objs (chunk_key E (tc_object_id c))"
      using keq(2) by auto
  qed
  with view show ?thesis by auto
qed

text \<open>Writing the record of a transfer.\<close>

lemma transfer_inv_record_write:
  assumes sound: "sound_env E" and inv: "transfer_inv E objs recs"
    and own: "\<And>r. recs t = Some r \<Longrightarrow> rec_key r = record_key E t"
    and q: "rec_key q = record_key E t"
    and ok: "record_ok E objs recs t r'"
    and disj: "\<And>u r. transfer_view E objs recs u = Some r \<Longrightarrow> u \<noteq> t \<Longrightarrow> chunk_ids r \<inter> chunk_ids r' = {}"
  shows "transfer_inv E (objs(record_key E t \<mapsto> ve_encode E r')) (recs(t \<mapsto> q))
    \<and> transfer_view E (objs(record_key E t \<mapsto> ve_encode E r')) (recs(t \<mapsto> q))
        = (transfer_view E objs recs)(t \<mapsto> r')"
proof -
  let ?objs = "objs(record_key E t \<mapsto> ve_encode E r')" and ?recs = "recs(t \<mapsto> q)"
  let ?v = "transfer_view E objs recs"
  note keq = key_eqs [OF sound]
  have view: "transfer_view E ?objs ?recs u = (?v(t \<mapsto> r')) u" for u
  proof (cases "u = t")
    case True
    then show ?thesis using q sound by (simp add: transfer_view_def sound_env_def)
  next
    case False
    then show ?thesis using keq(1) by (auto intro: transfer_view_cong)
  qed
  have frame: "?recs (tc_object_id c) = recs (tc_object_id c)
      \<and> ?objs (chunk_key E (tc_object_id c)) = objs (chunk_key E (tc_object_id c))"
    if "chunk_stored E objs recs c" for c
  proof -
    from that obtain r where "recs (tc_object_id c) = Some r" "rec_key r = chunk_key E (tc_object_id c)"
      by (auto simp: chunk_stored_def)
    then have "tc_object_id c \<noteq> t" using own keq(3) by metis
    then show ?thesis using keq(3) by auto
  qed
  have rok: "record_ok E ?objs ?recs u r" if "record_ok E objs recs u r" for u r
    using that by (rule record_ok_frame) (rule frame, use that in \<open>simp add: record_ok_def\<close>)
  have "transfer_inv E ?objs ?recs"
    unfolding transfer_inv_def view
  proof (intro conjI allI impI)
    show "keys_ok (ve_uuid_text E) ?recs"
      using transfer_invD(1) [OF inv] by (rule keys_ok_upd) (simp add: q record_key_def)
    show "record_ok E ?objs ?recs u r" if "(?v(t \<mapsto> r')) u = Some r" for u r
      using that ok transfer_invD(2) [OF inv, of u r] by (intro rok) (auto split: if_splits)
    show "chunk_ids r \<inter> chunk_ids s = {}" if "(?v(t \<mapsto> r')) u = Some r" "(?v(t \<mapsto> r')) w = Some s" "u \<noteq> w"
      for u w r s
    proof -
      consider "u = t" "w \<noteq> t" | "w = t" "u \<noteq> t" | "u \<noteq> t" "w \<noteq> t" using \<open>u \<noteq> w\<close> by blast
      then show ?thesis
        using that disj transfer_invD(3) [OF inv, of u r w s] by cases (auto simp: Int_commute)
    qed
  qed
  with view show ?thesis by auto
qed

text \<open>Dropping chunks that no record mentions.\<close>

definition drop_ids :: "uuid set \<Rightarrow> (uuid \<rightharpoonup> object_record) \<Rightarrow> uuid \<rightharpoonup> object_record" where
  "drop_ids C recs = (\<lambda>i. if i \<in> C then None else recs i)"

definition drop_chunks :: "('o, 'm) void_env \<Rightarrow> uuid set \<Rightarrow> (string \<rightharpoonup> bytes) \<Rightarrow> string \<rightharpoonup> bytes" where
  "drop_chunks E C objs = (\<lambda>k. if k \<in> chunk_key E ` C then None else objs k)"

lemma transfer_inv_drop:
  assumes sound: "sound_env E" and inv: "transfer_inv E objs recs"
    and unused: "\<And>t r. transfer_view E objs recs t = Some r \<Longrightarrow> chunk_ids r \<inter> C = {}"
    and chunks: "\<And>i r. i \<in> C \<Longrightarrow> recs i = Some r \<Longrightarrow> rec_key r = chunk_key E i"
  shows "transfer_inv E (drop_chunks E C objs) (drop_ids C recs)
    \<and> transfer_view E (drop_chunks E C objs) (drop_ids C recs) = transfer_view E objs recs"
proof -
  let ?objs = "drop_chunks E C objs" and ?recs = "drop_ids C recs"
  note keq = key_eqs [OF sound]
  have view: "transfer_view E ?objs ?recs t = transfer_view E objs recs t" for t
  proof (cases "t \<in> C")
    case True
    have "transfer_view E objs recs t = None"
      using chunks [OF True] keq(3) by (auto simp: transfer_view_def split: option.split)
    then show ?thesis using True by (simp add: transfer_view_def drop_ids_def)
  next
    case False
    then show ?thesis using keq(4) by (intro transfer_view_cong) (auto simp: drop_ids_def drop_chunks_def)
  qed
  have keys: "keys_ok (ve_uuid_text E) ?recs"
    using transfer_invD(1) [OF inv] by (auto simp: keys_ok_def drop_ids_def)
  have "transfer_inv E ?objs ?recs"
  proof (rule transfer_inv_frame [OF inv keys view])
    fix t r c assume v: "transfer_view E objs recs t = Some r" "c \<in> set (record_chunks r)"
    then have "tc_object_id c \<notin> C" using unused by (auto simp: chunk_ids_def)
    then show "?recs (tc_object_id c) = recs (tc_object_id c)
      \<and> ?objs (chunk_key E (tc_object_id c)) = objs (chunk_key E (tc_object_id c))"
      using keq(2) by (auto simp: drop_ids_def drop_chunks_def)
  qed
  with view show ?thesis by auto
qed

section \<open>Well-behaved requests\<close>

text \<open>
  The transfer that a request addresses, and what is asked of a request: a transfer request
  addresses a genuine identifier, and a multipart upload is not finished onto an object that
  the transfer protocol manages (the server does not check either). A schedule is quiet when
  no other task runs inside a waiting download; in a trace the other tasks are further steps.
\<close>

fun target :: "void_in \<Rightarrow> uuid option" where
  "target (VTransferBegin b) = Some (tb_transfer_id b)"
| "target (VTransferChunk t _ _ _) = Some t"
| "target (VTransferInspect t) = Some t"
| "target (VTransferCommit t _) = Some t"
| "target (VTransferAbort t _) = Some t"
| "target _ = None"

definition honest :: "('o, 'm) void_env \<Rightarrow> (string \<rightharpoonup> bytes) \<Rightarrow> (uuid \<rightharpoonup> object_record) \<Rightarrow> void_in \<Rightarrow> bool" where
  "honest E objs recs req \<longleftrightarrow>
     (case req of
        VUploadFinish i _ \<Rightarrow> (case recs i of Some r \<Rightarrow> \<not> managed_key (rec_key r) | None \<Rightarrow> True)
      | _ \<Rightarrow> (case target req of Some t \<Rightarrow> genuine E objs recs t | None \<Rightarrow> True))"

definition quiet :: "('o, 'm) wait_schedule \<Rightarrow> bool" where
  "quiet W \<longleftrightarrow> ws_before W = (\<lambda>c. c) \<and> ws_gap W = (\<lambda>c. c) \<and> ws_during W = (\<lambda>c. c)"

end
