(* ===== verification/Transfer_Proofs.thy ===== *)
theory Transfer_Proofs
  imports Transfer_Model
begin

text \<open>
  The transfer handlers drive the abstract protocol of \<open>Transfer_Model\<close>: over a backend
  without faults every request preserves the invariant and moves the record of the addressed
  transfer by one \<open>transfer_step\<close>, leaving all other transfers alone. Commit safety needs no
  such assumption and is proved for backends with faults.
\<close>

section \<open>Commit safety over any backend\<close>

context void_backend
begin

lemma collect_chunks_Inr:
  assumes "collect_chunks E ctx cs = Inr d"
  obtains ds where "d = concat ds" "length ds = length cs"
    "\<And>i. i < length cs \<Longrightarrow> visible (contents (object_store ctx)) (records (store ctx)) (tc_object_id (cs ! i)) = Some (ds ! i)
       \<and> of_nat (length (ds ! i)) = tc_len (cs ! i) \<and> hash_transfer E (ds ! i) = tc_hash (cs ! i)"
proof -
  have "\<exists>ds. d = concat ds \<and> list_all2 (\<lambda>c e.
      visible (contents (object_store ctx)) (records (store ctx)) (tc_object_id c) = Some e
      \<and> of_nat (length e) = tc_len c \<and> hash_transfer E e = tc_hash c) cs ds"
    using assms
  proof (induction cs arbitrary: d)
    case (Cons c cs)
    from Cons.prems obtain e rest where e: "try_download E ctx (tc_object_id c) = Found e"
      "of_nat (length e) = tc_len c" "hash_transfer E e = tc_hash c"
      and rest: "collect_chunks E ctx cs = Inr rest" "d = e @ rest"
      by (auto split: download_attempt.splits if_splits sum.splits)
    from Cons.IH [OF rest(1)] obtain ds where "rest = concat ds" "list_all2 (\<lambda>c e.
      visible (contents (object_store ctx)) (records (store ctx)) (tc_object_id c) = Some e
      \<and> of_nat (length e) = tc_len c \<and> hash_transfer E e = tc_hash c) cs ds" by blast
    then show ?case
      using e rest(2) try_download_visible [OF e(1)] by (intro exI [of _ "e # ds"]) simp
  qed simp
  then show ?thesis using that by (auto simp: list_all2_conv_all_nth)
qed

lemma enumerate_indices:
  assumes "length cs = n" "\<not> list_ex (\<lambda>(i, c). f c \<noteq> i) (List.enumerate 0 cs)"
  shows "map f cs = [0..<n]"
proof (rule nth_equalityI)
  fix i assume "i < length (map f cs)"
  then have "(i, cs ! i) \<in> set (List.enumerate 0 cs)" using assms(1) by (auto simp: in_set_enumerate_eq)
  then show "map f cs ! i = [0..<n] ! i"
    using assms \<open>i < length (map f cs)\<close> by (fastforce simp: list_ex_iff)
qed (use assms in simp)

lemma load_and_expire_InProgress:
  assumes "load_and_expire E R t ctx = (Inr (InProgress b cs rv), ctx1)"
  shows "ctx1 = ctx" "load_transfer_record E ctx t = Inr (InProgress b cs rv)"
    "rd_now_check R < tb_deadline_unix_ms b"
  using assms
  by (auto simp: load_and_expire_def expire_transfer_locked_def abort_transfer_locked_def Let_def not_le
      split: sum.splits transfer_record.splits if_splits prod.splits)

lemma handle_transfer_commit_safe:
  assumes "handle_transfer_commit E R t h ctx = (VTransfer r, ctx')"
  obtains b cs ds where "r = Committed \<lparr>tm_begin = b, tm_chunks = cs, tm_committed_unix_ms = rd_now_stamp R\<rparr>"
    "h = tb_expected_hash b" "map (\<lambda>c. unat (tc_index c)) cs = [0..<unat (tb_expected_chunks b)]"
    "chunk_sum cs = tb_expected_len b"
    "length ds = length cs" "hash_transfer E (concat ds) = tb_expected_hash b"
    "\<And>i. i < length cs \<Longrightarrow> visible (contents (object_store ctx)) (records (store ctx)) (tc_object_id (cs ! i)) = Some (ds ! i)
       \<and> of_nat (length (ds ! i)) = tc_len (cs ! i) \<and> hash_transfer E (ds ! i) = tc_hash (cs ! i)"
    "\<exists>rv. load_transfer_record E ctx t = Inr (InProgress b cs rv)" "rd_now_check R < tb_deadline_unix_ms b"
proof -
  obtain res ctx1 where l: "load_and_expire E R t ctx = (res, ctx1)" by force
  from assms l obtain b cs rv d where res: "res = Inr (InProgress b cs rv)"
    and h: "h = tb_expected_hash b"
    and idx: "length cs = unat (tb_expected_chunks b)"
      "\<not> list_ex (\<lambda>(i, c). unat (tc_index c) \<noteq> i) (List.enumerate 0 cs)"
    and len: "chunk_sum cs = tb_expected_len b"
    and d: "collect_chunks E ctx1 cs = Inr d" "hash_transfer E d = h"
    and r: "r = Committed \<lparr>tm_begin = b, tm_chunks = cs, tm_committed_unix_ms = rd_now_stamp R\<rparr>"
    by (auto simp: handle_transfer_commit_def Let_def split: sum.splits transfer_record.splits if_splits prod.splits)
  note ip = load_and_expire_InProgress [OF l [unfolded res]]
  obtain ds where "d = concat ds" "length ds = length cs"
    "\<And>i. i < length cs \<Longrightarrow> visible (contents (object_store ctx)) (records (store ctx)) (tc_object_id (cs ! i)) = Some (ds ! i)
       \<and> of_nat (length (ds ! i)) = tc_len (cs ! i) \<and> hash_transfer E (ds ! i) = tc_hash (cs ! i)"
    using collect_chunks_Inr [OF d(1)] ip(1) by metis
  then show ?thesis
    using that [OF r h enumerate_indices [OF idx] len] d(2) h ip(2,3) by blast
qed

end

section \<open>The storage primitives over reliable backends\<close>

context reliable_backend
begin

abbreviation objs_of :: "('o, 'm) void_context \<Rightarrow> string \<rightharpoonup> bytes" where
  "objs_of ctx \<equiv> contents (object_store ctx)"

abbreviation recs_of :: "('o, 'm) void_context \<Rightarrow> uuid \<rightharpoonup> object_record" where
  "recs_of ctx \<equiv> records (store ctx)"

abbreviation view_of :: "('o, 'm) void_context \<Rightarrow> uuid \<rightharpoonup> transfer_record" where
  "view_of ctx \<equiv> transfer_view E (objs_of ctx) (recs_of ctx)"

lemma persist_ok:
  obtains ctx' q where "persist_transfer_record E t r ctx = (Inr (), ctx')"
    "objs_of ctx' = (objs_of ctx)(record_key E t \<mapsto> ve_encode E r)"
    "recs_of ctx' = (recs_of ctx)(t \<mapsto> q)" "rec_key q = record_key E t"
    "active_transfers ctx' = active_transfers ctx"
proof -
  obtain os where put: "os_put (ve_objects E) (record_key E t) (ve_encode E r) (object_store ctx) = (Inr (), os)"
    using robjs.put_total by blast
  obtain m where ins: "vs_insert_object (ve_meta E) t (object_namespace ctx) (record_key E t)
      (size_i64 (length (ve_encode E r))) (store ctx) = (Inr (), m)" using rmeta.insert_total by blast
  have res: "persist_transfer_record E t r ctx
      = (Inr (), announce_upload E t (ctx\<lparr>object_store := os, store := m\<rparr>))"
    using put ins by (simp add: persist_transfer_record_def rmeta.lookup_total Let_def)
  show ?thesis
    by (rule that [OF res]) (simp add: objs.put_ok [OF put] meta.insert_ok [OF ins])+
qed

lemma chunk_upload_ok:
  assumes "length d \<le> S3_MAX_FRAME_SIZE" "recs_of ctx i = None"
  obtains ctx' q where "handle_transfer_chunk_upload E i d ctx = (VUploaded i, ctx')"
    "objs_of ctx' = (objs_of ctx)(chunk_key E i \<mapsto> d)"
    "recs_of ctx' = (recs_of ctx)(i \<mapsto> q)" "rec_key q = chunk_key E i"
    "active_transfers ctx' = active_transfers ctx"
proof -
  obtain os where put: "os_put (ve_objects E) (chunk_key E i) d (object_store ctx) = (Inr (), os)"
    using robjs.put_total by blast
  obtain m where ins: "vs_insert_object (ve_meta E) i (object_namespace ctx) (chunk_key E i)
      (size_i64 (length d)) (store ctx) = (Inr (), m)" using rmeta.insert_total by blast
  have res: "handle_transfer_chunk_upload E i d ctx
      = (VUploaded i, announce_upload E i (ctx\<lparr>object_store := os, store := m\<rparr>))"
    using assms put ins by (simp add: handle_transfer_chunk_upload_def rmeta.lookup_total Let_def)
  show ?thesis
    by (rule that [OF res]) (simp add: objs.put_ok [OF put] meta.insert_ok [OF ins])+
qed

lemma chunk_upload_refused:
  assumes "\<not> (length d \<le> S3_MAX_FRAME_SIZE \<and> recs_of ctx i = None)"
  obtains e where "handle_transfer_chunk_upload E i d ctx = (VError e, ctx)"
proof (cases "S3_MAX_FRAME_SIZE < length d")
  case True
  then show ?thesis by (intro that) (simp add: handle_transfer_chunk_upload_def)
next
  case False
  with assms obtain r where "recs_of ctx i = Some r" by auto
  with False show ?thesis by (intro that) (simp add: handle_transfer_chunk_upload_def rmeta.lookup_total)
qed

lemma delete_object_ok:
  assumes "recs_of ctx i = Some r"
  obtains ctx' where "delete_object E i ctx = (Inr (), ctx')"
    "objs_of ctx' = (objs_of ctx)(rec_key r := None)" "recs_of ctx' = (recs_of ctx)(i := None)"
    "active_transfers ctx' = active_transfers ctx"
proof -
  obtain os where d: "os_delete (ve_objects E) (rec_key r) (object_store ctx) = (Inr (), os)"
    using robjs.delete_total by blast
  obtain m where v: "vs_delete_object (ve_meta E) i (store ctx) = (Inr (), m)"
    using rmeta.remove_total by blast
  have res: "delete_object E i ctx = (Inr (), ctx\<lparr>object_store := os, store := m\<rparr>)"
    using assms d v by (simp add: delete_object_def rmeta.lookup_total Let_def)
  show ?thesis
    by (rule that [OF res]) (simp_all add: objs.delete_ok [OF d] meta.remove_ok [OF v])
qed

lemma delete_objects_ok:
  assumes "\<And>c. c \<in> set cs \<Longrightarrow> \<exists>r. recs_of ctx (tc_object_id c) = Some r \<and> rec_key r = chunk_key E (tc_object_id c)"
    and "distinct (map tc_object_id cs)"
  shows "objs_of (delete_objects E cs ctx) = drop_chunks E (tc_object_id ` set cs) (objs_of ctx)
    \<and> recs_of (delete_objects E cs ctx) = drop_ids (tc_object_id ` set cs) (recs_of ctx)
    \<and> active_transfers (delete_objects E cs ctx) = active_transfers ctx"
  using assms
proof (induction cs arbitrary: ctx)
  case Nil
  then show ?case by (simp add: drop_chunks_def drop_ids_def)
next
  case (Cons c cs)
  obtain r where r: "recs_of ctx (tc_object_id c) = Some r" "rec_key r = chunk_key E (tc_object_id c)"
    using Cons.prems(1) [of c] by auto
  obtain ctx1 where d: "delete_object E (tc_object_id c) ctx = (Inr (), ctx1)"
    "objs_of ctx1 = (objs_of ctx)(chunk_key E (tc_object_id c) := None)"
    "recs_of ctx1 = (recs_of ctx)(tc_object_id c := None)" "active_transfers ctx1 = active_transfers ctx"
    using delete_object_ok [OF r(1)] r(2) by metis
  have pre: "\<exists>r. recs_of ctx1 (tc_object_id e) = Some r \<and> rec_key r = chunk_key E (tc_object_id e)"
    if "e \<in> set cs" for e
  proof -
    have "tc_object_id e \<noteq> tc_object_id c"
      using that Cons.prems(2) by (metis distinct.simps(2) image_eqI list.set_map list.simps(9))
    then show ?thesis using Cons.prems(1) [of e] that d(3) by simp
  qed
  have "distinct (map tc_object_id cs)" using Cons.prems(2) by simp
  note ih = Cons.IH [OF pre this]
  have "drop_chunks E (tc_object_id ` set cs) ((objs_of ctx)(chunk_key E (tc_object_id c) := None))
      = drop_chunks E (tc_object_id ` set (c # cs)) (objs_of ctx)"
    by (auto simp: drop_chunks_def fun_eq_iff)
  moreover have "drop_ids (tc_object_id ` set cs) ((recs_of ctx)(tc_object_id c := None))
      = drop_ids (tc_object_id ` set (c # cs)) (recs_of ctx)"
    by (auto simp: drop_ids_def fun_eq_iff)
  ultimately show ?case
    using ih unfolding d(2-4) by (simp only: delete_objects.simps d(1) snd_conv simp_thms)
qed

lemma load_view: "view_of ctx t = Some r \<Longrightarrow> load_transfer_record E ctx t = Inr r"
  by (auto simp: transfer_view_def load_transfer_record_def try_download_def rmeta.lookup_total
      get_eq [symmetric] split: option.splits if_splits)

lemma load_genuine:
  assumes "genuine E (objs_of ctx) (recs_of ctx) t" "load_transfer_record E ctx t = Inr r"
  shows "view_of ctx t = Some r"
proof -
  from assms(2) obtain d where d: "try_download E ctx t = Found d" "ve_decode E d = Some r"
    by (auto simp: load_transfer_record_def split: download_attempt.splits option.splits)
  obtain q where "recs_of ctx t = Some q" "objs_of ctx (rec_key q) = Some d"
    by (rule try_download_Found [OF d(1)])
  then show ?thesis using assms(1) d(2) by (auto simp: genuine_def transfer_view_def)
qed

section \<open>Every handler advances the protocol\<close>

text \<open>
  \<open>advances R t ctx ctx'\<close>: from a context that satisfies the invariant the handler reaches one
  that does too, the transfer \<open>t\<close> has moved by one step and no other transfer has moved.
\<close>

definition server_inv :: "('o, 'm) void_context \<Rightarrow> bool" where
  "server_inv ctx \<longleftrightarrow> transfer_inv E (objs_of ctx) (recs_of ctx)
     \<and> (\<forall>t \<in> set (active_transfers ctx). view_of ctx t \<noteq> None)"

definition advances :: "readings \<Rightarrow> uuid \<Rightarrow> ('o, 'm) void_context \<Rightarrow> ('o, 'm) void_context \<Rightarrow> bool" where
  "advances R t ctx ctx' \<longleftrightarrow> server_inv ctx'
     \<and> transfer_step R t (view_of ctx t) (view_of ctx' t)
     \<and> (\<forall>u. u \<noteq> t \<longrightarrow> view_of ctx' u = view_of ctx u)"

lemma advances_refl: "server_inv ctx \<Longrightarrow> advances R t ctx ctx"
  by (simp add: advances_def ts_stay)

lemma advances_same_view:
  assumes "server_inv ctx" "transfer_inv E (objs_of ctx') (recs_of ctx')" "view_of ctx' = view_of ctx"
    "active_transfers ctx' = active_transfers ctx"
  shows "advances R t ctx ctx'"
  using assms by (simp add: advances_def ts_stay server_inv_def)

lemma advances_update:
  assumes "server_inv ctx" "transfer_inv E (objs_of ctx') (recs_of ctx')"
    "view_of ctx' = (view_of ctx)(t \<mapsto> r)" "transfer_step R t (view_of ctx t) (Some r)"
    "set (active_transfers ctx') \<subseteq> insert t (set (active_transfers ctx))"
  shows "advances R t ctx ctx'"
  using assms by (auto simp: advances_def server_inv_def)

lemma view_own_key:
  assumes "view_of ctx t = Some r" "recs_of ctx t = Some q"
  shows "rec_key q = record_key E t"
  using assms by (auto simp: transfer_view_def split: if_splits)

lemma abort_advances:
  assumes inv: "server_inv ctx" and v: "view_of ctx t = Some (InProgress b cs rv)"
  obtains ctx' where "abort_transfer_locked E R b cs reason ctx
      = (Inr (Aborted \<lparr>ta_begin = b, ta_reason = reason, ta_aborted_unix_ms = rd_now_stamp R\<rparr>), ctx')"
    "advances R t ctx ctx'"
    "view_of ctx' t = Some (Aborted \<lparr>ta_begin = b, ta_reason = reason, ta_aborted_unix_ms = rd_now_stamp R\<rparr>)"
    "\<And>c. c \<in> set cs \<Longrightarrow> recs_of ctx' (tc_object_id c) = None"
proof -
  let ?a = "Aborted \<lparr>ta_begin = b, ta_reason = reason, ta_aborted_unix_ms = rd_now_stamp R\<rparr>"
  let ?C = "tc_object_id ` set cs"
  let ?ctx1 = "delete_objects E cs ctx"
  have tinv: "transfer_inv E (objs_of ctx) (recs_of ctx)" using inv by (simp add: server_inv_def)
  have ok: "record_ok E (objs_of ctx) (recs_of ctx) t (InProgress b cs rv)"
    by (rule transfer_invD(2) [OF tinv v])
  then have t: "tb_transfer_id b = t" and vb: "valid_begin b" by (auto simp: record_ok_def)
  have del: "objs_of ?ctx1 = drop_chunks E ?C (objs_of ctx)" "recs_of ?ctx1 = drop_ids ?C (recs_of ctx)"
    "active_transfers ?ctx1 = active_transfers ctx"
    using delete_objects_ok [of cs ctx] ok by (auto simp: record_ok_def chunk_stored_def)
  obtain ctx2 q where p: "persist_transfer_record E t ?a ?ctx1 = (Inr (), ctx2)"
    "objs_of ctx2 = (objs_of ?ctx1)(record_key E t \<mapsto> ve_encode E ?a)"
    "recs_of ctx2 = (recs_of ?ctx1)(t \<mapsto> q)" "rec_key q = record_key E t"
    "active_transfers ctx2 = active_transfers ?ctx1" by (rule persist_ok)
  let ?ctx' = "ctx2\<lparr>active_transfers := removeAll t (active_transfers ctx2)\<rparr>"
  have res: "abort_transfer_locked E R b cs reason ctx = (Inr ?a, ?ctx')"
    using p(1) t by (simp add: abort_transfer_locked_def Let_def)
  \<comment> \<open>writing the record first and dropping the chunks then gives the same state\<close>
  let ?o = "(objs_of ctx)(record_key E t \<mapsto> ve_encode E ?a)" and ?r = "(recs_of ctx)(t \<mapsto> q)"
  have w: "transfer_inv E ?o ?r \<and> transfer_view E ?o ?r = (view_of ctx)(t \<mapsto> ?a)"
    using t vb view_own_key [OF v] p(4)
    by (intro transfer_inv_record_write [OF env tinv]) (auto simp: record_ok_def chunk_ids_def)
  have tC: "t \<notin> ?C"
  proof
    assume "t \<in> ?C"
    then obtain c where "c \<in> set cs" "t = tc_object_id c" by auto
    then obtain r where "recs_of ctx t = Some r" "rec_key r = chunk_key E t"
      using ok by (auto simp: record_ok_def chunk_stored_def)
    then show False using view_own_key [OF v] key_eqs(3) [OF env] by metis
  qed
  have "transfer_inv E (drop_chunks E ?C ?o) (drop_ids ?C ?r)
    \<and> transfer_view E (drop_chunks E ?C ?o) (drop_ids ?C ?r) = transfer_view E ?o ?r"
  proof (rule transfer_inv_drop [OF env])
    show "transfer_inv E ?o ?r" using w by simp
    fix u r assume "transfer_view E ?o ?r u = Some r"
    then have "((view_of ctx)(t \<mapsto> ?a)) u = Some r" using w by simp
    then show "chunk_ids r \<inter> ?C = {}"
      using transfer_invD(3) [OF tinv _ v, of u r] by (auto simp: chunk_ids_def split: if_splits)
  next
    fix i r assume "i \<in> ?C" "?r i = Some r"
    then show "rec_key r = chunk_key E i"
      using ok tC by (auto simp: record_ok_def chunk_stored_def split: if_splits)
  qed
  moreover have "drop_chunks E ?C ?o = objs_of ctx2"
    unfolding p(2) del(1) using key_eqs(4) [OF env] by (auto simp: drop_chunks_def fun_eq_iff)
  moreover have "drop_ids ?C ?r = recs_of ctx2"
    unfolding p(3) del(2) using tC by (auto simp: drop_ids_def fun_eq_iff)
  ultimately have "transfer_inv E (objs_of ctx2) (recs_of ctx2)" "view_of ctx2 = (view_of ctx)(t \<mapsto> ?a)"
    using w by simp_all
  moreover from this have "advances R t ctx ?ctx'"
    using del(3) p(5) v by (intro advances_update [OF inv, where r = ?a]) (auto intro: ts_abort)
  moreover have "recs_of ctx2 (tc_object_id c) = None" if "c \<in> set cs" for c
    using that tC by (auto simp: p(3) del(2) drop_ids_def)
  ultimately show ?thesis by (intro that [OF res]) simp_all
qed

text \<open>
  Loading and expiring: a loaded record is either unchanged and, if in progress, within its
  lease, or it was aborted by the step.
\<close>

lemma load_and_expire_advances:
  assumes inv: "server_inv ctx" and gen: "genuine E (objs_of ctx) (recs_of ctx) t"
  obtains (err) e where "load_and_expire E R t ctx = (Inl e, ctx)"
  | (same) r where "load_and_expire E R t ctx = (Inr r, ctx)" "view_of ctx t = Some r"
      "\<And>b cs rv. r = InProgress b cs rv \<Longrightarrow> rd_now_check R < tb_deadline_unix_ms b"
  | (expired) b cs rv a ctx' where "view_of ctx t = Some (InProgress b cs rv)"
      "tb_deadline_unix_ms b \<le> rd_now_check R"
      "load_and_expire E R t ctx = (Inr (Aborted a), ctx')" "advances R t ctx ctx'"
proof (cases "load_transfer_record E ctx t")
  case (Inl e)
  then show ?thesis by (intro err) (simp add: load_and_expire_def)
next
  case (Inr r)
  have v: "view_of ctx t = Some r" by (rule load_genuine [OF gen Inr])
  show ?thesis
  proof (cases "\<exists>b cs rv. r = InProgress b cs rv \<and> tb_deadline_unix_ms b \<le> rd_now_check R")
    case True
    then obtain b cs rv where r: "r = InProgress b cs rv" "tb_deadline_unix_ms b \<le> rd_now_check R" by auto
    obtain ctx' where "abort_transfer_locked E R b cs ''transfer lease expired'' ctx
        = (Inr (Aborted \<lparr>ta_begin = b, ta_reason = ''transfer lease expired'',
            ta_aborted_unix_ms = rd_now_stamp R\<rparr>), ctx')" "advances R t ctx ctx'"
      by (rule abort_advances [OF inv v [unfolded r(1)]])
    then show ?thesis
      using v r Inr by (intro expired) (auto simp: load_and_expire_def expire_transfer_locked_def)
  next
    case False
    then show ?thesis
      using Inr v by (intro same [of r])
        (auto simp: load_and_expire_def expire_transfer_locked_def not_le split: transfer_record.split)
  qed
qed

lemma persist_advances:
  assumes inv: "server_inv ctx"
    and own: "\<And>q. recs_of ctx t = Some q \<Longrightarrow> rec_key q = record_key E t"
    and ok: "record_ok E (objs_of ctx) (recs_of ctx) t r"
    and disj: "\<And>u s. view_of ctx u = Some s \<Longrightarrow> u \<noteq> t \<Longrightarrow> chunk_ids s \<inter> chunk_ids r = {}"
    and step: "transfer_step R t (view_of ctx t) (Some r)"
  obtains ctx' where "persist_transfer_record E t r ctx = (Inr (), ctx')"
    "active_transfers ctx' = active_transfers ctx"
    "\<And>act. set act \<subseteq> insert t (set (active_transfers ctx)) \<Longrightarrow> advances R t ctx (ctx'\<lparr>active_transfers := act\<rparr>)"
proof -
  have tinv: "transfer_inv E (objs_of ctx) (recs_of ctx)" using inv by (simp add: server_inv_def)
  obtain ctx' q where p: "persist_transfer_record E t r ctx = (Inr (), ctx')"
    "objs_of ctx' = (objs_of ctx)(record_key E t \<mapsto> ve_encode E r)"
    "recs_of ctx' = (recs_of ctx)(t \<mapsto> q)" "rec_key q = record_key E t"
    "active_transfers ctx' = active_transfers ctx" by (rule persist_ok)
  have w: "transfer_inv E (objs_of ctx') (recs_of ctx') \<and> view_of ctx' = (view_of ctx)(t \<mapsto> r)"
    unfolding p(2,3) by (rule transfer_inv_record_write [OF env tinv own p(4) ok disj])
  have "advances R t ctx (ctx'\<lparr>active_transfers := act\<rparr>)"
    if "set act \<subseteq> insert t (set (active_transfers ctx))" for act
    using w that step by (intro advances_update [OF inv, where r = r]) auto
  then show ?thesis using that p(1,5) by blast
qed

lemma handle_transfer_begin_advances:
  assumes inv: "server_inv ctx"
  shows "advances R (tb_transfer_id b) ctx (snd (handle_transfer_begin E R b ctx))"
proof (cases "valid_begin b \<and> rd_now_check R < tb_deadline_unix_ms b \<and> recs_of ctx (tb_transfer_id b) = None")
  case False
  then have "snd (handle_transfer_begin E R b ctx) = ctx"
    by (auto simp: handle_transfer_begin_def rmeta.lookup_total valid_begin_def split: option.splits)
  then show ?thesis using inv by (simp add: advances_refl)
next
  case True
  let ?t = "tb_transfer_id b" and ?r = "InProgress b [] 0"
  have ok: "record_ok E (objs_of ctx) (recs_of ctx) ?t ?r" using True by (simp add: record_ok_def)
  have v: "view_of ctx ?t = None" using True by (simp add: transfer_view_def)
  have step: "transfer_step R ?t (view_of ctx ?t) (Some ?r)"
    unfolding v using True by (intro ts_begin) auto
  have own: "rec_key q = record_key E ?t" if "recs_of ctx ?t = Some q" for q using that True by simp
  have disj: "chunk_ids s \<inter> chunk_ids ?r = {}" for s by (simp add: chunk_ids_def)
  obtain ctx' where p: "persist_transfer_record E ?t ?r ctx = (Inr (), ctx')"
    "active_transfers ctx' = active_transfers ctx"
    "\<And>act. set act \<subseteq> insert ?t (set (active_transfers ctx)) \<Longrightarrow> advances R ?t ctx (ctx'\<lparr>active_transfers := act\<rparr>)"
    by (rule persist_advances [OF inv own ok disj step]) blast+
  have "snd (handle_transfer_begin E R b ctx)
      = ctx'\<lparr>active_transfers := List.insert ?t (active_transfers ctx')\<rparr>"
    using True p(1) by (auto simp: handle_transfer_begin_def rmeta.lookup_total valid_begin_def Let_def)
  then show ?thesis using p(2,3) by simp
qed

lemma handle_transfer_inspect_advances:
  assumes inv: "server_inv ctx" and gen: "genuine E (objs_of ctx) (recs_of ctx) t"
  shows "advances R t ctx (snd (handle_transfer_inspect E R t ctx))"
proof (cases rule: load_and_expire_advances [OF inv gen, of R])
  case (3 b cs rv a ctx')
  then show ?thesis by (simp add: handle_transfer_inspect_def)
qed (simp_all add: handle_transfer_inspect_def advances_refl inv)

lemma handle_transfer_abort_advances:
  assumes inv: "server_inv ctx" and gen: "genuine E (objs_of ctx) (recs_of ctx) t"
  shows "advances R t ctx (snd (handle_transfer_abort E R t reason ctx))"
proof (cases "load_transfer_record E ctx t")
  case (Inl e)
  then show ?thesis using inv by (simp add: handle_transfer_abort_def advances_refl)
next
  case (Inr r)
  show ?thesis
  proof (cases r)
    case (InProgress b cs rv)
    obtain ctx' where "abort_transfer_locked E R b cs reason ctx
      = (Inr (Aborted \<lparr>ta_begin = b, ta_reason = reason, ta_aborted_unix_ms = rd_now_stamp R\<rparr>), ctx')"
      "advances R t ctx ctx'"
      by (rule abort_advances [OF inv, of t b cs rv]) (use load_genuine [OF gen Inr] InProgress in simp)
    then show ?thesis using Inr InProgress by (simp add: handle_transfer_abort_def)
  qed (use Inr inv in \<open>simp_all add: handle_transfer_abort_def advances_refl\<close>)
qed

lemma collect_chunks_data:
  assumes "collect_chunks E ctx cs = Inr d"
    and "\<And>c. c \<in> set cs \<Longrightarrow> chunk_stored E (objs_of ctx) (recs_of ctx) c"
  shows "d = concat (map (chunk_data E (objs_of ctx)) cs)"
  using assms
proof (induction cs arbitrary: d)
  case (Cons c cs)
  from Cons.prems(1) obtain e rest where e: "try_download E ctx (tc_object_id c) = Found e"
      and rest: "collect_chunks E ctx cs = Inr rest" "d = e @ rest"
    by (auto split: download_attempt.splits if_splits sum.splits)
  have "chunk_data E (objs_of ctx) c = e"
    using Cons.prems(2) [of c] try_download_visible [OF e]
    by (auto simp: chunk_stored_def chunk_data_def visible_def)
  then show ?case using Cons.IH [OF rest(1)] Cons.prems(2) rest(2) by simp
qed simp

lemma handle_transfer_commit_advances:
  assumes inv: "server_inv ctx" and gen: "genuine E (objs_of ctx) (recs_of ctx) t"
  shows "advances R t ctx (snd (handle_transfer_commit E R t h ctx))"
proof (cases rule: load_and_expire_advances [OF inv gen, of R])
  case (1 e)
  then show ?thesis using inv by (simp add: handle_transfer_commit_def advances_refl)
next
  case (3 b cs rv a ctx')
  then show ?thesis by (simp add: handle_transfer_commit_def)
next
  case (2 r)
  show ?thesis
  proof (cases r)
    case (InProgress b cs rv)
    let ?ok = "h = tb_expected_hash b \<and> length cs = unat (tb_expected_chunks b)
      \<and> \<not> list_ex (\<lambda>(i, c). unat (tc_index c) \<noteq> i) (List.enumerate 0 cs)
      \<and> chunk_sum cs = tb_expected_len b
      \<and> (\<exists>d. collect_chunks E ctx cs = Inr d \<and> hash_transfer E d = h)"
    show ?thesis
    proof (cases ?ok)
      case False
      then have "snd (handle_transfer_commit E R t h ctx) = ctx"
        using 2(1) InProgress by (auto simp: handle_transfer_commit_def Let_def split: sum.splits)
      then show ?thesis using inv by (simp add: advances_refl)
    next
      case True
      then obtain d where d: "collect_chunks E ctx cs = Inr d" "hash_transfer E d = h" by blast
      let ?r = "Committed \<lparr>tm_begin = b, tm_chunks = cs, tm_committed_unix_ms = rd_now_stamp R\<rparr>"
      have tinv: "transfer_inv E (objs_of ctx) (recs_of ctx)" using inv by (simp add: server_inv_def)
      note v = 2(2) [unfolded InProgress]
      have rok: "record_ok E (objs_of ctx) (recs_of ctx) t (InProgress b cs rv)"
        by (rule transfer_invD(2) [OF tinv v])
      have idx: "map (\<lambda>c. unat (tc_index c)) cs = [0..<unat (tb_expected_chunks b)]"
        using True by (intro enumerate_indices) auto
      have "unat (chunk_sum cs) = chunk_lens cs"
        using rok by (intro chunk_sum_exact [of _ "tb_expected_len b"]) (simp add: record_ok_def)
      then have comp: "complete b cs" using idx True by (simp add: complete_def)
      have ok: "record_ok E (objs_of ctx) (recs_of ctx) t ?r"
        using rok comp collect_chunks_data [OF d(1)] d(2) True by (simp add: record_ok_def)
      have step: "transfer_step R t (view_of ctx t) (Some ?r)"
        unfolding v by (rule ts_commit [OF comp 2(3) [OF InProgress]])
      have disj: "chunk_ids s \<inter> chunk_ids ?r = {}" if "view_of ctx u = Some s" "u \<noteq> t" for u s
        using transfer_invD(3) [OF tinv that(1) v that(2)] by (simp add: chunk_ids_def)
      obtain ctx' where p: "persist_transfer_record E t ?r ctx = (Inr (), ctx')"
        "active_transfers ctx' = active_transfers ctx"
        "\<And>act. set act \<subseteq> insert t (set (active_transfers ctx)) \<Longrightarrow> advances R t ctx (ctx'\<lparr>active_transfers := act\<rparr>)"
        by (rule persist_advances [OF inv view_own_key [OF v] ok disj step]) blast+
      have "snd (handle_transfer_commit E R t h ctx)
          = ctx'\<lparr>active_transfers := removeAll t (active_transfers ctx')\<rparr>"
        using True d p(1) 2(1) InProgress by (simp add: handle_transfer_commit_def Let_def)
      moreover have "set (removeAll t (active_transfers ctx)) \<subseteq> insert t (set (active_transfers ctx))" by auto
      ultimately show ?thesis using p(2) p(3) [of "removeAll t (active_transfers ctx)"] by simp
    qed
  qed (use 2(1) inv in \<open>simp_all add: handle_transfer_commit_def advances_refl\<close>)
qed

text \<open>
  A stored chunk: its recorded length is the length of the data, because neither the sum nor
  the saturating addition of the handler reaches the limit of 64 bits.
\<close>

lemma prospective_len_exact:
  assumes "chunk_lens cs \<le> unat (n :: u64)" "sat_add (chunk_sum cs) (of_nat k) \<le> n" "k \<le> S3_MAX_FRAME_SIZE"
    and "chunk_lens cs \<le> 10000 * S3_MAX_FRAME_SIZE"
  shows "unat (sat_add (chunk_sum cs) (of_nat k) - chunk_sum cs) = k" "chunk_lens cs + k \<le> unat n"
proof -
  have cs: "unat (chunk_sum cs) = chunk_lens cs" by (rule chunk_sum_exact [OF assms(1)])
  have k: "unat (of_nat k :: u64) = k"
    by (rule unat_of_nat_small) (use assms(3) in \<open>simp add: S3_MAX_FRAME_SIZE_def\<close>)
  have sum: "unat (sat_add (chunk_sum cs) (of_nat k)) = chunk_lens cs + k"
    using assms(3,4) by (simp add: unat_sat_add cs k S3_MAX_FRAME_SIZE_def)
  then show "chunk_lens cs + k \<le> unat n" using assms(2) by (simp add: word_le_nat_alt)
  show "unat (sat_add (chunk_sum cs) (of_nat k) - chunk_sum cs) = k"
    using sum cs by (simp add: unat_sub word_le_nat_alt)
qed

text \<open>No record holds more than ten thousand chunks of at most one frame each.\<close>

lemma chunk_lens_bound:
  assumes "valid_begin b" "sorted_wrt (<) (map tc_index cs)" "\<forall>c \<in> set cs. tc_index c < tb_expected_chunks b"
    and "\<forall>c \<in> set cs. unat (tc_len c) \<le> S3_MAX_FRAME_SIZE"
  shows "chunk_lens cs \<le> 10000 * S3_MAX_FRAME_SIZE"
proof -
  have "unat (tb_expected_chunks b) \<le> 10000"
    using assms(1) by (simp add: valid_begin_def MAX_MULTIPART_PARTS_def word_le_nat_alt)
  moreover have "length (map tc_index cs) \<le> unat (tb_expected_chunks b)"
    using assms(2,3) by (intro length_le_of_distinct_bounded [where f = unat])
      (auto simp: strict_sorted_iff word_less_nat_alt inj_on_def word_unat_eq_iff)
  ultimately have "length cs \<le> 10000" by simp
  moreover have "chunk_lens cs \<le> length cs * S3_MAX_FRAME_SIZE"
    unfolding chunk_lens_def using assms(4) by (intro sum_list_bounded) auto
  ultimately show ?thesis by (meson le_trans mult_le_mono1)
qed

lemma chunk_stored_cong:
  "recs' (tc_object_id c) = recs (tc_object_id c) \<Longrightarrow>
   objs' (chunk_key E (tc_object_id c)) = objs (chunk_key E (tc_object_id c)) \<Longrightarrow>
   chunk_stored E objs' recs' c = chunk_stored E objs recs c"
  by (simp add: chunk_stored_def)

lemma handle_transfer_chunk_advances:
  assumes inv: "server_inv ctx" and gen: "genuine E (objs_of ctx) (recs_of ctx) t"
  shows "advances R t ctx (snd (handle_transfer_chunk E R t i data h ctx))"
proof (cases rule: load_and_expire_advances [OF inv gen, of R])
  case (1 e)
  then show ?thesis using inv by (simp add: handle_transfer_chunk_def advances_refl)
next
  case (3 b cs rv a ctx')
  then show ?thesis by (simp add: handle_transfer_chunk_def)
next
  case (2 r)
  show ?thesis
  proof (cases r)
    case (InProgress b cs rv)
    let ?p = "sat_add (chunk_sum cs) (of_nat (length data))"
    let ?o = "rd_uuid R"
    let ?ok = "i < tb_expected_chunks b \<and> \<not> list_ex (\<lambda>c. tc_index c = i) cs \<and> hash_transfer E data = h
      \<and> ?p \<le> tb_expected_len b \<and> length data \<le> S3_MAX_FRAME_SIZE \<and> recs_of ctx ?o = None"
    show ?thesis
    proof (cases ?ok)
      case False
      have "snd (handle_transfer_chunk E R t i data h ctx) = ctx"
      proof (cases "length data \<le> S3_MAX_FRAME_SIZE \<and> recs_of ctx ?o = None")
        case True
        with False have "tb_expected_chunks b \<le> i \<or> list_ex (\<lambda>c. tc_index c = i) cs
            \<or> hash_transfer E data \<noteq> h \<or> tb_expected_len b < ?p" by (auto simp: not_le not_less)
        then show ?thesis
          using 2(1) InProgress by (elim disjE) (simp_all add: handle_transfer_chunk_def Let_def)
      next
        case F: False
        obtain e where "handle_transfer_chunk_upload E ?o data ctx = (VError e, ctx)"
          by (rule chunk_upload_refused [OF F])
        then show ?thesis using 2(1) InProgress by (simp add: handle_transfer_chunk_def Let_def)
      qed
      then show ?thesis using inv by (simp add: advances_refl)
    next
      case True
      have tinv: "transfer_inv E (objs_of ctx) (recs_of ctx)" using inv by (simp add: server_inv_def)
      note v = 2(2) [unfolded InProgress]
      have rok: "record_ok E (objs_of ctx) (recs_of ctx) t (InProgress b cs rv)"
        by (rule transfer_invD(2) [OF tinv v])
      obtain ctx2 q where up: "handle_transfer_chunk_upload E ?o data ctx = (VUploaded ?o, ctx2)"
        "objs_of ctx2 = (objs_of ctx)(chunk_key E ?o \<mapsto> data)"
        "recs_of ctx2 = (recs_of ctx)(?o \<mapsto> q)" "rec_key q = chunk_key E ?o"
        "active_transfers ctx2 = active_transfers ctx"
        using True by (auto intro: chunk_upload_ok)
      have w: "transfer_inv E (objs_of ctx2) (recs_of ctx2) \<and> view_of ctx2 = view_of ctx"
        unfolding up(2,3) by (rule transfer_inv_chunk_write [OF env tinv _ up(4)]) (use True in simp)
      have inv2: "server_inv ctx2" using inv w up(5) by (simp add: server_inv_def)
      let ?c = "\<lparr>tc_index = i, tc_object_id = ?o, tc_len = ?p - chunk_sum cs, tc_hash = h\<rparr>"
      let ?cs = "sort_key tc_index (cs @ [?c])"
      let ?r = "InProgress b ?cs (sat_add rv 1)"
      have stored: "c \<in> set cs \<Longrightarrow> chunk_stored E (objs_of ctx) (recs_of ctx) c" for c
        using rok by (simp add: record_ok_def)
      have neq: "tc_object_id c \<noteq> ?o" if "c \<in> set cs" for c
        using stored [OF that] True by (auto simp: chunk_stored_def)
      have bound: "chunk_lens cs \<le> 10000 * S3_MAX_FRAME_SIZE"
        using rok stored by (intro chunk_lens_bound [of b]) (auto simp: record_ok_def chunk_stored_def)
      have len: "unat (?p - chunk_sum cs) = length data" "chunk_lens cs + length data \<le> unat (tb_expected_len b)"
        using prospective_len_exact [of cs "tb_expected_len b" "length data"] rok True bound
        by (auto simp: record_ok_def)
      have step: "transfer_step R t (view_of ctx2 t) (Some ?r)"
        unfolding w [THEN conjunct2] v
        using True len 2(3) [OF InProgress] by (intro ts_chunk) (auto simp: list_ex_iff)
      have wf: "record_wf t ?r"
        using transfer_step_wf [OF step] w v rok by (auto simp: record_ok_def)
      have cstored: "chunk_stored E (objs_of ctx2) (recs_of ctx2) c" if "c \<in> insert ?c (set cs)" for c
      proof (cases "c = ?c")
        case c: True
        show ?thesis unfolding c using up True len by (simp add: chunk_stored_def)
      next
        case False
        then have "c \<in> set cs" using that by simp
        then show ?thesis
          using stored neq [of c] key_eqs(2) [OF env] up(2,3) chunk_stored_cong by (metis fun_upd_apply)
      qed
      have ok: "record_ok E (objs_of ctx2) (recs_of ctx2) t ?r"
      proof -
        have "?o \<notin> tc_object_id ` set cs" using neq by (metis imageE)
        then have d: "distinct (map tc_object_id (cs @ [?c]))"
          using rok by (simp add: record_ok_def)
        have "mset (map tc_object_id ?cs) = mset (map tc_object_id (cs @ [?c]))" by simp
        with d have "distinct (map tc_object_id ?cs)" by (metis mset_eq_imp_distinct_iff)
        then show ?thesis using wf cstored by (auto simp: record_ok_def)
      qed
      have own: "rec_key x = record_key E t" if "recs_of ctx2 t = Some x" for x
        using w v view_own_key [OF _ that] by metis
      have disj: "chunk_ids s \<inter> chunk_ids ?r = {}" if "view_of ctx2 u = Some s" "u \<noteq> t" for u s
      proof -
        have us: "view_of ctx u = Some s" using that w by simp
        have "?o \<notin> chunk_ids s"
          using transfer_invD(2) [OF tinv us] True by (auto simp: record_ok_def chunk_stored_def chunk_ids_def)
        then show ?thesis
          using transfer_invD(3) [OF tinv us v that(2)] by (auto simp: chunk_ids_def)
      qed
      obtain ctx3 where p: "persist_transfer_record E t ?r ctx2 = (Inr (), ctx3)"
        "active_transfers ctx3 = active_transfers ctx2"
        "\<And>act. set act \<subseteq> insert t (set (active_transfers ctx2)) \<Longrightarrow> advances R t ctx2 (ctx3\<lparr>active_transfers := act\<rparr>)"
        by (rule persist_advances [OF inv2 own ok disj step]) blast+
      have nots: "\<not> tb_expected_chunks b \<le> i" "\<not> tb_expected_len b < ?p" using True by auto
      have "snd (handle_transfer_chunk E R t i data h ctx) = ctx3"
        using True 2(1) InProgress up(1) p(1) nots by (simp add: handle_transfer_chunk_def Let_def)
      moreover have "ctx3 = ctx3\<lparr>active_transfers := active_transfers ctx2\<rparr>" using p(2) by simp
      moreover have "advances R t ctx2 (ctx3\<lparr>active_transfers := active_transfers ctx2\<rparr>)" by (rule p(3)) auto
      ultimately show ?thesis using w by (simp add: advances_def)
    qed
  qed (use 2(1) inv in \<open>simp_all add: handle_transfer_chunk_def advances_refl\<close>)
qed

section \<open>All requests\<close>

text \<open>Requests of the plain object service never move a transfer.\<close>

lemma handle_upload_advances:
  assumes inv: "server_inv ctx"
  shows "advances R t ctx (snd (handle_upload E R given d ctx))"
proof -
  have tinv: "transfer_inv E (objs_of ctx) (recs_of ctx)" using inv by (simp add: server_inv_def)
  obtain resp ctx' where u: "handle_upload E R given d ctx = (resp, ctx')" by force
  have act: "active_transfers ctx' = active_transfers ctx"
    using u by (auto simp: handle_upload_def Let_def split: if_splits sum.splits prod.splits)
  show ?thesis
  proof (cases rule: handle_upload_effect [OF u])
    case 1
    then show ?thesis using u act tinv by (intro advances_same_view [OF inv]) auto
  next
    case (2 i)
    have "transfer_inv E (objs_of ctx') (recs_of ctx') \<and> view_of ctx' = view_of ctx"
      unfolding 2(3) using 2(4) by (intro transfer_inv_plain_write [OF env tinv 2(2)]) auto
    then show ?thesis using u act by (intro advances_same_view [OF inv]) auto
  qed
qed

lemma handle_upload_finish_advances:
  assumes inv: "server_inv ctx" and nm: "\<And>r. recs_of ctx i = Some r \<Longrightarrow> \<not> managed_key (rec_key r)"
  shows "advances R t ctx (snd (handle_upload_finish E i k ctx))"
proof -
  have tinv: "transfer_inv E (objs_of ctx) (recs_of ctx)" using inv by (simp add: server_inv_def)
  obtain resp ctx' where u: "handle_upload_finish E i k ctx = (resp, ctx')" by force
  have act: "active_transfers ctx' = active_transfers ctx"
    using u by (auto simp: handle_upload_finish_def Let_def split: if_splits sum.splits prod.splits option.splits)
  show ?thesis
  proof (cases rule: handle_upload_finish_effect [OF u])
    case 1
    then show ?thesis using u act tinv by (intro advances_same_view [OF inv]) auto
  next
    case (2 d n)
    have "transfer_inv E (objs_of ctx') (recs_of ctx') \<and> view_of ctx' = view_of ctx"
      unfolding 2(1) using 2(2) by (intro transfer_inv_plain_write [OF env tinv nm]) auto
    then show ?thesis using u act by (intro advances_same_view [OF inv]) auto
  qed
qed

lemma same_storage_advances:
  assumes inv: "server_inv ctx" and "contents (object_store ctx') = contents (object_store ctx)"
    "records (store ctx') = records (store ctx)" "active_transfers ctx' = active_transfers ctx"
  shows "advances R t ctx ctx'"
  using assms by (intro advances_same_view [OF inv]) (auto simp: server_inv_def)

lemma handle_upload_begin_advances:
  "server_inv ctx \<Longrightarrow> advances R t ctx (snd (handle_upload_begin E R given n ctx))"
  using handle_upload_begin_effect [OF prod.collapse [symmetric], of R given n ctx]
  by (intro same_storage_advances)
     (auto simp: handle_upload_begin_def Let_def split: if_splits sum.splits prod.splits)

lemma handle_upload_part_advances:
  "server_inv ctx \<Longrightarrow> advances R t ctx (snd (handle_upload_part E i n d ctx))"
  using handle_upload_part_effect [OF prod.collapse [symmetric], of i n d ctx]
  by (intro same_storage_advances)
     (auto simp: handle_upload_part_def Let_def split: if_splits sum.splits prod.splits option.splits)

lemma handle_download_wait_advances:
  assumes "server_inv ctx" "quiet W"
  shows "advances R t ctx (snd (handle_download_wait E W i ms ctx))"
  using assms
  by (intro same_storage_advances)
     (auto simp: handle_download_wait_def quiet_def Let_def split: download_attempt.splits prod.splits)

lemma handle_request_advances:
  assumes inv: "server_inv ctx" and h: "honest E (objs_of ctx) (recs_of ctx) req" and W: "quiet W"
    and t: "target req = None \<or> target req = Some t"
  shows "advances R t ctx (snd (handle_request E R W req ctx))"
proof (cases req)
  case (VUploadFinish i k)
  have "\<not> managed_key (rec_key r)" if "recs_of ctx i = Some r" for r
    using h VUploadFinish that by (simp add: honest_def)
  then show ?thesis
    using handle_upload_finish_advances [OF inv, of i] VUploadFinish by (simp add: handle_request_def)
next
  case (VTransferBegin b)
  then show ?thesis using t handle_transfer_begin_advances [OF inv, of R b] by (simp add: handle_request_def)
qed (use h t in \<open>simp_all add: handle_request_def honest_def advances_refl inv W handle_upload_advances
    handle_upload_begin_advances handle_upload_part_advances handle_transfer_begin_advances
    handle_transfer_chunk_advances handle_transfer_inspect_advances handle_transfer_commit_advances
    handle_transfer_abort_advances handle_download_wait_advances\<close>)

text \<open>The clean-up only aborts transfers whose lease has expired.\<close>

definition swept :: "(uuid \<Rightarrow> readings) \<Rightarrow> ('o, 'm) void_context \<Rightarrow> ('o, 'm) void_context \<Rightarrow> bool" where
  "swept R ctx ctx' \<longleftrightarrow> (\<forall>u. view_of ctx' u = view_of ctx u \<or>
     (\<exists>b cs rv a. view_of ctx u = Some (InProgress b cs rv) \<and> tb_deadline_unix_ms b \<le> rd_now_check (R u)
        \<and> view_of ctx' u = Some (Aborted a)))"

lemma swept_trans: "swept R c1 c2 \<Longrightarrow> swept R c2 c3 \<Longrightarrow> swept R c1 c3"
  unfolding swept_def by (metis option.inject transfer_record.distinct(3))

lemma inv_active_subset:
  "server_inv ctx \<Longrightarrow> set act \<subseteq> set (active_transfers ctx) \<Longrightarrow> server_inv (ctx\<lparr>active_transfers := act\<rparr>)"
  by (auto simp: server_inv_def)

lemma cleanup_transfers_swept:
  assumes "server_inv ctx" "\<And>t. t \<in> set ts \<Longrightarrow> view_of ctx t \<noteq> None"
  shows "server_inv (cleanup_transfers E R ts ctx) \<and> swept R ctx (cleanup_transfers E R ts ctx)"
  using assms
proof (induction ts arbitrary: ctx)
  case Nil
  then show ?case by (simp add: swept_def)
next
  case (Cons t ts)
  note inv = Cons.prems(1)
  obtain r where v: "view_of ctx t = Some r" using Cons.prems(2) [of t] by auto
  have l: "load_transfer_record E ctx t = Inr r" by (rule load_view [OF v])
  let ?ctx1 = "snd (expire_transfer_locked E (R t) r ctx)"
  have step: "server_inv ?ctx1 \<and> swept R ctx ?ctx1"
  proof (cases "\<exists>b cs rv. r = InProgress b cs rv \<and> tb_deadline_unix_ms b \<le> rd_now_check (R t)")
    case True
    then obtain b cs rv where r: "r = InProgress b cs rv" "tb_deadline_unix_ms b \<le> rd_now_check (R t)" by auto
    let ?a = "\<lparr>ta_begin = b, ta_reason = ''transfer lease expired'', ta_aborted_unix_ms = rd_now_stamp (R t)\<rparr>"
    obtain ctx' where a: "abort_transfer_locked E (R t) b cs ''transfer lease expired'' ctx = (Inr (Aborted ?a), ctx')"
      "advances (R t) t ctx ctx'" "view_of ctx' t = Some (Aborted ?a)"
      by (rule abort_advances [OF inv v [unfolded r(1)]])
    have eq: "?ctx1 = ctx'" using r a(1) by (simp add: expire_transfer_locked_def)
    have "swept R ctx ctx'"
      unfolding swept_def
    proof (rule allI)
      fix u
      show "view_of ctx' u = view_of ctx u \<or> (\<exists>b cs rv a. view_of ctx u = Some (InProgress b cs rv)
          \<and> tb_deadline_unix_ms b \<le> rd_now_check (R u) \<and> view_of ctx' u = Some (Aborted a))"
        using a(2,3) v r by (cases "u = t") (auto simp: advances_def)
    qed
    with a(2) show ?thesis unfolding eq by (simp add: advances_def)
  next
    case False
    then have "?ctx1 = ctx"
      by (auto simp: expire_transfer_locked_def not_le split: transfer_record.split)
    then show ?thesis using inv by (simp add: swept_def)
  qed
  have "view_of ?ctx1 u \<noteq> None" if "u \<in> set ts" for u
    using Cons.prems(2) [of u] that step by (auto simp: swept_def) (metis option.distinct(1))
  with Cons.IH [of ?ctx1] step show ?case
    using l swept_trans by simp blast
qed

lemma transfer_cleanup_pass_swept:
  "server_inv ctx \<Longrightarrow> server_inv (transfer_cleanup_pass E R ctx) \<and> swept R ctx (transfer_cleanup_pass E R ctx)"
  unfolding transfer_cleanup_pass_def by (rule cleanup_transfers_swept) (auto simp: server_inv_def)

section \<open>Progress\<close>

lemma collect_chunks_ok:
  assumes "\<And>c. c \<in> set cs \<Longrightarrow> chunk_stored E (objs_of ctx) (recs_of ctx) c"
  shows "collect_chunks E ctx cs = Inr (concat (map (chunk_data E (objs_of ctx)) cs))"
  using assms
proof (induction cs)
  case (Cons c cs)
  obtain d where "try_download E ctx (tc_object_id c) = Found d" "chunk_data E (objs_of ctx) c = d"
      "of_nat (length d) = tc_len c" "hash_transfer E d = tc_hash c"
  proof -
    from Cons.prems [of c] obtain r d where s: "recs_of ctx (tc_object_id c) = Some r"
      "rec_key r = chunk_key E (tc_object_id c)" "objs_of ctx (chunk_key E (tc_object_id c)) = Some d"
      "unat (tc_len c) = length d" "hash_transfer E d = tc_hash c" by (auto simp: chunk_stored_def)
    have "of_nat (length d) = tc_len c" using s(4) by (metis of_nat_unat ucast_id)
    moreover have "try_download E ctx (tc_object_id c) = Found d"
      using s by (simp add: try_download_eq visible_def)
    ultimately show ?thesis using s(3,5) that by (simp add: chunk_data_def)
  qed
  then show ?case using Cons by simp
qed simp

lemma handle_transfer_commit_ok:
  assumes inv: "server_inv ctx" and v: "view_of ctx t = Some (InProgress b cs rv)"
    and comp: "complete b cs" and now: "rd_now_check R < tb_deadline_unix_ms b"
    and hash: "hash_transfer E (concat (map (chunk_data E (objs_of ctx)) cs)) = tb_expected_hash b"
  defines "r \<equiv> Committed \<lparr>tm_begin = b, tm_chunks = cs, tm_committed_unix_ms = rd_now_stamp R\<rparr>"
  shows "fst (handle_transfer_commit E R t (tb_expected_hash b) ctx) = VTransfer r
    \<and> view_of (snd (handle_transfer_commit E R t (tb_expected_hash b) ctx)) t = Some r
    \<and> chunk_data E (objs_of (snd (handle_transfer_commit E R t (tb_expected_hash b) ctx)))
        = chunk_data E (objs_of ctx)"
proof -
  have tinv: "transfer_inv E (objs_of ctx) (recs_of ctx)" using inv by (simp add: server_inv_def)
  have rok: "record_ok E (objs_of ctx) (recs_of ctx) t (InProgress b cs rv)"
    by (rule transfer_invD(2) [OF tinv v])
  have l: "load_and_expire E R t ctx = (Inr (InProgress b cs rv), ctx)"
    using load_view [OF v] now [folded not_le] by (simp add: load_and_expire_def expire_transfer_locked_def)
  have idx: "map (\<lambda>c. unat (tc_index c)) cs = [0..<unat (tb_expected_chunks b)]"
    using comp by (simp add: complete_def)
  have n: "length cs = unat (tb_expected_chunks b)" using arg_cong [OF idx, of length] by simp
  have ex: "\<not> list_ex (\<lambda>(i, c). unat (tc_index c) \<noteq> i) (List.enumerate 0 cs)"
  proof -
    have "unat (tc_index (cs ! i)) = i" if "i < length cs" for i
      using arg_cong [OF idx, of "\<lambda>xs. xs ! i"] that n by simp
    then show ?thesis by (auto simp: list_ex_iff in_set_enumerate_eq)
  qed
  have sum: "chunk_sum cs = tb_expected_len b"
    using comp chunk_sum_exact [of cs "tb_expected_len b"] by (simp add: complete_def word_unat_eq_iff)
  have col: "collect_chunks E ctx cs = Inr (concat (map (chunk_data E (objs_of ctx)) cs))"
    using rok by (intro collect_chunks_ok) (simp add: record_ok_def)
  obtain ctx' q where p: "persist_transfer_record E t r ctx = (Inr (), ctx')"
    "objs_of ctx' = (objs_of ctx)(record_key E t \<mapsto> ve_encode E r)"
    "recs_of ctx' = (recs_of ctx)(t \<mapsto> q)" "rec_key q = record_key E t" by (rule persist_ok)
  have res: "handle_transfer_commit E R t (tb_expected_hash b) ctx
      = (VTransfer r, ctx'\<lparr>active_transfers := removeAll t (active_transfers ctx')\<rparr>)"
    using l n ex sum col hash p(1) by (simp add: handle_transfer_commit_def Let_def r_def)
  have "transfer_view E (objs_of ctx') (recs_of ctx') t = Some r"
    using p env by (simp add: transfer_view_def sound_env_def)
  moreover have "chunk_data E (objs_of ctx') = chunk_data E (objs_of ctx)"
    unfolding p(2) using key_eqs(3) [OF env] by (auto simp: chunk_data_def fun_eq_iff)
  ultimately show ?thesis using res by simp
qed

lemma handle_transfer_begin_ok:
  assumes "valid_begin b" "rd_now_check R < tb_deadline_unix_ms b" "recs_of ctx (tb_transfer_id b) = None"
  shows "fst (handle_transfer_begin E R b ctx) = VTransfer (InProgress b [] 0)
    \<and> view_of (snd (handle_transfer_begin E R b ctx)) (tb_transfer_id b) = Some (InProgress b [] 0)
    \<and> dom (recs_of (snd (handle_transfer_begin E R b ctx))) = insert (tb_transfer_id b) (dom (recs_of ctx))"
proof -
  let ?t = "tb_transfer_id b" and ?r = "InProgress b [] 0"
  obtain ctx' q where p: "persist_transfer_record E ?t ?r ctx = (Inr (), ctx')"
    "objs_of ctx' = (objs_of ctx)(record_key E ?t \<mapsto> ve_encode E ?r)"
    "recs_of ctx' = (recs_of ctx)(?t \<mapsto> q)" "rec_key q = record_key E ?t" by (rule persist_ok)
  have "handle_transfer_begin E R b ctx
      = (VTransfer ?r, ctx'\<lparr>active_transfers := List.insert ?t (active_transfers ctx')\<rparr>)"
    using assms p(1) by (auto simp: handle_transfer_begin_def rmeta.lookup_total valid_begin_def Let_def)
  moreover have "transfer_view E (objs_of ctx') (recs_of ctx') ?t = Some ?r"
    using p env by (simp add: transfer_view_def sound_env_def)
  ultimately show ?thesis using p(3) by simp
qed

lemma load_and_expire_expired:
  assumes inv: "server_inv ctx" and v: "view_of ctx t = Some (InProgress b cs rv)"
    and late: "tb_deadline_unix_ms b \<le> rd_now_check R"
  obtains ctx' where "load_and_expire E R t ctx = (Inr (Aborted \<lparr>ta_begin = b,
      ta_reason = ''transfer lease expired'', ta_aborted_unix_ms = rd_now_stamp R\<rparr>), ctx')"
    "view_of ctx' t = Some (Aborted \<lparr>ta_begin = b, ta_reason = ''transfer lease expired'',
       ta_aborted_unix_ms = rd_now_stamp R\<rparr>)"
    "\<And>c. c \<in> set cs \<Longrightarrow> recs_of ctx' (tc_object_id c) = None"
proof -
  obtain ctx' where a: "abort_transfer_locked E R b cs ''transfer lease expired'' ctx
      = (Inr (Aborted \<lparr>ta_begin = b, ta_reason = ''transfer lease expired'',
          ta_aborted_unix_ms = rd_now_stamp R\<rparr>), ctx')"
    "view_of ctx' t = Some (Aborted \<lparr>ta_begin = b, ta_reason = ''transfer lease expired'',
       ta_aborted_unix_ms = rd_now_stamp R\<rparr>)"
    "\<And>c. c \<in> set cs \<Longrightarrow> recs_of ctx' (tc_object_id c) = None"
    by (rule abort_advances [OF inv v]) blast
  have "load_and_expire E R t ctx = (Inr (Aborted \<lparr>ta_begin = b,
      ta_reason = ''transfer lease expired'', ta_aborted_unix_ms = rd_now_stamp R\<rparr>), ctx')"
    using load_view [OF v] late a(1) by (simp add: load_and_expire_def expire_transfer_locked_def)
  then show ?thesis using that a(2,3) by blast
qed

end

end
