(* ===== verification/Sample_Codec.thy ===== *)
theory Sample_Codec
  imports Wire_Types
begin

text \<open>
  A byte format for transfer records with a verified decoder. The program leaves this format
  to the postcard package, which is a parameter of the model; the format here is an instance
  of that parameter, so that statements about the server can be evaluated on concrete
  requests. It is built from combinators, each with its round-trip law: decoding an encoded
  value followed by any bytes returns the value and those bytes.
\<close>

named_theorems codec_laws "round trips of the codec combinators"

type_synonym 'a decoder = "bytes \<Rightarrow> ('a \<times> bytes) option"

definition codec :: "('a \<Rightarrow> bytes) \<Rightarrow> 'a decoder \<Rightarrow> bool" where
  "codec e d \<longleftrightarrow> (\<forall>x rest. d (e x @ rest) = Some (x, rest))"

fun enc_nat :: "nat \<Rightarrow> bytes" where
  "enc_nat n = (if n < 128 then [of_nat n] else of_nat (128 + n mod 128) # enc_nat (n div 128))"

declare enc_nat.simps [simp del]

fun dec_nat :: "nat decoder" where
  "dec_nat [] = None"
| "dec_nat (b # bs) =
     (if unat b < 128 then Some (unat b, bs)
      else (case dec_nat bs of
              None \<Rightarrow> None
            | Some (n, rest) \<Rightarrow> Some (unat b - 128 + 128 * n, rest)))"

lemma codec_nat [codec_laws]: "codec enc_nat dec_nat"
proof -
  have "dec_nat (enc_nat n @ rest) = Some (n, rest)" for n rest
  proof (induction n rule: enc_nat.induct)
    case (1 n)
    show ?case
    proof (cases "n < 128")
      case True
      then show ?thesis by (subst enc_nat.simps) (simp add: unat_of_nat_small)
    next
      case False
      have "unat (of_nat (128 + n mod 128) :: 8 word) = 128 + n mod 128"
        by (rule unat_of_nat_small) simp
      with False 1 show ?thesis by (subst enc_nat.simps) (simp del: of_nat_add)
    qed
  qed
  then show ?thesis by (simp add: codec_def)
qed

definition enc_map :: "('a \<Rightarrow> 'b) \<Rightarrow> ('b \<Rightarrow> bytes) \<Rightarrow> 'a \<Rightarrow> bytes" where
  "enc_map g e x = e (g x)"

definition dec_map :: "('b \<Rightarrow> 'a) \<Rightarrow> 'b decoder \<Rightarrow> 'a decoder" where
  "dec_map f d bs = (case d bs of None \<Rightarrow> None | Some (x, rest) \<Rightarrow> Some (f x, rest))"

lemma codec_map: "codec e d \<Longrightarrow> (\<And>x. f (g x) = x) \<Longrightarrow> codec (enc_map g e) (dec_map f d)"
  by (simp add: codec_def enc_map_def dec_map_def)

definition enc_pair :: "('a \<Rightarrow> bytes) \<Rightarrow> ('b \<Rightarrow> bytes) \<Rightarrow> 'a \<times> 'b \<Rightarrow> bytes" where
  "enc_pair e1 e2 p = e1 (fst p) @ e2 (snd p)"

definition dec_pair :: "'a decoder \<Rightarrow> 'b decoder \<Rightarrow> ('a \<times> 'b) decoder" where
  "dec_pair d1 d2 bs =
     (case d1 bs of
        None \<Rightarrow> None
      | Some (a, r1) \<Rightarrow> (case d2 r1 of None \<Rightarrow> None | Some (b, r2) \<Rightarrow> Some ((a, b), r2)))"

lemma codec_pair [codec_laws]:
  "codec e1 d1 \<Longrightarrow> codec e2 d2 \<Longrightarrow> codec (enc_pair e1 e2) (dec_pair d1 d2)"
  by (simp add: codec_def enc_pair_def dec_pair_def)

primrec enc_items :: "('a \<Rightarrow> bytes) \<Rightarrow> 'a list \<Rightarrow> bytes" where
  "enc_items e [] = []"
| "enc_items e (x # xs) = e x @ enc_items e xs"

primrec dec_items :: "'a decoder \<Rightarrow> nat \<Rightarrow> 'a list decoder" where
  "dec_items d 0 bs = Some ([], bs)"
| "dec_items d (Suc n) bs =
     (case d bs of
        None \<Rightarrow> None
      | Some (x, r1) \<Rightarrow> (case dec_items d n r1 of None \<Rightarrow> None | Some (xs, r2) \<Rightarrow> Some (x # xs, r2)))"

definition enc_list :: "('a \<Rightarrow> bytes) \<Rightarrow> 'a list \<Rightarrow> bytes" where
  "enc_list e xs = enc_nat (length xs) @ enc_items e xs"

definition dec_list :: "'a decoder \<Rightarrow> 'a list decoder" where
  "dec_list d bs = (case dec_nat bs of None \<Rightarrow> None | Some (n, rest) \<Rightarrow> dec_items d n rest)"

lemma codec_list [codec_laws]: "codec e d \<Longrightarrow> codec (enc_list e) (dec_list d)"
proof -
  assume law: "codec e d"
  have "dec_items d (length xs) (enc_items e xs @ rest) = Some (xs, rest)" for xs rest
    using law by (induction xs) (auto simp: codec_def)
  then show ?thesis using codec_nat by (simp add: codec_def enc_list_def dec_list_def)
qed

definition enc_word :: "'a::len word \<Rightarrow> bytes" where "enc_word = enc_map unat enc_nat"
definition dec_word :: "'a::len word decoder" where "dec_word = dec_map of_nat dec_nat"

lemma codec_word [codec_laws]: "codec enc_word dec_word"
  unfolding enc_word_def dec_word_def by (intro codec_map codec_laws) simp

definition enc_string :: "string \<Rightarrow> bytes" where "enc_string = enc_list (enc_map of_char enc_nat)"
definition dec_string :: "string decoder" where "dec_string = dec_list (dec_map char_of dec_nat)"

lemma codec_string [codec_laws]: "codec enc_string dec_string"
  unfolding enc_string_def dec_string_def by (intro codec_laws codec_map) simp

section \<open>Transfer records\<close>

primrec contract_id_bytes :: "contract_id \<Rightarrow> bytes" where "contract_id_bytes (ContractId b) = b"
primrec contract_hash_bytes :: "contract_hash \<Rightarrow> bytes" where "contract_hash_bytes (ContractHash b) = b"
primrec transfer_hash_bytes :: "transfer_hash \<Rightarrow> bytes" where "transfer_hash_bytes (TransferHash b) = b"
primrec encoding_id_word :: "encoding_id \<Rightarrow> u16" where "encoding_id_word (EncodingId w) = w"

definition enc_bytes :: "bytes \<Rightarrow> bytes" where "enc_bytes = enc_list enc_word"
definition dec_bytes :: "bytes decoder" where "dec_bytes = dec_list dec_word"

lemma codec_bytes [codec_laws]: "codec enc_bytes dec_bytes"
  unfolding enc_bytes_def dec_bytes_def by (intro codec_laws)

definition "enc_cid = enc_map contract_id_bytes enc_bytes"
definition "dec_cid = dec_map ContractId dec_bytes"
definition "enc_chash = enc_map contract_hash_bytes enc_bytes"
definition "dec_chash = dec_map ContractHash dec_bytes"
definition "enc_thash = enc_map transfer_hash_bytes enc_bytes"
definition "dec_thash = dec_map TransferHash dec_bytes"
definition "enc_encid = enc_map encoding_id_word enc_word"
definition "dec_encid = dec_map EncodingId dec_word"
definition "enc_side = enc_map (\<lambda>s. case s of SideInput \<Rightarrow> 0 | SideOutput \<Rightarrow> 1) enc_nat"
definition "dec_side = dec_map (\<lambda>n. if n = 0 then SideInput else SideOutput) dec_nat"

lemma codec_cid [codec_laws]: "codec enc_cid dec_cid"
proof -
  have "ContractId (contract_id_bytes x) = x" for x by (cases x) simp
  then show ?thesis unfolding enc_cid_def dec_cid_def by (intro codec_map codec_laws)
qed

lemma codec_chash [codec_laws]: "codec enc_chash dec_chash"
proof -
  have "ContractHash (contract_hash_bytes x) = x" for x by (cases x) simp
  then show ?thesis unfolding enc_chash_def dec_chash_def by (intro codec_map codec_laws)
qed

lemma codec_thash [codec_laws]: "codec enc_thash dec_thash"
proof -
  have "TransferHash (transfer_hash_bytes x) = x" for x by (cases x) simp
  then show ?thesis unfolding enc_thash_def dec_thash_def by (intro codec_map codec_laws)
qed

lemma codec_encid [codec_laws]: "codec enc_encid dec_encid"
proof -
  have "EncodingId (encoding_id_word x) = x" for x by (cases x) simp
  then show ?thesis unfolding enc_encid_def dec_encid_def by (intro codec_map codec_laws)
qed

lemma codec_side [codec_laws]: "codec enc_side dec_side"
  unfolding enc_side_def dec_side_def
  by (intro codec_map codec_laws) (simp split: contract_side.split)

definition enc_envelope :: "tensor_envelope \<Rightarrow> bytes" where
  "enc_envelope = enc_map
     (\<lambda>e. (te_envelope_version e, te_contract_id e, te_contract_version e, te_contract_hash e,
        te_side e, te_tensor_encoding e, te_metadata_encoding e, te_metadata_len e, te_tensor_len e))
     (enc_pair enc_word (enc_pair enc_cid (enc_pair enc_word (enc_pair enc_chash (enc_pair enc_side
        (enc_pair enc_encid (enc_pair enc_encid (enc_pair enc_word enc_word))))))))"

definition dec_envelope :: "tensor_envelope decoder" where
  "dec_envelope = dec_map
     (\<lambda>(v, i, cv, h, s, te, me, ml, tl). \<lparr>te_envelope_version = v, te_contract_id = i,
        te_contract_version = cv, te_contract_hash = h, te_side = s, te_tensor_encoding = te,
        te_metadata_encoding = me, te_metadata_len = ml, te_tensor_len = tl\<rparr>)
     (dec_pair dec_word (dec_pair dec_cid (dec_pair dec_word (dec_pair dec_chash (dec_pair dec_side
        (dec_pair dec_encid (dec_pair dec_encid (dec_pair dec_word dec_word))))))))"

lemma codec_envelope [codec_laws]: "codec enc_envelope dec_envelope"
  unfolding enc_envelope_def dec_envelope_def by (intro codec_map codec_laws) simp

definition enc_begin :: "transfer_begin \<Rightarrow> bytes" where
  "enc_begin = enc_map
     (\<lambda>b. (tb_protocol_version b, tb_transfer_id b, tb_envelope b, tb_tensor_header b,
        tb_expected_chunks b, tb_expected_len b, tb_expected_hash b, tb_deadline_unix_ms b,
        tb_authorization_hash b))
     (enc_pair enc_word (enc_pair enc_word (enc_pair enc_envelope (enc_pair enc_bytes
        (enc_pair enc_word (enc_pair enc_word (enc_pair enc_thash (enc_pair enc_word enc_thash))))))))"

definition dec_begin :: "transfer_begin decoder" where
  "dec_begin = dec_map
     (\<lambda>(v, i, e, h, n, l, eh, dl, ah). \<lparr>tb_protocol_version = v, tb_transfer_id = i, tb_envelope = e,
        tb_tensor_header = h, tb_expected_chunks = n, tb_expected_len = l, tb_expected_hash = eh,
        tb_deadline_unix_ms = dl, tb_authorization_hash = ah\<rparr>)
     (dec_pair dec_word (dec_pair dec_word (dec_pair dec_envelope (dec_pair dec_bytes
        (dec_pair dec_word (dec_pair dec_word (dec_pair dec_thash (dec_pair dec_word dec_thash))))))))"

lemma codec_begin [codec_laws]: "codec enc_begin dec_begin"
  unfolding enc_begin_def dec_begin_def by (intro codec_map codec_laws) simp

definition enc_chunk :: "transfer_chunk \<Rightarrow> bytes" where
  "enc_chunk = enc_map (\<lambda>c. (tc_index c, tc_object_id c, tc_len c, tc_hash c))
     (enc_pair enc_word (enc_pair enc_word (enc_pair enc_word enc_thash)))"

definition dec_chunk :: "transfer_chunk decoder" where
  "dec_chunk = dec_map
     (\<lambda>(i, obj, l, h). \<lparr>tc_index = i, tc_object_id = obj, tc_len = l, tc_hash = h\<rparr>)
     (dec_pair dec_word (dec_pair dec_word (dec_pair dec_word dec_thash)))"

lemma codec_chunk [codec_laws]: "codec enc_chunk dec_chunk"
  unfolding enc_chunk_def dec_chunk_def by (intro codec_map codec_laws) simp

text \<open>A tag byte selects the constructor.\<close>

primrec sample_encode :: "transfer_record \<Rightarrow> bytes" where
  "sample_encode (InProgress b cs r) =
     0 # enc_pair enc_begin (enc_pair (enc_list enc_chunk) enc_word) (b, cs, r)"
| "sample_encode (Committed m) =
     1 # enc_pair enc_begin (enc_pair (enc_list enc_chunk) enc_word)
           (tm_begin m, tm_chunks m, tm_committed_unix_ms m)"
| "sample_encode (Aborted a) =
     2 # enc_pair enc_begin (enc_pair enc_string enc_word) (ta_begin a, ta_reason a, ta_aborted_unix_ms a)"

fun sample_decode :: "bytes \<Rightarrow> transfer_record option" where
  "sample_decode [] = None"
| "sample_decode (t # bs) =
     (if t = 0 then
        map_option (\<lambda>((b, cs, r), _). InProgress b cs r)
          (dec_pair dec_begin (dec_pair (dec_list dec_chunk) dec_word) bs)
      else if t = 1 then
        map_option (\<lambda>((b, cs, ms), _). Committed \<lparr>tm_begin = b, tm_chunks = cs, tm_committed_unix_ms = ms\<rparr>)
          (dec_pair dec_begin (dec_pair (dec_list dec_chunk) dec_word) bs)
      else if t = 2 then
        map_option (\<lambda>((b, why, ms), _). Aborted \<lparr>ta_begin = b, ta_reason = why, ta_aborted_unix_ms = ms\<rparr>)
          (dec_pair dec_begin (dec_pair dec_string dec_word) bs)
      else None)"

lemma codec_apply: "codec e d \<Longrightarrow> d (e x) = Some (x, [])"
  by (metis append.right_neutral codec_def)

lemma sample_decode_encode: "sample_decode (sample_encode r) = Some r"
proof -
  have a: "codec (enc_pair enc_begin (enc_pair (enc_list enc_chunk) enc_word))
      (dec_pair dec_begin (dec_pair (dec_list dec_chunk) (dec_word :: u64 decoder)))"
    and b: "codec (enc_pair enc_begin (enc_pair enc_string enc_word))
      (dec_pair dec_begin (dec_pair dec_string (dec_word :: u64 decoder)))"
    by (intro codec_laws)+
  show ?thesis by (cases r) (simp_all add: codec_apply [OF a] codec_apply [OF b])
qed

text \<open>Decimal text is an injective name for identifiers and begins with a digit.\<close>

definition sample_uuid_text :: "uuid \<Rightarrow> string" where
  "sample_uuid_text i = show_nat (unat i)"

lemma of_char_digit: "d < 10 \<Longrightarrow> of_char (digit_char d) = (48 + d :: nat)"
  by simp

lemma digit_char_inj: "d < 10 \<Longrightarrow> d' < 10 \<Longrightarrow> digit_char d = digit_char d' \<Longrightarrow> d = d'"
  using of_char_digit [of d] of_char_digit [of d'] by simp

lemma show_nat_inj: "show_nat m = show_nat n \<Longrightarrow> m = n"
proof (induction m arbitrary: n rule: show_nat.induct)
  case (1 m)
  show ?case
  proof (cases "m < 10"; cases "n < 10")
    assume "m < 10" "n < 10"
    with 1(2) show "m = n" by (simp add: show_nat.simps [of m] show_nat.simps [of n] digit_char_inj)
  next
    assume mn: "m < 10" "\<not> n < 10"
    with 1(2) have "show_nat (n div 10) = []" by (simp add: show_nat.simps [of m] show_nat.simps [of n])
    then show "m = n" by (simp add: show_nat_nonempty)
  next
    assume mn: "\<not> m < 10" "n < 10"
    with 1(2) have "show_nat (m div 10) = []" by (simp add: show_nat.simps [of m] show_nat.simps [of n])
    then show "m = n" by (simp add: show_nat_nonempty)
  next
    assume mn: "\<not> m < 10" "\<not> n < 10"
    with 1(2) have "show_nat (m div 10) = show_nat (n div 10)" "digit_char (m mod 10) = digit_char (n mod 10)"
      by (simp_all add: show_nat.simps [of m] show_nat.simps [of n] del: digit_char.simps)
    with 1(1) mn have "m div 10 = n div 10" "m mod 10 = n mod 10"
      by (auto intro: digit_char_inj)
    then show "m = n" by (metis div_mult_mod_eq)
  qed
qed

lemma inj_sample_uuid_text: "inj sample_uuid_text"
  by (rule injI) (metis sample_uuid_text_def show_nat_inj unsigned_word_eqI)

lemma sample_uuid_text_digit: "hd (sample_uuid_text i) \<noteq> CHR ''t''"
proof -
  have "hd (show_nat (unat i)) \<in> set (show_nat (unat i))"
    by (simp add: show_nat_nonempty)
  then obtain d where d: "d < 10" "hd (show_nat (unat i)) = digit_char d"
    using show_nat_digits by blast
  have "of_char (digit_char d) \<noteq> (of_char (CHR ''t'') :: nat)"
    using d(1) by (subst of_char_digit) simp_all
  then show ?thesis using d(2) unfolding sample_uuid_text_def by metis
qed

end
