(* ===== verification/Void_Objects.thy ===== *)
theory Void_Objects
  imports Void_Backend Sample_Codec
begin

text \<open>
  The plain object service over the in-memory backends: the contracts of \<open>Void_Backend\<close>
  hold for them, and with them the properties of uploads, multipart uploads and downloads.
\<close>

lemma mem_reliable:
  "mem_env E \<Longrightarrow> reliable_backend E mos_map mos_multipart (\<lambda>m. m)"
  by (intro reliable_backend.intro void_backend.intro void_backend_axioms.intro)
     (simp_all add: mem_env_def mem_os.reliable_object_store_axioms mem_vs.reliable_void_store_axioms
        mem_os.object_store_spec_axioms mem_vs.void_store_spec_axioms)

lemma mem_backend: "mem_env E \<Longrightarrow> void_backend E mos_map mos_multipart (\<lambda>m. m)"
  by (rule reliable_backend.axioms(1) [OF mem_reliable])

text \<open>A concrete environment.\<close>

definition sample_env :: "(mem_object_store, mem_store) void_env" where
  "sample_env = \<lparr>ve_objects = mem_object_ops, ve_meta = mem_store_ops, ve_sha256 = (\<lambda>d. d),
     ve_uuid_text = sample_uuid_text, ve_encode = sample_encode, ve_decode = sample_decode\<rparr>"

lemma sample_uuid_text_unmanaged: "\<not> managed_key (sample_uuid_text i)"
proof
  assume "managed_key (sample_uuid_text i)"
  then have "hd (sample_uuid_text i) = CHR ''t''"
    by (cases "sample_uuid_text i")
       (auto simp: managed_key_def IMMUTABLE_TRANSFER_CHUNK_PREFIX_def TRANSFER_RECORD_PREFIX_def)
  then show False using sample_uuid_text_digit by blast
qed

lemma sample_env: "mem_env sample_env"
  by (simp add: mem_env_def sound_env_def sample_env_def inj_sample_uuid_text sample_decode_encode
      sample_uuid_text_unmanaged)

interpretation sample: reliable_backend sample_env mos_map mos_multipart "\<lambda>m. m"
  by (rule mem_reliable [OF sample_env])

definition sample_ctx :: "(mem_object_store, mem_store) void_context" where
  "sample_ctx = \<lparr>object_namespace = ''ns'', object_store = mem_new, store = Map.empty,
     registry = \<lparr>wr_waiters = Map.empty, wr_next = 0, wr_woken = []\<rparr>,
     multipart_uploads = Map.empty, active_transfers = []\<rparr>"

definition sample_readings :: readings where
  "sample_readings = \<lparr>rd_now_check = 10, rd_now_stamp = 11, rd_uuid = 77, rd_session = ''s''\<rparr>"

section \<open>Uploads and downloads as a map\<close>

lemma mem_download_eq:
  "mem_env E \<Longrightarrow> mem_view ctx i = Some d \<Longrightarrow> handle_download E i ctx = (VDownloaded d, ctx)"
  unfolding mem_view_def by (rule reliable_backend.handle_download_eq [OF mem_reliable])

text \<open>
  C1: an upload through the server implements the update of a map from object identifiers to
  bytes. If the identifier is not managed by the transfer protocol and the data fits a frame,
  the upload is acknowledged, a later download returns exactly the uploaded bytes, every
  other object is what it was, and the keys of the metadata keep their shape.
\<close>

theorem upload_refines_map_update:
  assumes "mem_env E" and "keys_ok (ve_uuid_text E) (store ctx)"
    and "length data \<le> S3_MAX_FRAME_SIZE"
    and "\<And>r. store ctx i = Some r \<Longrightarrow> \<not> managed_key (rec_key r)"
    and "handle_upload E R (Some i) data ctx = (resp, ctx')"
  shows "resp = VUploaded i \<and> mem_view ctx' = (mem_view ctx)(i \<mapsto> data)
    \<and> handle_download E i ctx' = (VDownloaded data, ctx')
    \<and> keys_ok (ve_uuid_text E) (store ctx')"
proof -
  have sound: "sound_env E" using assms(1) by (simp add: mem_env_def)
  obtain ctx1 where u: "handle_upload E R (Some i) data ctx = (VUploaded i, ctx1)"
    "mos_map (object_store ctx1) = (mos_map (object_store ctx))(ve_uuid_text E i \<mapsto> data)"
    "store ctx1 = (store ctx)(i \<mapsto> \<lparr>rec_id = i, rec_bucket = object_namespace ctx,
       rec_key = ve_uuid_text E i, rec_size_bytes = size_i64 (length data)\<rparr>)"
    using reliable_backend.handle_upload_ok [OF mem_reliable [OF assms(1)], where data = data
        and ctx = ctx and i = i and given = "Some i" and R = R]
      assms(3,4) by auto
  have ctx': "resp = VUploaded i" "ctx' = ctx1" using u(1) assms(5) by simp_all
  have view: "mem_view ctx' = (mem_view ctx)(i \<mapsto> data)"
    unfolding ctx' mem_view_def u(2,3) by (rule visible_upload [OF sound assms(2)]) simp
  have "keys_ok (ve_uuid_text E) (store ctx')"
    unfolding ctx' u(3) by (rule keys_ok_upd [OF assms(2)]) simp
  then show ?thesis
    using ctx' view mem_download_eq [OF assms(1), of ctx' i data] by simp
qed

lemma upload_refines_map_update_witness:
  "fst (handle_upload sample_env sample_readings (Some 5) [1, 2, 3] sample_ctx) = VUploaded 5"
  by (rule upload_refines_map_update [OF sample_env _ _ _ prod.collapse [symmetric], THEN conjunct1])
     (simp_all add: sample_ctx_def S3_MAX_FRAME_SIZE_def)

text \<open>
  C2: a ranged download returns the window of the object that starts at the offset and has the
  requested length, cut at the end of the object, for every offset and length of 64 bits.
\<close>

theorem download_range_window:
  assumes "mem_env E" and "mem_view ctx i = Some d" and "length d < 2 ^ 64"
  shows "handle_download_range E i off len ctx
    = (VDownloaded (take (unat len) (drop (unat off) d)), ctx)"
  using assms(2,3) unfolding mem_view_def
  by (rule reliable_backend.handle_download_range_eq [OF mem_reliable [OF assms(1)]])

lemma download_range_window_witness:
  "fst (handle_download_range sample_env 5 1 (- 1)
     (snd (handle_upload sample_env sample_readings (Some 5) [1, 2, 3] sample_ctx))) = VDownloaded [2, 3]"
proof -
  let ?ctx = "snd (handle_upload sample_env sample_readings (Some 5) [1, 2, 3] sample_ctx)"
  have "mem_view ?ctx 5 = Some [1, 2, 3]"
    by (simp add: handle_upload_def sample_env_def sample_ctx_def mem_store_defs mem_object_defs Let_def
        S3_MAX_FRAME_SIZE_def announce_upload_def mem_view_def visible_def)
  from download_range_window [OF sample_env this, of 1 "- 1"]
  show ?thesis by (simp add: unsigned_minus_1_eq_mask mask_eq_exp_minus_1)
qed

text \<open>
  C3: a plain upload cannot touch an object of the transfer protocol. When the metadata of the
  identifier carries a managed key, the upload is an error and the server state is unchanged.
\<close>

theorem upload_refuses_managed:
  assumes "mem_env E" and "store ctx i = Some r" and "managed_key (rec_key r)"
  shows "\<exists>e. handle_upload E R (Some i) data ctx = (VError e, ctx)"
  using reliable_backend.handle_upload_refused [OF mem_reliable [OF assms(1)], where ctx = ctx and i = i
      and r = r and given = "Some i"] assms(2,3) by simp

lemma upload_refuses_managed_witness:
  "\<exists>e. handle_upload sample_env sample_readings (Some 5) [1] (sample_ctx\<lparr>store := [5 \<mapsto>
      \<lparr>rec_id = 5, rec_bucket = ''ns'', rec_key = TRANSFER_RECORD_PREFIX @ ''5'', rec_size_bytes = 3\<rparr>]\<rparr>)
    = (VError e, sample_ctx\<lparr>store := [5 \<mapsto>
      \<lparr>rec_id = 5, rec_bucket = ''ns'', rec_key = TRANSFER_RECORD_PREFIX @ ''5'', rec_size_bytes = 3\<rparr>]\<rparr>)"
  by (rule upload_refuses_managed [OF sample_env]) (simp, simp)

section \<open>Multipart uploads\<close>

text \<open>
  C4: a multipart upload stores the concatenation of its parts by part number, whatever the
  order in which the parts arrive and however often a part is sent again; the last data sent
  for a part number counts. The hypothesis says that the parts sent are exactly the numbers
  from 1 to the declared count.
\<close>

theorem multipart_assembles:
  assumes "mem_env E" and "keys_ok (ve_uuid_text E) (store ctx)" and "multipart_uploads ctx i = None"
    and "0 < k" and "k \<le> MAX_MULTIPART_PARTS" and "fst ` set ps = {n. 0 < n \<and> n \<le> k}"
    and "handle_upload_finish E i k
           (upload_parts E i ps (snd (handle_upload_begin E R (Some i) declared ctx))) = (resp, ctx')"
  shows "resp = VUploaded i
    \<and> mem_view ctx' i = Some (concat (map (\<lambda>n. the (map_of (rev ps) n)) (expected_parts k)))
    \<and> (\<forall>j. j \<noteq> i \<longrightarrow> mem_view ctx' j = mem_view ctx j)"
proof -
  note rb = mem_reliable [OF assms(1)]
  have sound: "sound_env E" using assms(1) by (simp add: mem_env_def)
  let ?c1 = "snd (handle_upload_begin E R (Some i) declared ctx)"
  let ?c2 = "upload_parts E i ps ?c1"
  let ?m = "map_of (rev ps)"
  have fl1: "reliable_backend.in_flight mos_multipart ?c1 i Map.empty"
    using reliable_backend.upload_begin_in_flight(1) [OF rb assms(3), where given = "Some i"] by simp
  have nums: "0 < fst p \<and> fst p \<le> MAX_MULTIPART_PARTS" if "p \<in> set ps" for p
    using that assms(5,6) by (metis (mono_tags, lifting) image_eqI mem_Collect_eq order.trans)
  have fl2: "reliable_backend.in_flight mos_multipart ?c2 i ?m"
    using reliable_backend.upload_parts_in_flight [OF rb fl1 nums] by simp
  have dom: "dom ?m = {n. 0 < n \<and> n \<le> k}" using assms(6) by (simp add: dom_map_of_conv_image_fst)
  have same: "mos_map (object_store ?c2) = mos_map (object_store ctx) \<and> store ?c2 = store ctx"
    using void_backend.upload_parts_effect [OF mem_backend [OF assms(1)], of i ps ?c1]
      void_backend.handle_upload_begin_effect [OF mem_backend [OF assms(1)] prod.collapse [symmetric],
        of R "Some i" declared ctx] by simp
  obtain ctx2 b n where f: "handle_upload_finish E i k ?c2 = (VUploaded i, ctx2)"
    "mos_map (object_store ctx2) = (mos_map (object_store ?c2))(ve_uuid_text E i \<mapsto>
       concat (map (\<lambda>n. the (?m n)) (expected_parts k)))"
    "store ctx2 = (store ?c2)(i \<mapsto> \<lparr>rec_id = i, rec_bucket = b, rec_key = ve_uuid_text E i, rec_size_bytes = n\<rparr>)"
    by (rule reliable_backend.upload_finish_ok [OF rb fl2 assms(4,5) dom]) blast
  have "mem_view ctx2 = (mem_view ctx)(i \<mapsto> concat (map (\<lambda>n. the (?m n)) (expected_parts k)))"
    unfolding mem_view_def f(2,3) same [THEN conjunct1] same [THEN conjunct2]
    by (rule visible_upload [OF sound assms(2)]) simp
  then show ?thesis using f(1) assms(7) by simp
qed

lemma multipart_assembles_witness:
  "mem_view (snd (handle_upload_finish sample_env 5 2 (upload_parts sample_env 5
      [(2, [9]), (1, [7]), (2, [8])]
      (snd (handle_upload_begin sample_env sample_readings (Some 5) 3 sample_ctx))))) 5 = Some [7, 8]"
proof -
  have parts: "fst ` set [(2, [9]), (1, [7]), (2, [8 :: 8 word])] = {n :: u32. 0 < n \<and> n \<le> 2}"
  proof -
    have "n = 1 \<or> n = 2" if "0 < n" "n \<le> 2" for n :: u32
    proof -
      from that have "unat n = 1 \<or> unat n = 2" by (auto simp: word_le_nat_alt word_less_nat_alt)
      then show ?thesis by (metis of_nat_1 of_nat_numeral of_nat_unat ucast_id)
    qed
    then show ?thesis by auto
  qed
  have exp: "expected_parts 2 = [1, 2]" by (simp add: expected_parts_def upt_rec)
  show ?thesis
    using multipart_assembles [OF sample_env _ _ _ _ parts prod.collapse [symmetric],
        of sample_ctx 5 sample_readings 3]
    by (simp add: sample_ctx_def MAX_MULTIPART_PARTS_def exp)
qed

text \<open>
  a multipart upload with a gap is not published. If the parts sent are not exactly the
  numbers from 1 to the declared count, finishing is an error, no object changes, and the
  session is gone, so that a retry starts afresh.
\<close>

theorem multipart_gap_rejected:
  assumes "mem_env E" and "multipart_uploads ctx i = None"
    and "0 < k" and "k \<le> MAX_MULTIPART_PARTS" and "fst ` set ps \<noteq> {n. 0 < n \<and> n \<le> k}"
    and "\<And>p. p \<in> set ps \<Longrightarrow> 0 < fst p \<and> fst p \<le> MAX_MULTIPART_PARTS"
    and "handle_upload_finish E i k
           (upload_parts E i ps (snd (handle_upload_begin E R (Some i) declared ctx))) = (resp, ctx')"
  shows "(\<exists>n. resp = VError (EPartsMismatch i n k)) \<and> mem_view ctx' = mem_view ctx
    \<and> multipart_uploads ctx' i = None"
proof -
  note rb = mem_reliable [OF assms(1)]
  let ?c1 = "snd (handle_upload_begin E R (Some i) declared ctx)"
  let ?c2 = "upload_parts E i ps ?c1"
  have fl1: "reliable_backend.in_flight mos_multipart ?c1 i Map.empty"
    using reliable_backend.upload_begin_in_flight(1) [OF rb assms(2), where given = "Some i"] by simp
  have fl2: "reliable_backend.in_flight mos_multipart ?c2 i (map_of (rev ps))"
    using reliable_backend.upload_parts_in_flight [OF rb fl1 assms(6)] by simp
  have dom: "dom (map_of (rev ps)) \<noteq> {n. 0 < n \<and> n \<le> k}" using assms(5) by (simp add: dom_map_of_conv_image_fst)
  have same: "mos_map (object_store ?c2) = mos_map (object_store ctx) \<and> store ?c2 = store ctx"
    using void_backend.upload_parts_effect [OF mem_backend [OF assms(1)], of i ps ?c1]
      void_backend.handle_upload_begin_effect [OF mem_backend [OF assms(1)] prod.collapse [symmetric],
        of R "Some i" declared ctx] by simp
  show ?thesis
    by (rule reliable_backend.upload_finish_gap [OF rb fl2 assms(3,4) dom])
       (use same assms(7) in \<open>auto simp: mem_view_def\<close>)
qed

lemma multipart_gap_rejected_witness:
  "mem_view (snd (handle_upload_finish sample_env 5 2 (upload_parts sample_env 5 [(2, [9])]
      (snd (handle_upload_begin sample_env sample_readings (Some 5) 3 sample_ctx))))) = mem_view sample_ctx"
proof -
  have parts: "fst ` set [(2 :: u32, [9 :: 8 word])] \<noteq> {n :: u32. 0 < n \<and> n \<le> 2}"
  proof
    assume "fst ` set [(2 :: u32, [9 :: 8 word])] = {n :: u32. 0 < n \<and> n \<le> 2}"
    then have "(1 :: u32) \<in> {2}" by auto
    then show False by simp
  qed
  show ?thesis
    using multipart_gap_rejected [OF sample_env _ _ _ parts _ prod.collapse [symmetric],
        of sample_ctx 5 sample_readings 3]
    by (simp add: sample_ctx_def MAX_MULTIPART_PARTS_def)
qed

text \<open>
  the size recorded for a multipart object counts every part that was sent, also the data
  that a later upload of the same part replaced: after two uploads of part 1 the metadata
  claims more bytes than the object has.
\<close>

theorem multipart_size_counts_replaced_parts:
  "let ctx = snd (handle_upload_finish sample_env 5 1 (upload_parts sample_env 5 [(1, [1, 2]), (1, [3])]
        (snd (handle_upload_begin sample_env sample_readings (Some 5) 1 sample_ctx))))
   in mem_view ctx 5 = Some [3] \<and> map_option rec_size_bytes (store ctx 5) = Some 3"
  by (simp add: sample_env_def sample_ctx_def sample_readings_def handle_upload_begin_def
      handle_upload_part_def handle_upload_finish_def mem_object_defs mem_store_defs mem_new_def Let_def
      MAX_MULTIPART_PARTS_def expected_parts_def announce_upload_def mem_view_def visible_def sat_add_def
      split: prod.splits)

section \<open>Waiting downloads\<close>

text \<open>
  C5: a download that waits for a missing object delivers it when it is uploaded while the
  download waits: the response carries exactly the uploaded bytes.
\<close>

theorem download_wait_delivers:
  assumes "mem_env E" and "keys_ok (ve_uuid_text E) (store ctx)" and "store ctx i = None"
    and "0 < ms" and "ms \<le> MAX_DOWNLOAD_WAIT_TIMEOUT_MS" and "length data \<le> S3_MAX_FRAME_SIZE"
    and "ws_before W = (\<lambda>c. c)" and "ws_gap W = (\<lambda>c. c)"
    and "ws_during W = (\<lambda>c. snd (handle_upload E R (Some i) data c))"
  shows "fst (handle_download_wait E W i ms ctx) = VDownloaded data"
proof -
  have ops: "ve_meta E = mem_store_ops" and sound: "sound_env E" using assms(1) by (auto simp: mem_env_def)
  obtain n reg where w: "waiter_for i (registry ctx) = (n, reg)" by force
  have reg: "wr_waiters reg i = Some n" using waiter_for_registers [of i "registry ctx"] w by simp
  let ?c2 = "ctx\<lparr>registry := reg\<rparr>"
  have miss: "try_download E ctx i = Missing" "try_download E ?c2 i = Missing"
    using assms(3) by (simp_all add: try_download_def ops mem_store_defs)
  obtain c4 where c4: "handle_upload E R (Some i) data ?c2 = (VUploaded i, c4)"
    "mos_map (object_store c4) = (mos_map (object_store ctx))(ve_uuid_text E i \<mapsto> data)"
    "store c4 = (store ctx)(i \<mapsto> \<lparr>rec_id = i, rec_bucket = object_namespace ctx,
       rec_key = ve_uuid_text E i, rec_size_bytes = size_i64 (length data)\<rparr>)"
    "registry c4 = notify_upload i reg"
    using reliable_backend.handle_upload_ok [OF mem_reliable [OF assms(1)], where data = data
        and ctx = ?c2 and i = i and given = "Some i" and R = R] assms(3,6) by auto
  have woken: "wait_woken E W n ?c2 c4"
    using reg c4(4) by (simp add: wait_woken_def ops notify_upload_def)
  let ?c5 = "c4\<lparr>registry := release_if_idle i n (ws_strong W) (registry c4)\<rparr>"
  have "try_download E ?c5 i = Found data"
    using reliable_backend.try_download_eq [OF mem_reliable [OF assms(1)], of ?c5 i data] c4(2,3)
    by (simp add: visible_def)
  then show ?thesis
    using assms(4,5,7-9) miss w c4(1) woken by (auto simp: handle_download_wait_def Let_def)
qed

lemma download_wait_delivers_witness:
  "fst (handle_download_wait sample_env \<lparr>ws_before = \<lambda>c. c, ws_gap = \<lambda>c. c,
       ws_during = \<lambda>c. snd (handle_upload sample_env sample_readings (Some 5) [1, 2] c),
       ws_backend = None, ws_strong = 1\<rparr> 5 100 sample_ctx) = VDownloaded [1, 2]"
  by (rule download_wait_delivers [OF sample_env])
     (simp_all add: sample_ctx_def MAX_DOWNLOAD_WAIT_TIMEOUT_MS_def S3_MAX_FRAME_SIZE_def)

text \<open>
  a wake-up can be lost. When the object is uploaded after the second look-up of a waiting
  download and before it creates its notification future, the download times out although
  the object is stored.
\<close>

theorem download_wait_lost_wakeup:
  "let upload = (\<lambda>c. snd (handle_upload sample_env sample_readings (Some 5) [1, 2] c));
       (resp, ctx) = handle_download_wait sample_env \<lparr>ws_before = \<lambda>c. c, ws_gap = upload,
         ws_during = \<lambda>c. c, ws_backend = None, ws_strong = 1\<rparr> 5 100 sample_ctx
   in resp = VTimedOut 5 \<and> mem_view ctx 5 = Some [1, 2]"
  by (simp add: sample_env_def sample_ctx_def sample_readings_def handle_download_wait_def
      handle_upload_def mem_object_defs mem_store_defs mem_new_def Let_def S3_MAX_FRAME_SIZE_def
      MAX_DOWNLOAD_WAIT_TIMEOUT_MS_def announce_upload_def mem_view_def visible_def try_download_def
      waiter_for_def notify_upload_def release_if_idle_def wait_woken_def managed_key_def)

end
