(* ===== verification/Void_Protocol.thy ===== *)
theory Void_Protocol
  imports Transfer_Proofs Void_Objects
begin

text \<open>
  The transfer protocol as a client sees it: the reachable states of the server over the
  in-memory backends, and what holds of transfers in all of them.
\<close>

section \<open>Reachable states\<close>

definition mem_transfers :: "(mem_object_store, mem_store) void_env \<Rightarrow>
    (mem_object_store, mem_store) void_context \<Rightarrow> uuid \<rightharpoonup> transfer_record" where
  "mem_transfers E ctx = transfer_view E (mos_map (object_store ctx)) (store ctx)"

inductive server_step :: "(mem_object_store, mem_store) void_env \<Rightarrow>
    (mem_object_store, mem_store) void_context \<Rightarrow> (mem_object_store, mem_store) void_context \<Rightarrow> bool"
  for E ctx where
  ss_request: "honest E (mos_map (object_store ctx)) (store ctx) req \<Longrightarrow> quiet W \<Longrightarrow>
    server_step E ctx (snd (handle_request E R W req ctx))"
| ss_cleanup: "server_step E ctx (transfer_cleanup_pass E Rs ctx)"

definition initial :: "(mem_object_store, mem_store) void_context \<Rightarrow> bool" where
  "initial ctx \<longleftrightarrow> store ctx = Map.empty \<and> active_transfers ctx = []"

inductive reachable :: "(mem_object_store, mem_store) void_env \<Rightarrow>
    (mem_object_store, mem_store) void_context \<Rightarrow> bool" for E where
  re_init: "initial ctx \<Longrightarrow> reachable E ctx"
| re_step: "reachable E ctx \<Longrightarrow> server_step E ctx ctx' \<Longrightarrow> reachable E ctx'"

definition mem_server_inv :: "(mem_object_store, mem_store) void_env \<Rightarrow>
    (mem_object_store, mem_store) void_context \<Rightarrow> bool" where
  "mem_server_inv E ctx \<longleftrightarrow> transfer_inv E (mos_map (object_store ctx)) (store ctx)
     \<and> (\<forall>t \<in> set (active_transfers ctx). mem_transfers E ctx t \<noteq> None)"

lemma server_inv_mem:
  "mem_env E \<Longrightarrow> reliable_backend.server_inv E mos_map (\<lambda>m. m) ctx = mem_server_inv E ctx"
  by (simp add: reliable_backend.server_inv_def [OF mem_reliable] mem_server_inv_def mem_transfers_def)

lemma request_advances:
  assumes "mem_env E" "mem_server_inv E ctx" "honest E (mos_map (object_store ctx)) (store ctx) req" "quiet W"
    "target req = None \<or> target req = Some t"
  shows "mem_server_inv E (snd (handle_request E R W req ctx))"
    "transfer_step R t (mem_transfers E ctx t) (mem_transfers E (snd (handle_request E R W req ctx)) t)"
    "u \<noteq> t \<Longrightarrow> mem_transfers E (snd (handle_request E R W req ctx)) u = mem_transfers E ctx u"
  using reliable_backend.handle_request_advances [OF mem_reliable [OF assms(1)], of ctx req W t R] assms
  by (simp_all add: reliable_backend.advances_def [OF mem_reliable [OF assms(1)]] server_inv_mem mem_transfers_def)

lemma cleanup_swept:
  assumes "mem_env E" "mem_server_inv E ctx"
  shows "mem_server_inv E (transfer_cleanup_pass E Rs ctx)"
    "mem_transfers E (transfer_cleanup_pass E Rs ctx) u = mem_transfers E ctx u \<or>
     (\<exists>b cs rv a. mem_transfers E ctx u = Some (InProgress b cs rv)
        \<and> tb_deadline_unix_ms b \<le> rd_now_check (Rs u)
        \<and> mem_transfers E (transfer_cleanup_pass E Rs ctx) u = Some (Aborted a))"
  using reliable_backend.transfer_cleanup_pass_swept [OF mem_reliable [OF assms(1)], of ctx Rs] assms
  by (auto simp: reliable_backend.swept_def [OF mem_reliable [OF assms(1)]] server_inv_mem mem_transfers_def)

lemma server_step_inv:
  assumes "mem_env E" "server_step E ctx ctx'" "mem_server_inv E ctx"
  shows "mem_server_inv E ctx'"
  using assms(2)
proof cases
  case (ss_request req W R)
  obtain t where "target req = None \<or> target req = Some t" by (cases "target req") auto
  from request_advances(1) [OF assms(1,3) ss_request(2,3) this] show ?thesis using ss_request(1) by simp
next
  case ss_cleanup
  then show ?thesis using cleanup_swept(1) [OF assms(1,3)] by simp
qed

lemma initial_inv: "initial ctx \<Longrightarrow> mem_server_inv E ctx"
  by (simp add: initial_def mem_server_inv_def transfer_inv_def transfer_view_def)

lemma reachable_inv:
  assumes "mem_env E" "reachable E ctx"
  shows "mem_server_inv E ctx"
  using assms(2) by induction (auto intro: initial_inv server_step_inv [OF assms(1)])

lemma reachable_record_ok:
  assumes "mem_env E" "reachable E ctx" "mem_transfers E ctx t = Some r"
  shows "record_ok E (mos_map (object_store ctx)) (store ctx) t r"
proof -
  have "transfer_inv E (mos_map (object_store ctx)) (store ctx)"
    using reachable_inv [OF assms(1,2)] by (simp add: mem_server_inv_def)
  from transfer_invD(2) [OF this] show ?thesis using assms(3) by (simp add: mem_transfers_def)
qed

lemma server_step_terminal:
  assumes "mem_env E" "mem_server_inv E ctx" "server_step E ctx ctx'"
    and "mem_transfers E ctx t = Some r" "\<And>b cs rv. r \<noteq> InProgress b cs rv"
  shows "mem_transfers E ctx' t = Some r"
  using assms(3)
proof cases
  case (ss_request req W R)
  show ?thesis
  proof (cases "target req = None \<or> target req = Some t")
    case True
    have "transfer_step R t (Some r) (mem_transfers E ctx' t)"
      using request_advances(2) [OF assms(1,2) ss_request(2,3) True, where R = R] assms(4) ss_request(1) by simp
    then show ?thesis using assms(5) by (cases r) (auto dest: transfer_step_terminal)
  next
    case False
    then obtain u where u: "target req = Some u" "u \<noteq> t" by (cases "target req") auto
    then show ?thesis
      using request_advances(3) [OF assms(1,2) ss_request(2,3) disjI2 [OF u(1)], where u = t and R = R] assms(4)
        ss_request(1) by auto
  qed
next
  case (ss_cleanup Rs)
  then show ?thesis using cleanup_swept(2) [OF assms(1,2), of Rs t] assms(4,5) by auto
qed

section \<open>Properties of every reachable state\<close>


lemma sample_reachable: "reachable sample_env sample_ctx"
  by (rule re_init) (simp add: initial_def sample_ctx_def)

definition sample_begin :: transfer_begin where
  "sample_begin = \<lparr>tb_protocol_version = 1, tb_transfer_id = 9,
     tb_envelope = \<lparr>te_envelope_version = 1, te_contract_id = ContractId [], te_contract_version = 1,
        te_contract_hash = ContractHash [], te_side = SideInput, te_tensor_encoding = SAFETENSORS_V1,
        te_metadata_encoding = POSTCARD_V1, te_metadata_len = 0, te_tensor_len = 3\<rparr>,
     tb_tensor_header = [], tb_expected_chunks = 2, tb_expected_len = 3,
     tb_expected_hash = TransferHash [4, 5, 6], tb_deadline_unix_ms = 100,
     tb_authorization_hash = TransferHash [1]\<rparr>"

definition sample_schedule :: "(mem_object_store, mem_store) wait_schedule" where
  "sample_schedule = \<lparr>ws_before = \<lambda>c. c, ws_gap = \<lambda>c. c, ws_during = \<lambda>c. c, ws_backend = None, ws_strong = 1\<rparr>"

lemma sample_quiet [simp]: "quiet sample_schedule"
  by (simp add: quiet_def sample_schedule_def)

text \<open>The requests of a complete transfer of two chunks, the second chunk first.\<close>

definition sample_request :: "uuid \<Rightarrow> void_in \<Rightarrow> (mem_object_store, mem_store) void_context \<Rightarrow>
    (mem_object_store, mem_store) void_context" where
  "sample_request oid req ctx =
     snd (handle_request sample_env (sample_readings\<lparr>rd_uuid := oid\<rparr>) sample_schedule req ctx)"

definition sample_begun :: "(mem_object_store, mem_store) void_context" where
  "sample_begun = sample_request 0 (VTransferBegin sample_begin) sample_ctx"



lemma sample_begun_view:
  "mem_transfers sample_env sample_begun 9 = Some (InProgress sample_begin [] 0)"
proof -
  have "mem_transfers sample_env (snd (handle_transfer_begin sample_env (sample_readings\<lparr>rd_uuid := 0\<rparr>)
      sample_begin sample_ctx)) (tb_transfer_id sample_begin) = Some (InProgress sample_begin [] 0)"
    unfolding mem_transfers_def
    by (rule reliable_backend.handle_transfer_begin_ok [OF mem_reliable [OF sample_env], THEN conjunct2, THEN conjunct1])
       (simp_all add: valid_begin_def sample_begin_def sample_readings_def sample_ctx_def
          MAX_MULTIPART_PARTS_def TRANSFER_PROTOCOL_VERSION_def)
  moreover have "tb_transfer_id sample_begin = 9" by (simp add: sample_begin_def)
  ultimately show ?thesis by (simp add: sample_begun_def sample_request_def handle_request_def)
qed

lemma sample_begun_reachable: "reachable sample_env sample_begun"
  unfolding sample_begun_def sample_request_def
  by (rule re_step [OF sample_reachable ss_request])
     (simp_all add: honest_def genuine_def sample_ctx_def)



text \<open>
  a transfer in progress that is complete, whose bytes have the declared hash and whose
  lease has not expired can be committed: the commit request answers with the manifest of
  exactly its chunks, and the record is committed from then on.
\<close>

theorem complete_transfer_commits:
  assumes "mem_env E" and "reachable E ctx" and "mem_transfers E ctx t = Some (InProgress b cs rv)"
    and "complete b cs" and "rd_now_check R < tb_deadline_unix_ms b"
    and "hash_transfer E (concat (map (chunk_data E (mos_map (object_store ctx))) cs)) = tb_expected_hash b"
  shows "fst (handle_transfer_commit E R t (tb_expected_hash b) ctx)
      = VTransfer (Committed \<lparr>tm_begin = b, tm_chunks = cs, tm_committed_unix_ms = rd_now_stamp R\<rparr>)
    \<and> mem_transfers E (snd (handle_transfer_commit E R t (tb_expected_hash b) ctx)) t
      = Some (Committed \<lparr>tm_begin = b, tm_chunks = cs, tm_committed_unix_ms = rd_now_stamp R\<rparr>)"
proof -
  have inv: "reliable_backend.server_inv E mos_map (\<lambda>m. m) ctx"
    using reachable_inv [OF assms(1,2)] by (simp add: server_inv_mem [OF assms(1)])
  show ?thesis
    using reliable_backend.handle_transfer_commit_ok [OF mem_reliable [OF assms(1)] inv
        assms(3) [unfolded mem_transfers_def] assms(4,5,6)]
    by (simp add: mem_transfers_def)
qed

definition empty_begin :: transfer_begin where
  "empty_begin = sample_begin\<lparr>tb_expected_chunks := 0, tb_expected_len := 0, tb_expected_hash := TransferHash []\<rparr>"

definition empty_begun :: "(mem_object_store, mem_store) void_context" where
  "empty_begun = snd (handle_request sample_env sample_readings sample_schedule (VTransferBegin empty_begin) sample_ctx)"

definition empty_committed :: "(mem_object_store, mem_store) void_context" where
  "empty_committed = snd (handle_request sample_env sample_readings sample_schedule
     (VTransferCommit 9 (TransferHash [])) empty_begun)"

lemma empty_begun_view:
  "mem_transfers sample_env empty_begun 9 = Some (InProgress empty_begin [] 0)"
proof -
  have "mem_transfers sample_env (snd (handle_transfer_begin sample_env sample_readings
      empty_begin sample_ctx)) (tb_transfer_id empty_begin) = Some (InProgress empty_begin [] 0)"
    unfolding mem_transfers_def
    by (rule reliable_backend.handle_transfer_begin_ok [OF mem_reliable [OF sample_env], THEN conjunct2, THEN conjunct1])
       (simp_all add: valid_begin_def empty_begin_def sample_begin_def sample_readings_def sample_ctx_def
          MAX_MULTIPART_PARTS_def TRANSFER_PROTOCOL_VERSION_def)
  moreover have "tb_transfer_id empty_begin = 9" by (simp add: empty_begin_def sample_begin_def)
  ultimately show ?thesis by (simp add: empty_begun_def handle_request_def)
qed

lemma empty_begun_reachable: "reachable sample_env empty_begun"
  unfolding empty_begun_def
  by (rule re_step [OF sample_reachable ss_request])
     (simp_all add: honest_def genuine_def sample_ctx_def)

lemma view_genuine:
  "mem_transfers E ctx t = Some r \<Longrightarrow> genuine E (mos_map (object_store ctx)) (store ctx) t"
  by (auto simp: mem_transfers_def transfer_view_def genuine_def split: option.splits if_splits)

lemma complete_transfer_commits_witness:
  "fst (handle_transfer_commit sample_env sample_readings 9 (TransferHash []) empty_begun)
    = VTransfer (Committed \<lparr>tm_begin = empty_begin, tm_chunks = [], tm_committed_unix_ms = 11\<rparr>)"
proof -
  have "tb_expected_hash empty_begin = TransferHash []" "complete empty_begin []"
    "rd_now_check sample_readings < tb_deadline_unix_ms empty_begin" "rd_now_stamp sample_readings = 11"
    by (simp_all add: empty_begin_def complete_def sample_begin_def sample_readings_def)
  then show ?thesis
    using complete_transfer_commits [OF sample_env empty_begun_reachable empty_begun_view, of sample_readings]
    by (simp add: hash_transfer_def sample_env_def)
qed

lemma empty_committed_view:
  "mem_transfers sample_env empty_committed 9
    = Some (Committed \<lparr>tm_begin = empty_begin, tm_chunks = [], tm_committed_unix_ms = 11\<rparr>)"
proof -
  have b: "tb_expected_hash empty_begin = TransferHash []" "complete empty_begin []"
    "rd_now_check sample_readings < tb_deadline_unix_ms empty_begin" "rd_now_stamp sample_readings = 11"
    by (simp_all add: empty_begin_def complete_def sample_begin_def sample_readings_def)
  have inv: "reliable_backend.server_inv sample_env mos_map (\<lambda>m. m) empty_begun"
    using reachable_inv [OF sample_env empty_begun_reachable] by (simp add: server_inv_mem [OF sample_env])
  show ?thesis
    unfolding empty_committed_def mem_transfers_def
    using reliable_backend.handle_transfer_commit_ok [OF mem_reliable [OF sample_env] inv
        empty_begun_view [unfolded mem_transfers_def] b(2,3)] b
    by (simp add: handle_request_def hash_transfer_def sample_env_def)
qed

lemma empty_committed_reachable: "reachable sample_env empty_committed"
  unfolding empty_committed_def
  by (rule re_step [OF empty_begun_reachable ss_request])
     (simp_all add: honest_def view_genuine [OF empty_begun_view])


text \<open>
  C9: an expired lease ends a transfer. If the deadline has passed when a chunk or a commit
  arrives for a transfer in progress, the request is refused, the record becomes aborted with
  the reason of expiry, and the chunks stored so far are gone.
\<close>

theorem expired_transfer_aborts:
  assumes "mem_env E" and "reachable E ctx" and "mem_transfers E ctx t = Some (InProgress b cs rv)"
    and "tb_deadline_unix_ms b \<le> rd_now_check R"
    and "req = VTransferCommit t h \<or> req = VTransferChunk t i data h"
    and "handle_request E R W req ctx = (resp, ctx')"
  shows "resp = VError (ETransfer (ENotInProgress t))
    \<and> mem_transfers E ctx' t = Some (Aborted \<lparr>ta_begin = b, ta_reason = ''transfer lease expired'',
         ta_aborted_unix_ms = rd_now_stamp R\<rparr>)
    \<and> (\<forall>c \<in> set cs. mem_view ctx' (tc_object_id c) = None)"
proof -
  have inv: "reliable_backend.server_inv E mos_map (\<lambda>m. m) ctx"
    using reachable_inv [OF assms(1,2)] by (simp add: server_inv_mem [OF assms(1)])
  obtain ctx1 where l: "load_and_expire E R t ctx = (Inr (Aborted \<lparr>ta_begin = b,
      ta_reason = ''transfer lease expired'', ta_aborted_unix_ms = rd_now_stamp R\<rparr>), ctx1)"
    "mem_transfers E ctx1 t = Some (Aborted \<lparr>ta_begin = b, ta_reason = ''transfer lease expired'',
       ta_aborted_unix_ms = rd_now_stamp R\<rparr>)"
    "\<And>c. c \<in> set cs \<Longrightarrow> store ctx1 (tc_object_id c) = None"
    using reliable_backend.load_and_expire_expired [OF mem_reliable [OF assms(1)] inv
        assms(3) [unfolded mem_transfers_def] assms(4)] unfolding mem_transfers_def by blast
  have "resp = VError (ETransfer (ENotInProgress t)) \<and> ctx' = ctx1"
    using assms(5,6) l(1)
    by (auto simp: handle_request_def handle_transfer_commit_def handle_transfer_chunk_def)
  then show ?thesis using l(2,3) by (auto simp: mem_view_def visible_def)
qed

lemma expired_transfer_aborts_witness:
  "fst (handle_request sample_env (sample_readings\<lparr>rd_now_check := 100\<rparr>) sample_schedule
     (VTransferCommit 9 (TransferHash [])) empty_begun) = VError (ETransfer (ENotInProgress 9))"
  using expired_transfer_aborts [OF sample_env empty_begun_reachable empty_begun_view _
      disjI1 [OF refl] prod.collapse [symmetric], of "sample_readings\<lparr>rd_now_check := 100\<rparr>"]
  by (simp add: empty_begin_def sample_begin_def)

text \<open>
  C10: a commit is safe over any backend that keeps the contracts, faults and all other state
  included. If the server answers a commit with a record, it is a manifest whose chunks were
  all read back at that moment, with the recorded lengths and hashes, carry the indices from 0
  to the declared count, and whose concatenation has the declared hash; the lease had not
  expired.
\<close>

theorem commit_validates_chunks:
  assumes "void_backend E contents sessions records"
    and "handle_transfer_commit E R t h ctx = (VTransfer r, ctx')"
  shows "\<exists>b cs ds. r = Committed \<lparr>tm_begin = b, tm_chunks = cs, tm_committed_unix_ms = rd_now_stamp R\<rparr>
    \<and> rd_now_check R < tb_deadline_unix_ms b \<and> length ds = length cs
    \<and> map (\<lambda>c. unat (tc_index c)) cs = [0..<unat (tb_expected_chunks b)]
    \<and> chunk_sum cs = tb_expected_len b
    \<and> (\<forall>i < length cs. visible (contents (object_store ctx)) (records (store ctx)) (tc_object_id (cs ! i))
           = Some (ds ! i) \<and> of_nat (length (ds ! i)) = tc_len (cs ! i)
         \<and> hash_transfer E (ds ! i) = tc_hash (cs ! i))
    \<and> hash_transfer E (concat ds) = tb_expected_hash b"
  by (rule void_backend.handle_transfer_commit_safe [OF assms]) blast

lemma commit_validates_chunks_witness:
  "\<exists>b cs ds. Committed \<lparr>tm_begin = empty_begin, tm_chunks = [], tm_committed_unix_ms = 11\<rparr>
      = Committed \<lparr>tm_begin = b, tm_chunks = cs, tm_committed_unix_ms = 11\<rparr>
    \<and> hash_transfer sample_env (concat ds) = tb_expected_hash b"
proof -
  have "tb_expected_hash empty_begin = TransferHash []" "complete empty_begin []"
    "rd_now_check sample_readings < tb_deadline_unix_ms empty_begin" "rd_now_stamp sample_readings = 11"
    by (simp_all add: empty_begin_def complete_def sample_begin_def sample_readings_def)
  moreover have inv: "reliable_backend.server_inv sample_env mos_map (\<lambda>m. m) empty_begun"
    using reachable_inv [OF sample_env empty_begun_reachable] by (simp add: server_inv_mem [OF sample_env])
  ultimately have "fst (handle_transfer_commit sample_env sample_readings 9 (TransferHash []) empty_begun)
    = VTransfer (Committed \<lparr>tm_begin = empty_begin, tm_chunks = [], tm_committed_unix_ms = 11\<rparr>)"
    using reliable_backend.handle_transfer_commit_ok [OF mem_reliable [OF sample_env] inv
        empty_begun_view [unfolded mem_transfers_def], of sample_readings]
    by (simp add: hash_transfer_def sample_env_def)
  then obtain c where "handle_transfer_commit sample_env sample_readings 9 (TransferHash []) empty_begun
    = (VTransfer (Committed \<lparr>tm_begin = empty_begin, tm_chunks = [], tm_committed_unix_ms = 11\<rparr>), c)"
    by (metis fst_conv surj_pair)
  from commit_validates_chunks [OF mem_backend [OF sample_env] this] show ?thesis
    by (auto intro!: exI [of _ "[]"])
qed

section \<open>What the server does not check\<close>

text \<open>Transfer handlers do not touch the multipart sessions.\<close>

lemma persist_multipart:
  "multipart_uploads (snd (persist_transfer_record E t r ctx)) = multipart_uploads ctx"
  by (simp add: persist_transfer_record_def announce_upload_def Let_def split: sum.split prod.split)

lemma begin_multipart:
  "multipart_uploads (snd (handle_transfer_begin E R b ctx)) = multipart_uploads ctx"
  using persist_multipart [of E "tb_transfer_id b" "InProgress b [] 0" ctx]
  by (auto simp: handle_transfer_begin_def Let_def split: sum.split prod.split option.split)

lemma delete_multipart:
  "multipart_uploads (delete_objects E cs ctx) = multipart_uploads ctx"
  by (induction cs arbitrary: ctx)
     (auto simp: delete_object_def Let_def split: sum.split prod.split option.split)

lemma load_and_expire_multipart:
  "multipart_uploads (snd (load_and_expire E R t ctx)) = multipart_uploads ctx"
proof -
  have "multipart_uploads (snd (abort_transfer_locked E R b cs why ctx)) = multipart_uploads ctx" for b cs why
    using persist_multipart [of E _ _ "delete_objects E cs ctx"]
    by (auto simp: abort_transfer_locked_def Let_def delete_multipart split: sum.split prod.split
        dest!: sym [of _ "multipart_uploads (snd _)"]) (metis snd_conv)+
  then show ?thesis
    by (auto simp: load_and_expire_def expire_transfer_locked_def split: sum.split transfer_record.split)
qed

lemma commit_multipart:
  "multipart_uploads (snd (handle_transfer_commit E R t h ctx)) = multipart_uploads ctx"
proof -
  obtain res ctx1 where l: "load_and_expire E R t ctx = (res, ctx1)" by force
  have "multipart_uploads ctx1 = multipart_uploads ctx"
    using load_and_expire_multipart [of E R t ctx] l by simp
  moreover have "multipart_uploads (snd (persist_transfer_record E t r ctx1)) = multipart_uploads ctx1" for r
    by (rule persist_multipart)
  ultimately show ?thesis
    using l by (auto simp: handle_transfer_commit_def Let_def split: sum.split prod.split transfer_record.split)
      (metis snd_conv)+
qed

text \<open>
  the record of a transfer is looked up without checking that it was written by the
  transfer protocol. A plain upload of the encoding of any manifest makes the server report a
  committed transfer that never took place.
\<close>

theorem plain_upload_forges_commit:
  assumes "mem_env E" and "store ctx i = None" and "length (ve_encode E (Committed m)) \<le> S3_MAX_FRAME_SIZE"
  shows "fst (handle_transfer_inspect E R i
      (snd (handle_upload E R (Some i) (ve_encode E (Committed m)) ctx))) = VTransfer (Committed m)"
proof -
  let ?d = "ve_encode E (Committed m)"
  obtain ctx1 where u: "handle_upload E R (Some i) ?d ctx = (VUploaded i, ctx1)"
    "mos_map (object_store ctx1) = (mos_map (object_store ctx))(ve_uuid_text E i \<mapsto> ?d)"
    "store ctx1 = (store ctx)(i \<mapsto> \<lparr>rec_id = i, rec_bucket = object_namespace ctx,
       rec_key = ve_uuid_text E i, rec_size_bytes = size_i64 (length ?d)\<rparr>)"
    using reliable_backend.handle_upload_ok [OF mem_reliable [OF assms(1)], where data = ?d
        and ctx = ctx and i = i and given = "Some i" and R = R] assms(2,3) by auto
  have "try_download E ctx1 i = Found ?d"
    using reliable_backend.try_download_eq [OF mem_reliable [OF assms(1)], of ctx1 i ?d] u(2,3)
    by (simp add: visible_def)
  then have "load_transfer_record E ctx1 i = Inr (Committed m)"
    using assms(1) by (simp add: load_transfer_record_def mem_env_def sound_env_def)
  then show ?thesis
    using u(1) by (simp add: handle_transfer_inspect_def load_and_expire_def expire_transfer_locked_def)
qed

lemma plain_upload_forges_commit_witness:
  "fst (handle_transfer_inspect sample_env sample_readings 5
      (snd (handle_upload sample_env sample_readings (Some 5)
        (sample_encode (Committed \<lparr>tm_begin = empty_begin, tm_chunks = [], tm_committed_unix_ms = 11\<rparr>)) sample_ctx)))
    = VTransfer (Committed \<lparr>tm_begin = empty_begin, tm_chunks = [], tm_committed_unix_ms = 11\<rparr>)"
proof -
  let ?m = "\<lparr>tm_begin = empty_begin, tm_chunks = [], tm_committed_unix_ms = 11\<rparr>"
  have enc: "ve_encode sample_env = sample_encode" by (simp add: sample_env_def)
  have "length (ve_encode sample_env (Committed ?m)) \<le> S3_MAX_FRAME_SIZE"
    by (simp add: enc empty_begin_def sample_begin_def enc_pair_def enc_begin_def enc_map_def enc_word_def
        enc_envelope_def enc_cid_def enc_chash_def enc_thash_def enc_encid_def enc_side_def enc_bytes_def
        enc_list_def enc_nat.simps SAFETENSORS_V1_def POSTCARD_V1_def S3_MAX_FRAME_SIZE_def)
  from plain_upload_forges_commit [OF sample_env _ this, of sample_ctx 5 sample_readings]
  show ?thesis by (simp add: enc sample_ctx_def)
qed

text \<open>
  finishing a multipart upload does not check whether the transfer protocol manages the
  identifier, unlike a plain upload: a multipart upload of one part onto a transfer, committed
  or not, succeeds, replaces its metadata and makes its record disappear.
\<close>

theorem multipart_replaces_transfer:
  assumes "mem_env E" and "mem_transfers E ctx t = Some r" and "multipart_uploads ctx t = None"
    and "handle_upload_finish E t 1
           (upload_parts E t [(1, d)] (snd (handle_upload_begin E R (Some t) declared ctx))) = (resp, ctx')"
  shows "resp = VUploaded t \<and> mem_transfers E ctx' t = None \<and> mem_view ctx' t = Some d"
proof -
  note rb = mem_reliable [OF assms(1)]
  have sound: "sound_env E" using assms(1) by (simp add: mem_env_def)
  let ?c1 = "snd (handle_upload_begin E R (Some t) declared ctx)"
  let ?c2 = "upload_parts E t [(1, d)] ?c1"
  have fl1: "reliable_backend.in_flight mos_multipart ?c1 t Map.empty"
    using reliable_backend.upload_begin_in_flight(1) [OF rb assms(3), where given = "Some t"] by simp
  have fl2: "reliable_backend.in_flight mos_multipart ?c2 t [1 \<mapsto> d]"
    using reliable_backend.upload_parts_in_flight [OF rb fl1, of "[(1, d)]"]
    by (simp add: MAX_MULTIPART_PARTS_def)
  have one: "n = 1" if "0 < n" "n \<le> 1" for n :: u32
    using that by (simp add: word_unat_eq_iff word_less_nat_alt word_le_nat_alt)
  have dom: "dom [1 \<mapsto> d] = {n :: u32. 0 < n \<and> n \<le> 1}" using one by auto
  obtain ctx2 b n where f: "handle_upload_finish E t 1 ?c2 = (VUploaded t, ctx2)"
    "mos_map (object_store ctx2) = (mos_map (object_store ?c2))(ve_uuid_text E t \<mapsto>
       concat (map (\<lambda>n. the ([1 \<mapsto> d] n)) (expected_parts 1)))"
    "store ctx2 = (store ?c2)(t \<mapsto> \<lparr>rec_id = t, rec_bucket = b, rec_key = ve_uuid_text E t, rec_size_bytes = n\<rparr>)"
    by (rule reliable_backend.upload_finish_ok [OF rb fl2 _ _ dom]) (simp_all add: MAX_MULTIPART_PARTS_def)
  have "expected_parts 1 = [1]" by (simp add: expected_parts_def)
  then have "mem_view ctx2 t = Some d" using f(2,3) by (simp add: mem_view_def visible_def)
  moreover have "mem_transfers E ctx2 t = None"
    using f(3) key_eqs(5) [OF sound] by (simp add: mem_transfers_def transfer_view_def)
  ultimately show ?thesis using f(1) assms(4) by simp
qed

lemma multipart_replaces_transfer_witness:
  "mem_transfers sample_env (snd (handle_upload_finish sample_env 9 1 (upload_parts sample_env 9 [(1, [3])]
      (snd (handle_upload_begin sample_env sample_readings (Some 9) 1 empty_committed))))) 9 = None"
proof -
  have "multipart_uploads empty_committed 9 = None"
    by (simp add: empty_committed_def empty_begun_def sample_ctx_def handle_request_def
        commit_multipart begin_multipart)
  from multipart_replaces_transfer [OF sample_env empty_committed_view this prod.collapse [symmetric]]
  show ?thesis by blast
qed

end
