(* ===== verification/Stream_Receiver.thy ===== *)
theory Stream_Receiver
  imports Transfer_Stream Void_Protocol
begin

text \<open>
  The receiving end of a transfer stream: what it accepts is what the ticket declares, and the
  frames a server sends for a committed transfer are accepted.
\<close>

section \<open>Soundness of the receiver\<close>

text \<open>What holds of the receiver between two frames.\<close>

definition rx_inv :: "('o, 'm) void_env \<Rightarrow> transfer_ticket \<Rightarrow> receiver \<Rightarrow> bool" where
  "rx_inv E ticket rx \<longleftrightarrow> rx_aggregate rx = rx_output rx
     \<and> (\<forall>b. rx_begin rx = Some b \<longrightarrow> stream_begin_matches E b ticket)
     \<and> take (length (tt_tensor_header ticket)) (rx_output rx)
         = take (length (rx_output rx)) (tt_tensor_header ticket)"

lemma rx_inv_init: "rx_inv E ticket rx_init"
  by (simp add: rx_inv_def rx_init_def)

lemma header_extend:
  assumes "take (length h) out = take (length out) h"
    and "min (length out) (length h) < min (length out + length d) (length h) \<Longrightarrow>
      take (min (length out + length d) (length h) - min (length out) (length h)) d
      = take (min (length out + length d) (length h) - min (length out) (length h))
          (drop (min (length out) (length h)) h)"
  shows "take (length h) (out @ d) = take (length (out @ d)) h"
proof (cases "length out < length h \<and> d \<noteq> []")
  case True
  have "take (length h - length out) d = take (length d) (drop (length out) h)"
  proof (cases "length out + length d \<le> length h")
    case le: True
    then have e: "min (length out + length d) (length h) - min (length out) (length h) = length d"
      "min (length out) (length h) = length out" by auto
    have "take (length d) d = take (length d) (drop (length out) h)"
      using assms(2) [unfolded e] True le by simp
    then show ?thesis using le by simp
  next
    case gt: False
    then have e: "min (length out + length d) (length h) - min (length out) (length h) = length h - length out"
      "min (length out) (length h) = length out" using True by auto
    have "take (length h - length out) d = take (length h - length out) (drop (length out) h)"
      using assms(2) [unfolded e] True gt by simp
    then show ?thesis using gt by simp
  qed
  then show ?thesis
    using assms(1) True by (simp add: take_add)
next
  case False
  then show ?thesis using assms(1) by auto
qed

lemma apply_transfer_frame_inv:
  assumes "rx_inv E ticket rx" and "apply_transfer_frame E ticket frame rx = (res, rx')"
  shows "rx_inv E ticket rx'"
proof (cases frame)
  case (FChunk i d h)
  show ?thesis
  proof (cases "rx' = rx")
    case False
    then have rx': "rx' = rx\<lparr>rx_next_index := sat_add (rx_next_index rx) 1,
        rx_aggregate := rx_aggregate rx @ d, rx_output := rx_output rx @ d\<rparr>"
      and hd: "\<not> (let hdr = tt_tensor_header ticket; s = min (length (rx_output rx)) (length hdr);
          e = min (length (rx_output rx) + length d) (length hdr)
        in s < e \<and> take (e - s) d \<noteq> take (e - s) (drop s hdr))"
      using assms(2) FChunk by (auto simp: apply_transfer_frame_def Let_def split: if_splits)
    have "take (length (tt_tensor_header ticket)) (rx_output rx @ d)
        = take (length (rx_output rx @ d)) (tt_tensor_header ticket)"
      using assms(1) hd by (intro header_extend) (auto simp: rx_inv_def Let_def)
    then show ?thesis using assms(1) rx' by (simp add: rx_inv_def)
  qed (use assms(1) in simp)
qed (use assms in \<open>auto simp: apply_transfer_frame_def rx_inv_def Let_def split: if_splits option.splits\<close>)

lemma receive_transfer_frames_sound:
  assumes "rx_inv E ticket rx" and "receive_transfer_frames E ticket frames rx = Inr out"
  shows "of_nat (length out) = tt_expected_len ticket \<and> hash_transfer E out = tt_expected_hash ticket
    \<and> take (length (tt_tensor_header ticket)) out = take (length out) (tt_tensor_header ticket)"
  using assms
proof (induction frames arbitrary: rx)
  case (Cons frame frames)
  obtain res rx' where step: "apply_transfer_frame E ticket frame rx = (res, rx')" by force
  note inv' = apply_transfer_frame_inv [OF Cons.prems(1) step]
  show ?case
  proof (cases "res = Inr True")
    case False
    then show ?thesis using Cons.IH [OF inv'] Cons.prems(2) step by (auto split: sum.splits bool.splits)
  next
    case True
    then obtain h b where "frame = FCommit h" "rx_begin rx = Some b" "rx' = rx"
      "of_nat (length (rx_output rx)) = tb_expected_len b" "h = tb_expected_hash b"
      "hash_transfer E (rx_aggregate rx) = h"
      using step by (auto simp: apply_transfer_frame_def Let_def
          split: transfer_stream_frame.splits if_splits option.splits)
    then show ?thesis
      using Cons.prems step True by (auto simp: rx_inv_def stream_begin_matches_def)
  qed
qed simp

section \<open>Acceptance of a well-formed stream\<close>

lemma header_check_passes:
  assumes "take (length h) (out @ d @ rest) = h"
  shows "\<not> (min (length out) (length h) < min (length out + length d) (length h)
    \<and> take (min (length out + length d) (length h) - min (length out) (length h)) d
      \<noteq> take (min (length out + length d) (length h) - min (length out) (length h))
          (drop (min (length out) (length h)) h))"
proof (cases "length out < length h")
  case True
  then have h: "drop (length out) h = take (length h - length out) (d @ rest)"
    using arg_cong [OF assms, of "drop (length out)"] by (simp add: drop_take)
  let ?n = "min (length out + length d) (length h) - length out"
  have n: "?n \<le> length h - length out" "?n \<le> length d" by auto
  have "take ?n (drop (length out) h) = take ?n d"
    unfolding h using n by (simp add: min_absorb1)
  then show ?thesis using True by (simp add: min_absorb1)
qed auto

lemma receive_chunk_frames:
  assumes "rx_begin rx = Some b" and "rx_next_index rx = of_nat k" and "k + length ds < 2 ^ 32"
    and "take (length (tt_tensor_header ticket)) (rx_output rx @ concat ds) = tt_tensor_header ticket"
    and "rx_aggregate rx = rx_output rx"
  shows "receive_transfer_frames E ticket
      (map (\<lambda>(i, d). FChunk (of_nat i) d (hash_transfer E d)) (List.enumerate k ds) @ frames) rx
    = receive_transfer_frames E ticket frames
        (rx\<lparr>rx_next_index := of_nat (k + length ds), rx_aggregate := rx_output rx @ concat ds,
           rx_output := rx_output rx @ concat ds\<rparr>)"
  using assms
proof (induction ds arbitrary: k rx)
  case (Cons d ds)
  have next': "sat_add (of_nat k :: u32) 1 = of_nat (Suc k)"
    using Cons.prems(3) by (simp add: sat_add_def unat_of_nat_small)
  let ?rx = "rx\<lparr>rx_next_index := of_nat (Suc k), rx_aggregate := rx_output rx @ d, rx_output := rx_output rx @ d\<rparr>"
  have "apply_transfer_frame E ticket (FChunk (of_nat k) d (hash_transfer E d)) rx = (Inr False, ?rx)"
    using Cons.prems(1,2,5) header_check_passes [of "tt_tensor_header ticket" "rx_output rx" d "concat ds"]
      Cons.prems(4) next' by (simp add: apply_transfer_frame_def Let_def)
  moreover have "receive_transfer_frames E ticket
      (map (\<lambda>(i, d). FChunk (of_nat i) d (hash_transfer E d)) (List.enumerate (Suc k) ds) @ frames) ?rx
    = receive_transfer_frames E ticket frames
        (?rx\<lparr>rx_next_index := of_nat (Suc k + length ds), rx_aggregate := rx_output ?rx @ concat ds,
           rx_output := rx_output ?rx @ concat ds\<rparr>)"
    using Cons.prems by (intro Cons.IH) auto
  ultimately show ?case by simp
next
  case Nil
  then have "rx\<lparr>rx_next_index := of_nat (k + length []), rx_aggregate := rx_output rx @ concat [],
      rx_output := rx_output rx @ concat []\<rparr> = rx" by (cases rx) simp
  then show ?case by simp
qed

text \<open>A begin frame, the chunks of the data in order, and a commit: the data arrives.\<close>

lemma receive_whole_stream:
  assumes "stream_begin_matches E b ticket" and "length ds = unat (tb_expected_chunks b)"
    and "length ds < 2 ^ 32" and "of_nat (length (concat ds)) = tb_expected_len b"
    and "hash_transfer E (concat ds) = tb_expected_hash b"
    and "take (length (tt_tensor_header ticket)) (concat ds) = tt_tensor_header ticket"
  shows "receive_transfer_frames E ticket
      (FBegin b # map (\<lambda>(i, d). FChunk (of_nat i) d (hash_transfer E d)) (List.enumerate 0 ds)
        @ [FCommit (tb_expected_hash b)]) rx_init = Inr (concat ds)"
proof -
  let ?rx = "rx_init\<lparr>rx_begin := Some b\<rparr>"
  have "receive_transfer_frames E ticket
      (map (\<lambda>(i, d). FChunk (of_nat i) d (hash_transfer E d)) (List.enumerate 0 ds) @ [FCommit (tb_expected_hash b)]) ?rx
    = receive_transfer_frames E ticket [FCommit (tb_expected_hash b)]
        (?rx\<lparr>rx_next_index := of_nat (0 + length ds), rx_aggregate := rx_output ?rx @ concat ds,
           rx_output := rx_output ?rx @ concat ds\<rparr>)"
    using assms(3,6) by (intro receive_chunk_frames [where b = b]) (simp_all add: rx_init_def)
  also have "\<dots> = Inr (concat ds)"
    using assms(2,4,5) by (simp add: apply_transfer_frame_def Let_def rx_init_def)
  finally show ?thesis
    using assms(1) by (simp add: apply_transfer_frame_def rx_init_def)
qed

end
