(* ===== verification/Stream_Proofs.thy ===== *)
theory Stream_Proofs
  imports Stream_Receiver
begin

text \<open>
  Streams end to end over a reliable server: an uploaded stream commits exactly the data that
  was sent, and the download stream of a committed transfer delivers exactly its data.
\<close>

lemma commit_frames_eq:
  assumes "map (\<lambda>c. unat (tc_index c)) cs = [0..<length cs]" and "\<And>c. c \<in> set cs \<Longrightarrow> tc_hash c = h (f c)"
  shows "map (\<lambda>c. FChunk (tc_index c) (f c) (tc_hash c)) cs
    = map (\<lambda>(i, d). FChunk (of_nat i) d (h d)) (List.enumerate 0 (map f cs))"
proof (rule nth_equalityI)
  fix i assume "i < length (map (\<lambda>c. FChunk (tc_index c) (f c) (tc_hash c)) cs)"
  then have i: "i < length cs" by simp
  have "unat (tc_index (cs ! i)) = i" using arg_cong [OF assms(1), of "\<lambda>xs. xs ! i"] i by simp
  then have "tc_index (cs ! i) = of_nat i" by (metis of_nat_unat ucast_id)
  then show "map (\<lambda>c. FChunk (tc_index c) (f c) (tc_hash c)) cs ! i
      = map (\<lambda>(i, d). FChunk (of_nat i) d (h d)) (List.enumerate 0 (map f cs)) ! i"
    using i assms(2) by (simp add: nth_enumerate_eq)
qed simp

context reliable_backend
begin

lemma read_chunk_frames_ok:
  assumes "\<And>c. c \<in> set cs \<Longrightarrow> chunk_stored E (objs_of ctx) (recs_of ctx) c"
  shows "read_chunk_frames E ctx cs
    = (map (\<lambda>c. FChunk (tc_index c) (chunk_data E (objs_of ctx) c) (tc_hash c)) cs, None)"
  using assms
proof (induction cs)
  case (Cons c cs)
  from Cons.prems [of c] obtain r d where s: "recs_of ctx (tc_object_id c) = Some r"
    "rec_key r = chunk_key E (tc_object_id c)" "objs_of ctx (chunk_key E (tc_object_id c)) = Some d"
    "unat (tc_len c) = length d" "hash_transfer E d = tc_hash c" by (auto simp: chunk_stored_def)
  have "of_nat (length d) = tc_len c" using s(4) by (metis of_nat_unat ucast_id)
  moreover have "try_download E ctx (tc_object_id c) = Found d"
    using s by (simp add: try_download_eq visible_def)
  ultimately have "read_transfer_chunk_frame E ctx c = Inr (FChunk (tc_index c) d (tc_hash c))"
    using s(5) by (simp add: read_transfer_chunk_frame_def)
  then show ?case using Cons s(3) by (simp add: chunk_data_def)
qed simp

lemma snapshot_committed:
  "view_of ctx t = Some (Committed m) \<Longrightarrow> transfer_stream_snapshot E R t ctx = (Inr (Committed m), ctx)"
  by (simp add: transfer_stream_snapshot_def handle_transfer_inspect_def load_and_expire_def load_view
      expire_transfer_locked_def)

text \<open>A committed transfer is delivered whole in the first round of the download stream.\<close>

lemma download_committed_stream:
  assumes inv: "server_inv ctx" and v: "view_of ctx t = Some (Committed m)"
    and auth: "valid_transfer_authorization E (tm_begin m) authorization"
  defines "ds \<equiv> map (chunk_data E (objs_of ctx)) (tm_chunks m)"
  shows "handle_transfer_stream_download E R t authorization (p # ps) ctx
    = (FBegin (tm_begin m) # map (\<lambda>(i, d). FChunk (of_nat i) d (hash_transfer E d)) (List.enumerate 0 ds)
         @ [FCommit (tb_expected_hash (tm_begin m))], StreamDone, ctx)"
    and "length ds = unat (tb_expected_chunks (tm_begin m))"
    and "of_nat (length (concat ds)) = tb_expected_len (tm_begin m)"
    and "hash_transfer E (concat ds) = tb_expected_hash (tm_begin m)"
    and "unat (tb_expected_chunks (tm_begin m)) \<le> 10000"
proof -
  have "transfer_inv E (objs_of ctx) (recs_of ctx)" using inv by (simp add: server_inv_def)
  then have ok: "record_ok E (objs_of ctx) (recs_of ctx) t (Committed m)" by (rule transfer_invD(2) [OF _ v])
  then have comp: "complete (tm_begin m) (tm_chunks m)"
    and stored: "\<And>c. c \<in> set (tm_chunks m) \<Longrightarrow> chunk_stored E (objs_of ctx) (recs_of ctx) c"
    by (auto simp: record_ok_def)
  have idx: "map (\<lambda>c. unat (tc_index c)) (tm_chunks m) = [0..<unat (tb_expected_chunks (tm_begin m))]"
    using comp by (simp add: complete_def)
  have n: "length (tm_chunks m) = unat (tb_expected_chunks (tm_begin m))"
    using arg_cong [OF idx, of length] by simp
  then show "length ds = unat (tb_expected_chunks (tm_begin m))" by (simp add: ds_def)
  show "hash_transfer E (concat ds) = tb_expected_hash (tm_begin m)"
    using ok by (simp add: record_ok_def ds_def)
  show "unat (tb_expected_chunks (tm_begin m)) \<le> 10000"
    using ok by (simp add: record_ok_def valid_begin_def MAX_MULTIPART_PARTS_def word_le_nat_alt)
  have len: "length (chunk_data E (objs_of ctx) c) = unat (tc_len c)" if "c \<in> set (tm_chunks m)" for c
    using stored [OF that] by (auto simp: chunk_stored_def chunk_data_def)
  have "length (concat ds) = chunk_lens (tm_chunks m)"
    using len by (auto simp: length_concat chunk_lens_def comp_def ds_def intro!: arg_cong [where f = sum_list])
  then have "length (concat ds) = unat (tb_expected_len (tm_begin m))" using comp by (simp add: complete_def)
  then show "of_nat (length (concat ds)) = tb_expected_len (tm_begin m)" by (metis of_nat_unat ucast_id)
  have "map (\<lambda>c. FChunk (tc_index c) (chunk_data E (objs_of ctx) c) (tc_hash c)) (tm_chunks m)
      = map (\<lambda>(i, d). FChunk (of_nat i) d (hash_transfer E d)) (List.enumerate 0 ds)"
    unfolding ds_def
  proof (rule commit_frames_eq)
    show "map (\<lambda>c. unat (tc_index c)) (tm_chunks m) = [0..<length (tm_chunks m)]" by (simp add: idx n)
    show "tc_hash c = hash_transfer E (chunk_data E (objs_of ctx) c)" if "c \<in> set (tm_chunks m)" for c
      using stored [OF that] by (auto simp: chunk_stored_def chunk_data_def)
  qed
  then have "read_chunk_frames E ctx (tm_chunks m)
      = (map (\<lambda>(i, d). FChunk (of_nat i) d (hash_transfer E d)) (List.enumerate 0 ds), None)"
    using read_chunk_frames_ok [of "tm_chunks m" ctx] stored by simp
  then show "handle_transfer_stream_download E R t authorization (p # ps) ctx
    = (FBegin (tm_begin m) # map (\<lambda>(i, d). FChunk (of_nat i) d (hash_transfer E d)) (List.enumerate 0 ds)
         @ [FCommit (tb_expected_hash (tm_begin m))], StreamDone, ctx)"
    using auth by (cases p) (simp add: handle_transfer_stream_download_def snapshot_committed [OF v])
qed

text \<open>Storing one chunk, on the branch of success.\<close>

lemma handle_transfer_chunk_ok:
  assumes inv: "server_inv ctx" and v: "view_of ctx t = Some (InProgress b cs rv)"
    and i: "i < tb_expected_chunks b" "i \<notin> tc_index ` set cs"
    and len: "chunk_lens cs + length data \<le> unat (tb_expected_len b)" "length data \<le> S3_MAX_FRAME_SIZE"
    and fresh: "recs_of ctx (rd_uuid R) = None" and now: "rd_now_check R < tb_deadline_unix_ms b"
  obtains c ctx' where "handle_transfer_chunk E R t i data (hash_transfer E data) ctx = (VTransferChunkStored c, ctx')"
    "view_of ctx' t = Some (InProgress b (sort_key tc_index (cs @ [c])) (sat_add rv 1))"
    "tc_index c = i" "unat (tc_len c) = length data" "chunk_data E (objs_of ctx') c = data"
    "\<And>e. e \<in> set cs \<Longrightarrow> chunk_data E (objs_of ctx') e = chunk_data E (objs_of ctx) e"
    "dom (recs_of ctx') = insert (rd_uuid R) (dom (recs_of ctx))"
proof -
  have tinv: "transfer_inv E (objs_of ctx) (recs_of ctx)" using inv by (simp add: server_inv_def)
  have rok: "record_ok E (objs_of ctx) (recs_of ctx) t (InProgress b cs rv)"
    by (rule transfer_invD(2) [OF tinv v])
  have stored: "c \<in> set cs \<Longrightarrow> chunk_stored E (objs_of ctx) (recs_of ctx) c" for c
    using rok by (simp add: record_ok_def)
  let ?p = "sat_add (chunk_sum cs) (of_nat (length data))"
  let ?o = "rd_uuid R"
  have k: "unat (of_nat (length data) :: u64) = length data"
    by (rule unat_of_nat_small) (use len(2) in \<open>simp add: S3_MAX_FRAME_SIZE_def\<close>)
  have cs: "unat (chunk_sum cs) = chunk_lens cs"
    using len(1) by (intro chunk_sum_exact [of _ "tb_expected_len b"]) simp
  have lt: "unat (tb_expected_len b) < 2 ^ 64" using unsigned_less [of "tb_expected_len b"] by simp
  have p: "unat ?p = chunk_lens cs + length data"
    using len(1) lt by (simp add: unat_sat_add cs k)
  have le: "\<not> tb_expected_len b < ?p" using len(1) p by (simp add: word_less_nat_alt)
  have plen: "unat (?p - chunk_sum cs) = length data" using p cs by (simp add: unat_sub word_le_nat_alt)
  have l: "load_and_expire E R t ctx = (Inr (InProgress b cs rv), ctx)"
    using load_view [OF v] now [folded not_le] by (simp add: load_and_expire_def expire_transfer_locked_def)
  obtain ctx2 q where up: "handle_transfer_chunk_upload E ?o data ctx = (VUploaded ?o, ctx2)"
    "objs_of ctx2 = (objs_of ctx)(chunk_key E ?o \<mapsto> data)"
    "recs_of ctx2 = (recs_of ctx)(?o \<mapsto> q)" "rec_key q = chunk_key E ?o"
    by (rule chunk_upload_ok [OF len(2) fresh])
  let ?c = "\<lparr>tc_index = i, tc_object_id = ?o, tc_len = ?p - chunk_sum cs, tc_hash = hash_transfer E data\<rparr>"
  let ?r = "InProgress b (sort_key tc_index (cs @ [?c])) (sat_add rv 1)"
  obtain ctx3 q' where pe: "persist_transfer_record E t ?r ctx2 = (Inr (), ctx3)"
    "objs_of ctx3 = (objs_of ctx2)(record_key E t \<mapsto> ve_encode E ?r)"
    "recs_of ctx3 = (recs_of ctx2)(t \<mapsto> q')" "rec_key q' = record_key E t" by (rule persist_ok)
  have "\<not> list_ex (\<lambda>c. tc_index c = i) cs" using i(2) by (auto simp: list_ex_iff)
  then have res: "handle_transfer_chunk E R t i data (hash_transfer E data) ctx = (VTransferChunkStored ?c, ctx3)"
    using l i(1) le up(1) pe(1) by (simp add: handle_transfer_chunk_def Let_def not_le [symmetric])
  have "t \<in> dom (recs_of ctx)" using v by (auto simp: transfer_view_def split: option.splits)
  then have dom: "dom (recs_of ctx3) = insert ?o (dom (recs_of ctx))" unfolding pe(3) up(3) by auto
  have view: "view_of ctx3 t = Some ?r"
    using pe env by (simp add: transfer_view_def sound_env_def)
  have new: "chunk_data E (objs_of ctx3) ?c = data"
    unfolding pe(2) up(2) using key_eqs(3) [OF env] by (simp add: chunk_data_def)
  have old: "chunk_data E (objs_of ctx3) e = chunk_data E (objs_of ctx) e" if "e \<in> set cs" for e
  proof -
    have "tc_object_id e \<noteq> ?o" using stored [OF that] fresh by (auto simp: chunk_stored_def)
    then show ?thesis
      unfolding pe(2) up(2) using key_eqs(2,3) [OF env] by (simp add: chunk_data_def)
  qed
  show ?thesis by (rule that [OF res view _ _ new old dom]) (use plen in simp_all)
qed

text \<open>
  The chunks of an upload stream, one after the other: \<open>Rs\<close> are the readings of the frames, each
  with a fresh identifier and a clock before the deadline.
\<close>

lemma upload_chunk_frames:
  assumes "server_inv ctx" and "view_of ctx t = Some (InProgress b cs rv)"
    and "map (\<lambda>c. unat (tc_index c)) cs = [0..<k]" and "k + length ds \<le> unat (tb_expected_chunks b)"
    and "chunk_lens cs + length (concat ds) \<le> unat (tb_expected_len b)"
    and "\<And>d. d \<in> set ds \<Longrightarrow> length d \<le> S3_MAX_FRAME_SIZE" and "length Rs = length ds"
    and "\<And>R. R \<in> set Rs \<Longrightarrow> rd_now_check R < tb_deadline_unix_ms b \<and> recs_of ctx (rd_uuid R) = None"
    and "distinct (map rd_uuid Rs)"
  obtains ctx' cs' rv' where
    "\<And>frames. upload_frames E t (of_nat k)
       (zip Rs (map (\<lambda>(i, d). FChunk (of_nat i) d (hash_transfer E d)) (List.enumerate k ds)) @ frames) ctx
     = upload_frames E t (of_nat (k + length ds)) frames ctx'"
    "server_inv ctx'" "view_of ctx' t = Some (InProgress b cs' rv')"
    "map (\<lambda>c. unat (tc_index c)) cs' = [0..<k + length ds]"
    "chunk_lens cs' = chunk_lens cs + length (concat ds)"
    "map (chunk_data E (objs_of ctx')) cs' = map (chunk_data E (objs_of ctx)) cs @ ds"
  using assms
proof (induction ds arbitrary: k cs rv ctx Rs thesis)
  case Nil
  then show ?case by (intro Nil(1) [of ctx cs rv]) auto
next
  case (Cons d ds)
  note prems = Cons.prems(2-)
  obtain R Rs' where Rs: "Rs = R # Rs'" using prems(7) by (cases Rs) auto
  have ub: "unat (tb_expected_chunks b) < 2 ^ 32" using unsigned_less [of "tb_expected_chunks b"] by simp
  have uk: "unat (of_nat k :: u32) = k" using prems(4) ub by (intro unat_of_nat_small) simp
  have i: "of_nat k < tb_expected_chunks b" using prems(4) uk by (simp add: word_less_nat_alt)
  have mem: "unat (tc_index c) < k" if "c \<in> set cs" for c
  proof -
    have "unat (tc_index c) \<in> set (map (\<lambda>c. unat (tc_index c)) cs)" using that by simp
    then show ?thesis unfolding prems(3) by simp
  qed
  then have ni: "of_nat k \<notin> tc_index ` set cs" using uk by (metis imageE less_irrefl)
  obtain c ctx1 where c: "handle_transfer_chunk E R t (of_nat k) d (hash_transfer E d) ctx = (VTransferChunkStored c, ctx1)"
    "view_of ctx1 t = Some (InProgress b (sort_key tc_index (cs @ [c])) (sat_add rv 1))"
    "tc_index c = of_nat k" "unat (tc_len c) = length d" "chunk_data E (objs_of ctx1) c = d"
    "\<And>e. e \<in> set cs \<Longrightarrow> chunk_data E (objs_of ctx1) e = chunk_data E (objs_of ctx) e"
    "dom (recs_of ctx1) = insert (rd_uuid R) (dom (recs_of ctx))"
    by (rule handle_transfer_chunk_ok [OF prems(1,2) i ni, of d R]) (use prems(5,6,8) Rs in auto)
  have gen: "genuine E (objs_of ctx) (recs_of ctx) t"
    using prems(2) by (auto simp: transfer_view_def genuine_def split: option.splits if_splits)
  have inv1: "server_inv ctx1"
    using handle_transfer_chunk_advances [OF prems(1) gen, of R "of_nat k" d "hash_transfer E d"] c(1)
    by (simp add: advances_def)
  have sorted: "sort_key tc_index (cs @ [c]) = cs @ [c]"
  proof (rule sort_key_id_if_sorted)
    have "sorted (map (\<lambda>c. unat (tc_index c)) cs)" unfolding prems(3) by simp
    then have "sorted (map tc_index cs)"
      by (simp add: sorted_map word_le_nat_alt comp_def)
    moreover have "\<forall>e \<in> set cs. tc_index e \<le> tc_index c"
      using mem uk c(3) by (auto simp: word_le_nat_alt intro: less_imp_le)
    ultimately show "sorted (map tc_index (cs @ [c]))" by (simp add: sorted_append)
  qed
  have idx: "map (\<lambda>c. unat (tc_index c)) (cs @ [c]) = [0..<Suc k]" using prems(3) c(3) uk by simp
  have fresh: "rd_now_check S < tb_deadline_unix_ms b \<and> recs_of ctx1 (rd_uuid S) = None" if "S \<in> set Rs'" for S
  proof -
    have "rd_uuid S \<noteq> rd_uuid R"
      using prems(9) that Rs by (metis distinct.simps(2) image_eqI list.set_map list.simps(9))
    then have "rd_uuid S \<notin> dom (recs_of ctx1)"
      unfolding c(7) using prems(8) [of S] that Rs by auto
    then show ?thesis using prems(8) [of S] that Rs by auto
  qed
  obtain ctx' cs' rv' where r:
    "\<And>frames. upload_frames E t (of_nat (Suc k))
       (zip Rs' (map (\<lambda>(i, d). FChunk (of_nat i) d (hash_transfer E d)) (List.enumerate (Suc k) ds)) @ frames) ctx1
     = upload_frames E t (of_nat (Suc k + length ds)) frames ctx'"
    "server_inv ctx'" "view_of ctx' t = Some (InProgress b cs' rv')"
    "map (\<lambda>c. unat (tc_index c)) cs' = [0..<Suc k + length ds]"
    "chunk_lens cs' = chunk_lens (cs @ [c]) + length (concat ds)"
    "map (chunk_data E (objs_of ctx')) cs' = map (chunk_data E (objs_of ctx1)) (cs @ [c]) @ ds"
  proof (rule Cons.IH [OF _ inv1 c(2) [unfolded sorted] idx, of Rs'])
    show "Suc k + length ds \<le> unat (tb_expected_chunks b)" using prems(4) by simp
    show "chunk_lens (cs @ [c]) + length (concat ds) \<le> unat (tb_expected_len b)" using prems(5) c(4) by simp
    show "length e \<le> S3_MAX_FRAME_SIZE" if "e \<in> set ds" for e using prems(6) that by simp
    show "length Rs' = length ds" "distinct (map rd_uuid Rs')" using prems(7,9) Rs by simp_all
  qed (use fresh in blast)+
  have "sat_add (of_nat k :: u32) 1 = of_nat (Suc k)"
    using prems(4) ub by (simp add: sat_add_def uk)
  then have step: "handle_stream_upload_frame E R t (of_nat k) (FChunk (of_nat k) d (hash_transfer E d)) ctx
      = (VTransferChunkStored c, of_nat (Suc k), ctx1)"
    using c(1) by (simp add: handle_stream_upload_frame_def)
  show ?case
  proof (rule Cons.prems(1) [OF _ r(2,3)])
    show "upload_frames E t (of_nat k)
       (zip Rs (map (\<lambda>(i, d). FChunk (of_nat i) d (hash_transfer E d)) (List.enumerate k (d # ds))) @ frames) ctx
     = upload_frames E t (of_nat (k + length (d # ds))) frames ctx'" for frames
      using step r(1) [of frames] by (simp add: Rs del: of_nat_Suc)
  qed (use r(4-6) c(4-6) in simp_all)
qed

text \<open>A whole upload stream.\<close>

lemma upload_stream_ok:
  assumes inv: "server_inv ctx" and vb: "valid_begin b" and auth: "valid_transfer_authorization E b authorization"
    and new: "recs_of ctx (tb_transfer_id b) = None" and now: "rd_now_check R < tb_deadline_unix_ms b"
    and n: "length ds = unat (tb_expected_chunks b)" and len: "length (concat ds) = unat (tb_expected_len b)"
    and hash: "hash_transfer E (concat ds) = tb_expected_hash b"
    and small: "\<And>d. d \<in> set ds \<Longrightarrow> length d \<le> S3_MAX_FRAME_SIZE" and Rs: "length Rs = length ds"
    and fresh: "\<And>S. S \<in> set Rs \<Longrightarrow> rd_now_check S < tb_deadline_unix_ms b
      \<and> recs_of ctx (rd_uuid S) = None \<and> rd_uuid S \<noteq> tb_transfer_id b"
    and dist: "distinct (map rd_uuid Rs)" and last: "rd_now_check Rc < tb_deadline_unix_ms b"
  obtains cs ctx' where "handle_transfer_stream_upload E R b authorization
      (zip Rs (map (\<lambda>(i, d). FChunk (of_nat i) d (hash_transfer E d)) (List.enumerate 0 ds))
         @ [(Rc, FCommit (tb_expected_hash b))]) ctx
    = ([VTransfer (InProgress b [] 0),
        VTransfer (Committed \<lparr>tm_begin = b, tm_chunks = cs, tm_committed_unix_ms = rd_now_stamp Rc\<rparr>)], ctx')"
    "server_inv ctx'"
    "view_of ctx' (tb_transfer_id b)
      = Some (Committed \<lparr>tm_begin = b, tm_chunks = cs, tm_committed_unix_ms = rd_now_stamp Rc\<rparr>)"
    "map (chunk_data E (objs_of ctx')) cs = ds"
proof -
  let ?t = "tb_transfer_id b"
  note begun = handle_transfer_begin_ok [OF vb now new]
  obtain ctx1 where b1: "handle_transfer_begin E R b ctx = (VTransfer (InProgress b [] 0), ctx1)"
    using begun by (metis prod.collapse)
  have v1: "view_of ctx1 ?t = Some (InProgress b [] 0)" and d1: "dom (recs_of ctx1) = insert ?t (dom (recs_of ctx))"
    using begun b1 by simp_all
  have inv1: "server_inv ctx1"
    using handle_transfer_begin_advances [OF inv, of R b] b1 by (simp add: advances_def)
  have fresh1: "rd_now_check S < tb_deadline_unix_ms b \<and> recs_of ctx1 (rd_uuid S) = None" if "S \<in> set Rs" for S
  proof -
    have "rd_uuid S \<notin> dom (recs_of ctx1)" unfolding d1 using fresh [OF that] by auto
    then show ?thesis using fresh [OF that] by auto
  qed
  obtain ctx2 cs rv where u:
    "\<And>frames. upload_frames E ?t (of_nat 0)
       (zip Rs (map (\<lambda>(i, d). FChunk (of_nat i) d (hash_transfer E d)) (List.enumerate 0 ds)) @ frames) ctx1
     = upload_frames E ?t (of_nat (0 + length ds)) frames ctx2"
    "server_inv ctx2" "view_of ctx2 ?t = Some (InProgress b cs rv)"
    "map (\<lambda>c. unat (tc_index c)) cs = [0..<0 + length ds]"
    "chunk_lens cs = chunk_lens [] + length (concat ds)"
    "map (chunk_data E (objs_of ctx2)) cs = map (chunk_data E (objs_of ctx1)) [] @ ds"
    by (rule upload_chunk_frames [OF inv1 v1, of 0 ds Rs]) (use n len small Rs fresh1 dist in simp_all)
  have comp: "complete b cs" using u(4,5) n len by (simp add: complete_def)
  have h2: "hash_transfer E (concat (map (chunk_data E (objs_of ctx2)) cs)) = tb_expected_hash b"
    using u(6) hash by simp
  note com = handle_transfer_commit_ok [OF u(2,3) comp last h2]
  obtain ctx3 where c3: "handle_transfer_commit E Rc ?t (tb_expected_hash b) ctx2
      = (VTransfer (Committed \<lparr>tm_begin = b, tm_chunks = cs, tm_committed_unix_ms = rd_now_stamp Rc\<rparr>), ctx3)"
    using com by (metis prod.collapse)
  have gen: "genuine E (objs_of ctx2) (recs_of ctx2) ?t"
    using u(3) by (auto simp: transfer_view_def genuine_def split: option.splits if_splits)
  have inv3: "server_inv ctx3"
    using handle_transfer_commit_advances [OF u(2) gen, of Rc "tb_expected_hash b"] c3 by (simp add: advances_def)
  have "upload_frames E ?t (of_nat (length ds)) [(Rc, FCommit (tb_expected_hash b))] ctx2
      = (Some (VTransfer (Committed \<lparr>tm_begin = b, tm_chunks = cs, tm_committed_unix_ms = rd_now_stamp Rc\<rparr>)), ctx3)"
    using c3 by (simp add: handle_stream_upload_frame_def)
  then have res: "handle_transfer_stream_upload E R b authorization
      (zip Rs (map (\<lambda>(i, d). FChunk (of_nat i) d (hash_transfer E d)) (List.enumerate 0 ds))
         @ [(Rc, FCommit (tb_expected_hash b))]) ctx
    = ([VTransfer (InProgress b [] 0),
        VTransfer (Committed \<lparr>tm_begin = b, tm_chunks = cs, tm_committed_unix_ms = rd_now_stamp Rc\<rparr>)], ctx3)"
    using auth b1 u(1) by (simp add: handle_transfer_stream_upload_def)
  show ?thesis
    by (rule that [OF res inv3]) (use com c3 u(6) in simp_all)
qed

end

section \<open>Properties of the streams\<close>

lemma chunks_of_props:
  assumes "0 < n"
  shows "concat (chunks_of n data) = data" and "d \<in> set (chunks_of n data) \<Longrightarrow> length d \<le> n"
proof -
  show "concat (chunks_of n data) = data"
    using assms by (induction n data rule: chunks_of.induct) (subst chunks_of.simps, simp)
  show "d \<in> set (chunks_of n data) \<Longrightarrow> length d \<le> n"
  proof (induction n data rule: chunks_of.induct)
    case (1 n data)
    from 1(2) have "data \<noteq> []" "n \<noteq> 0" by (auto simp: chunks_of.simps [of n data] split: if_splits)
    with 1(2) have "d = take n data \<or> d \<in> set (chunks_of n (drop n data))"
      by (simp add: chunks_of.simps [of n data])
    then show ?case using 1(1) \<open>data \<noteq> []\<close> \<open>n \<noteq> 0\<close> by auto
  qed
qed

text \<open>
  C11: a receiver that returns bytes returns bytes with the length and the hash that its ticket
  declares, and they agree with the tensor header of the ticket as far as both go, whatever
  frames arrive.
\<close>

theorem receiver_accepts_only_ticket:
  assumes "receive_transfer_frames E ticket frames rx_init = Inr out"
  shows "of_nat (length out) = tt_expected_len ticket \<and> hash_transfer E out = tt_expected_hash ticket
    \<and> take (length (tt_tensor_header ticket)) out = take (length out) (tt_tensor_header ticket)"
  by (rule receive_transfer_frames_sound [OF rx_inv_init assms])

definition sample_ticket :: "transfer_begin \<Rightarrow> transfer_ticket" where
  "sample_ticket b = \<lparr>tt_descriptor = \<lparr>cd_id = ContractId [], cd_version = 1, cd_inputs = [], cd_outputs = []\<rparr>,
     tt_envelope = tb_envelope b, tt_tensor_header = tb_tensor_header b, tt_transfer_id = tb_transfer_id b,
     tt_source = ''source'', tt_authorization = [1], tt_expected_len = tb_expected_len b,
     tt_expected_hash = tb_expected_hash b, tt_deadline_unix_ms = tb_deadline_unix_ms b,
     tt_durability = ReplayRequired, tt_eventual_void_id = tb_transfer_id b\<rparr>"

definition stream_begin :: transfer_begin where
  "stream_begin = sample_begin\<lparr>tb_tensor_header := [1, 2], tb_expected_chunks := 1,
     tb_expected_hash := TransferHash [1, 2, 3]\<rparr>"

lemma sample_ticket_matches: "stream_begin_matches sample_env stream_begin (sample_ticket stream_begin)"
  by (simp add: stream_begin_matches_def sample_ticket_def stream_begin_def sample_begin_def hash_transfer_def
      sample_env_def)

lemma receiver_accepts_only_ticket_witness:
  "hash_transfer sample_env [1, 2, 3] = tt_expected_hash (sample_ticket stream_begin)"
proof -
  have "receive_transfer_frames sample_env (sample_ticket stream_begin)
      [FBegin stream_begin, FChunk 0 [1, 2, 3] (TransferHash [1, 2, 3]), FCommit (TransferHash [1, 2, 3])] rx_init
    = Inr [1, 2, 3]"
    using sample_ticket_matches
    by (simp add: apply_transfer_frame_def rx_init_def Let_def)
       (simp add: hash_transfer_def sample_env_def sample_ticket_def stream_begin_def sample_begin_def sat_add_def)
  from receiver_accepts_only_ticket [OF this] show ?thesis by blast
qed

text \<open>
  C12: a download stream opened on a committed transfer delivers it. In a reachable state the
  server writes a begin frame, every chunk in order and a commit frame in its first round, and
  a receiver whose ticket matches the transfer accepts them and returns the bytes of the
  committed chunks.
\<close>

theorem committed_stream_received:
  assumes "mem_env E" and "reachable E ctx" and "mem_transfers E ctx t = Some (Committed m)"
    and "valid_transfer_authorization E (tm_begin m) authorization"
    and "stream_begin_matches E (tm_begin m) ticket"
    and "data = concat (map (chunk_data E (mos_map (object_store ctx))) (tm_chunks m))"
    and "take (length (tt_tensor_header ticket)) data = tt_tensor_header ticket"
  shows "\<exists>frames. handle_transfer_stream_download E R t authorization (p # ps) ctx = (frames, StreamDone, ctx)
    \<and> receive_transfer_frames E ticket frames rx_init = Inr data"
proof -
  have inv: "reliable_backend.server_inv E mos_map (\<lambda>m. m) ctx"
    using reachable_inv [OF assms(1,2)] by (simp add: server_inv_mem [OF assms(1)])
  note d = reliable_backend.download_committed_stream [OF mem_reliable [OF assms(1)] inv
      assms(3) [unfolded mem_transfers_def] assms(4)]
  show ?thesis
    unfolding d(1) [of R p ps] assms(6)
    by (intro exI conjI, rule refl, rule receive_whole_stream)
       (use assms(5,6,7) d(2-5) in simp_all)
qed

lemma committed_stream_received_witness:
  "\<exists>frames. handle_transfer_stream_download sample_env sample_readings 9 [1] [(sample_readings, \<lambda>c. c)] empty_committed
      = (frames, StreamDone, empty_committed)
    \<and> receive_transfer_frames sample_env (sample_ticket empty_begin) frames rx_init = Inr []"
proof -
  have "valid_transfer_authorization sample_env empty_begin [1]"
    "stream_begin_matches sample_env empty_begin (sample_ticket empty_begin)"
    by (simp_all add: valid_transfer_authorization_def stream_begin_matches_def sample_ticket_def
        empty_begin_def sample_begin_def hash_transfer_def sample_env_def)
  moreover have "tt_tensor_header (sample_ticket empty_begin) = []"
    by (simp add: sample_ticket_def empty_begin_def sample_begin_def)
  ultimately show ?thesis
    using committed_stream_received [OF sample_env empty_committed_reachable empty_committed_view, of "[1]"
        "sample_ticket empty_begin" "[]" sample_readings "(sample_readings, \<lambda>c. c)" "[]"] by simp
qed

text \<open>
  C13: publishing an artifact and receiving it returns the artifact. If a client uploads the
  frames of some data over a stream, with a begin record that declares the number of chunks,
  the length and the hash of the data, then the server commits the transfer, the download
  stream of the resulting state ends regularly, and a receiver with the matching ticket
  obtains exactly the data.
\<close>

theorem publish_then_receive:
  assumes "mem_env E" and "reachable E ctx" and "valid_begin b" and "store ctx (tb_transfer_id b) = None"
    and "valid_transfer_authorization E b authorization" and "rd_now_check R < tb_deadline_unix_ms b"
    and "finish_transfer_upload E data (tb_expected_hash b) = Some frames"
    and "length (chunks_of VOID_CHUNK_SIZE data) = unat (tb_expected_chunks b)"
    and "length data = unat (tb_expected_len b)" and "hash_transfer E data = tb_expected_hash b"
    and "length Rs = length frames" and "distinct (map rd_uuid Rs)"
    and "\<forall>S \<in> set Rs. rd_now_check S < tb_deadline_unix_ms b \<and> store ctx (rd_uuid S) = None
          \<and> rd_uuid S \<noteq> tb_transfer_id b"
    and "stream_begin_matches E b ticket" and "take (length (tt_tensor_header ticket)) data = tt_tensor_header ticket"
    and "handle_transfer_stream_upload E R b authorization (zip Rs frames) ctx = (responses, ctx')"
    and "handle_transfer_stream_download E R' (tb_transfer_id b) authorization (p # ps) ctx' = (sent, final, ctx'')"
  shows "(\<exists>m. last responses = VTransfer (Committed m)) \<and> final = StreamDone
    \<and> receive_transfer_frames E ticket sent rx_init = Inr data"
proof -
  note rb = mem_reliable [OF assms(1)]
  have inv: "reliable_backend.server_inv E mos_map (\<lambda>m. m) ctx"
    using reachable_inv [OF assms(1,2)] by (simp add: server_inv_mem [OF assms(1)])
  let ?ds = "chunks_of VOID_CHUNK_SIZE data"
  let ?cf = "map (\<lambda>(i, d). FChunk (of_nat i) d (hash_transfer E d)) (List.enumerate 0 ?ds)"
  have frames: "frames = ?cf @ [FCommit (tb_expected_hash b)]"
    using assms(7) by (auto simp: finish_transfer_upload_def upload_stream_frames_def split: if_splits)
  have pos: "0 < VOID_CHUNK_SIZE" by (simp add: VOID_CHUNK_SIZE_def)
  note ck = chunks_of_props(1) [OF pos, of data] chunks_of_props(2) [OF pos, where data = data]
  obtain Rs' Rc where Rs: "Rs = Rs' @ [Rc]"
    using assms(11) frames by (cases Rs rule: rev_cases) auto
  have zip: "zip Rs frames = zip Rs' ?cf @ [(Rc, FCommit (tb_expected_hash b))]"
    using assms(11) unfolding Rs frames by simp
  obtain cs c1 where u: "handle_transfer_stream_upload E R b authorization (zip Rs frames) ctx
    = ([VTransfer (InProgress b [] 0),
        VTransfer (Committed \<lparr>tm_begin = b, tm_chunks = cs, tm_committed_unix_ms = rd_now_stamp Rc\<rparr>)], c1)"
    "reliable_backend.server_inv E mos_map (\<lambda>m. m) c1"
    "transfer_view E (mos_map (object_store c1)) (store c1) (tb_transfer_id b)
      = Some (Committed \<lparr>tm_begin = b, tm_chunks = cs, tm_committed_unix_ms = rd_now_stamp Rc\<rparr>)"
    "map (chunk_data E (mos_map (object_store c1))) cs = ?ds"
  proof (rule reliable_backend.upload_stream_ok [OF rb, OF inv assms(3,5,4,6), of ?ds Rs' Rc])
    show "length d \<le> S3_MAX_FRAME_SIZE" if "d \<in> set ?ds" for d
      using ck(2) [OF that] by (simp add: VOID_CHUNK_SIZE_def S3_MAX_FRAME_SIZE_def)
    show "length Rs' = length ?ds" using assms(11) by (simp add: Rs frames)
    show "rd_now_check Rc < tb_deadline_unix_ms b" using assms(13) by (simp add: Rs)
  qed (use assms(8-10,12,13) ck(1) zip in \<open>auto simp: Rs\<close>)
  have c1: "responses = [VTransfer (InProgress b [] 0),
        VTransfer (Committed \<lparr>tm_begin = b, tm_chunks = cs, tm_committed_unix_ms = rd_now_stamp Rc\<rparr>)]" "ctx' = c1"
    using u(1) assms(16) by simp_all
  note d = reliable_backend.download_committed_stream(1) [OF rb u(2,3), of authorization R' p ps]
  have "sent = FBegin b # ?cf @ [FCommit (tb_expected_hash b)]" "final = StreamDone"
    using d assms(5,17) u(4) c1(2) by simp_all
  moreover have "receive_transfer_frames E ticket (FBegin b # ?cf @ [FCommit (tb_expected_hash b)]) rx_init = Inr (concat ?ds)"
    using assms(8,9,10,14,15) ck(1) unsigned_less [of "tb_expected_chunks b"]
    by (intro receive_whole_stream) simp_all
  ultimately show ?thesis using c1(1) ck(1) by simp
qed

lemma publish_then_receive_witness:
  "let up = handle_transfer_stream_upload sample_env sample_readings stream_begin [1]
       (zip [sample_readings\<lparr>rd_uuid := 70\<rparr>, sample_readings\<lparr>rd_uuid := 71\<rparr>]
         (upload_stream_frames sample_env VOID_CHUNK_SIZE [1, 2, 3] (TransferHash [1, 2, 3]))) sample_ctx;
     down = handle_transfer_stream_download sample_env sample_readings 9 [1] [(sample_readings, \<lambda>c. c)] (snd up)
   in receive_transfer_frames sample_env (sample_ticket stream_begin) (fst down) rx_init = Inr [1, 2, 3]"
proof -
  let ?h = "TransferHash [1, 2, 3]"
  let ?Rs = "[sample_readings\<lparr>rd_uuid := 70\<rparr>, sample_readings\<lparr>rd_uuid := 71\<rparr>]"
  let ?frames = "upload_stream_frames sample_env VOID_CHUNK_SIZE [1, 2, 3] ?h"
  have ck: "chunks_of VOID_CHUNK_SIZE [1, 2, 3 :: 8 word] = [[1, 2, 3]]"
    by (simp add: chunks_of.simps VOID_CHUNK_SIZE_def)
  have fin: "finish_transfer_upload sample_env [1, 2, 3] ?h = Some ?frames"
    by (simp add: finish_transfer_upload_def ck)
  have b: "tb_transfer_id stream_begin = 9" "tb_expected_hash stream_begin = ?h" "valid_begin stream_begin"
    "tb_deadline_unix_ms stream_begin = 100" "unat (tb_expected_chunks stream_begin) = 1"
    "unat (tb_expected_len stream_begin) = 3" "valid_transfer_authorization sample_env stream_begin [1]"
    "hash_transfer sample_env [1, 2, 3] = ?h" "tt_tensor_header (sample_ticket stream_begin) = [1, 2]"
    by (simp_all add: stream_begin_def sample_begin_def valid_begin_def MAX_MULTIPART_PARTS_def
        TRANSFER_PROTOCOL_VERSION_def valid_transfer_authorization_def hash_transfer_def sample_env_def
        sample_ticket_def)
  have r: "rd_now_check sample_readings = 10" "store sample_ctx = Map.empty"
    by (simp_all add: sample_readings_def sample_ctx_def)
  let ?up = "handle_transfer_stream_upload sample_env sample_readings stream_begin [1] (zip ?Rs ?frames) sample_ctx"
  let ?down = "handle_transfer_stream_download sample_env sample_readings 9 [1] [(sample_readings, \<lambda>c. c)] (snd ?up)"
  have n: "length ?frames = 2" by (simp add: upload_stream_frames_def ck)
  show ?thesis
    unfolding Let_def
    by (rule publish_then_receive [OF sample_env sample_reachable b(3), where R = sample_readings and data = "[1, 2, 3]"
          and frames = ?frames and Rs = ?Rs and R' = sample_readings and authorization = "[1]"
          and ps = "[]" and ctx' = "snd ?up" and responses = "fst ?up" and sent = "fst ?down"
          and final = "fst (snd ?down)" and ctx'' = "snd (snd ?down)" and ticket = "sample_ticket stream_begin"
          and p = "(sample_readings, \<lambda>c. c)", THEN conjunct2, THEN conjunct2])
       (simp_all add: b r ck n fin sample_ticket_matches)
qed

lemma fetch_chunks_ok:
  assumes "\<And>c. c \<in> set cs \<Longrightarrow> fst (handle_download E (tc_object_id c) ctx) = VDownloaded (f c)
      \<and> of_nat (length (f c)) = tc_len c \<and> hash_transfer E (f c) = tc_hash c"
    and "distinct (map tc_index cs)" and "\<And>c. c \<in> set cs \<Longrightarrow> staged (tc_index c) = None"
  shows "\<exists>staged'. fetch_chunks E ctx t cs staged = Inr staged'
    \<and> (\<forall>c \<in> set cs. staged' (tc_index c) = Some (f c)) \<and> (\<forall>i. i \<notin> tc_index ` set cs \<longrightarrow> staged' i = staged i)"
  using assms
proof (induction cs arbitrary: staged)
  case (Cons c cs)
  have "\<exists>staged'. fetch_chunks E ctx t cs (staged(tc_index c \<mapsto> f c)) = Inr staged'
    \<and> (\<forall>e \<in> set cs. staged' (tc_index e) = Some (f e))
    \<and> (\<forall>i. i \<notin> tc_index ` set cs \<longrightarrow> staged' i = (staged(tc_index c \<mapsto> f c)) i)"
  proof (rule Cons.IH)
    show "(staged(tc_index c \<mapsto> f c)) (tc_index e) = None" if "e \<in> set cs" for e
    proof -
      have "tc_index e \<noteq> tc_index c" using Cons.prems(2) that by (metis distinct.simps(2) image_eqI list.set_map list.simps(9))
      then show ?thesis using Cons.prems(3) [of e] that by simp
    qed
  qed (use Cons.prems(1,2) in auto)
  then obtain staged' where s: "fetch_chunks E ctx t cs (staged(tc_index c \<mapsto> f c)) = Inr staged'"
    "\<forall>e \<in> set cs. staged' (tc_index e) = Some (f e)"
    "\<forall>i. i \<notin> tc_index ` set cs \<longrightarrow> staged' i = (staged(tc_index c \<mapsto> f c)) i" by blast
  have "fetch_chunks E ctx t (c # cs) staged = Inr staged'"
    using Cons.prems(1) [of c] Cons.prems(3) [of c] s(1) by simp
  moreover have "tc_index c \<notin> tc_index ` set cs" using Cons.prems(2) by simp
  ultimately show ?case using s(2,3) by (intro exI [of _ staged']) auto
qed simp

lemma assemble_chunks_ok:
  assumes "\<And>i. i \<in> set is \<Longrightarrow> staged i = Some (g i)" and "distinct is"
  shows "assemble_chunks t is staged = Inr (concat (map g is))"
  using assms
proof (induction "is" arbitrary: staged)
  case (Cons i "is")
  have "assemble_chunks t is (staged(i := None)) = Inr (concat (map g is))"
    using Cons.prems by (intro Cons.IH) auto
  then show ?case using Cons.prems(1) by simp
qed simp

lemma index_range_eq:
  assumes "map (\<lambda>c. unat (tc_index c)) cs = [0..<unat n]"
  shows "index_range n = map tc_index cs"
proof -
  have "map tc_index cs = map of_nat (map (\<lambda>c. unat (tc_index c)) cs)" by simp
  also have "\<dots> = index_range n" unfolding assms index_range_def ..
  finally show ?thesis ..
qed

text \<open>
  the polling client reads back a committed transfer: in a reachable state where the
  transfer is committed, its first poll returns the bytes of the committed chunks.
\<close>

theorem polling_client_reads_committed:
  assumes "mem_env E" and "reachable E ctx" and "mem_transfers E ctx t = Some (Committed m)"
  shows "download_committed_transfer E t Map.empty ((R, now_ms, others) # polls) ctx
    = (Some (Inr (concat (map (chunk_data E (mos_map (object_store ctx))) (tm_chunks m)))), ctx)"
proof -
  let ?f = "chunk_data E (mos_map (object_store ctx))"
  let ?cs = "tm_chunks m"
  have ok: "record_ok E (mos_map (object_store ctx)) (store ctx) t (Committed m)"
    by (rule reachable_record_ok [OF assms])
  then have idx: "map (\<lambda>c. unat (tc_index c)) ?cs = [0..<unat (tb_expected_chunks (tm_begin m))]"
    by (simp add: record_ok_def complete_def)
  have n: "length ?cs = unat (tb_expected_chunks (tm_begin m))" using arg_cong [OF idx, of length] by simp
  have dist: "distinct (map tc_index ?cs)"
  proof -
    have "distinct (map unat (map tc_index ?cs))" using idx by (simp add: comp_def)
    then show ?thesis by (simp only: distinct_map)
  qed
  have dl: "fst (handle_download E (tc_object_id c) ctx) = VDownloaded (?f c)
      \<and> of_nat (length (?f c)) = tc_len c \<and> hash_transfer E (?f c) = tc_hash c" if "c \<in> set ?cs" for c
  proof -
    have s: "mem_view ctx (tc_object_id c) = Some (?f c)" "unat (tc_len c) = length (?f c)"
      "hash_transfer E (?f c) = tc_hash c"
      using ok that by (auto simp: record_ok_def chunk_stored_def chunk_data_def mem_view_def visible_def)
    then have "of_nat (length (?f c)) = tc_len c" by (metis of_nat_unat ucast_id)
    then show ?thesis using mem_download_eq [OF assms(1) s(1)] s(3) by simp
  qed
  obtain staged where staged: "fetch_chunks E ctx t ?cs Map.empty = Inr staged"
    "\<forall>c \<in> set ?cs. staged (tc_index c) = Some (?f c)"
    using fetch_chunks_ok [OF dl dist, of Map.empty t] by auto
  define g where "g i = the (staged i)" for i
  have "assemble_chunks t (map tc_index ?cs) staged = Inr (concat (map g (map tc_index ?cs)))"
    using staged(2) dist by (intro assemble_chunks_ok) (auto simp: g_def)
  also have "map g (map tc_index ?cs) = map ?f ?cs" using staged(2) by (simp add: g_def)
  finally have asm: "assemble_chunks t (index_range (tb_expected_chunks (tm_begin m))) staged
      = Inr (concat (map ?f ?cs))" by (simp add: index_range_eq [OF idx])
  have "length (concat (map ?f ?cs)) = chunk_lens ?cs"
  proof -
    have "length (?f c) = unat (tc_len c)" if "c \<in> set ?cs" for c
      using ok that by (auto simp: record_ok_def chunk_stored_def chunk_data_def)
    then show ?thesis by (auto simp: length_concat chunk_lens_def comp_def intro!: arg_cong [where f = sum_list])
  qed
  then have len: "of_nat (length (concat (map ?f ?cs))) = tb_expected_len (tm_begin m)"
    using ok by (simp add: record_ok_def complete_def)
  have fin: "finish_committed E t (tm_begin m) ?cs staged = Inr (concat (map ?f ?cs))"
    using n asm len ok by (simp add: finish_committed_def record_ok_def)
  have "handle_transfer_inspect E R t ctx = (VTransfer (Committed m), ctx)"
    using reliable_backend.load_view [OF mem_reliable [OF assms(1)] assms(3) [unfolded mem_transfers_def]]
    by (simp add: handle_transfer_inspect_def load_and_expire_def expire_transfer_locked_def)
  then show ?thesis using staged(1) fin by simp
qed

lemma polling_client_reads_committed_witness:
  "fst (download_committed_transfer sample_env 9 Map.empty [(sample_readings, 0, \<lambda>c. c)] empty_committed)
    = Some (Inr [])"
  using polling_client_reads_committed [OF sample_env empty_committed_reachable empty_committed_view,
      of sample_readings 0 "\<lambda>c. c" "[]"] by simp

section \<open>Files\<close>

lemma download_windows:
  assumes "mem_env E" and "mem_view ctx i = Some d" and "length d < 2 ^ 64 - VOID_CHUNK_SIZE"
    and "unat offset \<le> length d" and "(length d - unat offset) div VOID_CHUNK_SIZE < fuel"
  shows "download_to_file E i fuel offset ctx = Some (Inr (drop (unat offset) d))"
  using assms(4,5)
proof (induction fuel arbitrary: offset)
  case (Suc fuel)
  let ?w = "take VOID_CHUNK_SIZE (drop (unat offset) d)"
  have u: "unat (of_nat VOID_CHUNK_SIZE :: u64) = VOID_CHUNK_SIZE"
    by (rule unat_of_nat_small) (simp add: VOID_CHUNK_SIZE_def)
  have w: "fst (handle_download_range E i offset (of_nat VOID_CHUNK_SIZE) ctx) = VDownloaded ?w"
    using reliable_backend.handle_download_range_eq [OF mem_reliable [OF assms(1)], OF assms(2) [unfolded mem_view_def],
        of offset "of_nat VOID_CHUNK_SIZE"] assms(3) u by simp
  show ?case
  proof (cases "length ?w < VOID_CHUNK_SIZE")
    case True
    then have "?w = drop (unat offset) d" by simp
    then show ?thesis using w True by auto
  next
    case False
    have pos: "0 < VOID_CHUNK_SIZE" by (simp add: VOID_CHUNK_SIZE_def)
    from False have le: "VOID_CHUNK_SIZE \<le> length d - unat offset" and lw: "length ?w = VOID_CHUNK_SIZE" by auto
    have ne: "?w \<noteq> []" using lw pos by auto
    have o: "unat (offset + of_nat VOID_CHUNK_SIZE) = unat offset + VOID_CHUNK_SIZE"
      using assms(3) Suc.prems(1) le u by (simp add: unat_word_ariths)
    have "(length d - unat offset - VOID_CHUNK_SIZE) div VOID_CHUNK_SIZE
        = (length d - unat offset) div VOID_CHUNK_SIZE - 1"
      using le pos by (simp add: le_div_geq)
    then have "download_to_file E i fuel (offset + of_nat VOID_CHUNK_SIZE) ctx
        = Some (Inr (drop (unat (offset + of_nat VOID_CHUNK_SIZE)) d))"
      using Suc.prems le pos div_le_mono [OF le, of VOID_CHUNK_SIZE] o by (intro Suc.IH) auto
    moreover have "?w @ drop (unat offset + VOID_CHUNK_SIZE) d = drop (unat offset) d"
      by (metis append_take_drop_id drop_drop add.commute)
    ultimately show ?thesis using w lw ne o by simp
  qed
qed simp

lemma send_parts_ok:
  assumes "mem_env E" and "reliable_backend.in_flight mos_multipart ctx i stored"
    and "0 < k" and "k + length reads \<le> 10001"
  shows "\<exists>ctx'. send_parts E i (of_nat k) reads ctx = (Inr (of_nat (k + length reads) - 1), ctx')
    \<and> reliable_backend.in_flight mos_multipart ctx' i
       (stored ++ map_of (rev (map (\<lambda>(j, d). (of_nat j, d)) (List.enumerate k reads))))
    \<and> mos_map (object_store ctx') = mos_map (object_store ctx) \<and> store ctx' = store ctx"
  using assms(2-)
proof (induction reads arbitrary: k ctx stored)
  case Nil
  then show ?case by simp
next
  case (Cons d reads)
  note rb = mem_reliable [OF assms(1)]
  have uk: "unat (of_nat k :: u32) = k" using Cons.prems(3) by (intro unat_of_nat_small) simp
  have kr: "0 < (of_nat k :: u32)" "of_nat k \<le> MAX_MULTIPART_PARTS"
    using Cons.prems(2,3) uk by (simp_all add: word_less_nat_alt word_le_nat_alt MAX_MULTIPART_PARTS_def)
  obtain ctx1 where p: "handle_upload_part E i (of_nat k) d ctx = (VAck, ctx1)"
    "reliable_backend.in_flight mos_multipart ctx1 i (stored(of_nat k \<mapsto> d))"
    using reliable_backend.upload_part_in_flight [OF rb Cons.prems(1) kr, of d] by (metis prod.collapse)
  have same: "mos_map (object_store ctx1) = mos_map (object_store ctx)" "store ctx1 = store ctx"
    using void_backend.handle_upload_part_effect [OF mem_backend [OF assms(1)] p(1)] by auto
  have k': "0 < Suc k" "Suc k + length reads \<le> 10001" using Cons.prems(3) by simp_all
  have eq: "stored ++ map_of (rev (map (\<lambda>(j, d). (of_nat j, d)) (List.enumerate k (d # reads))))
      = stored(of_nat k \<mapsto> d) ++ map_of (rev (map (\<lambda>(j, d). (of_nat j, d)) (List.enumerate (Suc k) reads)))"
    by (auto simp: map_add_def fun_eq_iff split: option.splits)
  have send: "send_parts E i (of_nat k) (d # reads) ctx = send_parts E i (of_nat (Suc k)) reads ctx1"
    using p(1) by (simp add: add.commute)
  have len: "k + length (d # reads) = Suc k + length reads" by simp
  show ?case
    unfolding eq send len same [symmetric] by (rule Cons.IH [OF p(2) k'])
qed

lemma map_of_enumerate_of_nat:
  assumes "k + length ds \<le> 2 ^ 32"
  shows "map_of (rev (map (\<lambda>(j, d). (of_nat j :: u32, d)) (List.enumerate k ds))) n
    = (if k \<le> unat n \<and> unat n < k + length ds then Some (ds ! (unat n - k)) else None)"
  using assms
proof (induction ds arbitrary: k)
  case (Cons d ds)
  have uk: "unat (of_nat k :: u32) = k" using Cons.prems by (intro unat_of_nat_small) simp
  have eq: "n = of_nat k \<longleftrightarrow> unat n = k" using uk by (metis of_nat_unat ucast_id)
  have ih: "map_of (rev (map (\<lambda>(j, d). (of_nat j :: u32, d)) (List.enumerate (Suc k) ds))) n
    = (if Suc k \<le> unat n \<and> unat n < Suc k + length ds then Some (ds ! (unat n - Suc k)) else None)"
    using Cons.prems by (intro Cons.IH) simp
  show ?case
    using ih eq by (auto simp: map_add_def nth_Cons' split: option.splits if_splits)
qed simp

text \<open>
  C14: a file goes through the server unchanged. A file above one frame is sent as a multipart
  upload of the buffers that reading it returns, at most ten thousand of them; the client
  obtains the identifier the server assigned, and downloading that object with ranged reads
  of sixteen megabytes writes exactly the bytes of the file, in boundedly many reads.
\<close>

theorem file_roundtrip:
  assumes "mem_env E" and "keys_ok (ve_uuid_text E) (store ctx)"
    and "multipart_uploads ctx (rd_uuid R) = None"
    and "0 < length reads" and "length reads \<le> 10000" and "length (concat reads) < 2 ^ 64 - VOID_CHUNK_SIZE"
    and "length (concat reads) div VOID_CHUNK_SIZE < fuel"
    and "upload_file_multipart E R reads file_size ctx = (res, ctx')"
  shows "res = Inr (rd_uuid R) \<and> download_to_file E (rd_uuid R) fuel 0 ctx' = Some (Inr (concat reads))"
proof -
  note rb = mem_reliable [OF assms(1)]
  have sound: "sound_env E" using assms(1) by (simp add: mem_env_def)
  let ?i = "rd_uuid R" and ?n = "length reads"
  obtain ctx1 where b: "handle_upload_begin E R None file_size ctx = (VUploaded ?i, ctx1)"
    using reliable_backend.upload_begin_in_flight(2) [OF rb assms(3), where given = None and R = R]
    by (metis option.simps(4) prod.collapse)
  have fl1: "reliable_backend.in_flight mos_multipart ctx1 ?i Map.empty"
    using reliable_backend.upload_begin_in_flight(1) [OF rb assms(3), where given = None and R = R] b
    by (metis option.simps(4) snd_conv)
  have same1: "mos_map (object_store ctx1) = mos_map (object_store ctx)" "store ctx1 = store ctx"
    using void_backend.handle_upload_begin_effect [OF mem_backend [OF assms(1)] b] by auto
  define mm where "mm = Map.empty ++ map_of (rev (map (\<lambda>(j, d). (of_nat j :: u32, d)) (List.enumerate 1 reads)))"
  obtain ctx2 where s: "send_parts E ?i (of_nat 1) reads ctx1 = (Inr (of_nat (1 + ?n) - 1), ctx2)"
    "reliable_backend.in_flight mos_multipart ctx2 ?i mm"
    "mos_map (object_store ctx2) = mos_map (object_store ctx1)" "store ctx2 = store ctx1"
    using send_parts_ok [OF assms(1) fl1, of 1 reads] assms(5) unfolding mm_def by auto
  have un: "unat (of_nat ?n :: u32) = ?n" using assms(5) by (intro unat_of_nat_small) simp
  have m: "mm n = (if 0 < unat n \<and> unat n \<le> ?n then Some (reads ! (unat n - 1)) else None)" for n
    unfolding mm_def map_add_def using map_of_enumerate_of_nat [of 1 reads n] assms(5) by auto
  have dom: "dom mm = {n. 0 < n \<and> n \<le> (of_nat ?n :: u32)}"
    using un by (auto simp: dom_def m word_less_nat_alt word_le_nat_alt split: if_splits)
  have kr: "0 < (of_nat ?n :: u32)" "of_nat ?n \<le> MAX_MULTIPART_PARTS"
    using un assms(4,5) by (simp_all add: word_less_nat_alt word_le_nat_alt MAX_MULTIPART_PARTS_def)
  obtain ctx3 bk sz where f: "handle_upload_finish E ?i (of_nat ?n) ctx2 = (VUploaded ?i, ctx3)"
    "mos_map (object_store ctx3) = (mos_map (object_store ctx2))(ve_uuid_text E ?i \<mapsto>
       concat (map (\<lambda>n. the (mm n)) (expected_parts (of_nat ?n))))"
    "store ctx3 = (store ctx2)(?i \<mapsto> \<lparr>rec_id = ?i, rec_bucket = bk, rec_key = ve_uuid_text E ?i, rec_size_bytes = sz\<rparr>)"
    by (rule reliable_backend.upload_finish_ok [OF rb s(2) kr dom]) blast
  have "map (\<lambda>n. the (mm n)) (expected_parts (of_nat ?n)) = reads"
  proof (rule nth_equalityI)
    show "length (map (\<lambda>n. the (mm n)) (expected_parts (of_nat ?n))) = ?n"
      using un by (simp add: expected_parts_def del: upt_Suc)
    fix j assume "j < length (map (\<lambda>n. the (mm n)) (expected_parts (of_nat ?n)))"
    then have j: "j < ?n" using un by (simp add: expected_parts_def del: upt_Suc)
    have "unat (of_nat (Suc j) :: u32) = Suc j" using j assms(5) by (intro unat_of_nat_small) simp
    then show "map (\<lambda>n. the (mm n)) (expected_parts (of_nat ?n)) ! j = reads ! j"
      using j un by (simp add: expected_parts_def m del: of_nat_Suc upt_Suc)
  qed
  then have "mem_view ctx3 ?i = Some (concat reads)" using f(2,3) by (simp add: mem_view_def visible_def)
  then have "download_to_file E ?i fuel 0 ctx3 = Some (Inr (concat reads))"
    using download_windows [OF assms(1) _ assms(6), of ctx3 ?i 0 fuel] assms(7) by simp
  moreover have "upload_file_multipart E R reads file_size ctx = (Inr ?i, ctx3)"
    using b s(1) f(1) by (simp add: upload_file_multipart_def)
  ultimately show ?thesis using assms(8) by simp
qed

lemma file_roundtrip_witness:
  "download_to_file sample_env 77 1 0
     (snd (upload_file_multipart sample_env sample_readings [[1, 2], [3]] 3 sample_ctx)) = Some (Inr [1, 2, 3])"
  using file_roundtrip [OF sample_env _ _ _ _ _ _ prod.collapse [symmetric], of sample_ctx sample_readings "[[1, 2], [3]]" 1 3]
  by (simp add: sample_ctx_def sample_readings_def VOID_CHUNK_SIZE_def)

end
