(* ===== verification/Tensor_Codec.thy ===== *)
theory Tensor_Codec
  imports Wire_Types
begin

text \<open>
  The tensor contracts and the v1 frame codec of \<open>_black_hole_spec/src/lib.rs\<close>. A frame is the
  magic, the length of the envelope, the envelope, the metadata and a safetensors file.
  Postcard, JSON, SHA-256 and the safetensors package are parameters; the layout of a frame,
  the checks of the envelope against the contract and the checks of the tensors against the
  ports are translated from the code. \<open>usize\<close> is 64 bits wide, so that a conversion of a
  \<open>u64\<close> to \<open>usize\<close> cannot fail; the additions of lengths are the checked ones of the code.
\<close>

definition FRAME_MAGIC :: bytes where
  "FRAME_MAGIC = map (of_nat \<circ> of_char) ''BHSTEN01''"

definition FRAME_PREFIX_LEN :: nat where
  "FRAME_PREFIX_LEN = length FRAME_MAGIC + 4"

section \<open>Tensors and errors\<close>

text \<open>The data types of the safetensors package; \<open>StOther\<close> stands for those without a counterpart.\<close>

datatype st_dtype =
    StBOOL | StU8 | StU16 | StU32 | StU64 | StI8 | StI16 | StI32 | StI64
  | StF8E4M3 | StF8E5M2 | StF16 | StBF16 | StF32 | StF64
  | StF4 | StF6E2M3 | StF6E3M2 | StF8E8M0 | StC64 | StOther nat

record raw_tensor =
  rt_name :: string
  rt_dtype :: tensor_dtype
  rt_shape :: "u64 list"
  rt_data :: bytes

record st_view =
  sv_dtype :: st_dtype
  sv_shape :: "u64 list"
  sv_data :: bytes

record st_info =
  si_dtype :: st_dtype
  si_shape :: "u64 list"
  si_offsets :: "nat \<times> nat"

datatype codec_error =
    KTruncated
  | KInvalidMagic
  | KUnsupportedEnvelopeVersion u16
  | KUnsupportedTensorEncoding encoding_id
  | KUnsupportedMetadataEncoding encoding_id
  | KContractIdMismatch
  | KContractVersionMismatch u32 u32
  | KContractHashMismatch
  | KContractSideMismatch contract_side contract_side
  | KLengthMismatch
  | KDuplicatePort string
  | KDuplicateTensor string
  | KMissingTensor string
  | KUnexpectedTensor string
  | KDtypeMismatch string dtype_constraint tensor_dtype
  | KRankMismatch string nat nat
  | KDimensionMismatch string nat u64 u64
  | KSymbolicDimensionMismatch string u64 u64
  | KUnsupportedDtype st_dtype
  | KLengthOverflow
  | KSafetensors
  | KPostcard
  | KHeaderJson

fun to_safetensors_dtype :: "tensor_dtype \<Rightarrow> st_dtype" where
  "to_safetensors_dtype DBool = StBOOL"
| "to_safetensors_dtype DU8 = StU8"
| "to_safetensors_dtype DU16 = StU16"
| "to_safetensors_dtype DU32 = StU32"
| "to_safetensors_dtype DU64 = StU64"
| "to_safetensors_dtype DI8 = StI8"
| "to_safetensors_dtype DI16 = StI16"
| "to_safetensors_dtype DI32 = StI32"
| "to_safetensors_dtype DI64 = StI64"
| "to_safetensors_dtype DF8E4M3 = StF8E4M3"
| "to_safetensors_dtype DF8E5M2 = StF8E5M2"
| "to_safetensors_dtype DF16 = StF16"
| "to_safetensors_dtype DBF16 = StBF16"
| "to_safetensors_dtype DF32 = StF32"
| "to_safetensors_dtype DF64 = StF64"
| "to_safetensors_dtype DF4 = StF4"
| "to_safetensors_dtype DF6E2M3 = StF6E2M3"
| "to_safetensors_dtype DF6E3M2 = StF6E3M2"
| "to_safetensors_dtype DF8E8M0 = StF8E8M0"
| "to_safetensors_dtype DC64 = StC64"

fun from_safetensors_dtype :: "st_dtype \<Rightarrow> codec_error + tensor_dtype" where
  "from_safetensors_dtype StBOOL = Inr DBool"
| "from_safetensors_dtype StU8 = Inr DU8"
| "from_safetensors_dtype StU16 = Inr DU16"
| "from_safetensors_dtype StU32 = Inr DU32"
| "from_safetensors_dtype StU64 = Inr DU64"
| "from_safetensors_dtype StI8 = Inr DI8"
| "from_safetensors_dtype StI16 = Inr DI16"
| "from_safetensors_dtype StI32 = Inr DI32"
| "from_safetensors_dtype StI64 = Inr DI64"
| "from_safetensors_dtype StF8E4M3 = Inr DF8E4M3"
| "from_safetensors_dtype StF8E5M2 = Inr DF8E5M2"
| "from_safetensors_dtype StF16 = Inr DF16"
| "from_safetensors_dtype StBF16 = Inr DBF16"
| "from_safetensors_dtype StF32 = Inr DF32"
| "from_safetensors_dtype StF64 = Inr DF64"
| "from_safetensors_dtype StF4 = Inr DF4"
| "from_safetensors_dtype StF6E2M3 = Inr DF6E2M3"
| "from_safetensors_dtype StF6E3M2 = Inr DF6E3M2"
| "from_safetensors_dtype StF8E8M0 = Inr DF8E8M0"
| "from_safetensors_dtype StC64 = Inr DC64"
| "from_safetensors_dtype (StOther n) = Inl (KUnsupportedDtype (StOther n))"

lemma from_to_safetensors_dtype [simp]: "from_safetensors_dtype (to_safetensors_dtype d) = Inr d"
  by (cases d) auto

section \<open>The packages the codec is built on\<close>

text \<open>
  \<open>'md\<close> is the metadata type of a contract and \<open>'j\<close> a JSON value. \<open>tn_tensor_view\<close> is
  the check of \<open>TensorView::new\<close>, \<open>tn_serialize\<close> and \<open>tn_deserialize\<close> are the safetensors
  file format, \<open>tn_json_object\<close>, \<open>tn_json_metadata\<close> and \<open>tn_json_info\<close> the JSON parsers of its
  header, and \<open>tn_header_check\<close> is \<open>Metadata::new\<close>, which returns the length of the data.
\<close>

record ('md, 'j) tensor_env =
  tn_sha256 :: "bytes \<Rightarrow> bytes"
  tn_encode_contract :: "contract_descriptor \<Rightarrow> bytes"
  tn_encode_envelope :: "tensor_envelope \<Rightarrow> bytes option"
  tn_decode_envelope :: "bytes \<Rightarrow> tensor_envelope option"
  tn_encode_metadata :: "'md \<Rightarrow> bytes option"
  tn_decode_metadata :: "bytes \<Rightarrow> 'md option"
  tn_tensor_view :: "st_dtype \<Rightarrow> u64 list \<Rightarrow> bytes \<Rightarrow> bool"
  tn_serialize :: "(string \<times> st_view) list \<Rightarrow> bytes option"
  tn_deserialize :: "bytes \<Rightarrow> (string \<times> st_view) list option"
  tn_json_object :: "bytes \<Rightarrow> (string \<times> 'j) list option"
  tn_json_metadata :: "'j \<Rightarrow> bool"
  tn_json_info :: "'j \<Rightarrow> st_info option"
  tn_header_check :: "(string \<times> st_info) list \<Rightarrow> nat option"

definition descriptor_hash :: "('md, 'j) tensor_env \<Rightarrow> contract_descriptor \<Rightarrow> contract_hash" where
  "descriptor_hash E d = ContractHash (tn_sha256 E (tn_encode_contract E d))"

section \<open>Contracts\<close>

definition dimension_descriptor_of :: "u64 \<Rightarrow> dimension_descriptor" where
  "dimension_descriptor_of n = (if n = 0 then DimDynamic else DimStatic n)"

definition port_descriptor :: "string \<Rightarrow> u64 list \<Rightarrow> dtype_constraint \<Rightarrow> tensor_port_descriptor" where
  "port_descriptor name dims dtype =
     \<lparr>tp_name = name, tp_dimensions = map dimension_descriptor_of dims,
      tp_dtype = dtype, tp_layout = LayoutContiguous\<rparr>"

definition operation_capability_for :: "('md, 'j) tensor_env \<Rightarrow> contract_descriptor \<Rightarrow> operation_capability" where
  "operation_capability_for E d =
     \<lparr>oc_descriptor = d, oc_descriptor_hash = descriptor_hash E d,
      oc_tensor_encodings = [SAFETENSORS_V1], oc_metadata_encodings = [POSTCARD_V1],
      oc_operations = FORWARD_ONLY, oc_backward = None\<rparr>"

definition backward_operation_capability :: "('md, 'j) tensor_env \<Rightarrow> contract_descriptor \<Rightarrow>
    contract_descriptor \<Rightarrow> operation_capability" where
  "backward_operation_capability E d bd =
     (operation_capability_for E d)\<lparr>oc_backward :=
        Some \<lparr>bc_descriptor = bd, bc_descriptor_hash = descriptor_hash E bd\<rparr>\<rparr>"

section \<open>Checks against the contract\<close>

fun ports_for :: "contract_descriptor \<Rightarrow> contract_side \<Rightarrow> tensor_port_descriptor list" where
  "ports_for d SideInput = cd_inputs d"
| "ports_for d SideOutput = cd_outputs d"

definition validate_runtime_envelope :: "('md, 'j) tensor_env \<Rightarrow> tensor_envelope \<Rightarrow>
    contract_descriptor \<Rightarrow> contract_side \<Rightarrow> codec_error + unit" where
  "validate_runtime_envelope E e d side =
     (if te_envelope_version e \<noteq> TENSOR_ENVELOPE_VERSION
      then Inl (KUnsupportedEnvelopeVersion (te_envelope_version e))
      else if te_tensor_encoding e \<noteq> SAFETENSORS_V1
      then Inl (KUnsupportedTensorEncoding (te_tensor_encoding e))
      else if te_metadata_encoding e \<noteq> POSTCARD_V1
      then Inl (KUnsupportedMetadataEncoding (te_metadata_encoding e))
      else if te_contract_id e \<noteq> cd_id d then Inl KContractIdMismatch
      else if te_contract_version e \<noteq> cd_version d
      then Inl (KContractVersionMismatch (cd_version d) (te_contract_version e))
      else if te_contract_hash e \<noteq> descriptor_hash E d then Inl KContractHashMismatch
      else if te_side e \<noteq> side then Inl (KContractSideMismatch side (te_side e))
      else Inr ())"

text \<open>Insertion of keys into a set (or map) that stops at the first key that is already there.\<close>

fun insert_fresh :: "(string \<Rightarrow> codec_error) \<Rightarrow> string list \<Rightarrow> string list \<Rightarrow> codec_error + unit" where
  "insert_fresh err seen [] = Inr ()"
| "insert_fresh err seen (n # ns) =
     (if n \<in> set seen then Inl (err n) else insert_fresh err (n # seen) ns)"

definition validate_schema :: "tensor_port_descriptor list \<Rightarrow> codec_error + unit" where
  "validate_schema ports = insert_fresh KDuplicatePort [] (map tp_name ports)"

fun check_dimensions :: "string \<Rightarrow> nat \<Rightarrow> (dimension_descriptor \<times> u64) list \<Rightarrow>
    (string \<rightharpoonup> u64) \<Rightarrow> codec_error + (string \<rightharpoonup> u64)" where
  "check_dimensions name axis [] bindings = Inr bindings"
| "check_dimensions name axis ((rule, actual) # dims) bindings =
     (case rule of
        DimStatic expected \<Rightarrow>
          if expected \<noteq> actual then Inl (KDimensionMismatch name axis expected actual)
          else check_dimensions name (Suc axis) dims bindings
      | DimSymbolic label \<Rightarrow>
          (case bindings label of
             Some first \<Rightarrow>
               if first \<noteq> actual then Inl (KSymbolicDimensionMismatch label first actual)
               else check_dimensions name (Suc axis) dims bindings
           | None \<Rightarrow> check_dimensions name (Suc axis) dims (bindings(label \<mapsto> actual)))
      | DimDynamic \<Rightarrow> check_dimensions name (Suc axis) dims bindings)"

definition tensor_map :: "raw_tensor list \<Rightarrow> string \<rightharpoonup> raw_tensor" where
  "tensor_map tensors = map_of (map (\<lambda>t. (rt_name t, t)) tensors)"

fun check_ports :: "(string \<rightharpoonup> raw_tensor) \<Rightarrow> tensor_port_descriptor list \<Rightarrow>
    (string \<rightharpoonup> u64) \<Rightarrow> codec_error + (string \<rightharpoonup> u64)" where
  "check_ports actual [] bindings = Inr bindings"
| "check_ports actual (port # ports) bindings =
     (case actual (tp_name port) of
        None \<Rightarrow> Inl (KMissingTensor (tp_name port))
      | Some tensor \<Rightarrow>
          if \<not> accepts (tp_dtype port) (rt_dtype tensor)
          then Inl (KDtypeMismatch (tp_name port) (tp_dtype port) (rt_dtype tensor))
          else if length (tp_dimensions port) \<noteq> length (rt_shape tensor)
          then Inl (KRankMismatch (tp_name port) (length (tp_dimensions port)) (length (rt_shape tensor)))
          else and_then (check_dimensions (tp_name port) 0
                 (zip (tp_dimensions port) (rt_shape tensor)) bindings)
               (check_ports actual ports))"

definition validate_tensors :: "tensor_port_descriptor list \<Rightarrow> raw_tensor list \<Rightarrow> codec_error + unit" where
  "validate_tensors ports tensors =
     and_then (insert_fresh KDuplicateTensor [] (map rt_name tensors)) (\<lambda>_.
       (case find (\<lambda>t. rt_name t \<notin> set (map tp_name ports)) tensors of
          Some t \<Rightarrow> Inl (KUnexpectedTensor (rt_name t))
        | None \<Rightarrow> and_then (check_ports (tensor_map tensors) ports Map.empty) (\<lambda>_. Inr ())))"

text \<open>\<open>ports.iter().position(..)\<close>, for a name that is there\<close>

definition port_position :: "tensor_port_descriptor list \<Rightarrow> string \<Rightarrow> nat" where
  "port_position ports name = length (takeWhile (\<lambda>p. tp_name p \<noteq> name) ports)"

section \<open>Reading a frame\<close>

text \<open>
  The common head of the four readers: prefix, magic, length of the envelope and the
  envelope itself, with the position at which it ends.
\<close>

definition read_envelope :: "('md, 'j) tensor_env \<Rightarrow> bytes \<Rightarrow> codec_error + (tensor_envelope \<times> nat)" where
  "read_envelope E frame =
     (if length frame < FRAME_PREFIX_LEN then Inl KTruncated
      else if take (length FRAME_MAGIC) frame \<noteq> FRAME_MAGIC then Inl KInvalidMagic
      else
        let envelope_len = le_value (take 4 (drop (length FRAME_MAGIC) frame)) in
        and_then (ok_or KLengthOverflow (usize_add FRAME_PREFIX_LEN envelope_len)) (\<lambda>envelope_end.
        and_then (ok_or KTruncated (slice_get FRAME_PREFIX_LEN envelope_end frame)) (\<lambda>envelope_bytes.
        and_then (ok_or KPostcard (tn_decode_envelope E envelope_bytes)) (\<lambda>envelope.
        Inr (envelope, envelope_end)))))"

definition view_tensor :: "string \<times> st_view \<Rightarrow> codec_error + raw_tensor" where
  "view_tensor = (\<lambda>(name, view).
     and_then (from_safetensors_dtype (sv_dtype view)) (\<lambda>dtype.
       Inr \<lparr>rt_name = name, rt_dtype = dtype, rt_shape = sv_shape view, rt_data = sv_data view\<rparr>))"

text \<open>A loop (or \<open>collect\<close>) over results: the first error ends it.\<close>

primrec collect_results :: "('a \<Rightarrow> 'e + 'b) \<Rightarrow> 'a list \<Rightarrow> 'e + 'b list" where
  "collect_results f [] = Inr []"
| "collect_results f (x # xs) =
     and_then (f x) (\<lambda>y. and_then (collect_results f xs) (\<lambda>ys. Inr (y # ys)))"

text \<open>The sections of a frame after the envelope: metadata bytes and tensor bytes.\<close>

definition split_frame :: "tensor_envelope \<Rightarrow> nat \<Rightarrow> bytes \<Rightarrow> codec_error + (bytes \<times> bytes)" where
  "split_frame envelope envelope_end frame =
     and_then (ok_or KLengthOverflow (usize_add envelope_end (unat (te_metadata_len envelope)))) (\<lambda>metadata_end.
     and_then (ok_or KLengthOverflow (usize_add metadata_end (unat (te_tensor_len envelope)))) (\<lambda>tensor_end.
     if tensor_end \<noteq> length frame then Inl KLengthMismatch
     else
       and_then (ok_or KTruncated (slice_get envelope_end metadata_end frame)) (\<lambda>metadata.
       and_then (ok_or KTruncated (slice_get metadata_end tensor_end frame)) (\<lambda>tensor_bytes.
       Inr (metadata, tensor_bytes)))))"

text \<open>The tensors of a frame: read, checked against the ports and put in their order.\<close>

definition read_tensors :: "('md, 'j) tensor_env \<Rightarrow> tensor_port_descriptor list \<Rightarrow> bytes \<Rightarrow>
    codec_error + raw_tensor list" where
  "read_tensors E ports tensor_bytes =
     and_then (ok_or KSafetensors (tn_deserialize E tensor_bytes)) (\<lambda>views.
     and_then (collect_results view_tensor views) (\<lambda>tensors.
     and_then (validate_schema ports) (\<lambda>_.
     and_then (validate_tensors ports tensors) (\<lambda>_.
     Inr (sort_key (\<lambda>t. port_position ports (rt_name t)) tensors)))))"

record 'md decoded_bundle =
  db_envelope :: tensor_envelope
  db_metadata :: 'md
  db_tensors :: "raw_tensor list"

definition validate_artifact :: "('md, 'j) tensor_env \<Rightarrow> contract_descriptor \<Rightarrow> contract_side \<Rightarrow>
    bytes \<Rightarrow> codec_error + bytes decoded_bundle" where
  "validate_artifact E d side frame =
     and_then (read_envelope E frame) (\<lambda>(envelope, envelope_end).
     and_then (validate_runtime_envelope E envelope d side) (\<lambda>_.
     and_then (split_frame envelope envelope_end frame) (\<lambda>(metadata, tensor_bytes).
     and_then (read_tensors E (ports_for d side) tensor_bytes) (\<lambda>tensors.
     Inr \<lparr>db_envelope = envelope, db_metadata = metadata, db_tensors = tensors\<rparr>))))"

definition decode_descriptor :: "('md, 'j) tensor_env \<Rightarrow> contract_descriptor \<Rightarrow> contract_side \<Rightarrow>
    bytes \<Rightarrow> codec_error + 'md decoded_bundle" where
  "decode_descriptor E d side frame =
     and_then (read_envelope E frame) (\<lambda>(envelope, envelope_end).
     and_then (validate_runtime_envelope E envelope d side) (\<lambda>_.
     and_then (split_frame envelope envelope_end frame) (\<lambda>(metadata_bytes, tensor_bytes).
     and_then (ok_or KPostcard (tn_decode_metadata E metadata_bytes)) (\<lambda>metadata.
     and_then (read_tensors E (ports_for d side) tensor_bytes) (\<lambda>tensors.
     Inr \<lparr>db_envelope = envelope, db_metadata = metadata, db_tensors = tensors\<rparr>)))))"

section \<open>Writing a frame\<close>

text \<open>
  The map from names to views, keyed by name, built tensor by tensor: a view that the
  package refuses and a name that is already there are errors.
\<close>

fun build_views :: "('md, 'j) tensor_env \<Rightarrow> (string \<times> st_view) list \<Rightarrow> raw_tensor list \<Rightarrow>
    codec_error + (string \<times> st_view) list" where
  "build_views E views [] = Inr views"
| "build_views E views (t # ts) =
     (let view = \<lparr>sv_dtype = to_safetensors_dtype (rt_dtype t), sv_shape = rt_shape t, sv_data = rt_data t\<rparr> in
      if \<not> tn_tensor_view E (sv_dtype view) (sv_shape view) (sv_data view) then Inl KSafetensors
      else if rt_name t \<in> fst ` set views then Inl (KDuplicateTensor (rt_name t))
      else build_views E (AList.update (rt_name t) view views) ts)"

definition encode_descriptor :: "('md, 'j) tensor_env \<Rightarrow> contract_descriptor \<Rightarrow> contract_side \<Rightarrow>
    raw_tensor list \<Rightarrow> 'md \<Rightarrow> codec_error + bytes" where
  "encode_descriptor E d side tensors metadata =
     and_then (validate_schema (ports_for d side)) (\<lambda>_.
     and_then (validate_tensors (ports_for d side) tensors) (\<lambda>_.
     and_then (build_views E [] tensors) (\<lambda>views.
     and_then (ok_or KSafetensors (tn_serialize E views)) (\<lambda>tensor_bytes.
     and_then (ok_or KPostcard (tn_encode_metadata E metadata)) (\<lambda>metadata_bytes.
       let envelope = \<lparr>te_envelope_version = TENSOR_ENVELOPE_VERSION, te_contract_id = cd_id d,
             te_contract_version = cd_version d, te_contract_hash = descriptor_hash E d,
             te_side = side, te_tensor_encoding = SAFETENSORS_V1,
             te_metadata_encoding = POSTCARD_V1,
             te_metadata_len = of_nat (length metadata_bytes),
             te_tensor_len = of_nat (length tensor_bytes)\<rparr>
       in and_then (ok_or KPostcard (tn_encode_envelope E envelope)) (\<lambda>envelope_bytes.
          if length envelope_bytes \<ge> 2 ^ 32 then Inl KLengthOverflow
          else Inr (FRAME_MAGIC @ le_bytes 4 (length envelope_bytes) @ envelope_bytes @
                    metadata_bytes @ tensor_bytes)))))))"

section \<open>The header of a live stream\<close>

text \<open>The end of the envelope, of the metadata, of the length field and of the safetensors header.\<close>

definition header_bounds :: "tensor_envelope \<Rightarrow> nat \<Rightarrow> bytes \<Rightarrow> codec_error + (nat \<times> nat \<times> nat)" where
  "header_bounds envelope envelope_end frame =
     and_then (ok_or KLengthOverflow (usize_add envelope_end (unat (te_metadata_len envelope)))) (\<lambda>tensor_start.
     and_then (ok_or KLengthOverflow (usize_add tensor_start 8)) (\<lambda>safetensors_len_end.
     and_then (ok_or KTruncated (slice_get tensor_start safetensors_len_end frame)) (\<lambda>len_bytes.
     and_then (ok_or KLengthOverflow (usize_add safetensors_len_end (le_value len_bytes))) (\<lambda>header_end.
     Inr (tensor_start, safetensors_len_end, header_end)))))"

definition tensor_stream_header :: "('md, 'j) tensor_env \<Rightarrow> bytes \<Rightarrow> codec_error + bytes" where
  "tensor_stream_header E frame =
     and_then (read_envelope E frame) (\<lambda>(envelope, envelope_end).
     and_then (header_bounds envelope envelope_end frame) (\<lambda>(_, _, header_end).
     ok_or KTruncated (slice_get 0 header_end frame)))"

definition info_tensor :: "string \<times> st_info \<Rightarrow> codec_error + raw_tensor" where
  "info_tensor = (\<lambda>(name, info).
     and_then (from_safetensors_dtype (si_dtype info)) (\<lambda>dtype.
       Inr \<lparr>rt_name = name, rt_dtype = dtype, rt_shape = si_shape info, rt_data = []\<rparr>))"

definition parse_infos :: "('md, 'j) tensor_env \<Rightarrow> bytes \<Rightarrow> codec_error + (string \<times> st_info) list" where
  "parse_infos E json =
     and_then (ok_or KHeaderJson (tn_json_object E json)) (\<lambda>entries.
     and_then (case map_of entries ''__metadata__'' of
                 None \<Rightarrow> Inr ()
               | Some v \<Rightarrow> ensure (tn_json_metadata E v) KHeaderJson) (\<lambda>_.
     and_then (collect_results (\<lambda>(name, v). and_then (ok_or KHeaderJson (tn_json_info E v)) (\<lambda>i. Inr (name, i)))
                 (AList.delete ''__metadata__'' entries)) (\<lambda>infos.
     Inr (sort_key (\<lambda>(_, i). fst (si_offsets i)) infos))))"

definition validate_tensor_stream_header :: "('md, 'j) tensor_env \<Rightarrow> contract_descriptor \<Rightarrow>
    contract_side \<Rightarrow> bytes \<Rightarrow> codec_error + nat" where
  "validate_tensor_stream_header E d side header =
     and_then (read_envelope E header) (\<lambda>(envelope, envelope_end).
     and_then (validate_runtime_envelope E envelope d side) (\<lambda>_.
     and_then (header_bounds envelope envelope_end header) (\<lambda>(tensor_start, safetensors_len_end, header_end).
     if header_end \<noteq> length header then Inl KLengthMismatch
     else
       and_then (parse_infos E (take (header_end - safetensors_len_end) (drop safetensors_len_end header))) (\<lambda>infos.
       and_then (ok_or KSafetensors (tn_header_check E infos)) (\<lambda>data_len.
       and_then (ok_or KLengthOverflow (usize_add 8 (header_end - safetensors_len_end))) (\<lambda>len.
       and_then (ok_or KLengthOverflow (usize_add len data_len)) (\<lambda>safetensors_len.
       if safetensors_len \<noteq> unat (te_tensor_len envelope) then Inl KLengthMismatch
       else
         and_then (collect_results info_tensor infos) (\<lambda>tensors.
         and_then (validate_schema (ports_for d side)) (\<lambda>_.
         and_then (validate_tensors (ports_for d side) tensors) (\<lambda>_.
         ok_or KLengthOverflow (usize_add tensor_start safetensors_len)))))))))))"

end
