(* ===== verification/Tensor_Proofs.thy ===== *)
theory Tensor_Proofs
  imports Tensor_Codec "HOL-Library.Multiset"
begin

text \<open>
  What a tensor frame guarantees. The checks of the code are equivalent to a declarative
  description of a bundle that fits its ports (\<open>bundle_conforms\<close>); a decoded bundle has one
  tensor per port, in the order of the ports; encoding and decoding are inverse; and the
  header sent ahead of a live stream is accepted and announces the exact length of the frame.
\<close>

section \<open>Bundles that conform to their ports\<close>

fun dim_fits :: "(string \<Rightarrow> u64) \<Rightarrow> dimension_descriptor \<Rightarrow> u64 \<Rightarrow> bool" where
  "dim_fits s (DimStatic n) a = (n = a)"
| "dim_fits s (DimSymbolic l) a = (s l = a)"
| "dim_fits s DimDynamic a = True"

definition port_fits :: "(string \<Rightarrow> u64) \<Rightarrow> tensor_port_descriptor \<Rightarrow> raw_tensor \<Rightarrow> bool" where
  "port_fits s p t \<longleftrightarrow> rt_name t = tp_name p \<and> accepts (tp_dtype p) (rt_dtype t)
     \<and> list_all2 (dim_fits s) (tp_dimensions p) (rt_shape t)"

definition bundle_conforms :: "tensor_port_descriptor list \<Rightarrow> raw_tensor list \<Rightarrow> bool" where
  "bundle_conforms ports ts \<longleftrightarrow> distinct (map rt_name ts)
     \<and> set (map rt_name ts) = set (map tp_name ports)
     \<and> (\<exists>s. \<forall>p \<in> set ports. \<exists>t \<in> set ts. port_fits s p t)"

lemma insert_fresh_iff [result_simps]:
  "insert_fresh err seen ns = Inr u \<longleftrightarrow> distinct ns \<and> set ns \<inter> set seen = {}"
  by (induction err seen ns rule: insert_fresh.induct) auto

lemma validate_schema_iff [result_simps]:
  "validate_schema ports = Inr u \<longleftrightarrow> distinct (map tp_name ports)"
  by (simp add: validate_schema_def result_simps)

text \<open>An assignment of the symbolic dimensions agrees with the bindings found so far.\<close>

definition agrees :: "(string \<rightharpoonup> u64) \<Rightarrow> (string \<Rightarrow> u64) \<Rightarrow> bool" where
  "agrees b s \<longleftrightarrow> (\<forall>l a. b l = Some a \<longrightarrow> s l = a)"

lemma agrees_empty [simp]: "agrees Map.empty s"
  by (simp add: agrees_def)

lemma agrees_update: "b l = None \<Longrightarrow> agrees (b(l \<mapsto> a)) s \<longleftrightarrow> s l = a \<and> agrees b s"
  by (auto simp: agrees_def)

lemma agreesD: "agrees b s \<Longrightarrow> b l = Some a \<Longrightarrow> s l = a"
  by (simp add: agrees_def)

lemma check_dimensions_sound:
  "check_dimensions n k ps b = Inr b' \<Longrightarrow> agrees b' s \<Longrightarrow>
     agrees b s \<and> (\<forall>(r, a) \<in> set ps. dim_fits s r a)"
proof (induction n k ps b arbitrary: b' rule: check_dimensions.induct)
  case (2 n k r a ps b)
  show ?case
  proof (cases r)
    case (DimSymbolic l)
    show ?thesis
    proof (cases "b l")
      case None
      with 2(5) DimSymbolic have "check_dimensions n (Suc k) ps (b(l \<mapsto> a)) = Inr b'" by simp
      from 2(2) [OF DimSymbolic None this 2(6)]
      have "agrees (b(l \<mapsto> a)) s" "\<forall>(r, a) \<in> set ps. dim_fits s r a" by blast+
      with agrees_update [of b l a s] None DimSymbolic show ?thesis by auto
    next
      case (Some c)
      with 2(3) [OF DimSymbolic Some] 2(5,6) DimSymbolic
      have "c = a" "agrees b s" "\<forall>(r, a) \<in> set ps. dim_fits s r a" by (auto split: if_splits)
      moreover from this Some have "s l = a" by (simp add: agrees_def)
      ultimately show ?thesis using DimSymbolic by auto
    qed
  qed (use 2 in \<open>auto split: if_splits\<close>)
qed auto

lemma check_dimensions_complete:
  "\<forall>(r, a) \<in> set ps. dim_fits s r a \<Longrightarrow> agrees b s \<Longrightarrow>
     \<exists>b'. check_dimensions n k ps b = Inr b' \<and> agrees b' s"
proof (induction n k ps b rule: check_dimensions.induct)
  case (2 n k r a ps b)
  show ?case
  proof (cases r)
    case (DimSymbolic l)
    with 2 have sl: "s l = a" by simp
    show ?thesis
    proof (cases "b l")
      case None
      have "\<forall>(r, a) \<in> set ps. dim_fits s r a" using 2(5) by simp
      moreover have "agrees (b(l \<mapsto> a)) s" using 2(6) sl None by (subst agrees_update) auto
      ultimately have "\<exists>b'. check_dimensions n (Suc k) ps (b(l \<mapsto> a)) = Inr b' \<and> agrees b' s"
        by (rule 2(2) [OF DimSymbolic None])
      with None DimSymbolic show ?thesis by simp
    next
      case (Some c)
      with agreesD [OF 2(6)] sl have "c = a" by auto
      with 2(3) [OF DimSymbolic Some] 2(5,6) DimSymbolic Some show ?thesis by auto
    qed
  qed (use 2 in auto)
qed auto

lemma list_all2_zip_iff:
  "list_all2 P xs ys \<longleftrightarrow> length xs = length ys \<and> (\<forall>(x, y) \<in> set (zip xs ys). P x y)"
  by (auto simp: list_all2_iff)

lemma check_ports_sound:
  "check_ports m ports b = Inr b' \<Longrightarrow> (\<And>n t. m n = Some t \<Longrightarrow> rt_name t = n) \<Longrightarrow> agrees b' s \<Longrightarrow>
     agrees b s \<and> (\<forall>p \<in> set ports. \<exists>t. m (tp_name p) = Some t \<and> port_fits s p t)"
proof (induction m ports b arbitrary: b' rule: check_ports.induct)
  case (2 m p ports b)
  obtain t b1 where t: "m (tp_name p) = Some t" "accepts (tp_dtype p) (rt_dtype t)"
      "length (tp_dimensions p) = length (rt_shape t)"
      "check_dimensions (tp_name p) 0 (zip (tp_dimensions p) (rt_shape t)) b = Inr b1"
      "check_ports m ports b1 = Inr b'"
    using 2(2) by (auto simp: result_simps split: option.splits if_splits)
  have name: "rt_name t = tp_name p" using 2(3) t(1) by blast
  have "agrees b1 s \<and> (\<forall>p \<in> set ports. \<exists>t. m (tp_name p) = Some t \<and> port_fits s p t)"
    using 2(1) [OF t(1) _ _ t(5)] 2(3,4) t(2,3) by auto
  moreover from this have "agrees b s \<and> list_all2 (dim_fits s) (tp_dimensions p) (rt_shape t)"
    using check_dimensions_sound [OF t(4)] t(3) by (auto simp: list_all2_zip_iff)
  ultimately show ?case using t(1,2) name by (simp add: port_fits_def)
qed auto

lemma check_ports_complete:
  "\<forall>p \<in> set ports. \<exists>t. m (tp_name p) = Some t \<and> port_fits s p t \<Longrightarrow> agrees b s \<Longrightarrow>
     \<exists>b'. check_ports m ports b = Inr b' \<and> agrees b' s"
proof (induction m ports b rule: check_ports.induct)
  case (2 m p ports b)
  then obtain t where t: "m (tp_name p) = Some t" "port_fits s p t" by auto
  have dims: "\<forall>(r, a) \<in> set (zip (tp_dimensions p) (rt_shape t)). dim_fits s r a"
    and len: "length (tp_dimensions p) = length (rt_shape t)"
    using t(2) by (auto simp: port_fits_def list_all2_zip_iff)
  obtain b1 where b1: "check_dimensions (tp_name p) 0 (zip (tp_dimensions p) (rt_shape t)) b = Inr b1"
      "agrees b1 s"
    using check_dimensions_complete [OF dims 2(3)] by blast
  have "\<exists>b'. check_ports m ports b1 = Inr b' \<and> agrees b' s"
    using 2(1) [OF t(1) _ _ _ b1(2)] 2(2) t(2) len by (auto simp: port_fits_def)
  with t b1(1) len show ?case by (auto simp: port_fits_def)
qed auto

lemma tensor_map_Some_iff:
  "distinct (map rt_name ts) \<Longrightarrow> tensor_map ts n = Some t \<longleftrightarrow> t \<in> set ts \<and> rt_name t = n"
  unfolding tensor_map_def by (subst map_of_eq_Some_iff) (auto simp: comp_def)

lemma find_None_names:
  "find (\<lambda>t. rt_name t \<notin> set (map tp_name ports)) ts = None \<longleftrightarrow>
     set (map rt_name ts) \<subseteq> set (map tp_name ports)"
  by (auto simp: find_None_iff)

lemma validate_tensors_conforms:
  "validate_tensors ports ts = Inr u \<longleftrightarrow> bundle_conforms ports ts"
proof (cases "distinct (map rt_name ts) \<and> set (map rt_name ts) \<subseteq> set (map tp_name ports)")
  case True
  then have dist: "distinct (map rt_name ts)" and names: "set (map rt_name ts) \<subseteq> set (map tp_name ports)"
    by auto
  have "validate_tensors ports ts = Inr u \<longleftrightarrow> (\<exists>b. check_ports (tensor_map ts) ports Map.empty = Inr b)"
    using dist names find_None_names [of ports ts]
    by (auto simp: validate_tensors_def result_simps split: option.splits)
  also have "\<dots> \<longleftrightarrow> (\<exists>s. \<forall>p \<in> set ports. \<exists>t \<in> set ts. port_fits s p t)"
  proof
    assume "\<exists>b. check_ports (tensor_map ts) ports Map.empty = Inr b"
    then obtain b where b: "check_ports (tensor_map ts) ports Map.empty = Inr b" by blast
    define s where "s = (\<lambda>l. case b l of Some a \<Rightarrow> a | None \<Rightarrow> 0)"
    have "agrees b s" by (simp add: agrees_def s_def)
    then have "\<forall>p \<in> set ports. \<exists>t. tensor_map ts (tp_name p) = Some t \<and> port_fits s p t"
      using check_ports_sound [OF b] tensor_map_Some_iff [OF dist] by blast
    then have "\<forall>p \<in> set ports. \<exists>t \<in> set ts. port_fits s p t"
      using tensor_map_Some_iff [OF dist] by blast
    then show "\<exists>s. \<forall>p \<in> set ports. \<exists>t \<in> set ts. port_fits s p t" by blast
  next
    assume "\<exists>s. \<forall>p \<in> set ports. \<exists>t \<in> set ts. port_fits s p t"
    then obtain s where "\<forall>p \<in> set ports. \<exists>t \<in> set ts. port_fits s p t" by blast
    then have "\<forall>p \<in> set ports. \<exists>t. tensor_map ts (tp_name p) = Some t \<and> port_fits s p t"
      using tensor_map_Some_iff [OF dist] by (metis port_fits_def)
    from check_ports_complete [OF this agrees_empty]
    show "\<exists>b. check_ports (tensor_map ts) ports Map.empty = Inr b" by blast
  qed
  also have "\<dots> \<longleftrightarrow> bundle_conforms ports ts"
  proof -
    have "set (map tp_name ports) \<subseteq> set (map rt_name ts)" if "\<forall>p \<in> set ports. \<exists>t \<in> set ts. port_fits s p t" for s
      using that by (auto simp: port_fits_def) (metis imageI)
    with dist names show ?thesis unfolding bundle_conforms_def by blast
  qed
  finally show ?thesis .
next
  case False
  then have "validate_tensors ports ts \<noteq> Inr u"
    using find_None_names [of ports ts]
    by (auto simp: validate_tensors_def result_simps split: option.splits)
  with False show ?thesis by (auto simp: bundle_conforms_def)
qed

section \<open>Ordering the tensors by port\<close>

lemma port_position_nth:
  assumes "distinct (map tp_name ports)" and "i < length ports"
  shows "port_position ports (tp_name (ports ! i)) = i"
proof -
  have "takeWhile (\<lambda>p. tp_name p \<noteq> tp_name (ports ! i)) ports = take i ports"
    using assms by (intro takeWhile_eq_take_P_nth) (auto simp: distinct_conv_nth)
  with assms(2) show ?thesis by (simp add: port_position_def)
qed

definition port_order :: "tensor_port_descriptor list \<Rightarrow> raw_tensor list \<Rightarrow> raw_tensor list" where
  "port_order ports ts = sort_key (\<lambda>t. port_position ports (rt_name t)) ts"

lemma port_position_inj:
  assumes "distinct (map tp_name ports)" and "m \<in> set (map tp_name ports)" and "n \<in> set (map tp_name ports)"
    and "port_position ports m = port_position ports n"
  shows "m = n"
proof -
  obtain i j where ij: "i < length ports" "m = tp_name (ports ! i)" "j < length ports" "n = tp_name (ports ! j)"
    using assms(2,3) by (auto simp: in_set_conv_nth)
  with assms(4) port_position_nth [OF assms(1)] show ?thesis by simp
qed

lemma port_order_unique:
  assumes "distinct (map tp_name ports)" and "bundle_conforms ports ts"
    and "mset ts' = mset ts" and "sorted (map (\<lambda>t. port_position ports (rt_name t)) ts')"
  shows "port_order ports ts = ts'"
proof -
  have "inj_on (\<lambda>t. port_position ports (rt_name t)) (set ts)"
  proof (rule inj_onI)
    fix x y assume xy: "x \<in> set ts" "y \<in> set ts"
      and eq: "port_position ports (rt_name x) = port_position ports (rt_name y)"
    have "rt_name x = rt_name y"
      using assms(2) xy eq by (intro port_position_inj [OF assms(1)]) (auto simp: bundle_conforms_def)
    with assms(2) xy show "x = y" by (auto simp: bundle_conforms_def distinct_map inj_on_def)
  qed
  with assms(3,4) show ?thesis unfolding port_order_def
    by (intro sort_key_inj_key_eq) simp_all
qed

lemma port_order_in_place:
  assumes "distinct (map tp_name ports)" and "map rt_name ts = map tp_name ports"
    and "bundle_conforms ports ts"
  shows "port_order ports ts = ts"
proof (rule port_order_unique [OF assms(1,3)])
  have len: "length ts = length ports" using assms(2) by (metis length_map)
  have "map (\<lambda>t. port_position ports (rt_name t)) ts = map (port_position ports \<circ> tp_name) ports"
    using assms(2) by (metis (no_types, lifting) comp_def list.map_comp map_eq_conv)
  also have "\<dots> = [0..<length ports]"
    by (rule nth_equalityI) (auto simp: port_position_nth [OF assms(1)])
  finally show "sorted (map (\<lambda>t. port_position ports (rt_name t)) ts)" by simp
qed simp

text \<open>A conforming bundle, put in order, has exactly the tensor of each port at its place.\<close>

lemma port_order_names:
  assumes "distinct (map tp_name ports)" and "bundle_conforms ports ts"
  shows "map rt_name (port_order ports ts) = map tp_name ports"
proof -
  let ?xs = "port_order ports ts" and ?f = "\<lambda>t. port_position ports (rt_name t)"
  have names: "set (map rt_name ?xs) = set (map tp_name ports)" and dist: "distinct (map rt_name ?xs)"
    using assms(2) by (auto simp: bundle_conforms_def port_order_def distinct_map)
  have len: "length ?xs = length ports"
    using names dist assms(1) by (metis distinct_card length_map)
  have pos: "\<exists>i < length ports. n = tp_name (ports ! i) \<and> port_position ports n = i" if "n \<in> set (map rt_name ?xs)" for n
    using that names port_position_nth [OF assms(1)] by (auto simp: in_set_conv_nth)
  have inj: "inj_on (port_position ports) (set (map rt_name ?xs))"
    using pos by (metis inj_onI)
  have "map ?f ?xs = [0..<length ports]"
  proof (rule strict_sorted_is_upt)
    have "distinct (map ?f ?xs)" using dist inj by (simp add: distinct_map comp_inj_on comp_def inj_on_def)
    moreover have "sorted (map ?f ?xs)" by (simp add: port_order_def)
    ultimately show "sorted_wrt (<) (map ?f ?xs)" by (simp add: strict_sorted_iff)
    show "x < length ports" if "x \<in> set (map ?f ?xs)" for x
      using that pos by fastforce
  qed (simp add: len)
  then have at: "port_position ports (rt_name (?xs ! i)) = i" if "i < length ports" for i
    using that len by (metis (no_types, lifting) nth_map nth_upt plus_nat.add_0)
  show ?thesis
  proof (rule nth_equalityI)
    fix i assume "i < length (map rt_name ?xs)"
    then have i: "i < length ports" "?xs ! i \<in> set ?xs" using len by auto
    from i(2) obtain j where "j < length ports" "rt_name (?xs ! i) = tp_name (ports ! j)"
        "port_position ports (rt_name (?xs ! i)) = j"
      using pos [of "rt_name (?xs ! i)"] by auto
    moreover from this at [OF i(1)] have "i = j" by simp
    ultimately show "map rt_name ?xs ! i = map tp_name ports ! i" using i len by simp
  qed (simp add: len)
qed

end
