(* ===== verification/Tensor_Frames.thy ===== *)
theory Tensor_Frames
  imports Tensor_Proofs Sample_Codec
begin

text \<open>
  Frames end to end: reading what was written, the header of a live stream, and the
  rejection of frames made for another contract. The laws of the packages are the
  assumptions of two locales; both are interpreted on a concrete format.
\<close>

section \<open>Readers\<close>

lemma port_order_fits:
  assumes "distinct (map tp_name ports)" and "bundle_conforms ports ts"
  shows "\<exists>s. list_all2 (port_fits s) ports (port_order ports ts)"
proof -
  let ?xs = "port_order ports ts"
  obtain s where s: "\<forall>p \<in> set ports. \<exists>t \<in> set ts. port_fits s p t"
    using assms(2) by (auto simp: bundle_conforms_def)
  have names: "map rt_name ?xs = map tp_name ports" by (rule port_order_names [OF assms])
  then have len: "length ?xs = length ports" by (metis length_map)
  have dist: "distinct (map rt_name ts)" using assms(2) by (simp add: bundle_conforms_def)
  have "port_fits s (ports ! i) (?xs ! i)" if i: "i < length ports" for i
  proof -
    obtain t where t: "t \<in> set ts" "port_fits s (ports ! i) t" using s i by force
    have "rt_name (?xs ! i) = tp_name (ports ! i)" using names i len by (metis nth_map)
    moreover have "?xs ! i \<in> set ts" using i len by (metis nth_mem port_order_def set_sort)
    ultimately have "?xs ! i = t" using t dist by (auto simp: port_fits_def distinct_map inj_on_def)
    with t(2) show ?thesis by simp
  qed
  with len show ?thesis by (auto simp: list_all2_conv_all_nth)
qed

lemma read_tensors_Inr:
  "read_tensors E ports bs = Inr ts \<Longrightarrow>
     map rt_name ts = map tp_name ports \<and> (\<exists>s. list_all2 (port_fits s) ports ts)"
  by (auto simp: read_tensors_def result_simps validate_tensors_conforms port_order_def [symmetric]
      intro: port_order_names port_order_fits)

lemma validate_runtime_envelope_Inr [result_simps]:
  "validate_runtime_envelope E e d side = Inr u \<longleftrightarrow>
     te_envelope_version e = TENSOR_ENVELOPE_VERSION \<and> te_tensor_encoding e = SAFETENSORS_V1
     \<and> te_metadata_encoding e = POSTCARD_V1 \<and> te_contract_id e = cd_id d
     \<and> te_contract_version e = cd_version d \<and> te_contract_hash e = descriptor_hash E d
     \<and> te_side e = side"
  by (simp add: validate_runtime_envelope_def)

lemma FRAME_PREFIX_LEN_12: "FRAME_PREFIX_LEN = 12" "length FRAME_MAGIC = 8"
  by (simp_all add: FRAME_PREFIX_LEN_def FRAME_MAGIC_def)

lemma read_envelope_frame:
  assumes "tn_decode_envelope E eb = Some e" and "length eb < 2 ^ 32"
  shows "read_envelope E (FRAME_MAGIC @ le_bytes 4 (length eb) @ eb @ rest) = Inr (e, 12 + length eb)"
proof -
  have len: "le_value (le_bytes 4 (length eb)) = length eb"
    using assms(2) by (intro le_value_le_bytes) simp
  have get: "slice_get 12 (12 + length eb) (FRAME_MAGIC @ le_bytes 4 (length eb) @ eb @ rest) = Some eb"
    using slice_get_append [of "FRAME_MAGIC @ le_bytes 4 (length eb)" eb rest]
    by (simp add: FRAME_PREFIX_LEN_12)
  have add: "usize_add 12 (length eb) = Some (12 + length eb)"
    using assms(2) by (simp add: usize_add_def)
  show ?thesis using assms(1) get len add
    by (simp add: read_envelope_def FRAME_PREFIX_LEN_12 Let_def)
qed

lemma split_frame_append:
  assumes "te_metadata_len e = of_nat (length mb)" and "te_tensor_len e = of_nat (length tb)"
    and "length (pre @ mb @ tb) < 2 ^ 64"
  shows "split_frame e (length pre) (pre @ mb @ tb) = Inr (mb, tb)"
proof -
  have m: "unat (te_metadata_len e) = length mb" and t: "unat (te_tensor_len e) = length tb"
    using assms by (simp_all add: unat_of_nat_small)
  have "slice_get (length pre) (length pre + length mb) (pre @ mb @ tb) = Some mb" by simp
  moreover have "slice_get (length pre + length mb) (length pre + length mb + length tb) (pre @ mb @ tb) = Some tb"
    using slice_get_append [of "pre @ mb" tb "[]"] by (simp add: add.assoc)
  ultimately show ?thesis using assms(3) by (simp add: split_frame_def m t usize_add_def)
qed

text \<open>What an acknowledged encoding contains.\<close>

lemma encode_descriptor_Inr:
  assumes "encode_descriptor E d side ts md = Inr frame"
  obtains views tb mb e eb where
    "distinct (map tp_name (ports_for d side))" "bundle_conforms (ports_for d side) ts"
    "build_views E [] ts = Inr views" "tn_serialize E views = Some tb"
    "tn_encode_metadata E md = Some mb" "tn_encode_envelope E e = Some eb" "length eb < 2 ^ 32"
    "validate_runtime_envelope E e d side = Inr ()"
    "te_metadata_len e = of_nat (length mb)" "te_tensor_len e = of_nat (length tb)"
    "frame = FRAME_MAGIC @ le_bytes 4 (length eb) @ eb @ mb @ tb"
proof -
  from assms obtain views tb mb where a: "distinct (map tp_name (ports_for d side))"
      "bundle_conforms (ports_for d side) ts" "build_views E [] ts = Inr views"
      "tn_serialize E views = Some tb" "tn_encode_metadata E md = Some mb"
    by (auto simp: encode_descriptor_def result_simps validate_tensors_conforms)
  define e where "e = \<lparr>te_envelope_version = TENSOR_ENVELOPE_VERSION, te_contract_id = cd_id d,
      te_contract_version = cd_version d, te_contract_hash = descriptor_hash E d,
      te_side = side, te_tensor_encoding = SAFETENSORS_V1, te_metadata_encoding = POSTCARD_V1,
      te_metadata_len = of_nat (length mb), te_tensor_len = of_nat (length tb)\<rparr>"
  from assms a obtain eb where eb: "tn_encode_envelope E e = Some eb" "length eb < 2 ^ 32"
      "frame = FRAME_MAGIC @ le_bytes 4 (length eb) @ eb @ mb @ tb"
    by (auto simp: encode_descriptor_def result_simps validate_tensors_conforms e_def Let_def
        split: if_splits)
  have v: "validate_runtime_envelope E e d side = Inr ()"
    "te_metadata_len e = of_nat (length mb)" "te_tensor_len e = of_nat (length tb)"
    by (simp_all add: result_simps e_def)
  show ?thesis by (rule that [OF a eb(1,2) v eb(3)])
qed

section \<open>The views of a bundle\<close>

definition tensor_view :: "raw_tensor \<Rightarrow> string \<times> st_view" where
  "tensor_view t = (rt_name t,
     \<lparr>sv_dtype = to_safetensors_dtype (rt_dtype t), sv_shape = rt_shape t, sv_data = rt_data t\<rparr>)"

lemma view_tensor_view [simp]: "view_tensor (tensor_view t) = Inr t"
  by (simp add: view_tensor_def tensor_view_def)

lemma build_views_Inr:
  "build_views E views ts = Inr views' \<Longrightarrow> views' = views @ map tensor_view ts"
  by (induction E views ts rule: build_views.induct)
     (auto simp: Let_def amap_update_new tensor_view_def split: if_splits)

lemma collect_results_map: "(\<And>x. x \<in> set xs \<Longrightarrow> f x = Inr (g x)) \<Longrightarrow> collect_results f xs = Inr (map g xs)"
  by (induction xs) auto

lemma collect_view_tensors:
  assumes "mset vs = mset (map tensor_view ts)"
  obtains ts' where "collect_results view_tensor vs = Inr ts'" "mset ts' = mset ts"
proof -
  define g where "g = (\<lambda>v. projr (view_tensor v))"
  have "set vs = tensor_view ` set ts" using mset_eq_setD [OF assms] by simp
  then have "collect_results view_tensor vs = Inr (map g vs)"
    by (intro collect_results_map) (auto simp: g_def)
  moreover have "mset (map g vs) = mset ts"
    using arg_cong [OF assms, of "image_mset g"] by (simp add: g_def multiset.map_comp comp_def)
  ultimately show ?thesis by (rule that)
qed

lemma bundle_conforms_mset:
  "mset ts' = mset ts \<Longrightarrow> bundle_conforms ports ts' \<longleftrightarrow> bundle_conforms ports ts"
  unfolding bundle_conforms_def
  by (metis mset_eq_imp_distinct_iff mset_eq_setD mset_map)

lemma read_tensors_views:
  assumes "tn_deserialize E tb = Some vs" and "mset vs = mset (map tensor_view ts)"
    and "distinct (map tp_name ports)" and "bundle_conforms ports ts"
  shows "read_tensors E ports tb = Inr (port_order ports ts)"
proof -
  obtain ts' where ts': "collect_results view_tensor vs = Inr ts'" "mset ts' = mset ts"
    by (rule collect_view_tensors [OF assms(2)])
  have "port_order ports ts = port_order ports ts'"
    using ts'(2) by (intro port_order_unique [OF assms(3,4)])
      (simp_all add: port_order_def)
  moreover have "validate_schema ports = Inr ()" "validate_tensors ports ts' = Inr ()"
    using assms(3,4) by (simp_all add: validate_schema_iff validate_tensors_conforms bundle_conforms_mset [OF ts'(2)])
  ultimately show ?thesis using assms(1) ts'(1) by (simp add: read_tensors_def port_order_def)
qed

section \<open>The laws of the packages\<close>

text \<open>
  What the documentation of postcard and safetensors promises: a serialized value is read
  back, and a safetensors file contains the views it was made of, in an order of its own.
\<close>

locale tensor_codec =
  fixes E :: "('md, 'j) tensor_env"
  assumes envelope_roundtrip: "tn_encode_envelope E e = Some bs \<Longrightarrow> tn_decode_envelope E bs = Some e"
    and metadata_roundtrip: "tn_encode_metadata E md = Some bs \<Longrightarrow> tn_decode_metadata E bs = Some md"
    and safetensors_roundtrip: "distinct (map fst views) \<Longrightarrow> tn_serialize E views = Some bs \<Longrightarrow>
      \<exists>vs. tn_deserialize E bs = Some vs \<and> mset vs = mset views"
begin

lemma encoded_frame:
  assumes "encode_descriptor E d side ts md = Inr frame" and "length frame < 2 ^ 64"
  obtains e pre mb tb where "frame = pre @ mb @ tb"
    and "read_envelope E frame = Inr (e, length pre)"
    and "validate_runtime_envelope E e d side = Inr ()"
    and "split_frame e (length pre) frame = Inr (mb, tb)"
    and "tn_decode_metadata E mb = Some md"
    and "read_tensors E (ports_for d side) tb = Inr (port_order (ports_for d side) ts)"
proof -
  obtain views tb mb e eb where a:
      "distinct (map tp_name (ports_for d side))" "bundle_conforms (ports_for d side) ts"
      "build_views E [] ts = Inr views" "tn_serialize E views = Some tb"
      "tn_encode_metadata E md = Some mb" "tn_encode_envelope E e = Some eb" "length eb < 2 ^ 32"
      "validate_runtime_envelope E e d side = Inr ()"
      "te_metadata_len e = of_nat (length mb)" "te_tensor_len e = of_nat (length tb)"
      "frame = FRAME_MAGIC @ le_bytes 4 (length eb) @ eb @ mb @ tb"
    by (rule encode_descriptor_Inr [OF assms(1)])
  define pre where "pre = FRAME_MAGIC @ le_bytes 4 (length eb) @ eb"
  have frame: "frame = pre @ mb @ tb" by (simp add: a(11) pre_def)
  have views: "views = map tensor_view ts" using build_views_Inr [OF a(3)] by simp
  have "distinct (map fst views)"
    using a(2) by (simp add: views bundle_conforms_def tensor_view_def comp_def)
  from safetensors_roundtrip [OF this a(4)] obtain vs
    where vs: "tn_deserialize E tb = Some vs" "mset vs = mset views" by blast
  show ?thesis
  proof (rule that [OF frame])
    have "length pre = 12 + length eb" by (simp add: pre_def FRAME_PREFIX_LEN_12)
    then show "read_envelope E frame = Inr (e, length pre)"
      using read_envelope_frame [OF envelope_roundtrip [OF a(6)] a(7)] by (simp add: a(11))
    show "split_frame e (length pre) frame = Inr (mb, tb)"
      using assms(2) unfolding frame by (intro split_frame_append a(9,10)) simp
    show "read_tensors E (ports_for d side) tb = Inr (port_order (ports_for d side) ts)"
      using vs views a(1,2) by (intro read_tensors_views) auto
  qed (use a(8) metadata_roundtrip [OF a(5)] in auto)
qed

lemma decode_encoded:
  assumes "encode_descriptor E d side ts md = Inr frame" and "length frame < 2 ^ 64"
  shows "\<exists>e. decode_descriptor E d side frame
      = Inr \<lparr>db_envelope = e, db_metadata = md, db_tensors = port_order (ports_for d side) ts\<rparr>"
  by (rule encoded_frame [OF assms]) (auto simp: decode_descriptor_def)

lemma validate_encoded:
  assumes "encode_descriptor E d side ts md = Inr frame" and "length frame < 2 ^ 64"
  obtains e mb where "validate_artifact E d side frame
      = Inr \<lparr>db_envelope = e, db_metadata = mb, db_tensors = port_order (ports_for d side) ts\<rparr>"
    and "tn_decode_metadata E mb = Some md"
  by (rule encoded_frame [OF assms]) (auto simp: validate_artifact_def)

lemma foreign_rejected:
  assumes "encode_descriptor E d side ts md = Inr frame" and "length frame < 2 ^ 64"
    and "side \<noteq> side' \<or> cd_id d \<noteq> cd_id d' \<or> cd_version d \<noteq> cd_version d'
      \<or> descriptor_hash E d \<noteq> descriptor_hash E d'"
  shows "\<exists>err. validate_artifact E d' side' frame = Inl err"
proof (cases "validate_artifact E d' side' frame")
  case (Inr b)
  obtain e n where e: "read_envelope E frame = Inr (e, n)" "validate_runtime_envelope E e d side = Inr ()"
    by (rule encoded_frame [OF assms(1,2)]) auto
  from Inr e(1) have "validate_runtime_envelope E e d' side' = Inr ()"
    by (auto simp: validate_artifact_def result_simps)
  with e(2) assms(3) show ?thesis by (auto simp: result_simps)
qed auto

end

section \<open>Headers of live streams\<close>

definition header_only :: "raw_tensor \<Rightarrow> raw_tensor" where
  "header_only t = t\<lparr>rt_data := []\<rparr>"

lemma bundle_conforms_header_only:
  "bundle_conforms ports (map header_only ts) \<longleftrightarrow> bundle_conforms ports ts"
  by (simp add: bundle_conforms_def header_only_def port_fits_def comp_def)

definition info_key :: "string \<times> st_info \<Rightarrow> string \<times> st_dtype \<times> u64 list" where
  "info_key p = (fst p, si_dtype (snd p), si_shape (snd p))"

definition view_key :: "string \<times> st_view \<Rightarrow> string \<times> st_dtype \<times> u64 list" where
  "view_key p = (fst p, sv_dtype (snd p), sv_shape (snd p))"

definition key_tensor :: "string \<times> st_dtype \<times> u64 list \<Rightarrow> codec_error + raw_tensor" where
  "key_tensor = (\<lambda>(n, dt, sh). and_then (from_safetensors_dtype dt) (\<lambda>d.
     Inr \<lparr>rt_name = n, rt_dtype = d, rt_shape = sh, rt_data = []\<rparr>))"

lemma info_tensor_key: "info_tensor p = key_tensor (info_key p)"
  by (simp add: info_tensor_def key_tensor_def info_key_def split: prod.split)

lemma key_tensor_view [simp]: "key_tensor (view_key (tensor_view t)) = Inr (header_only t)"
  by (cases t) (simp add: key_tensor_def view_key_def tensor_view_def header_only_def)

lemma collect_info_tensors:
  assumes "mset (map info_key infos) = mset (map view_key (map tensor_view ts))"
  obtains hs where "collect_results info_tensor infos = Inr hs" "mset hs = mset (map header_only ts)"
proof -
  define g where "g = (\<lambda>k. projr (key_tensor k))"
  have sets: "info_key ` set infos = (view_key \<circ> tensor_view) ` set ts"
    using mset_eq_setD [OF assms] by (simp add: image_comp)
  have "collect_results info_tensor infos = Inr (map (g \<circ> info_key) infos)"
  proof (rule collect_results_map)
    fix p assume "p \<in> set infos"
    with sets obtain t where "info_key p = view_key (tensor_view t)"
      by (metis (no_types, lifting) comp_apply image_iff imageI)
    then show "info_tensor p = Inr ((g \<circ> info_key) p)" by (simp add: info_tensor_key g_def)
  qed
  moreover have "mset (map (g \<circ> info_key) infos) = mset (map header_only ts)"
    using arg_cong [OF assms, of "image_mset g"] by (simp add: g_def multiset.map_comp comp_def)
  ultimately show ?thesis by (rule that)
qed

lemma collect_entries:
  "list_all2 (\<lambda>(n, v) (m, i). n = m \<and> tn_json_info E v = Some i) entries infos \<Longrightarrow>
     collect_results (\<lambda>(n, v). and_then (ok_or KHeaderJson (tn_json_info E v)) (\<lambda>i. Inr (n, i))) entries
       = Inr infos"
  by (induction rule: list_all2_induct) auto

lemma header_bounds_append:
  assumes "te_metadata_len e = of_nat (length mb)" and "length (pre @ mb) + 8 + length json < 2 ^ 64"
  shows "header_bounds e (length pre) (pre @ mb @ le_bytes 8 (length json) @ json @ rest)
    = Inr (length pre + length mb, length pre + length mb + 8, length pre + length mb + 8 + length json)"
proof -
  have m: "unat (te_metadata_len e) = length mb"
    using assms by (simp add: unat_of_nat_small)
  have j: "le_value (le_bytes 8 (length json)) = length json"
    using assms(2) by (intro le_value_le_bytes) simp
  have "slice_get (length pre + length mb) (length pre + length mb + 8)
      (pre @ mb @ le_bytes 8 (length json) @ json @ rest) = Some (le_bytes 8 (length json))"
    using slice_get_append [of "pre @ mb" "le_bytes 8 (length json)" "json @ rest"]
    by (simp add: add.assoc)
  then show ?thesis using assms(2) by (simp add: header_bounds_def m j usize_add_def)
qed

locale stream_tensor_codec = tensor_codec E for E :: "('md, 'j) tensor_env" +
  assumes safetensors_header: "distinct (map fst views) \<Longrightarrow> ''__metadata__'' \<notin> fst ` set views \<Longrightarrow>
      tn_serialize E views = Some bs \<Longrightarrow>
      \<exists>json contents entries infos. bs = le_bytes 8 (length json) @ json @ contents
        \<and> tn_json_object E json = Some entries \<and> ''__metadata__'' \<notin> fst ` set entries
        \<and> list_all2 (\<lambda>(n, v) (m, i). n = m \<and> tn_json_info E v = Some i) entries infos
        \<and> mset (map info_key infos) = mset (map view_key views)
        \<and> tn_header_check E (sort_key (\<lambda>(_, i). fst (si_offsets i)) infos) = Some (length contents)"
begin

lemma header_of_encoded:
  assumes "encode_descriptor E d side ts md = Inr frame" and len: "length frame < 2 ^ 64"
    and fresh: "''__metadata__'' \<notin> set (map tp_name (ports_for d side))"
  shows "\<exists>h rest. tensor_stream_header E frame = Inr h \<and> frame = h @ rest
      \<and> validate_tensor_stream_header E d side h = Inr (length frame)"
proof -
  let ?ports = "ports_for d side"
  obtain views tb mb e eb where a:
      "distinct (map tp_name ?ports)" "bundle_conforms ?ports ts"
      "build_views E [] ts = Inr views" "tn_serialize E views = Some tb"
      "tn_encode_metadata E md = Some mb" "tn_encode_envelope E e = Some eb" "length eb < 2 ^ 32"
      "validate_runtime_envelope E e d side = Inr ()"
      "te_metadata_len e = of_nat (length mb)" "te_tensor_len e = of_nat (length tb)"
      "frame = FRAME_MAGIC @ le_bytes 4 (length eb) @ eb @ mb @ tb"
    by (rule encode_descriptor_Inr [OF assms(1)])
  have views: "views = map tensor_view ts" using build_views_Inr [OF a(3)] by simp
  have "distinct (map fst views)" "''__metadata__'' \<notin> fst ` set views"
    using a(2) fresh by (auto simp: views bundle_conforms_def tensor_view_def comp_def)
  from safetensors_header [OF this a(4)] obtain json contents entries infos where st:
      "tb = le_bytes 8 (length json) @ json @ contents" "tn_json_object E json = Some entries"
      "''__metadata__'' \<notin> fst ` set entries"
      "list_all2 (\<lambda>(n, v) (m, i). n = m \<and> tn_json_info E v = Some i) entries infos"
      "mset (map info_key infos) = mset (map view_key views)"
      "tn_header_check E (sort_key (\<lambda>(_, i). fst (si_offsets i)) infos) = Some (length contents)"
    by blast
  let ?infos = "sort_key (\<lambda>(_, i). fst (si_offsets i)) infos"
  define pre where "pre = FRAME_MAGIC @ le_bytes 4 (length eb) @ eb"
  define h where "h = pre @ mb @ le_bytes 8 (length json) @ json"
  have frame: "frame = h @ contents" by (simp add: a(11) st(1) h_def pre_def)
  have lpre: "length pre = 12 + length eb" by (simp add: pre_def FRAME_PREFIX_LEN_12)
  have small: "length (pre @ mb) + 8 + length json < 2 ^ 64" using len by (simp add: frame h_def)
  have env: "read_envelope E (h @ x) = Inr (e, length pre)" for x
    using read_envelope_frame [OF envelope_roundtrip [OF a(6)] a(7)] lpre by (simp add: h_def pre_def)
  note bounds = header_bounds_append [OF a(9) small]
  have "length h = length pre + length mb + 8 + length json" by (simp add: h_def)
  then have hdr: "tensor_stream_header E frame = Inr h"
    using env [of contents] bounds [of contents]
    by (simp add: tensor_stream_header_def frame h_def slice_get_def)
  have json: "take (length json) (drop (length pre + length mb + 8) h) = json"
    by (simp add: h_def)
  have infos: "parse_infos E json = Inr ?infos"
    using st(2,3) collect_entries [OF st(4)] map_of_eq_None_iff [of entries "''__metadata__''"]
    by (simp add: parse_infos_def delete_idem)
  have "mset (map info_key ?infos) = mset (map view_key (map tensor_view ts))"
    using st(5) by (simp add: views)
  then obtain hs where hs: "collect_results info_tensor ?infos = Inr hs" "mset hs = mset (map header_only ts)"
    by (rule collect_info_tensors)
  have schema: "validate_schema ?ports = Inr ()" and tensors: "validate_tensors ?ports hs = Inr ()"
    using a(1,2) bundle_conforms_mset [OF hs(2)]
    by (simp_all add: validate_schema_iff validate_tensors_conforms bundle_conforms_header_only)
  have tl: "unat (te_tensor_len e) = 8 + length json + length contents"
  proof -
    have "te_tensor_len e = of_nat (8 + length json + length contents)"
      using a(10) by (simp add: st(1))
    moreover have "8 + length json + length contents < 2 ^ 64" using len by (simp add: frame h_def)
    ultimately show ?thesis by (simp add: unat_of_nat_small del: of_nat_add)
  qed
  have "validate_tensor_stream_header E d side h = Inr (length frame)"
    using env [of "[]"] a(8) bounds [of "[]"] json infos st(6) hs(1) schema tensors len tl
    by (simp add: validate_tensor_stream_header_def h_def [symmetric] usize_add_def frame)
       (simp add: h_def usize_add_def)
  with hdr frame show ?thesis by blast
qed

end

end
