(* ===== verification/Tensor_Sample.thy ===== *)
theory Tensor_Sample
  imports Tensor_Frames
begin

text \<open>
  A concrete file format in the role of safetensors and JSON, built from the codec
  combinators, on which the locales of the tensor codec are interpreted; and the statements
  about frames, with their instances.
\<close>

section \<open>A tensor file format\<close>

definition st_dtypes :: "st_dtype list" where
  "st_dtypes = [StBOOL, StU8, StU16, StU32, StU64, StI8, StI16, StI32, StI64, StF8E4M3, StF8E5M2,
     StF16, StBF16, StF32, StF64, StF4, StF6E2M3, StF6E3M2, StF8E8M0, StC64]"

fun st_index :: "st_dtype \<Rightarrow> nat" where
  "st_index (StOther n) = 20 + n"
| "st_index d = length (takeWhile (\<lambda>e. e \<noteq> d) st_dtypes)"

definition st_of_index :: "nat \<Rightarrow> st_dtype" where
  "st_of_index n = (if n < 20 then st_dtypes ! n else StOther (n - 20))"

lemma st_of_index_st_index [simp]: "st_of_index (st_index d) = d"
  by (cases d) (simp_all add: st_of_index_def st_dtypes_def)

definition enc_info :: "string \<times> st_info \<Rightarrow> bytes" where
  "enc_info = enc_map (\<lambda>(n, i). (n, st_index (si_dtype i), si_shape i, fst (si_offsets i), snd (si_offsets i)))
     (enc_pair enc_string (enc_pair enc_nat (enc_pair (enc_list enc_word) (enc_pair enc_nat enc_nat))))"

definition dec_info :: "(string \<times> st_info) decoder" where
  "dec_info = dec_map (\<lambda>(n, d, sh, a, b). (n, \<lparr>si_dtype = st_of_index d, si_shape = sh, si_offsets = (a, b)\<rparr>))
     (dec_pair dec_string (dec_pair dec_nat (dec_pair (dec_list dec_word) (dec_pair dec_nat dec_nat))))"

lemma codec_info [codec_laws]: "codec enc_info dec_info"
  unfolding enc_info_def dec_info_def by (intro codec_map codec_laws) (auto split: prod.split)

fun view_infos :: "nat \<Rightarrow> (string \<times> st_view) list \<Rightarrow> (string \<times> st_info) list" where
  "view_infos off [] = []"
| "view_infos off ((n, v) # vs) =
     (n, \<lparr>si_dtype = sv_dtype v, si_shape = sv_shape v, si_offsets = (off, off + length (sv_data v))\<rparr>)
       # view_infos (off + length (sv_data v)) vs"

definition sample_serialize :: "(string \<times> st_view) list \<Rightarrow> bytes option" where
  "sample_serialize views =
     (let json = enc_list enc_info (view_infos 0 views) in
      if length json < 2 ^ 64
      then Some (le_bytes 8 (length json) @ json @ concat (map (sv_data \<circ> snd) views)) else None)"

definition sample_json :: "bytes \<Rightarrow> (string \<times> st_info) list option" where
  "sample_json json = map_option fst (dec_list dec_info json)"

definition info_view :: "bytes \<Rightarrow> string \<times> st_info \<Rightarrow> string \<times> st_view" where
  "info_view contents = (\<lambda>(n, i). (n, \<lparr>sv_dtype = si_dtype i, sv_shape = si_shape i,
     sv_data = take (snd (si_offsets i) - fst (si_offsets i)) (drop (fst (si_offsets i)) contents)\<rparr>))"

definition sample_deserialize :: "bytes \<Rightarrow> (string \<times> st_view) list option" where
  "sample_deserialize bs =
     (let n = le_value (take 8 bs); json = take n (drop 8 bs); contents = drop (8 + n) bs
      in map_option (map (info_view contents)) (sample_json json))"

definition sample_header_check :: "(string \<times> st_info) list \<Rightarrow> nat option" where
  "sample_header_check infos = Some (sum_list (map (\<lambda>(_, i). snd (si_offsets i) - fst (si_offsets i)) infos))"

definition sample_contract :: "contract_descriptor \<Rightarrow> bytes" where
  "sample_contract d = enc_cid (cd_id d) @ enc_word (cd_version d)
     @ enc_list enc_string (map tp_name (cd_inputs d)) @ enc_list enc_string (map tp_name (cd_outputs d))"

definition sample_tensors :: "('md \<Rightarrow> bytes) \<Rightarrow> 'md decoder \<Rightarrow> ('md, st_info) tensor_env" where
  "sample_tensors em dm =
     \<lparr>tn_sha256 = (\<lambda>b. b), tn_encode_contract = sample_contract,
      tn_encode_envelope = Some \<circ> enc_envelope, tn_decode_envelope = map_option fst \<circ> dec_envelope,
      tn_encode_metadata = Some \<circ> em, tn_decode_metadata = map_option fst \<circ> dm,
      tn_tensor_view = (\<lambda>_ _ _. True), tn_serialize = sample_serialize,
      tn_deserialize = sample_deserialize, tn_json_object = sample_json,
      tn_json_metadata = (\<lambda>_. True), tn_json_info = Some, tn_header_check = sample_header_check\<rparr>"

lemma info_view_infos:
  "length pre = off \<Longrightarrow> map (info_view (pre @ concat (map (sv_data \<circ> snd) views))) (view_infos off views) = views"
proof (induction off views arbitrary: pre rule: view_infos.induct)
  case (2 off n v vs)
  have "map (info_view ((pre @ sv_data v) @ concat (map (sv_data \<circ> snd) vs)))
      (view_infos (off + length (sv_data v)) vs) = vs"
    using 2(2) by (intro 2(1)) simp
  then have "map (info_view (pre @ concat (map (sv_data \<circ> snd) ((n, v) # vs))))
      (view_infos (off + length (sv_data v)) vs) = vs" by simp
  moreover have "info_view (pre @ sv_data v @ x) (n, \<lparr>si_dtype = sv_dtype v, si_shape = sv_shape v,
      si_offsets = (off, off + length (sv_data v))\<rparr>) = (n, v)" for x
    using 2(2) by (simp add: info_view_def)
  ultimately show ?case by (simp add: comp_def)
qed simp

lemma view_infos_keys: "map info_key (view_infos off views) = map view_key views"
  by (induction off views rule: view_infos.induct) (auto simp: info_key_def view_key_def)

lemma view_infos_names: "map fst (view_infos off views) = map fst views"
  by (induction off views rule: view_infos.induct) auto

lemma view_infos_size:
  "sum_list (map (\<lambda>(_, i). snd (si_offsets i) - fst (si_offsets i)) (view_infos off views))
     = length (concat (map (sv_data \<circ> snd) views))"
  by (induction off views rule: view_infos.induct) (auto simp: comp_def)

lemma sample_json_infos [simp]: "sample_json (enc_list enc_info infos) = Some infos"
  by (simp add: sample_json_def codec_apply [OF codec_list [OF codec_info]])

lemma sample_serialize_Some:
  "sample_serialize views = Some bs \<longleftrightarrow>
     (let json = enc_list enc_info (view_infos 0 views) in length json < 2 ^ 64
       \<and> bs = le_bytes 8 (length json) @ json @ concat (map (sv_data \<circ> snd) views))"
  by (auto simp: sample_serialize_def Let_def)

lemma sample_deserialize_serialize:
  assumes "sample_serialize views = Some bs"
  shows "sample_deserialize bs = Some views"
proof -
  let ?json = "enc_list enc_info (view_infos 0 views)"
  have bs: "length ?json < 2 ^ 64" "bs = le_bytes 8 (length ?json) @ ?json @ concat (map (sv_data \<circ> snd) views)"
    using assms by (simp_all add: sample_serialize_Some Let_def)
  have "le_value (le_bytes 8 (length ?json)) = length ?json"
    using bs(1) by (intro le_value_le_bytes) simp
  then show ?thesis
    using info_view_infos [of "[]" 0 views] by (simp add: sample_deserialize_def bs(2) Let_def)
qed

lemma sum_list_sort_key: "sum_list (map f (sort_key g xs)) = sum_list (map f xs)" for f :: "'a \<Rightarrow> nat"
  by (metis mset_map mset_sort sum_mset_sum_list)

lemma sample_stream_tensor_codec:
  assumes "codec em dm"
  shows "stream_tensor_codec (sample_tensors em dm)"
proof
  fix views :: "(string \<times> st_view) list" and bs
  assume bs: "tn_serialize (sample_tensors em dm) views = Some bs"
  then have "sample_deserialize bs = Some views"
    by (simp add: sample_tensors_def sample_deserialize_serialize)
  then show "\<exists>vs. tn_deserialize (sample_tensors em dm) bs = Some vs \<and> mset vs = mset views"
    by (simp add: sample_tensors_def)
  assume fresh: "''__metadata__'' \<notin> fst ` set views"
  let ?infos = "view_infos 0 views"
  let ?json = "enc_list enc_info ?infos"
  have "''__metadata__'' \<notin> fst ` set ?infos"
    using fresh view_infos_names [of 0 views] by (metis list.set_map)
  moreover have "list_all2 (\<lambda>(n, v) (m, i). n = m \<and> Some v = Some i) ?infos ?infos"
    by (simp add: list.rel_refl_strong split: prod.split)
  moreover have "bs = le_bytes 8 (length ?json) @ ?json @ concat (map (sv_data \<circ> snd) views)"
    using bs by (simp add: sample_tensors_def sample_serialize_Some Let_def)
  ultimately show "\<exists>json contents entries infos. bs = le_bytes 8 (length json) @ json @ contents
        \<and> tn_json_object (sample_tensors em dm) json = Some entries \<and> ''__metadata__'' \<notin> fst ` set entries
        \<and> list_all2 (\<lambda>(n, v) (m, i). n = m \<and> tn_json_info (sample_tensors em dm) v = Some i) entries infos
        \<and> mset (map info_key infos) = mset (map view_key views)
        \<and> tn_header_check (sample_tensors em dm) (sort_key (\<lambda>(_, i). fst (si_offsets i)) infos)
            = Some (length contents)"
    by (intro exI [of _ ?json] exI [of _ "concat (map (sv_data \<circ> snd) views)"] exI [of _ ?infos])
       (simp add: sample_tensors_def view_infos_keys sample_header_check_def sum_list_sort_key view_infos_size
          del: mset_map)
qed (use assms in \<open>auto simp: sample_tensors_def codec_apply [OF codec_envelope] codec_apply\<close>)

interpretation bytes_tensors: stream_tensor_codec "sample_tensors enc_bytes dec_bytes"
  by (rule sample_stream_tensor_codec) (rule codec_bytes)

section \<open>Properties of frames\<close>

text \<open>
  C15: The checks of a tensor bundle against the ports of a contract accept it exactly when it
  conforms: its names are distinct and are those of the ports, and one assignment of the
  symbolic dimensions makes every tensor fit the type and the dimensions of its port.
\<close>

theorem validate_tensors_iff: "validate_tensors ports tensors = Inr () \<longleftrightarrow> bundle_conforms ports tensors"
  by (rule validate_tensors_conforms)

text \<open>
  C16: A frame that the run-time validation accepts was made for the identifier, version, hash
  and side of the contract, and its tensors are, in the order of the ports, of the type and
  shape the ports ask for, under one assignment of the symbolic dimensions.
\<close>

theorem validated_artifact_fits:
  assumes "validate_artifact E d side frame = Inr b"
  shows "te_contract_id (db_envelope b) = cd_id d \<and> te_contract_version (db_envelope b) = cd_version d
    \<and> te_contract_hash (db_envelope b) = descriptor_hash E d \<and> te_side (db_envelope b) = side
    \<and> map rt_name (db_tensors b) = map tp_name (ports_for d side)
    \<and> (\<exists>s. list_all2 (port_fits s) (ports_for d side) (db_tensors b))"
  using assms read_tensors_Inr [of E "ports_for d side"]
  by (auto simp: validate_artifact_def result_simps)


text \<open>
  C18: Encoding a bundle for a contract and decoding the frame returns the metadata and the
  tensors, in the order of the ports.
\<close>

theorem frame_roundtrip:
  assumes "stream_tensor_codec E" and "encode_descriptor E d side ts md = Inr frame" and "length frame < 2 ^ 64"
  shows "\<exists>e. decode_descriptor E d side frame
      = Inr \<lparr>db_envelope = e, db_metadata = md, db_tensors = port_order (ports_for d side) ts\<rparr>"
  using tensor_codec.decode_encoded [OF stream_tensor_codec.axioms(1) [OF assms(1)] assms(2,3)] .

text \<open>
  The header that is sent ahead of a live stream is a prefix of the frame, and the receiver
  that validates it learns the exact length of the frame before any tensor data arrives.
\<close>

theorem stream_header_announces_frame:
  assumes "stream_tensor_codec E" and "encode_descriptor E d side ts md = Inr frame" and "length frame < 2 ^ 64"
    and "''__metadata__'' \<notin> set (map tp_name (ports_for d side))"
  shows "\<exists>h rest. tensor_stream_header E frame = Inr h \<and> frame = h @ rest
      \<and> validate_tensor_stream_header E d side h = Inr (length frame)"
  using stream_tensor_codec.header_of_encoded [OF assms] .

text \<open>
  A frame made for one side of a contract is rejected for the other side and for every
  contract of another identifier, version or descriptor hash.
\<close>

theorem foreign_frame_rejected:
  assumes "stream_tensor_codec E" and "encode_descriptor E d side ts md = Inr frame" and "length frame < 2 ^ 64"
    and "side \<noteq> side' \<or> cd_id d \<noteq> cd_id d' \<or> cd_version d \<noteq> cd_version d'
      \<or> descriptor_hash E d \<noteq> descriptor_hash E d'"
  shows "\<exists>err. validate_artifact E d' side' frame = Inl err"
  using tensor_codec.foreign_rejected [OF stream_tensor_codec.axioms(1) [OF assms(1)] assms(2,3,4)] .

section \<open>Instances\<close>

text \<open>A contract with two ports that share the batch dimension, and a bundle given out of order.\<close>

definition demo_contract :: contract_descriptor where
  "demo_contract = \<lparr>cd_id = ContractId [1, 2, 3], cd_version = 4,
     cd_inputs = [\<lparr>tp_name = ''x'', tp_dimensions = [DimSymbolic ''batch'', DimStatic 2],
                    tp_dtype = DExact DU8, tp_layout = LayoutContiguous\<rparr>,
                  \<lparr>tp_name = ''y'', tp_dimensions = [DimSymbolic ''batch''],
                    tp_dtype = DAny, tp_layout = LayoutContiguous\<rparr>],
     cd_outputs = []\<rparr>"

definition demo_tensors :: "raw_tensor list" where
  "demo_tensors = [\<lparr>rt_name = ''y'', rt_dtype = DU8, rt_shape = [1], rt_data = [9]\<rparr>,
                   \<lparr>rt_name = ''x'', rt_dtype = DU8, rt_shape = [1, 2], rt_data = [7, 8]\<rparr>]"

abbreviation "demo_env \<equiv> sample_tensors enc_bytes dec_bytes"

lemma enc_nat_eqs:
  "n < 128 \<Longrightarrow> enc_nat n = [of_nat n]"
  "\<not> n < 128 \<Longrightarrow> enc_nat n = of_nat (128 + n mod 128) # enc_nat (n div 128)"
  by (simp_all add: enc_nat.simps [of n])

lemma demo_encodes:
  "case encode_descriptor demo_env demo_contract SideInput demo_tensors [5] of
     Inl _ \<Rightarrow> False | Inr frame \<Rightarrow> length frame < 1000"
  by (simp add: encode_descriptor_def sample_tensors_def demo_contract_def demo_tensors_def validate_schema_def
      validate_tensors_def tensor_map_def Let_def enc_nat_eqs sample_serialize_def enc_info_def enc_envelope_def
      enc_map_def enc_pair_def enc_list_def enc_string_def enc_bytes_def enc_word_def enc_cid_def enc_chash_def
      enc_encid_def enc_side_def descriptor_hash_def sample_contract_def FRAME_MAGIC_def st_dtypes_def
      SAFETENSORS_V1_def POSTCARD_V1_def TENSOR_ENVELOPE_VERSION_def)

lemma demo_frame:
  obtains frame where "encode_descriptor demo_env demo_contract SideInput demo_tensors [5] = Inr frame"
    and "length frame < 2 ^ 64"
  using demo_encodes by (auto split: sum.splits)

lemma demo_stream_codec: "stream_tensor_codec demo_env"
  by (rule bytes_tensors.stream_tensor_codec_axioms)

text \<open>The frame of the demonstration bundle is read back with its tensors in port order.\<close>

lemma frame_roundtrip_witness:
  "\<exists>frame e. encode_descriptor demo_env demo_contract SideInput demo_tensors [5] = Inr frame
    \<and> decode_descriptor demo_env demo_contract SideInput frame
        = Inr \<lparr>db_envelope = e, db_metadata = [5], db_tensors = rev demo_tensors\<rparr>"
proof -
  obtain frame where frame: "encode_descriptor demo_env demo_contract SideInput demo_tensors [5] = Inr frame"
    "length frame < 2 ^ 64" by (rule demo_frame)
  have "port_order (ports_for demo_contract SideInput) demo_tensors = rev demo_tensors"
    by (simp add: port_order_def demo_contract_def demo_tensors_def port_position_def)
  with frame frame_roundtrip [OF demo_stream_codec frame] show ?thesis by auto
qed

lemma validated_artifact_fits_witness:
  "\<exists>frame b. validate_artifact demo_env demo_contract SideInput frame = Inr b
    \<and> map rt_name (db_tensors b) = [''x'', ''y'']"
proof -
  obtain frame where frame: "encode_descriptor demo_env demo_contract SideInput demo_tensors [5] = Inr frame"
    "length frame < 2 ^ 64" by (rule demo_frame)
  obtain e mb where "validate_artifact demo_env demo_contract SideInput frame = Inr
      \<lparr>db_envelope = e, db_metadata = mb, db_tensors = port_order (ports_for demo_contract SideInput) demo_tensors\<rparr>"
    by (rule bytes_tensors.validate_encoded [OF frame])
  from this validated_artifact_fits [OF this] show ?thesis
    by (intro exI conjI) (assumption, simp add: demo_contract_def)
qed

lemma stream_header_announces_frame_witness:
  "\<exists>frame h. tensor_stream_header demo_env frame = Inr h
    \<and> validate_tensor_stream_header demo_env demo_contract SideInput h = Inr (length frame)"
proof -
  obtain frame where frame: "encode_descriptor demo_env demo_contract SideInput demo_tensors [5] = Inr frame"
    "length frame < 2 ^ 64" by (rule demo_frame)
  have "''__metadata__'' \<notin> set (map tp_name (ports_for demo_contract SideInput))"
    by (simp add: demo_contract_def)
  from stream_header_announces_frame [OF demo_stream_codec frame this] show ?thesis by blast
qed

lemma foreign_frame_rejected_witness:
  "\<exists>frame err. encode_descriptor demo_env demo_contract SideInput demo_tensors [5] = Inr frame
    \<and> validate_artifact demo_env (demo_contract\<lparr>cd_version := 5\<rparr>) SideInput frame = Inl err"
proof -
  obtain frame where frame: "encode_descriptor demo_env demo_contract SideInput demo_tensors [5] = Inr frame"
    "length frame < 2 ^ 64" by (rule demo_frame)
  have "SideInput \<noteq> SideInput \<or> cd_id demo_contract \<noteq> cd_id (demo_contract\<lparr>cd_version := 5\<rparr>)
      \<or> cd_version demo_contract \<noteq> cd_version (demo_contract\<lparr>cd_version := 5\<rparr>)
      \<or> descriptor_hash demo_env demo_contract \<noteq> descriptor_hash demo_env (demo_contract\<lparr>cd_version := 5\<rparr>)"
    by (simp add: demo_contract_def)
  from foreign_frame_rejected [OF demo_stream_codec frame this] frame(1) show ?thesis by blast
qed

end
