(* ===== verification/Qwen_Bridge.thy ===== *)
theory Qwen_Bridge
  imports Tensor_Sample
begin

text \<open>
  The Qwen operation: its contract and its dense dark-token bundles
  (\<open>_black_hole_spec/src/lib.rs\<close>), and the adapter of the Mass server between bundles and
  the inputs and predictions of the engine (\<open>_black_hole_mass/src/lib.rs\<close>). An index out of
  range, which ends the task with a panic, is the value \<open>None\<close>. A log probability is
  the bit pattern of its \<open>f32\<close>: the code only moves it.
\<close>

section \<open>Inference requests and outputs\<close>

record logit_entry =
  le_token_id :: u32
  le_log_prob :: u32

record dark_token =
  dt_predicted :: u32
  dt_dark_knowledge :: "logit_entry list"

datatype inference_input = IText string | ITokens "u32 list" | IDark "dark_token list"

datatype inference_request =
    RSequences "inference_input list list" "u32 option"
  | RVoidId object_id "u32 option"

datatype sequence_output = SequenceOutput (sequence_tokens: "dark_token list")

datatype inference_output = InferenceOutput (io_results: "sequence_output list")

datatype qwen_metadata = QDark "u32 option" | QRequest inference_request

section \<open>The contract\<close>

definition qwen_ports :: "tensor_port_descriptor list" where
  "qwen_ports = [port_descriptor ''predictions'' [0, 0] (DExact DU32),
                 port_descriptor ''dark_token_ids'' [0, 0, 0] (DExact DU32),
                 port_descriptor ''dark_log_probs'' [0, 0, 0] (DExact DF32)]"

definition qwen_contract :: contract_descriptor where
  "qwen_contract = \<lparr>cd_id = contract_id_from_u128 0x7177656e2d6461726b2d696e66657231, cd_version = 1,
     cd_inputs = qwen_ports, cd_outputs = qwen_ports\<rparr>"

definition encode_qwen_request :: "(qwen_metadata, 'j) tensor_env \<Rightarrow> inference_request \<Rightarrow> codec_error + bytes" where
  "encode_qwen_request E request =
     encode_descriptor E qwen_contract SideInput
       [\<lparr>rt_name = ''predictions'', rt_dtype = DU32, rt_shape = [0, 0], rt_data = []\<rparr>,
        \<lparr>rt_name = ''dark_token_ids'', rt_dtype = DU32, rt_shape = [0, 0, 0], rt_data = []\<rparr>,
        \<lparr>rt_name = ''dark_log_probs'', rt_dtype = DF32, rt_shape = [0, 0, 0], rt_data = []\<rparr>]
       (QRequest request)"

section \<open>Dense bundles\<close>

text \<open>\<open>chunks_exact(4)\<close> read as little-endian words\<close>

fun le_words :: "bytes \<Rightarrow> u32 list" where
  "le_words (a # b # c # d # rest) = of_nat (le_value [a, b, c, d]) # le_words rest"
| "le_words _ = []"

definition nth_get :: "'a list \<Rightarrow> nat \<Rightarrow> 'a option" where
  "nth_get xs i = (if i < length xs then Some (xs ! i) else None)"

definition dense_logit :: "u32 list \<Rightarrow> u32 list \<Rightarrow> nat \<Rightarrow> logit_entry option" where
  "dense_logit ids lps k =
     Option.bind (nth_get ids k) (\<lambda>i. Option.bind (nth_get lps k) (\<lambda>p.
       Some \<lparr>le_token_id = i, le_log_prob = p\<rparr>))"

definition dense_token :: "u32 list \<Rightarrow> u32 list \<Rightarrow> u32 list \<Rightarrow> nat \<Rightarrow> nat \<Rightarrow> dark_token option" where
  "dense_token preds ids lps top_k position =
     Option.bind (nth_get preds position) (\<lambda>p.
     Option.bind (those (map (\<lambda>offset. dense_logit ids lps (position * top_k + offset)) [0..<top_k])) (\<lambda>dk.
       Some \<lparr>dt_predicted = p, dt_dark_knowledge = dk\<rparr>))"

definition dense_rows :: "raw_tensor list \<Rightarrow> dark_token list list option" where
  "dense_rows tensors =
     Option.bind (nth_get tensors 0) (\<lambda>predictions.
     Option.bind (nth_get tensors 1) (\<lambda>token_ids.
     Option.bind (nth_get tensors 2) (\<lambda>log_probs.
     Option.bind (nth_get (rt_shape predictions) 0) (\<lambda>batch.
     Option.bind (nth_get (rt_shape predictions) 1) (\<lambda>sequence.
     Option.bind (nth_get (rt_shape token_ids) 2) (\<lambda>top_k.
       those (map (\<lambda>b. those (map (\<lambda>s.
           dense_token (le_words (rt_data predictions)) (le_words (rt_data token_ids))
             (le_words (rt_data log_probs)) (unat top_k) (b * unat sequence + s))
         [0..<unat sequence])) [0..<unat batch])))))))"

definition decode_qwen_output :: "(qwen_metadata, 'j) tensor_env \<Rightarrow> bytes \<Rightarrow>
    (codec_error + inference_output) option" where
  "decode_qwen_output E frame =
     (case decode_descriptor E qwen_contract SideOutput frame of
        Inl e \<Rightarrow> Some (Inl e)
      | Inr decoded \<Rightarrow>
          Option.bind (dense_rows (db_tensors decoded)) (\<lambda>rows.
            Some (Inr (InferenceOutput (map SequenceOutput rows)))))"

text \<open>The request that a decoded input bundle stands for.\<close>

definition bundle_request :: "qwen_metadata decoded_bundle \<Rightarrow> inference_request option" where
  "bundle_request decoded =
     (case db_metadata decoded of
        QRequest request \<Rightarrow> Some request
      | QDark limit \<Rightarrow>
          Option.bind (dense_rows (db_tensors decoded)) (\<lambda>rows.
            Some (RSequences (map (\<lambda>dark. [IDark dark]) rows) limit)))"

definition word_bytes :: "u32 \<Rightarrow> bytes" where
  "word_bytes w = le_bytes 4 (unat w)"

definition output_sequence :: "inference_output \<Rightarrow> nat" where
  "output_sequence out = (case io_results out of [] \<Rightarrow> 0 | r # _ \<Rightarrow> length (sequence_tokens r))"

definition output_top_k :: "inference_output \<Rightarrow> nat" where
  "output_top_k out =
     (case io_results out of [] \<Rightarrow> 0 | r # _ \<Rightarrow>
        (case sequence_tokens r of [] \<Rightarrow> 0 | t # _ \<Rightarrow> length (dt_dark_knowledge t)))"

definition ragged :: "inference_output \<Rightarrow> bool" where
  "ragged out \<longleftrightarrow> list_ex (\<lambda>r. length (sequence_tokens r) \<noteq> output_sequence out
     \<or> list_ex (\<lambda>t. length (dt_dark_knowledge t) \<noteq> output_top_k out) (sequence_tokens r)) (io_results out)"

text \<open>The bundle of an output, \<open>None\<close> for a ragged one (which the server reports as an error).\<close>

definition dense_output :: "inference_output \<Rightarrow> raw_tensor list option" where
  "dense_output out =
     (if ragged out then None
      else
        let tokens = concat (map sequence_tokens (io_results out));
            entries = concat (map dt_dark_knowledge tokens);
            batch = of_nat (length (io_results out));
            sequence = of_nat (output_sequence out);
            top_k = of_nat (output_top_k out)
        in Some
          [\<lparr>rt_name = ''predictions'', rt_dtype = DU32, rt_shape = [batch, sequence],
            rt_data = concat (map (word_bytes \<circ> dt_predicted) tokens)\<rparr>,
           \<lparr>rt_name = ''dark_token_ids'', rt_dtype = DU32, rt_shape = [batch, sequence, top_k],
            rt_data = concat (map (word_bytes \<circ> le_token_id) entries)\<rparr>,
           \<lparr>rt_name = ''dark_log_probs'', rt_dtype = DF32, rt_shape = [batch, sequence, top_k],
            rt_data = concat (map (word_bytes \<circ> le_log_prob) entries)\<rparr>])"

section \<open>The engine adapter\<close>

text \<open>The input and prediction types of the engine package.\<close>

datatype model_input = MText string | MTokens "u32 list" | MSoft "dark_token list"

record predicted =
  pr_token_id :: u32
  pr_top_k :: "logit_entry list"

definition dark_input :: "dark_token list \<Rightarrow> model_input" where
  "dark_input tokens = MSoft (map (\<lambda>t.
     \<lparr>dt_predicted = dt_predicted t,
      dt_dark_knowledge = map (\<lambda>e. \<lparr>le_token_id = le_token_id e, le_log_prob = le_log_prob e\<rparr>)
        (dt_dark_knowledge t)\<rparr>) tokens)"

fun model_input_of :: "inference_input \<Rightarrow> model_input" where
  "model_input_of (IText text) = MText text"
| "model_input_of (ITokens tokens) = MTokens tokens"
| "model_input_of (IDark tokens) = dark_input tokens"

definition adapter_output :: "predicted list list \<Rightarrow> inference_output" where
  "adapter_output results = InferenceOutput (map (\<lambda>predictions. SequenceOutput (map (\<lambda>p.
     \<lparr>dt_predicted = pr_token_id p,
      dt_dark_knowledge = map (\<lambda>e. \<lparr>le_token_id = le_token_id e, le_log_prob = le_log_prob e\<rparr>)
        (pr_top_k p)\<rparr>) predictions)) results)"

text \<open>
  The loop that collects the predictions of a batch from the channel of the engine: each
  message is one step of all sequences or an error, and the channel may close at any time.
\<close>

definition push_step :: "nat \<Rightarrow> 'p list \<Rightarrow> 'p list list \<Rightarrow> 'p list list" where
  "push_step limit step results =
     map (\<lambda>(index, ps). if index < length step \<and> length ps < limit then ps @ [step ! index] else ps)
       (List.enumerate 0 results)"

fun collect_steps :: "nat \<Rightarrow> 'p list list \<Rightarrow> (string + 'p list) list \<Rightarrow> 'p list list" where
  "collect_steps limit results [] = results"
| "collect_steps limit results (Inl e # msgs) = results"
| "collect_steps limit results (Inr step # msgs) =
     (let results' = push_step limit step results in
      if list_all (\<lambda>ps. limit \<le> length ps) results' then results'
      else collect_steps limit results' msgs)"

definition predict_batched :: "nat \<Rightarrow> u32 \<Rightarrow> string + (string + 'p list) list \<Rightarrow> string + 'p list list" where
  "predict_batched sequences limit channel =
     (if limit = 0 then Inr (replicate sequences [])
      else and_then channel (\<lambda>msgs. Inr (collect_steps (unat limit) (replicate sequences []) msgs)))"

end
