(* ===== verification/Qwen_Proofs.thy ===== *)
theory Qwen_Proofs
  imports Qwen_Bridge
begin

text \<open>
  The dense bundle of a batch of dark tokens is read back exactly, through a whole frame;
  the collection of a batch returns a prefix of the columns of the engine's steps; and a
  bundle whose dynamic dimensions disagree passes validation and makes the readers panic.
\<close>

section \<open>Words and rectangular lists\<close>

lemma le_words_word_bytes: "le_words (word_bytes w @ rest) = w # le_words rest"
proof -
  have four: "4 = Suc (Suc (Suc (Suc 0)))" by simp
  obtain a b c d where abcd: "word_bytes w = [a, b, c, d]"
    unfolding word_bytes_def four le_bytes.simps by blast
  have "unat w < 256 ^ 4" using unsigned_less [of w] by simp
  then have "le_value (word_bytes w) = unat w"
    unfolding word_bytes_def by (rule le_value_le_bytes)
  moreover have "le_words (word_bytes w @ rest) = of_nat (le_value (word_bytes w)) # le_words rest"
    by (simp add: abcd del: le_value.simps)
  ultimately show ?thesis by simp
qed

lemma le_words_concat [simp]: "le_words (concat (map (word_bytes \<circ> f) xs)) = map f xs"
  by (induction xs) (auto simp: le_words_word_bytes)

lemma nth_concat_rect:
  assumes "\<And>xs. xs \<in> set xss \<Longrightarrow> length xs = m" and "i < length xss" and "j < m"
  shows "i * m + j < length (concat xss)" and "concat xss ! (i * m + j) = xss ! i ! j"
proof -
  have "i * m + j < length (concat xss) \<and> concat xss ! (i * m + j) = xss ! i ! j"
    using assms
  proof (induction xss arbitrary: i)
    case (Cons xs xss)
    have len: "length xs = m" using Cons.prems(1) by simp
    show ?case
    proof (cases i)
      case 0
      then show ?thesis using len Cons.prems(3) by (simp add: nth_append)
    next
      case (Suc k)
      with Cons.prems have "k * m + j < length (concat xss) \<and> concat xss ! (k * m + j) = xss ! k ! j"
        by (intro Cons.IH) auto
      with Suc len show ?thesis by (simp add: nth_append)
    qed
  qed simp
  then show "i * m + j < length (concat xss)" "concat xss ! (i * m + j) = xss ! i ! j" by auto
qed

lemma those_map_Some: "(\<And>x. x \<in> set xs \<Longrightarrow> f x = Some (g x)) \<Longrightarrow> those (map f xs) = Some (map g xs)"
  by (induction xs) auto

lemma map_nth_upt: "map (\<lambda>i. xs ! i) [0..<length xs] = xs"
  by (rule map_nth)

section \<open>Reading a dense bundle\<close>

lemma ragged_iff:
  "\<not> ragged out \<longleftrightarrow> (\<forall>r \<in> set (io_results out). length (sequence_tokens r) = output_sequence out
     \<and> (\<forall>t \<in> set (sequence_tokens r). length (dt_dark_knowledge t) = output_top_k out))"
  by (auto simp: ragged_def list_ex_iff)

lemma dense_token_rect:
  assumes toks: "\<And>t. t \<in> set tokens \<Longrightarrow> length (dt_dark_knowledge t) = k" and p: "p < length tokens"
  shows "dense_token (map dt_predicted tokens)
      (map le_token_id (concat (map dt_dark_knowledge tokens)))
      (map le_log_prob (concat (map dt_dark_knowledge tokens))) k p = Some (tokens ! p)"
proof -
  let ?es = "concat (map dt_dark_knowledge tokens)"
  have "dense_logit (map le_token_id ?es) (map le_log_prob ?es) (p * k + j)
      = Some (dt_dark_knowledge (tokens ! p) ! j)" if "j < k" for j
  proof -
    have "p * k + j < length ?es" "?es ! (p * k + j) = dt_dark_knowledge (tokens ! p) ! j"
      using nth_concat_rect [of "map dt_dark_knowledge tokens" k p j] toks p that by auto
    then show ?thesis by (simp add: dense_logit_def nth_get_def)
  qed
  then have "those (map (\<lambda>j. dense_logit (map le_token_id ?es) (map le_log_prob ?es) (p * k + j)) [0..<k])
      = Some (map (\<lambda>j. dt_dark_knowledge (tokens ! p) ! j) [0..<k])"
    by (intro those_map_Some) simp
  moreover have "length (dt_dark_knowledge (tokens ! p)) = k" using toks p by simp
  ultimately show ?thesis using p map_nth [of "dt_dark_knowledge (tokens ! p)"]
    by (simp add: dense_token_def nth_get_def)
qed

definition output_fits_usize :: "inference_output \<Rightarrow> bool" where
  "output_fits_usize out \<longleftrightarrow> length (io_results out) < 2 ^ 64 \<and> output_sequence out < 2 ^ 64
     \<and> output_top_k out < 2 ^ 64"

lemma dense_rows_output:
  assumes "dense_output out = Some ts" and "output_fits_usize out"
  shows "dense_rows ts = Some (map sequence_tokens (io_results out))"
proof -
  let ?rows = "map sequence_tokens (io_results out)" and ?n = "output_sequence out" and ?k = "output_top_k out"
  let ?tokens = "concat ?rows"
  have rag: "\<not> ragged out" using assms(1) by (auto simp: dense_output_def split: if_splits)
  then have rect: "\<And>r. r \<in> set ?rows \<Longrightarrow> length r = ?n"
    and tops: "\<And>t. t \<in> set ?tokens \<Longrightarrow> length (dt_dark_knowledge t) = ?k"
    by (auto simp: ragged_iff)
  have sizes: "unat (of_nat (length ?rows) :: u64) = length ?rows" "unat (of_nat ?n :: u64) = ?n"
    "unat (of_nat ?k :: u64) = ?k"
    using assms(2) by (simp_all add: output_fits_usize_def unat_of_nat_small)
  let ?tok = "dense_token (map dt_predicted ?tokens) (map le_token_id (concat (map dt_dark_knowledge ?tokens)))
      (map le_log_prob (concat (map dt_dark_knowledge ?tokens))) ?k"
  have row: "those (map (\<lambda>s. ?tok (b * ?n + s)) [0..<?n]) = Some (?rows ! b)" if b: "b < length ?rows" for b
  proof -
    have "?tok (b * ?n + s) = Some (?rows ! b ! s)" if "s < ?n" for s
      using nth_concat_rect [OF rect b that] by (subst dense_token_rect [OF tops]) auto
    then have "those (map (\<lambda>s. ?tok (b * ?n + s)) [0..<?n]) = Some (map (\<lambda>s. ?rows ! b ! s) [0..<?n])"
      by (intro those_map_Some) simp
    moreover have "length (?rows ! b) = ?n" using rect b by simp
    ultimately show ?thesis using map_nth [of "?rows ! b"] by simp
  qed
  have "those (map (\<lambda>b. those (map (\<lambda>s. ?tok (b * ?n + s)) [0..<?n])) [0..<length ?rows])
      = Some (map (\<lambda>b. ?rows ! b) [0..<length ?rows])"
    using row by (intro those_map_Some) simp
  also have "\<dots> = Some ?rows" by (simp add: map_nth del: length_map)
  finally have rows: "those (map (\<lambda>b. those (map (\<lambda>s. ?tok (b * ?n + s)) [0..<?n])) [0..<length ?rows]) = Some ?rows" .
  show ?thesis using assms(1) rag rows sizes
    by (simp add: dense_output_def dense_rows_def Let_def nth_get_def eval_nat_numeral
        del: of_nat_Suc map_map) auto
qed

section \<open>Metadata of the sample format\<close>

definition enc_opt :: "u32 option \<Rightarrow> bytes" where
  "enc_opt = enc_map (\<lambda>x. case x of None \<Rightarrow> [] | Some y \<Rightarrow> [y]) (enc_list enc_word)"

definition dec_opt :: "u32 option decoder" where
  "dec_opt = dec_map (\<lambda>ys. case ys of [] \<Rightarrow> None | y # _ \<Rightarrow> Some y) (dec_list dec_word)"

lemma codec_opt [codec_laws]: "codec enc_opt dec_opt"
  unfolding enc_opt_def dec_opt_def by (intro codec_map codec_laws) (simp split: option.split)

definition "enc_entry = enc_map (\<lambda>e. (le_token_id e, le_log_prob e)) (enc_pair enc_word enc_word)"
definition "dec_entry = dec_map (\<lambda>(i, p). \<lparr>le_token_id = i, le_log_prob = p\<rparr>) (dec_pair dec_word dec_word)"

lemma codec_entry [codec_laws]: "codec enc_entry dec_entry"
  unfolding enc_entry_def dec_entry_def by (intro codec_map codec_laws) simp

definition "enc_dark = enc_map (\<lambda>t. (dt_predicted t, dt_dark_knowledge t)) (enc_pair enc_word (enc_list enc_entry))"
definition "dec_dark = dec_map (\<lambda>(p, dk). \<lparr>dt_predicted = p, dt_dark_knowledge = dk\<rparr>)
  (dec_pair dec_word (dec_list dec_entry))"

lemma codec_dark [codec_laws]: "codec enc_dark dec_dark"
  unfolding enc_dark_def dec_dark_def by (intro codec_map codec_laws) simp

definition enc_input :: "inference_input \<Rightarrow> bytes" where
  "enc_input = enc_map
     (\<lambda>x. case x of IText s \<Rightarrow> (0, s, [], []) | ITokens ts \<Rightarrow> (1, [], ts, []) | IDark ds \<Rightarrow> (2, [], [], ds))
     (enc_pair enc_nat (enc_pair enc_string (enc_pair (enc_list enc_word) (enc_list enc_dark))))"

definition dec_input :: "inference_input decoder" where
  "dec_input = dec_map
     (\<lambda>(tag, s, ts, ds). if tag = 0 then IText s else if tag = 1 then ITokens ts else IDark ds)
     (dec_pair dec_nat (dec_pair dec_string (dec_pair (dec_list dec_word) (dec_list dec_dark))))"

lemma codec_input [codec_laws]: "codec enc_input dec_input"
  unfolding enc_input_def dec_input_def
  by (intro codec_map codec_laws) (simp split: inference_input.split)

definition enc_meta :: "qwen_metadata \<Rightarrow> bytes" where
  "enc_meta = enc_map
     (\<lambda>x. case x of QDark l \<Rightarrow> (0, [], 0, l) | QRequest (RSequences ss l) \<Rightarrow> (1, ss, 0, l)
        | QRequest (RVoidId i l) \<Rightarrow> (2, [], i, l))
     (enc_pair enc_nat (enc_pair (enc_list (enc_list enc_input)) (enc_pair enc_word enc_opt)))"

definition dec_meta :: "qwen_metadata decoder" where
  "dec_meta = dec_map
     (\<lambda>(tag, ss, i, l). if tag = 0 then QDark l else if tag = 1 then QRequest (RSequences ss l)
        else QRequest (RVoidId i l))
     (dec_pair dec_nat (dec_pair (dec_list (dec_list dec_input)) (dec_pair dec_word dec_opt)))"

lemma codec_meta [codec_laws]: "codec enc_meta dec_meta"
  unfolding enc_meta_def dec_meta_def
  by (intro codec_map codec_laws) (simp split: qwen_metadata.split inference_request.split)

abbreviation "qwen_env \<equiv> sample_tensors enc_meta dec_meta"

interpretation qwen_tensors: stream_tensor_codec qwen_env
  by (rule sample_stream_tensor_codec) (rule codec_meta)

section \<open>Collecting the predictions of a batch\<close>

text \<open>The steps before the first error, and the predictions of one sequence in them.\<close>

fun ok_steps :: "(string + 'p list) list \<Rightarrow> 'p list list" where
  "ok_steps (Inr step # msgs) = step # ok_steps msgs"
| "ok_steps _ = []"

definition column :: "nat \<Rightarrow> 'p list list \<Rightarrow> 'p list" where
  "column i steps = concat (map (\<lambda>step. if i < length step then [step ! i] else []) steps)"

lemma column_Cons: "column i (step # steps) = (if i < length step then [step ! i] else []) @ column i steps"
  by (simp add: column_def)

lemma push_step_nth:
  "length (push_step limit step results) = length results"
  "i < length results \<Longrightarrow> push_step limit step results ! i =
     (if i < length step \<and> length (results ! i) < limit then results ! i @ [step ! i] else results ! i)"
  by (simp_all add: push_step_def nth_enumerate_eq)

lemma collect_steps_column:
  "length (collect_steps limit results msgs) = length results \<and>
   (\<forall>i < length results. length (results ! i) \<le> limit \<longrightarrow>
     collect_steps limit results msgs ! i = take limit (results ! i @ column i (ok_steps msgs)))"
proof (induction limit results msgs rule: collect_steps.induct)
  case (3 limit results step msgs)
  let ?r = "push_step limit step results"
  have len: "length ?r = length results" by (simp add: push_step_nth)
  have one: "take limit (?r ! i @ xs) = take limit (results ! i @ (if i < length step then [step ! i] else []) @ xs)
      \<and> length (?r ! i) \<le> limit"
    if "i < length results" "length (results ! i) \<le> limit" for i xs
    using that by (auto simp: push_step_nth)
  show ?case
  proof (cases "list_all (\<lambda>ps. limit \<le> length ps) ?r")
    case True
    have "?r ! i = take limit (results ! i @ column i (ok_steps (Inr step # msgs)))"
      if i: "i < length results" "length (results ! i) \<le> limit" for i
    proof -
      have full: "limit \<le> length (?r ! i)" using True i(1) len by (simp add: list_all_length)
      with one [OF i, of "column i (ok_steps msgs)"] have "length (?r ! i) = limit" by auto
      then have "?r ! i = take limit (?r ! i @ column i (ok_steps msgs))" by simp
      also have "\<dots> = take limit (results ! i @ column i (ok_steps (Inr step # msgs)))"
        using one [OF i, of "column i (ok_steps msgs)"] by (simp only: column_Cons ok_steps.simps)
      finally show ?thesis .
    qed
    with True len show ?thesis by (simp add: Let_def)
  next
    case False
    have ih: "length (collect_steps limit ?r msgs) = length ?r \<and> (\<forall>i < length ?r. length (?r ! i) \<le> limit \<longrightarrow>
        collect_steps limit ?r msgs ! i = take limit (?r ! i @ column i (ok_steps msgs)))"
      using 3 [OF refl False] .
    have "collect_steps limit ?r msgs ! i = take limit (results ! i @ column i (ok_steps (Inr step # msgs)))"
      if i: "i < length results" "length (results ! i) \<le> limit" for i
      using ih one [OF i, of "column i (ok_steps msgs)"] i(1) len by (simp only: column_Cons ok_steps.simps)
    with ih len False show ?thesis by (simp add: Let_def)
  qed
qed (auto simp: column_def)

section \<open>Properties\<close>

lemma qwen_ports_distinct: "distinct (map tp_name qwen_ports)"
  by (simp add: qwen_ports_def port_descriptor_def)

lemma dense_output_in_place:
  assumes "dense_output out = Some ts" and "bundle_conforms qwen_ports ts"
  shows "port_order qwen_ports ts = ts"
proof (rule port_order_in_place [OF qwen_ports_distinct _ assms(2)])
  show "map rt_name ts = map tp_name qwen_ports"
    using assms(1) by (auto simp: dense_output_def Let_def qwen_ports_def port_descriptor_def split: if_splits)
qed

lemma encode_conforms:
  "encode_descriptor E d side ts md = Inr frame \<Longrightarrow> bundle_conforms (ports_for d side) ts"
  by (rule encode_descriptor_Inr)

lemma qwen_ports_for: "ports_for qwen_contract side = qwen_ports"
  by (cases side) (simp_all add: qwen_contract_def)

text \<open>
  C19: The output of a forward pass that the server publishes as a tensor artifact is decoded by
  the clients to the same output: the dense encoding of a batch of dark tokens loses nothing.
\<close>

theorem qwen_output_roundtrip:
  assumes "stream_tensor_codec E" and "dense_output out = Some ts" and "output_fits_usize out"
    and "encode_descriptor E qwen_contract SideOutput ts md = Inr frame" and "length frame < 2 ^ 64"
  shows "decode_qwen_output E frame = Some (Inr out)"
proof -
  obtain e where dec: "decode_descriptor E qwen_contract SideOutput frame
      = Inr \<lparr>db_envelope = e, db_metadata = md, db_tensors = port_order qwen_ports ts\<rparr>"
    using tensor_codec.decode_encoded [OF stream_tensor_codec.axioms(1) [OF assms(1)] assms(4,5)]
    unfolding qwen_ports_for by blast
  have "bundle_conforms qwen_ports ts"
    by (rule encode_conforms [OF assms(4), unfolded qwen_ports_for])
  then have "port_order qwen_ports ts = ts" by (rule dense_output_in_place [OF assms(2)])
  with dec dense_rows_output [OF assms(2,3)] show ?thesis
    by (cases out) (simp add: decode_qwen_output_def comp_def)
qed

text \<open>
  The request that a client wraps into an input artifact is the request that the server's
  forward handler finds in it.
\<close>

theorem qwen_request_roundtrip:
  assumes "stream_tensor_codec E" and "encode_qwen_request E request = Inr frame" and "length frame < 2 ^ 64"
  shows "\<exists>decoded. decode_descriptor E qwen_contract SideInput frame = Inr decoded
      \<and> bundle_request decoded = Some request"
  using tensor_codec.decode_encoded [OF stream_tensor_codec.axioms(1) [OF assms(1)]
      assms(2) [unfolded encode_qwen_request_def] assms(3)]
  by (auto simp: bundle_request_def)

text \<open>
  C20: Batched prediction returns, for every sequence of the batch, the first \<open>limit\<close> predictions
  of that sequence in the steps that the engine delivers before its first error.
\<close>

theorem predict_batched_columns:
  "predict_batched n limit (Inr msgs)
     = Inr (map (\<lambda>i. take (unat limit) (column i (ok_steps msgs))) [0..<n])"
proof (cases "limit = 0")
  case True
  then show ?thesis by (simp add: predict_batched_def map_replicate_const)
next
  case False
  have "collect_steps (unat limit) (replicate n []) msgs = map (\<lambda>i. take (unat limit) (column i (ok_steps msgs))) [0..<n]"
    using collect_steps_column [of "unat limit" "replicate n []" msgs] by (intro nth_equalityI) auto
  with False show ?thesis by (simp add: predict_batched_def)
qed

text \<open>
  The dimensions of the Qwen ports are dynamic and independent, so that a bundle with one
  predicted token and no distribution passes the validation of the host, and reading it
  indexes past the end of the token identifiers: the reader panics instead of failing.
\<close>

definition crafted_tensors :: "raw_tensor list" where
  "crafted_tensors =
     [\<lparr>rt_name = ''predictions'', rt_dtype = DU32, rt_shape = [1, 1], rt_data = [0, 0, 0, 0]\<rparr>,
      \<lparr>rt_name = ''dark_token_ids'', rt_dtype = DU32, rt_shape = [0, 0, 1], rt_data = []\<rparr>,
      \<lparr>rt_name = ''dark_log_probs'', rt_dtype = DF32, rt_shape = [0, 0, 0], rt_data = []\<rparr>]"

theorem qwen_mismatched_shapes_panic:
  assumes "stream_tensor_codec E" and "length frame < 2 ^ 64"
    and "encode_descriptor E qwen_contract SideOutput crafted_tensors md = Inr frame"
  shows "(\<exists>v. validate_artifact E qwen_contract SideOutput frame = Inr v) \<and> decode_qwen_output E frame = None"
proof -
  obtain e where dec: "decode_descriptor E qwen_contract SideOutput frame
      = Inr \<lparr>db_envelope = e, db_metadata = md, db_tensors = port_order qwen_ports crafted_tensors\<rparr>"
    using tensor_codec.decode_encoded [OF stream_tensor_codec.axioms(1) [OF assms(1)] assms(3,2)]
    unfolding qwen_ports_for by blast
  have conf: "bundle_conforms qwen_ports crafted_tensors"
    by (rule encode_conforms [OF assms(3), unfolded qwen_ports_for])
  have "port_order qwen_ports crafted_tensors = crafted_tensors"
    by (rule port_order_in_place [OF qwen_ports_distinct _ conf])
       (simp add: crafted_tensors_def qwen_ports_def port_descriptor_def)
  moreover have "dense_rows crafted_tensors = None"
    by (simp add: dense_rows_def crafted_tensors_def nth_get_def dense_token_def dense_logit_def)
  moreover obtain v where "validate_artifact E qwen_contract SideOutput frame = Inr v"
    by (rule tensor_codec.validate_encoded [OF stream_tensor_codec.axioms(1) [OF assms(1)] assms(3,2)])
  ultimately show ?thesis using dec by (simp add: decode_qwen_output_def)
qed

section \<open>Instances\<close>

lemmas qwen_eval = encode_descriptor_def sample_tensors_def validate_schema_def
  validate_tensors_def tensor_map_def Let_def enc_nat_eqs sample_serialize_def enc_info_def enc_envelope_def
  enc_map_def enc_pair_def enc_list_def enc_string_def enc_bytes_def enc_word_def enc_cid_def enc_chash_def
  enc_encid_def enc_side_def descriptor_hash_def sample_contract_def FRAME_MAGIC_def st_dtypes_def
  SAFETENSORS_V1_def POSTCARD_V1_def TENSOR_ENVELOPE_VERSION_def
  qwen_contract_def qwen_ports_def port_descriptor_def dimension_descriptor_of_def
  enc_meta_def enc_opt_def

lemma qwen_contract_id [simp]:
  "contract_id_from_u128 0x7177656e2d6461726b2d696e66657231 = ContractId (map (of_nat \<circ> of_char) ''qwen-dark-infer1'')"
  by code_simp

lemma qwen_encodes:
  "case encode_descriptor qwen_env qwen_contract SideOutput crafted_tensors (QDark None) of
     Inl _ \<Rightarrow> False | Inr frame \<Rightarrow> length frame < 1000"
  by (simp add: qwen_eval crafted_tensors_def)

lemma qwen_mismatched_shapes_panic_witness:
  "\<exists>frame v. validate_artifact qwen_env qwen_contract SideOutput frame = Inr v
    \<and> decode_qwen_output qwen_env frame = None"
proof -
  obtain frame where "encode_descriptor qwen_env qwen_contract SideOutput crafted_tensors (QDark None) = Inr frame"
    "length frame < 2 ^ 64"
    using qwen_encodes by (auto split: sum.splits)
  from qwen_mismatched_shapes_panic [OF qwen_tensors.stream_tensor_codec_axioms this(2,1)]
  show ?thesis by blast
qed

definition demo_output :: inference_output where
  "demo_output = InferenceOutput
     [SequenceOutput [\<lparr>dt_predicted = 7, dt_dark_knowledge = [\<lparr>le_token_id = 7, le_log_prob = 1\<rparr>]\<rparr>],
      SequenceOutput [\<lparr>dt_predicted = 8, dt_dark_knowledge = [\<lparr>le_token_id = 9, le_log_prob = 2\<rparr>]\<rparr>]]"

lemma demo_dense: "dense_output demo_output = Some
     [\<lparr>rt_name = ''predictions'', rt_dtype = DU32, rt_shape = [2, 1], rt_data = [7, 0, 0, 0, 8, 0, 0, 0]\<rparr>,
      \<lparr>rt_name = ''dark_token_ids'', rt_dtype = DU32, rt_shape = [2, 1, 1], rt_data = [7, 0, 0, 0, 9, 0, 0, 0]\<rparr>,
      \<lparr>rt_name = ''dark_log_probs'', rt_dtype = DF32, rt_shape = [2, 1, 1], rt_data = [1, 0, 0, 0, 2, 0, 0, 0]\<rparr>]"
  by code_simp

lemma demo_output_encodes:
  "case encode_descriptor qwen_env qwen_contract SideOutput (the (dense_output demo_output)) (QDark None) of
     Inl _ \<Rightarrow> False | Inr frame \<Rightarrow> length frame < 1000"
  by (simp add: demo_dense qwen_eval)

lemma qwen_output_roundtrip_witness:
  "\<exists>ts frame. dense_output demo_output = Some ts
    \<and> encode_descriptor qwen_env qwen_contract SideOutput ts (QDark None) = Inr frame
    \<and> decode_qwen_output qwen_env frame = Some (Inr demo_output)"
proof -
  obtain ts where ts: "dense_output demo_output = Some ts" using demo_dense by blast
  obtain frame where frame: "encode_descriptor qwen_env qwen_contract SideOutput ts (QDark None) = Inr frame"
    "length frame < 2 ^ 64"
    using demo_output_encodes ts by (auto split: sum.splits)
  have "output_fits_usize demo_output"
    by (simp add: output_fits_usize_def output_sequence_def output_top_k_def demo_output_def)
  from qwen_output_roundtrip [OF qwen_tensors.stream_tensor_codec_axioms ts this frame] ts frame
  show ?thesis by blast
qed

lemma request_encodes:
  "case encode_qwen_request qwen_env (RVoidId 5 (Some 3)) of Inl _ \<Rightarrow> False | Inr frame \<Rightarrow> length frame < 1000"
  by (simp add: encode_qwen_request_def qwen_eval)

lemma qwen_request_roundtrip_witness:
  "\<exists>frame decoded. encode_qwen_request qwen_env (RVoidId 5 (Some 3)) = Inr frame
    \<and> decode_descriptor qwen_env qwen_contract SideInput frame = Inr decoded
    \<and> bundle_request decoded = Some (RVoidId 5 (Some 3))"
proof -
  obtain frame where "encode_qwen_request qwen_env (RVoidId 5 (Some 3)) = Inr frame" "length frame < 2 ^ 64"
    using request_encodes by (auto split: sum.splits)
  from qwen_request_roundtrip [OF qwen_tensors.stream_tensor_codec_axioms this] this(1) show ?thesis by blast
qed

end
