(* ===== verification/Mass_Session.thy ===== *)
theory Mass_Session
  imports Qwen_Bridge
begin

text \<open>
  A Qwen model instance of the Mass server (\<open>_black_hole_mass/src/lib.rs\<close>): the session state
  machine of zeroth-order training, the train/freeze oscillation, the resolution of a start
  configuration against the defaults of the server, and the engine behind its interface.
  The engine package is a parameter: \<open>'e\<close> is the state of one engine, and every operation
  may fail with a message. Floating point values are a type \<open>'f\<close>.
\<close>

section \<open>Sessions\<close>

datatype mass_state = Idle | PostPerturbUp | AwaitingPerturbDown | PostPerturbDown | AwaitingOptimize

record mass_session =
  se_state :: mass_state
  se_running :: bool
  se_frozen :: bool
  se_optimize_steps :: u32

definition session_new :: "bool \<Rightarrow> mass_session" where
  "session_new frozen = \<lparr>se_state = Idle, se_running = True, se_frozen = frozen, se_optimize_steps = 0\<rparr>"

section \<open>Oscillation\<close>

record frozen_oscillation =
  fo_period_steps :: u32
  fo_train_steps :: u32
  fo_phase_steps :: u32
  fo_warmup_steps :: u32

text \<open>
  The arithmetic is the unchecked one of a release build, in which the addition wraps; a
  build with overflow checks panics where \<open>oscillation_overflows\<close> holds.
\<close>

definition frozen_state_for_optimize_step :: "u32 \<Rightarrow> frozen_oscillation \<Rightarrow> bool option" where
  "frozen_state_for_optimize_step optimize_steps osc =
     (if optimize_steps \<le> fo_warmup_steps osc then None
      else
        let relative_step = optimize_steps - fo_warmup_steps osc - 1;
            cycle_position = (relative_step + fo_phase_steps osc mod fo_period_steps osc) mod fo_period_steps osc;
            should_train = cycle_position < fo_train_steps osc
        in Some (\<not> should_train))"

definition oscillation_overflows :: "u32 \<Rightarrow> frozen_oscillation \<Rightarrow> bool" where
  "oscillation_overflows optimize_steps osc \<longleftrightarrow>
     fo_warmup_steps osc < optimize_steps
     \<and> unat (optimize_steps - fo_warmup_steps osc - 1) + unat (fo_phase_steps osc mod fo_period_steps osc) \<ge> 2 ^ 32"

definition apply_initial_frozen_oscillation :: "frozen_oscillation option \<Rightarrow> mass_session \<Rightarrow> mass_session" where
  "apply_initial_frozen_oscillation oscillation session =
     (case oscillation of
        None \<Rightarrow> session
      | Some osc \<Rightarrow>
          (case frozen_state_for_optimize_step 1 osc of
             None \<Rightarrow> session
           | Some frozen \<Rightarrow> session\<lparr>se_frozen := frozen\<rparr>))"

definition apply_frozen_oscillation :: "frozen_oscillation option \<Rightarrow> mass_session \<Rightarrow> mass_session" where
  "apply_frozen_oscillation oscillation session =
     (case oscillation of
        None \<Rightarrow> session
      | Some osc \<Rightarrow>
          let session' = session\<lparr>se_optimize_steps := sat_add (se_optimize_steps session) 1\<rparr> in
          (case frozen_state_for_optimize_step (se_optimize_steps session') osc of
             None \<Rightarrow> session'
           | Some frozen \<Rightarrow> session'\<lparr>se_frozen := frozen\<rparr>))"

datatype oscillation_error =
    InvalidOscillationPeriodSteps u32
  | MissingOscillationTrainSteps
  | InvalidOscillationTrainSteps u32 u32

definition resolve_model_frozen :: "bool \<Rightarrow> 'f mass_model_config option \<Rightarrow> bool" where
  "resolve_model_frozen server_frozen config =
     (case Option.bind config mc_frozen of Some frozen \<Rightarrow> frozen | None \<Rightarrow> server_frozen)"

definition unwrap_or_default :: "u32 option \<Rightarrow> u32" where
  "unwrap_or_default x = (case x of None \<Rightarrow> 0 | Some y \<Rightarrow> y)"

definition resolve_model_oscillation :: "'f mass_model_config option \<Rightarrow>
    oscillation_error + frozen_oscillation option" where
  "resolve_model_oscillation model_config =
     (case model_config of
        None \<Rightarrow> Inr None
      | Some config \<Rightarrow>
          (case mc_oscillation_period_steps config of
             None \<Rightarrow> Inr None
           | Some period_steps \<Rightarrow>
               if period_steps = 0 then Inl (InvalidOscillationPeriodSteps period_steps)
               else
                 (case mc_oscillation_train_steps config of
                    None \<Rightarrow> Inl MissingOscillationTrainSteps
                  | Some train_steps \<Rightarrow>
                      if train_steps > period_steps
                      then Inl (InvalidOscillationTrainSteps train_steps period_steps)
                      else Inr (Some \<lparr>fo_period_steps = period_steps, fo_train_steps = train_steps,
                             fo_phase_steps = unwrap_or_default (mc_oscillation_phase_steps config),
                             fo_warmup_steps = unwrap_or_default (mc_oscillation_warmup_steps config)\<rparr>))))"

section \<open>Configuration\<close>

text \<open>The configuration types of the engine package.\<close>

datatype perturbation_mode = EngineWeight | EngineLowRank u64

datatype 'f error_feedback_mode = FeedbackNone | FeedbackPersistent 'f 'f | FeedbackReplay u32 'f 'f

record 'f training_config =
  tr_lr :: 'f
  tr_epsilon :: 'f
  tr_z_loss :: 'f
  tr_lb_loss :: 'f
  tr_clip_threshold :: 'f
  tr_perturbation_mode :: perturbation_mode

datatype kv_cache_quantization = Q8_0 | F16

record 'f mass_server_defaults =
  sd_top_k :: u64
  sd_temperature :: 'f
  sd_top_p :: "'f option"
  sd_kv_cache_quant :: kv_cache_quantization
  sd_repeat_penalty :: 'f
  sd_presence_penalty :: 'f
  sd_inference_limit :: u32
  sd_training_config :: "'f training_config"
  sd_training_error_feedback :: "'f mass_error_feedback_config"

fun to_engine_error_feedback :: "'f mass_error_feedback_config \<Rightarrow> 'f error_feedback_mode" where
  "to_engine_error_feedback EFOff = FeedbackNone"
| "to_engine_error_feedback (EFPersistent decay gain) = FeedbackPersistent decay gain"
| "to_engine_error_feedback (EFReplay steps decay gain) = FeedbackReplay steps decay gain"

fun to_engine_perturbation_mode :: "mass_perturbation_mode \<Rightarrow> perturbation_mode" where
  "to_engine_perturbation_mode PWeight = EngineWeight"
| "to_engine_perturbation_mode (PLowRank rank) = EngineLowRank rank"

fun to_mass_perturbation_mode :: "perturbation_mode \<Rightarrow> mass_perturbation_mode" where
  "to_mass_perturbation_mode EngineWeight = PWeight"
| "to_mass_perturbation_mode (EngineLowRank rank) = PLowRank rank"

text \<open>\<open>if let Some(v) = override { resolved.field = v }\<close>\<close>

definition override :: "'a option \<Rightarrow> 'a \<Rightarrow> 'a" where
  "override new old = (case new of Some v \<Rightarrow> v | None \<Rightarrow> old)"

definition override_training :: "'f training_config \<Rightarrow> 'f mass_model_config \<Rightarrow> 'f training_config" where
  "override_training t c =
     \<lparr>tr_lr = override (mc_training_lr c) (tr_lr t),
      tr_epsilon = override (mc_training_epsilon c) (tr_epsilon t),
      tr_z_loss = override (mc_training_z_loss c) (tr_z_loss t),
      tr_lb_loss = override (mc_training_lb_loss c) (tr_lb_loss t),
      tr_clip_threshold = override (mc_training_clip_threshold c) (tr_clip_threshold t),
      tr_perturbation_mode = override
        (map_option to_engine_perturbation_mode (mc_training_perturbation_mode c)) (tr_perturbation_mode t)\<rparr>"

definition with_overrides :: "'f mass_server_defaults \<Rightarrow> 'f mass_model_config option \<Rightarrow>
    'f mass_server_defaults" where
  "with_overrides d config =
     (case config of
        None \<Rightarrow> d
      | Some c \<Rightarrow>
          \<lparr>sd_top_k = override (mc_top_k c) (sd_top_k d),
           sd_temperature = override (mc_temperature c) (sd_temperature d),
           sd_top_p = (case mc_top_p c of Some p \<Rightarrow> Some p | None \<Rightarrow> sd_top_p d),
           sd_kv_cache_quant = sd_kv_cache_quant d,
           sd_repeat_penalty = override (mc_repeat_penalty c) (sd_repeat_penalty d),
           sd_presence_penalty = override (mc_presence_penalty c) (sd_presence_penalty d),
           sd_inference_limit = override (mc_inference_limit c) (sd_inference_limit d),
           sd_training_config = override_training (sd_training_config d) c,
           sd_training_error_feedback = override (mc_training_error_feedback c) (sd_training_error_feedback d)\<rparr>)"

record 'f model_runtime_config =
  rc_inference_limit :: u32
  rc_top_k :: u64
  rc_temperature :: 'f
  rc_top_p :: "'f option"
  rc_repeat_penalty :: 'f
  rc_presence_penalty :: 'f
  rc_training_lr :: 'f
  rc_training_epsilon :: 'f
  rc_training_z_loss :: 'f
  rc_training_lb_loss :: 'f
  rc_training_clip_threshold :: 'f
  rc_training_perturbation_mode :: mass_perturbation_mode
  rc_training_error_feedback :: "'f mass_error_feedback_config"

definition runtime_config_of :: "'f mass_server_defaults \<Rightarrow> 'f model_runtime_config" where
  "runtime_config_of d =
     \<lparr>rc_inference_limit = sd_inference_limit d, rc_top_k = sd_top_k d,
      rc_temperature = sd_temperature d, rc_top_p = sd_top_p d,
      rc_repeat_penalty = sd_repeat_penalty d, rc_presence_penalty = sd_presence_penalty d,
      rc_training_lr = tr_lr (sd_training_config d), rc_training_epsilon = tr_epsilon (sd_training_config d),
      rc_training_z_loss = tr_z_loss (sd_training_config d),
      rc_training_lb_loss = tr_lb_loss (sd_training_config d),
      rc_training_clip_threshold = tr_clip_threshold (sd_training_config d),
      rc_training_perturbation_mode =
        to_mass_perturbation_mode (tr_perturbation_mode (sd_training_config d)),
      rc_training_error_feedback = sd_training_error_feedback d\<rparr>"

definition build_model_params :: "'f model_runtime_config \<Rightarrow> frozen_oscillation option \<Rightarrow> mass_session \<Rightarrow>
    'f mass_model_params" where
  "build_model_params rc oscillation session =
     \<lparr>mp_inference_limit = rc_inference_limit rc, mp_top_k = rc_top_k rc,
      mp_temperature = rc_temperature rc, mp_top_p = rc_top_p rc,
      mp_repeat_penalty = rc_repeat_penalty rc, mp_presence_penalty = rc_presence_penalty rc,
      mp_training_lr = rc_training_lr rc, mp_training_epsilon = rc_training_epsilon rc,
      mp_training_z_loss = rc_training_z_loss rc, mp_training_lb_loss = rc_training_lb_loss rc,
      mp_training_clip_threshold = rc_training_clip_threshold rc,
      mp_training_perturbation_mode = rc_training_perturbation_mode rc,
      mp_training_error_feedback = rc_training_error_feedback rc,
      mp_is_frozen = se_frozen session, mp_optimize_steps = se_optimize_steps session,
      mp_oscillation_period_steps = map_option fo_period_steps oscillation,
      mp_oscillation_train_steps = map_option fo_train_steps oscillation,
      mp_oscillation_phase_steps = map_option fo_phase_steps oscillation,
      mp_oscillation_warmup_steps = map_option fo_warmup_steps oscillation\<rparr>"

section \<open>The engine\<close>

text \<open>
  \<open>en_build\<close> sees the model path, what the file system has there, the tokenizer and the
  defaults. \<open>en_predict\<close> opens the channel of a batch: the messages it delivers until it closes.
\<close>

record ('e, 'f) engine_ops =
  en_build :: "string \<Rightarrow> bytes option \<Rightarrow> string option \<Rightarrow> 'f mass_server_defaults \<Rightarrow> string + 'e"
  en_set_error_feedback :: "'f error_feedback_mode \<Rightarrow> 'e \<Rightarrow> (string + unit) \<times> 'e"
  en_reset_state :: "'e \<Rightarrow> (string + unit) \<times> 'e"
  en_perturb_up :: "u64 option \<Rightarrow> 'e \<Rightarrow> (string + unit) \<times> 'e"
  en_perturb_down :: "'e \<Rightarrow> (string + unit) \<times> 'e"
  en_update :: "'f \<Rightarrow> 'f \<Rightarrow> 'e \<Rightarrow> (string + unit) \<times> 'e"
  en_save_checkpoint :: "'e \<Rightarrow> (string + string \<times> bytes) \<times> 'e"
  en_unload_model :: "'e \<Rightarrow> (string + unit) \<times> 'e"
  en_predict :: "model_input list list \<Rightarrow> 'e \<Rightarrow> (string + (string + predicted list) list) \<times> 'e"

record ('e, 'f) mass_instance =
  mi_engine :: 'e
  mi_runtime_config :: "'f model_runtime_config"
  mi_oscillation :: "frozen_oscillation option"
  mi_checkpoint_path :: "string option"
  mi_session :: mass_session

datatype ('e, 'f) model_slot = Starting | Running "('e, 'f) mass_instance" | ShuttingDown

section \<open>The steps of a session\<close>

text \<open>
  What the handlers do with the session and the engine while they hold the lock of the
  session. A step that fails leaves the session as it was.
\<close>

datatype step_error =
    SNotRunning
  | SInvalidState mass_state
  | SModel string

definition set_state :: "mass_state \<Rightarrow> ('e, 'f) mass_instance \<Rightarrow> ('e, 'f) mass_instance" where
  "set_state s inst = inst\<lparr>mi_session := (mi_session inst)\<lparr>se_state := s\<rparr>\<rparr>"

text \<open>A call of the engine that is skipped when the session is frozen.\<close>

definition unless_frozen :: "('e \<Rightarrow> (string + unit) \<times> 'e) \<Rightarrow> ('e, 'f) mass_instance \<Rightarrow>
    (string + unit) \<times> ('e, 'f) mass_instance" where
  "unless_frozen call inst =
     (if se_frozen (mi_session inst) then (Inr (), inst)
      else let (r, e) = call (mi_engine inst) in (r, inst\<lparr>mi_engine := e\<rparr>))"

definition perturb_up_step :: "('e, 'f) engine_ops \<Rightarrow> u64 \<Rightarrow> ('e, 'f) mass_instance \<Rightarrow>
    (step_error + unit) \<times> ('e, 'f) mass_instance" where
  "perturb_up_step E seed inst =
     (if \<not> se_running (mi_session inst) then (Inl SNotRunning, inst)
      else if se_state (mi_session inst) \<noteq> Idle then (Inl (SInvalidState (se_state (mi_session inst))), inst)
      else
        let (r, inst1) = unless_frozen (en_perturb_up E (Some seed)) inst in
        (case r of
           Inl m \<Rightarrow> (Inl (SModel m), inst1)
         | Inr _ \<Rightarrow> (Inr (), set_state PostPerturbUp inst1)))"

definition perturb_down_step :: "('e, 'f) engine_ops \<Rightarrow> ('e, 'f) mass_instance \<Rightarrow>
    (step_error + unit) \<times> ('e, 'f) mass_instance" where
  "perturb_down_step E inst =
     (if \<not> se_running (mi_session inst) then (Inl SNotRunning, inst)
      else if se_state (mi_session inst) \<noteq> AwaitingPerturbDown
      then (Inl (SInvalidState (se_state (mi_session inst))), inst)
      else
        let (r, inst1) = unless_frozen (en_perturb_down E) inst in
        (case r of
           Inl m \<Rightarrow> (Inl (SModel m), inst1)
         | Inr _ \<Rightarrow> (Inr (), set_state PostPerturbDown inst1)))"

text \<open>The advance of the state after an inference that succeeded.\<close>

fun after_inference :: "mass_state \<Rightarrow> mass_state" where
  "after_inference PostPerturbUp = AwaitingPerturbDown"
| "after_inference AwaitingPerturbDown = AwaitingPerturbDown"
| "after_inference Idle = AwaitingOptimize"
| "after_inference PostPerturbDown = AwaitingOptimize"
| "after_inference AwaitingOptimize = AwaitingOptimize"

text \<open>
  The message of a failed update. When error feedback is on, it names the data type that the
  engine's message complains about: the first word after a fixed fragment, less punctuation.
\<close>

definition RESIDUAL_UPDATE_UNSUPPORTED_FRAGMENT :: string where
  "RESIDUAL_UPDATE_UNSUPPORTED_FRAGMENT = ''restore_and_update_with_residual not supported for ''"

fun split_once :: "string \<Rightarrow> string \<Rightarrow> (string \<times> string) option" where
  "split_once pat [] = (if pat = [] then Some ([], []) else None)"
| "split_once pat (c # cs) =
     (if take (length pat) (c # cs) = pat then Some ([], drop (length pat) (c # cs))
      else map_option (\<lambda>(a, b). (c # a, b)) (split_once pat cs))"

definition is_whitespace :: "char \<Rightarrow> bool" where
  "is_whitespace c \<longleftrightarrow> of_char c \<in> {9, 10, 11, 12, 13, 32, 133, 160 :: nat}"

text \<open>\<open>split_whitespace().next()\<close>\<close>

definition first_word :: "string \<Rightarrow> string option" where
  "first_word s =
     (let w = takeWhile (\<lambda>c. \<not> is_whitespace c) (dropWhile is_whitespace s)
      in if w = [] then None else Some w)"

definition trim_end_punctuation :: "string \<Rightarrow> string" where
  "trim_end_punctuation s = rev (dropWhile (\<lambda>c. c \<in> set ''.,;:'') (rev s))"

definition unsupported_residual_update_dtype :: "string \<Rightarrow> string option" where
  "unsupported_residual_update_dtype message =
     Option.bind (split_once RESIDUAL_UPDATE_UNSUPPORTED_FRAGMENT message) (\<lambda>(_, suffix).
     Option.bind (first_word suffix) (\<lambda>token.
       let dtype = trim_end_punctuation token in if dtype = [] then None else Some dtype))"

definition error_feedback_mode_name :: "'f mass_error_feedback_config \<Rightarrow> string option" where
  "error_feedback_mode_name config =
     (case config of
        EFOff \<Rightarrow> None
      | EFPersistent _ _ \<Rightarrow> Some ''persistent''
      | EFReplay _ _ _ \<Rightarrow> Some ''replay'')"

definition error_feedback_support_hint :: "'f mass_error_feedback_config \<Rightarrow> string option \<Rightarrow> string option" where
  "error_feedback_support_hint config unsupported_dtype =
     (case error_feedback_mode_name config of
        None \<Rightarrow> None
      | Some mode \<Rightarrow>
          let dtype = (case unsupported_dtype of Some d \<Rightarrow> d | None \<Rightarrow> ''this'') in
          Some (''paramecia does not support '' @ mode @ '' error-feedback updates for '' @ dtype
             @ '' weights. Set training_error_feedback=Off or use a quantized checkpoint.''))"

definition optimization_model_error :: "string \<Rightarrow> string option \<Rightarrow> string" where
  "optimization_model_error message hint =
     ''optimization failed: '' @ message @ (case hint of None \<Rightarrow> [] | Some h \<Rightarrow> ''. '' @ h)"

definition optimize_step :: "('e, 'f) engine_ops \<Rightarrow> 'f \<Rightarrow> 'f \<Rightarrow>
    ('e, 'f) mass_instance \<Rightarrow> (step_error + unit) \<times> ('e, 'f) mass_instance" where
  "optimize_step E loss_up loss_down inst =
     (if \<not> se_running (mi_session inst) then (Inl SNotRunning, inst)
      else if se_state (mi_session inst) \<noteq> AwaitingOptimize
      then (Inl (SInvalidState (se_state (mi_session inst))), inst)
      else
        let (r, e) = en_reset_state E (mi_engine inst); inst1 = inst\<lparr>mi_engine := e\<rparr> in
        (case r of
           Inl m \<Rightarrow> (Inl (SModel m), inst1)
         | Inr _ \<Rightarrow>
             let (u, inst2) = unless_frozen (en_update E loss_up loss_down) inst1 in
             (case u of
                Inl m \<Rightarrow>
                  (Inl (SModel (optimization_model_error m (error_feedback_support_hint
                      (rc_training_error_feedback (mi_runtime_config inst2))
                      (unsupported_residual_update_dtype m)))), inst2)
              | Inr _ \<Rightarrow>
                  let inst3 = set_state Idle inst2 in
                  (Inr (), inst3\<lparr>mi_session := apply_frozen_oscillation (mi_oscillation inst3) (mi_session inst3)\<rparr>))))"

definition reset_step :: "('e, 'f) engine_ops \<Rightarrow> ('e, 'f) mass_instance \<Rightarrow>
    (step_error + unit) \<times> ('e, 'f) mass_instance" where
  "reset_step E inst =
     (if \<not> se_running (mi_session inst) then (Inl SNotRunning, inst)
      else
        let (r, e) = en_reset_state E (mi_engine inst) in
        (case r of Inl m \<Rightarrow> Inl (SModel m) | Inr _ \<Rightarrow> Inr (), inst\<lparr>mi_engine := e\<rparr>))"

end
