(* ===== verification/Mass_Types.thy ===== *)
theory Mass_Types
  imports Mass_Session Tensor_Codec
begin

text \<open>
  The wire protocol, the errors and the state of a Mass server (\<open>_black_hole_mass/src/lib.rs\<close>,
  \<open>_black_hole_type/src/lib.rs\<close>), and the interfaces it is built on: the Void client, an
  injected operation, the network of tunnels and the packages. A failure that crosses the wire
  carries the error value itself instead of its text. \<open>'v\<close>, \<open>'p\<close> and \<open>'w\<close> are the states behind
  the Void client, the injected operation and the tunnels.
\<close>

section \<open>Errors\<close>

datatype operation_error =
    OperationNotConfigured
  | UnsupportedOperationProtocolVersion u16
  | OperationContractMismatch
  | OperationContractHashMismatch
  | OperationBackwardContractMissing
  | OperationBackwardContractMismatch
  | OperationCodecSetEmpty
  | OperationPayloadInvalid codec_error
  | OperationOutputRagged
  | OperationConfigInvalid
  | OperationCapabilityUnavailable string
  | OperationError string
  | NoCompatibleOperation contract_id u32

datatype placement_error =
    NoTunnelCapacity
  | NoCompatibleTunnelCapacity mass_architecture
  | NoLocalCapacity nat
  | ArchitectureMismatch mass_architecture "mass_architecture option"

datatype mass_error =
    ModelInstanceAlreadyRunning uuid
  | ModelInstanceNotRunning uuid
  | InvalidMassState mass_state
  | ModelError string
  | OscillationError oscillation_error
  | VoidNotConfigured
  | TunnelWorkerVoidNotConfigured string
  | VoidError string
  | DecodeFrame
  | EncodeFrame
  | CheckpointEmpty object_id
  | CheckpointTokenizerMissing
  | CreateCheckpointDir
  | FileError string
  | MOperation operation_error
  | MPlacement placement_error
  | TunnelConnect string
  | TunnelRegistrationRejected mass_error
  | TunnelRegistrationDeadlineExceeded nat mass_error
  | TunnelCapacityUpdateRejected mass_error
  | TunnelWorkerRejectsModelRequests
  | TunnelUnauthorizedForward
  | TunnelForwardUnsupportedOnRoot
  | TunnelWorkerUnavailable uuid
  | TunnelWorkerError mass_error
  | UnexpectedTunnelResponse string
  | MassPanic
    \<comment> \<open>the handler panics, and its caller gets no response\<close>
  | StillRegistering nat
    \<comment> \<open>the registration loop has not ended after that many attempts\<close>

section \<open>Requests and responses\<close>

datatype mass_model_capacity =
  MassModelCapacity (cap_total: "u64 option") (cap_available: "u64 option") (cap_occupied: nat)
    (cap_per_architecture: "(mass_architecture \<times> mass_model_capacity) list")

datatype 'f tunnel_request =
    TStartInstance u16 uuid operation_capability "operation_config option"
  | TInvoke u16 uuid operation_artifact_ref
  | TBackwardInstance u16 uuid operation_artifact_ref
  | TStepInstance uuid
  | TResetInstance uuid
  | TPerturbUpInstance uuid u64
  | TPerturbDownInstance uuid
  | TCheckpointInstance uuid
  | TOptimizeInstance uuid 'f 'f
  | TFuseInstance uuid object_id 'f
  | TShutdownInstance uuid
  | TQueryInstance uuid

datatype 'f mass_in =
    IStartInstance u16 uuid operation_capability "operation_config option"
  | IInvoke u16 uuid operation_artifact_ref
  | IBackwardInstance u16 uuid operation_artifact_ref
  | IStepInstance uuid
  | IResetInstance uuid
  | IPerturbUpInstance uuid u64
  | IPerturbDownInstance uuid
  | ICheckpointInstance uuid
  | IOptimizeInstance uuid 'f 'f
  | IFuseInstance uuid object_id 'f
  | IShutdownInstance uuid
  | IQueryInstance uuid
  | IQueryInstanceCapacity
  | IRegisterTunnel uuid "u64 option" worker_capabilities
  | IUpdateTunnelCapacity uuid "u64 option"
  | ITunnelForward uuid "'f tunnel_request"

datatype mass_out =
    OAck
  | OInvoked operation_artifact_ref
  | OCheckpointed object_id
  | OInstance operation_config
  | OInstanceCapacity mass_model_capacity
  | OTunnelRegistered uuid
  | OFused object_id
  | OError mass_error

section \<open>The interfaces the server is built on\<close>

record 'v void_client =
  vc_download :: "object_id \<Rightarrow> 'v \<Rightarrow> (string + bytes) \<times> 'v"
  vc_upload :: "bytes \<Rightarrow> 'v \<Rightarrow> (string + object_id) \<times> 'v"
  vc_download_artifact :: "operation_artifact_ref \<Rightarrow> 'v \<Rightarrow> (string + bytes) \<times> 'v"
  vc_publish_artifact :: "contract_descriptor \<Rightarrow> contract_side \<Rightarrow> bytes \<Rightarrow> 'v \<Rightarrow>
    (string + operation_artifact_ref) \<times> 'v"
  vc_upload_file :: "bytes \<Rightarrow> 'v \<Rightarrow> (string + object_id) \<times> 'v"
  vc_download_to_file :: "object_id \<Rightarrow> 'v \<Rightarrow> (string + unit) \<times> bytes option \<times> 'v"
    \<comment> \<open>with the file it leaves behind, which exists as soon as it could be created\<close>

record ('p, 'f) operation_ops =
  op_capability :: operation_capability
  op_start :: "uuid \<Rightarrow> operation_config option \<Rightarrow> 'p \<Rightarrow> (string + unit) \<times> 'p"
  op_forward :: "uuid \<Rightarrow> bytes \<Rightarrow> 'p \<Rightarrow> (string + bytes) \<times> 'p"
  op_backward :: "uuid \<Rightarrow> bytes \<Rightarrow> 'p \<Rightarrow> (string + bytes) \<times> 'p"
  op_step :: "uuid \<Rightarrow> 'p \<Rightarrow> (string + unit) \<times> 'p"
  op_reset :: "uuid \<Rightarrow> 'p \<Rightarrow> (string + unit) \<times> 'p"
  op_perturb_up :: "uuid \<Rightarrow> u64 \<Rightarrow> 'p \<Rightarrow> (string + unit) \<times> 'p"
  op_perturb_down :: "uuid \<Rightarrow> 'p \<Rightarrow> (string + unit) \<times> 'p"
  op_optimize :: "uuid \<Rightarrow> 'f \<Rightarrow> 'f \<Rightarrow> 'p \<Rightarrow> (string + unit) \<times> 'p"
  op_checkpoint :: "uuid \<Rightarrow> 'p \<Rightarrow> (string + bytes) \<times> 'p"
  op_fuse :: "uuid \<Rightarrow> bytes \<Rightarrow> 'f \<Rightarrow> 'p \<Rightarrow> (string + bytes) \<times> 'p"
  op_query :: "uuid \<Rightarrow> 'p \<Rightarrow> (string + operation_config) \<times> 'p"
  op_shutdown :: "uuid \<Rightarrow> 'p \<Rightarrow> (string + unit) \<times> 'p"

text \<open>
  \<open>nt_request\<close> sends a request over a connection and awaits the response; a failure of the
  transport is a message. \<open>nt_connect\<close> opens a connection to the parent.
\<close>

record ('w, 'f) tunnel_net =
  nt_request :: "nat \<Rightarrow> 'f mass_in \<Rightarrow> 'w \<Rightarrow> (string + mass_out) \<times> 'w"
  nt_connect :: "'w \<Rightarrow> (string + nat) \<times> 'w"

text \<open>The formats of stored requests, outputs and parameters, and the fusion of weight files.\<close>

record 'f mass_codecs =
  mk_decode_config :: "bytes \<Rightarrow> 'f mass_model_config option"
  mk_encode_params :: "'f mass_model_params \<Rightarrow> bytes option"
  mk_encode_request :: "inference_request \<Rightarrow> bytes option"
  mk_decode_request :: "bytes \<Rightarrow> inference_request option"
  mk_encode_output :: "inference_output \<Rightarrow> bytes option"
  mk_decode_output :: "bytes \<Rightarrow> inference_output option"
  mk_fuse_models :: "bytes option \<Rightarrow> bytes option \<Rightarrow> 'f \<Rightarrow> string + bytes"
  mk_uuid_text :: "uuid \<Rightarrow> string"

section \<open>The state of a server\<close>

datatype route_target = RouteLocal | RouteWorker uuid

record tunnel_worker =
  tw_token :: uuid
  tw_worker_id :: uuid
  tw_max_instances :: "u64 option"
  tw_capabilities :: worker_capabilities

datatype implementation_kind = ImplQwen | ImplInjected

record hosted_entry =
  hi_capability :: operation_capability
  hi_implementation :: implementation_kind

record worker_mode_state =
  wm_worker_id :: uuid
  wm_tunnel_token :: uuid
  wm_parent :: "nat option"
  wm_connect_deadline :: "nat option"
  wm_capabilities :: worker_capabilities

datatype mass_mode = ModeRoot | ModeWorker worker_mode_state

text \<open>What is fixed when the server starts.\<close>

record ('e, 'f, 'j) mass_config =
  mf_compiled_architecture :: "mass_architecture option"
  mf_qwen :: bool
    \<comment> \<open>the cargo feature\<close>
  mf_tensors :: "(qwen_metadata, 'j) tensor_env"
  mf_codecs :: "'f mass_codecs"
  mf_engine :: "('e, 'f) engine_ops"
  mf_model_path :: string
  mf_defaults :: "'f mass_server_defaults"
  mf_frozen :: bool
  mf_max_instances :: "u64 option"
  mf_tokenizer_path :: "string option"
  mf_checkpoint_dir :: "string option"

record ('p, 'v, 'w, 'f) mass_services =
  mv_operation :: "('p, 'f) operation_ops option"
  mv_void :: "'v void_client option"
  mv_net :: "('w, 'f) tunnel_net"

record ('e, 'f, 'p, 'v, 'w) mass_context =
  mx_mode :: mass_mode
  mx_routes :: "(uuid \<times> route_target) list"
  mx_workers :: "(uuid \<times> tunnel_worker) list"
  mx_connections :: "uuid \<rightharpoonup> nat"
  mx_instances :: "(uuid \<times> hosted_entry) list"
  mx_qwen :: "uuid \<rightharpoonup> ('e, 'f) model_slot"
  mx_requirements :: "uuid \<rightharpoonup> mass_architecture option"
  mx_files :: "string \<rightharpoonup> bytes"
  mx_operation :: 'p
  mx_void :: 'v
  mx_net :: 'w

type_synonym ('a, 's) mass_result = "(mass_error + 'a) \<times> 's"

text \<open>\<open>?\<close> between steps that change the state: an error ends the handler in the state reached so far.\<close>

definition chain :: "('x + 'a) \<times> 's \<Rightarrow> ('a \<Rightarrow> 's \<Rightarrow> ('x + 'b) \<times> 's) \<Rightarrow> ('x + 'b) \<times> 's" where
  "chain m f = (case m of (Inl e, s) \<Rightarrow> (Inl e, s) | (Inr x, s) \<Rightarrow> f x s)"

lemma chain_simps [simp]: "chain (Inl e, s) f = (Inl e, s)" "chain (Inr x, s) f = f x s"
  by (simp_all add: chain_def)

lemma chain_Inr_iff [result_simps]:
  "chain m f = (Inr y, s') \<longleftrightarrow> (\<exists>x s. m = (Inr x, s) \<and> f x s = (Inr y, s'))"
  by (auto simp: chain_def split: prod.splits sum.splits)

definition map_error :: "('x \<Rightarrow> 'y) \<Rightarrow> 'x + 'a \<Rightarrow> 'y + 'a" where
  "map_error f r = (case r of Inl e \<Rightarrow> Inl (f e) | Inr x \<Rightarrow> Inr x)"

lemma map_error_simps [simp]: "map_error f (Inl e) = Inl (f e)" "map_error f (Inr x) = Inr x"
  by (simp_all add: map_error_def)

lemma map_error_Inr_iff [result_simps]: "map_error f r = Inr x \<longleftrightarrow> r = Inr x"
  by (cases r) auto

text \<open>Calls of the services.\<close>

definition void_call :: "('v \<Rightarrow> (string + 'a) \<times> 'v) \<Rightarrow> ('e, 'f, 'p, 'v, 'w) mass_context \<Rightarrow>
    ('a, ('e, 'f, 'p, 'v, 'w) mass_context) mass_result" where
  "void_call f ctx = (let (r, v) = f (mx_void ctx) in (map_error VoidError r, ctx\<lparr>mx_void := v\<rparr>))"

definition operation_call :: "('p \<Rightarrow> (string + 'a) \<times> 'p) \<Rightarrow> ('e, 'f, 'p, 'v, 'w) mass_context \<Rightarrow>
    ('a, ('e, 'f, 'p, 'v, 'w) mass_context) mass_result" where
  "operation_call f ctx =
     (let (r, p) = f (mx_operation ctx)
      in (map_error (MOperation \<circ> OperationError) r, ctx\<lparr>mx_operation := p\<rparr>))"

definition void_not_configured_error :: "('e, 'f, 'p, 'v, 'w) mass_context \<Rightarrow> string \<Rightarrow> mass_error" where
  "void_not_configured_error ctx operation =
     (case mx_mode ctx of
        ModeRoot \<Rightarrow> VoidNotConfigured
      | ModeWorker _ \<Rightarrow> TunnelWorkerVoidNotConfigured operation)"

definition require_void_client :: "('p, 'v, 'w, 'f) mass_services \<Rightarrow> ('e, 'f, 'p, 'v, 'w) mass_context \<Rightarrow>
    string \<Rightarrow> mass_error + 'v void_client" where
  "require_void_client S ctx operation = ok_or (void_not_configured_error ctx operation) (mv_void S)"

definition cleanup_checkpoint_file :: "string \<Rightarrow> ('e, 'f, 'p, 'v, 'w) mass_context \<Rightarrow>
    ('e, 'f, 'p, 'v, 'w) mass_context" where
  "cleanup_checkpoint_file path ctx = ctx\<lparr>mx_files := (mx_files ctx)(path := None)\<rparr>"

definition cleanup_optional :: "string option \<Rightarrow> ('e, 'f, 'p, 'v, 'w) mass_context \<Rightarrow>
    ('e, 'f, 'p, 'v, 'w) mass_context" where
  "cleanup_optional path ctx = (case path of None \<Rightarrow> ctx | Some p \<Rightarrow> cleanup_checkpoint_file p ctx)"

end
