(* ===== verification/Mass_Qwen.thy ===== *)
theory Mass_Qwen
  imports Mass_Types
begin

text \<open>
  The handlers of Qwen instances (\<open>_black_hole_mass/src/lib.rs\<close>): start and shutdown with the
  slots of the adapter and the temporary checkpoint files, the steps of zeroth-order
  training, inference, checkpoint, fusion, and the forward pass on tensor artifacts. A
  handler runs under the lock of its session, so that the handlers of one instance do not
  interleave; here each of them is one step.
\<close>

section \<open>Slots\<close>

definition set_slot :: "uuid \<Rightarrow> ('e, 'f) model_slot option \<Rightarrow> ('e, 'f, 'p, 'v, 'w) mass_context \<Rightarrow>
    ('e, 'f, 'p, 'v, 'w) mass_context" where
  "set_slot model_id slot ctx = ctx\<lparr>mx_qwen := (mx_qwen ctx)(model_id := slot)\<rparr>"

definition get_instance :: "uuid \<Rightarrow> ('e, 'f, 'p, 'v, 'w) mass_context \<Rightarrow> mass_error + ('e, 'f) mass_instance" where
  "get_instance model_id ctx =
     (case mx_qwen ctx model_id of
        Some (Running inst) \<Rightarrow> Inr inst
      | Some Starting \<Rightarrow> Inl (ModelInstanceNotRunning model_id)
      | Some ShuttingDown \<Rightarrow> Inl (ModelInstanceNotRunning model_id)
      | None \<Rightarrow> Inl (ModelInstanceNotRunning model_id))"

definition put_instance :: "uuid \<Rightarrow> ('e, 'f) mass_instance \<Rightarrow> ('e, 'f, 'p, 'v, 'w) mass_context \<Rightarrow>
    ('e, 'f, 'p, 'v, 'w) mass_context" where
  "put_instance model_id inst ctx = set_slot model_id (Some (Running inst)) ctx"

definition ensure_running :: "mass_session \<Rightarrow> uuid \<Rightarrow> mass_error + unit" where
  "ensure_running session model_id = ensure (se_running session) (ModelInstanceNotRunning model_id)"

fun step_error_of :: "uuid \<Rightarrow> step_error \<Rightarrow> mass_error" where
  "step_error_of model_id SNotRunning = ModelInstanceNotRunning model_id"
| "step_error_of model_id (SInvalidState s) = InvalidMassState s"
| "step_error_of model_id (SModel m) = ModelError m"

text \<open>A step on the running instance, and the response of the handler.\<close>

definition instance_step :: "uuid \<Rightarrow>
    (('e, 'f) mass_instance \<Rightarrow> (step_error + unit) \<times> ('e, 'f) mass_instance) \<Rightarrow>
    ('e, 'f, 'p, 'v, 'w) mass_context \<Rightarrow> (mass_out, ('e, 'f, 'p, 'v, 'w) mass_context) mass_result" where
  "instance_step model_id step ctx =
     (case get_instance model_id ctx of
        Inl e \<Rightarrow> (Inl e, ctx)
      | Inr inst \<Rightarrow>
          let (r, inst') = step inst; ctx' = put_instance model_id inst' ctx in
          (case r of Inl e \<Rightarrow> Inl (step_error_of model_id e) | Inr _ \<Rightarrow> Inr OAck, ctx'))"

definition handle_perturb_up :: "('e, 'f, 'j) mass_config \<Rightarrow> uuid \<Rightarrow> u64 \<Rightarrow> ('e, 'f, 'p, 'v, 'w) mass_context \<Rightarrow>
    (mass_out, ('e, 'f, 'p, 'v, 'w) mass_context) mass_result" where
  "handle_perturb_up F model_id seed ctx = instance_step model_id (perturb_up_step (mf_engine F) seed) ctx"

definition handle_perturb_down :: "('e, 'f, 'j) mass_config \<Rightarrow> uuid \<Rightarrow> ('e, 'f, 'p, 'v, 'w) mass_context \<Rightarrow>
    (mass_out, ('e, 'f, 'p, 'v, 'w) mass_context) mass_result" where
  "handle_perturb_down F model_id ctx = instance_step model_id (perturb_down_step (mf_engine F)) ctx"

definition handle_optimize :: "('e, 'f, 'j) mass_config \<Rightarrow> uuid \<Rightarrow> 'f \<Rightarrow> 'f \<Rightarrow> ('e, 'f, 'p, 'v, 'w) mass_context \<Rightarrow>
    (mass_out, ('e, 'f, 'p, 'v, 'w) mass_context) mass_result" where
  "handle_optimize F model_id loss_up loss_down ctx =
     instance_step model_id (optimize_step (mf_engine F) loss_up loss_down) ctx"

definition handle_reset :: "('e, 'f, 'j) mass_config \<Rightarrow> uuid \<Rightarrow> ('e, 'f, 'p, 'v, 'w) mass_context \<Rightarrow>
    (mass_out, ('e, 'f, 'p, 'v, 'w) mass_context) mass_result" where
  "handle_reset F model_id ctx = instance_step model_id (reset_step (mf_engine F)) ctx"

definition handle_query_model_params :: "('e, 'f, 'j) mass_config \<Rightarrow> uuid \<Rightarrow> ('e, 'f, 'p, 'v, 'w) mass_context \<Rightarrow>
    (mass_out, ('e, 'f, 'p, 'v, 'w) mass_context) mass_result" where
  "handle_query_model_params F model_id ctx =
     (and_then (get_instance model_id ctx) (\<lambda>inst.
      and_then (ensure_running (mi_session inst) model_id) (\<lambda>_.
      and_then (ok_or EncodeFrame (mk_encode_params (mf_codecs F)
        (build_model_params (mi_runtime_config inst) (mi_oscillation inst) (mi_session inst)))) (\<lambda>data.
      Inr (OInstance \<lparr>cfg_encoding = POSTCARD_V1, cfg_data = data\<rparr>)))), ctx)"

section \<open>Inference\<close>

definition engine_call :: "('e \<Rightarrow> (string + 'a) \<times> 'e) \<Rightarrow> uuid \<Rightarrow> ('e, 'f) mass_instance \<Rightarrow>
    ('e, 'f, 'p, 'v, 'w) mass_context \<Rightarrow> (('a \<times> ('e, 'f) mass_instance), ('e, 'f, 'p, 'v, 'w) mass_context) mass_result" where
  "engine_call f model_id inst ctx =
     (let (r, e) = f (mi_engine inst); inst' = inst\<lparr>mi_engine := e\<rparr>; ctx' = put_instance model_id inst' ctx in
      (case r of Inl m \<Rightarrow> Inl (ModelError m) | Inr x \<Rightarrow> Inr (x, inst'), ctx'))"

text \<open>The sequences of a request; a reference to an output makes each of its results a dark input.\<close>

definition resolve_sequences :: "('e, 'f, 'j) mass_config \<Rightarrow> 'v void_client \<Rightarrow> inference_request \<Rightarrow>
    ('e, 'f, 'p, 'v, 'w) mass_context \<Rightarrow>
    (model_input list list \<times> u32 option, ('e, 'f, 'p, 'v, 'w) mass_context) mass_result" where
  "resolve_sequences F void request ctx =
     (case request of
        RSequences raw_seqs limit \<Rightarrow> (Inr (map (map model_input_of) raw_seqs, limit), ctx)
      | RVoidId oid limit \<Rightarrow>
          chain (void_call (vc_download void oid) ctx) (\<lambda>output_bytes ctx.
          chain (ok_or DecodeFrame (mk_decode_output (mf_codecs F) output_bytes), ctx) (\<lambda>out ctx.
          (Inr (map (\<lambda>s. [dark_input (sequence_tokens s)]) (io_results out), limit), ctx))))"

definition run_batched_inference :: "('e, 'f, 'j) mass_config \<Rightarrow> uuid \<Rightarrow> ('e, 'f) mass_instance \<Rightarrow>
    model_input list list \<Rightarrow> u32 \<Rightarrow> ('e, 'f, 'p, 'v, 'w) mass_context \<Rightarrow>
    (predicted list list \<times> ('e, 'f) mass_instance, ('e, 'f, 'p, 'v, 'w) mass_context) mass_result" where
  "run_batched_inference F model_id inst sequences limit ctx =
     chain (engine_call (\<lambda>e. if limit = 0 then (Inr [], e) else en_predict (mf_engine F) sequences e)
              model_id inst ctx) (\<lambda>(msgs, inst') ctx.
       (map_error ModelError (and_then (predict_batched (length sequences) limit (Inr msgs)) (\<lambda>results.
          Inr (results, inst'))), ctx))"

text \<open>The output goes to the Void service, and only then the state of the session advances.\<close>

definition finish_inference :: "('e, 'f, 'j) mass_config \<Rightarrow> 'v void_client \<Rightarrow> uuid \<Rightarrow>
    predicted list list \<times> ('e, 'f) mass_instance \<Rightarrow>
    ('e, 'f, 'p, 'v, 'w) mass_context \<Rightarrow> (mass_out, ('e, 'f, 'p, 'v, 'w) mass_context) mass_result" where
  "finish_inference F void model_id = (\<lambda>(results, inst) ctx.
     chain (ok_or EncodeFrame (mk_encode_output (mf_codecs F) (adapter_output results)), ctx) (\<lambda>output_bytes ctx.
     chain (void_call (vc_upload void output_bytes) ctx) (\<lambda>output_id ctx.
     (Inr (OInvoked (OpCommitted output_id)),
      put_instance model_id (set_state (after_inference (se_state (mi_session inst))) inst) ctx))))"

definition handle_infer :: "('e, 'f, 'j) mass_config \<Rightarrow> ('p, 'v, 'w, 'f) mass_services \<Rightarrow> uuid \<Rightarrow> object_id \<Rightarrow>
    ('e, 'f, 'p, 'v, 'w) mass_context \<Rightarrow> (mass_out, ('e, 'f, 'p, 'v, 'w) mass_context) mass_result" where
  "handle_infer F S model_id input_id ctx =
     chain (get_instance model_id ctx, ctx) (\<lambda>inst ctx.
     chain (ensure_running (mi_session inst) model_id, ctx) (\<lambda>_ ctx.
     chain (require_void_client S ctx ''inference'', ctx) (\<lambda>void ctx.
     chain (void_call (vc_download void input_id) ctx) (\<lambda>input_bytes ctx.
     chain (ok_or DecodeFrame (mk_decode_request (mf_codecs F) input_bytes), ctx) (\<lambda>request ctx.
     chain (resolve_sequences F void request ctx) (\<lambda>(sequences, limit) ctx.
     let limit' = (case limit of Some l \<Rightarrow> l | None \<Rightarrow> rc_inference_limit (mi_runtime_config inst)) in
     chain (run_batched_inference F model_id inst sequences limit' ctx) (finish_inference F void model_id)))))))"

section \<open>The forward pass on tensor artifacts\<close>

definition handle_qwen_operation_forward :: "('e, 'f, 'j) mass_config \<Rightarrow> ('p, 'v, 'w, 'f) mass_services \<Rightarrow>
    uuid \<Rightarrow> operation_artifact_ref \<Rightarrow> ('e, 'f, 'p, 'v, 'w) mass_context \<Rightarrow>
    (mass_out, ('e, 'f, 'p, 'v, 'w) mass_context) mass_result" where
  "handle_qwen_operation_forward F S instance_id input ctx =
     chain (require_void_client S ctx ''Qwen operation forward'', ctx) (\<lambda>void ctx.
     chain (void_call (vc_download_artifact void input) ctx) (\<lambda>input_bytes ctx.
     chain (map_error (MOperation \<circ> OperationPayloadInvalid)
              (decode_descriptor (mf_tensors F) qwen_contract SideInput input_bytes), ctx) (\<lambda>decoded ctx.
     chain (ok_or MassPanic (bundle_request decoded), ctx) (\<lambda>request ctx.
     chain (ok_or EncodeFrame (mk_encode_request (mf_codecs F) request), ctx) (\<lambda>request_bytes ctx.
     chain (void_call (vc_upload void request_bytes) ctx) (\<lambda>request_id ctx.
     chain (handle_infer F S instance_id request_id ctx) (\<lambda>out ctx.
     (case out of
        OInvoked (OpCommitted output_id) \<Rightarrow>
          chain (void_call (vc_download void output_id) ctx) (\<lambda>output_bytes ctx.
          chain (ok_or DecodeFrame (mk_decode_output (mf_codecs F) output_bytes), ctx) (\<lambda>qwen_output ctx.
          chain (ok_or (MOperation OperationOutputRagged) (dense_output qwen_output), ctx) (\<lambda>tensors ctx.
          chain (map_error (MOperation \<circ> OperationPayloadInvalid)
                   (encode_descriptor (mf_tensors F) qwen_contract SideOutput tensors (QDark None)), ctx) (\<lambda>frame ctx.
          chain (void_call (vc_publish_artifact void qwen_contract SideOutput frame) ctx) (\<lambda>output ctx.
          (Inr (OInvoked output), ctx))))))
      | _ \<Rightarrow> (Inl (UnexpectedTunnelResponse ''Qwen backend forward response''), ctx)))))))))"

section \<open>Start and shutdown\<close>

record resolved_model_source =
  rs_model_path :: string
  rs_tokenizer_path :: "string option"
  rs_checkpoint_path :: "string option"

definition checkpoint_file_name :: "('e, 'f, 'j) mass_config \<Rightarrow> string \<Rightarrow> uuid \<Rightarrow> string \<Rightarrow> object_id \<Rightarrow> string" where
  "checkpoint_file_name F dir model_id infix_text checkpoint_id =
     dir @ ''/'' @ mk_uuid_text (mf_codecs F) model_id @ infix_text
       @ mk_uuid_text (mf_codecs F) checkpoint_id @ ''.gguf''"

text \<open>The download of a checkpoint to a file, with its size as the result.\<close>

definition download_checkpoint :: "'v void_client \<Rightarrow> object_id \<Rightarrow> string \<Rightarrow> ('e, 'f, 'p, 'v, 'w) mass_context \<Rightarrow>
    (nat, ('e, 'f, 'p, 'v, 'w) mass_context) mass_result" where
  "download_checkpoint void checkpoint_id path ctx =
     (let (r, written, v) = vc_download_to_file void checkpoint_id (mx_void ctx);
          ctx1 = ctx\<lparr>mx_void := v, mx_files :=
            (case written of None \<Rightarrow> mx_files ctx | Some data \<Rightarrow> (mx_files ctx)(path \<mapsto> data))\<rparr>
      in (case r of
            Inl m \<Rightarrow> (Inl (VoidError m), ctx1)
          | Inr _ \<Rightarrow> (Inr (case written of None \<Rightarrow> 0 | Some data \<Rightarrow> length data), ctx1)))"

definition resolve_model_source :: "('e, 'f, 'j) mass_config \<Rightarrow> ('p, 'v, 'w, 'f) mass_services \<Rightarrow> uuid \<Rightarrow>
    'f mass_model_config option \<Rightarrow> ('e, 'f, 'p, 'v, 'w) mass_context \<Rightarrow>
    (resolved_model_source, ('e, 'f, 'p, 'v, 'w) mass_context) mass_result" where
  "resolve_model_source F S model_id config ctx =
     (case Option.bind config mc_checkpoint_id of
        None \<Rightarrow> (Inr \<lparr>rs_model_path = mf_model_path F, rs_tokenizer_path = None, rs_checkpoint_path = None\<rparr>, ctx)
      | Some checkpoint_id \<Rightarrow>
          chain (ok_or CheckpointTokenizerMissing (mf_tokenizer_path F), ctx) (\<lambda>tokenizer_path ctx.
          chain (require_void_client S ctx ''checkpoint restore'', ctx) (\<lambda>void ctx.
          chain (ok_or CreateCheckpointDir (mf_checkpoint_dir F), ctx) (\<lambda>dir ctx.
          let checkpoint_path = checkpoint_file_name F dir model_id ''-'' checkpoint_id in
          chain (download_checkpoint void checkpoint_id checkpoint_path ctx) (\<lambda>downloaded ctx.
          if downloaded = 0
          then (Inl (CheckpointEmpty checkpoint_id), cleanup_checkpoint_file checkpoint_path ctx)
          else (Inr \<lparr>rs_model_path = checkpoint_path, rs_tokenizer_path = Some tokenizer_path,
                     rs_checkpoint_path = Some checkpoint_path\<rparr>, ctx))))))"

text \<open>The end of a start that failed after the source was resolved.\<close>

definition abandon_start :: "uuid \<Rightarrow> string option \<Rightarrow> mass_error \<Rightarrow> ('e, 'f, 'p, 'v, 'w) mass_context \<Rightarrow>
    (mass_out, ('e, 'f, 'p, 'v, 'w) mass_context) mass_result" where
  "abandon_start model_id checkpoint_path e ctx =
     (Inl e, cleanup_optional checkpoint_path (set_slot model_id None ctx))"

definition start_slot :: "('e, 'f, 'j) mass_config \<Rightarrow> ('p, 'v, 'w, 'f) mass_services \<Rightarrow> uuid \<Rightarrow>
    'f mass_model_config option \<Rightarrow> ('e, 'f, 'p, 'v, 'w) mass_context \<Rightarrow>
    (mass_out, ('e, 'f, 'p, 'v, 'w) mass_context) mass_result" where
  "start_slot F S model_id config ctx0 =
     (if mx_qwen ctx0 model_id \<noteq> None then (Inl (ModelInstanceAlreadyRunning model_id), ctx0)
      else
        (case resolve_model_source F S model_id config (set_slot model_id (Some Starting) ctx0) of
           (Inl e, ctx) \<Rightarrow> (Inl e, set_slot model_id None ctx)
         | (Inr source, ctx) \<Rightarrow>
             let defaults = with_overrides (mf_defaults F) config;
                 checkpoint_path = rs_checkpoint_path source
             in (case resolve_model_oscillation config of
                   Inl e \<Rightarrow> abandon_start model_id checkpoint_path (OscillationError e) ctx
                 | Inr oscillation \<Rightarrow>
                     (case en_build (mf_engine F) (rs_model_path source) (mx_files ctx (rs_model_path source))
                             (rs_tokenizer_path source) defaults of
                        Inl m \<Rightarrow> abandon_start model_id checkpoint_path (ModelError m) ctx
                      | Inr engine \<Rightarrow>
                          (case en_set_error_feedback (mf_engine F)
                                  (to_engine_error_feedback (sd_training_error_feedback defaults)) engine of
                             (Inl m, _) \<Rightarrow>
                               abandon_start model_id checkpoint_path
                                 (ModelError (''failed to set initial hyper parameters: '' @ m)) ctx
                           | (Inr _, engine') \<Rightarrow>
                               let session = apply_initial_frozen_oscillation oscillation
                                     (session_new (resolve_model_frozen (mf_frozen F) config))
                               in (Inr OAck,
                                   put_instance model_id
                                     \<lparr>mi_engine = engine', mi_runtime_config = runtime_config_of defaults,
                                      mi_oscillation = oscillation, mi_checkpoint_path = checkpoint_path,
                                      mi_session = session\<rparr> ctx))))))"

definition handle_start :: "('e, 'f, 'j) mass_config \<Rightarrow> ('p, 'v, 'w, 'f) mass_services \<Rightarrow> uuid \<Rightarrow>
    'f mass_model_config option \<Rightarrow> ('e, 'f, 'p, 'v, 'w) mass_context \<Rightarrow>
    (mass_out, ('e, 'f, 'p, 'v, 'w) mass_context) mass_result" where
  "handle_start F S model_id config ctx =
     (case Option.bind config mc_required_architecture of
        Some required \<Rightarrow>
          if mf_compiled_architecture F \<noteq> Some required
          then (Inl (MPlacement (ArchitectureMismatch required (mf_compiled_architecture F))), ctx)
          else start_slot F S model_id config ctx
      | None \<Rightarrow> start_slot F S model_id config ctx)"

definition handle_shutdown :: "('e, 'f, 'j) mass_config \<Rightarrow> uuid \<Rightarrow> ('e, 'f, 'p, 'v, 'w) mass_context \<Rightarrow>
    (mass_out, ('e, 'f, 'p, 'v, 'w) mass_context) mass_result" where
  "handle_shutdown F model_id ctx =
     (case get_instance model_id ctx of
        Inl e \<Rightarrow> (Inl e, ctx)
      | Inr inst \<Rightarrow>
          let ctx1 = set_slot model_id (Some ShuttingDown) ctx;
              (r, _) = en_unload_model (mf_engine F) (mi_engine inst);
              ctx2 = set_slot model_id None (cleanup_optional (mi_checkpoint_path inst) ctx1)
          in (case r of Inl m \<Rightarrow> Inl (ModelError m) | Inr _ \<Rightarrow> Inr OAck, ctx2))"

section \<open>Checkpoint and fusion\<close>

definition save_model_checkpoint :: "('e, 'f, 'j) mass_config \<Rightarrow> uuid \<Rightarrow> ('e, 'f) mass_instance \<Rightarrow>
    ('e, 'f, 'p, 'v, 'w) mass_context \<Rightarrow> (string, ('e, 'f, 'p, 'v, 'w) mass_context) mass_result" where
  "save_model_checkpoint F model_id inst ctx =
     chain (engine_call (en_save_checkpoint (mf_engine F)) model_id inst ctx) (\<lambda>((path, data), _) ctx.
       (Inr path, ctx\<lparr>mx_files := (mx_files ctx)(path \<mapsto> data)\<rparr>))"

text \<open>The upload of a file; \<open>fs::metadata\<close> fails when it is not there.\<close>

definition upload_checkpoint :: "'v void_client \<Rightarrow> string \<Rightarrow> ('e, 'f, 'p, 'v, 'w) mass_context \<Rightarrow>
    (object_id, ('e, 'f, 'p, 'v, 'w) mass_context) mass_result" where
  "upload_checkpoint void path ctx =
     (case mx_files ctx path of
        None \<Rightarrow> (Inl (FileError path), ctx)
      | Some data \<Rightarrow> void_call (vc_upload_file void data) ctx)"

definition handle_checkpoint :: "('e, 'f, 'j) mass_config \<Rightarrow> ('p, 'v, 'w, 'f) mass_services \<Rightarrow> uuid \<Rightarrow>
    ('e, 'f, 'p, 'v, 'w) mass_context \<Rightarrow> (mass_out, ('e, 'f, 'p, 'v, 'w) mass_context) mass_result" where
  "handle_checkpoint F S model_id ctx =
     chain (get_instance model_id ctx, ctx) (\<lambda>inst ctx.
     chain (ensure_running (mi_session inst) model_id, ctx) (\<lambda>_ ctx.
     chain (require_void_client S ctx ''checkpoint upload'', ctx) (\<lambda>void ctx.
     chain (save_model_checkpoint F model_id inst ctx) (\<lambda>path ctx.
     (case upload_checkpoint void path ctx of
        (Inl e, ctx) \<Rightarrow> (Inl e, cleanup_checkpoint_file path ctx)
      | (Inr checkpoint_id, ctx) \<Rightarrow> (Inr (OCheckpointed checkpoint_id), cleanup_checkpoint_file path ctx))))))"

definition fuse_with_checkpoint :: "('e, 'f, 'j) mass_config \<Rightarrow> ('p, 'v, 'w, 'f) mass_services \<Rightarrow> uuid \<Rightarrow>
    object_id \<Rightarrow> 'f \<Rightarrow> string \<Rightarrow> ('e, 'f, 'p, 'v, 'w) mass_context \<Rightarrow>
    (mass_out, ('e, 'f, 'p, 'v, 'w) mass_context) mass_result" where
  "fuse_with_checkpoint F S model_id checkpoint_id contribution base_path ctx =
     chain (require_void_client S ctx ''weight fusion'', ctx) (\<lambda>void ctx.
     chain (ok_or CreateCheckpointDir (mf_checkpoint_dir F), ctx) (\<lambda>dir ctx.
     let checkpoint_path = checkpoint_file_name F dir model_id ''-'' checkpoint_id;
         fused_path = checkpoint_file_name F dir model_id ''-fused-'' checkpoint_id
     in
     chain (download_checkpoint void checkpoint_id checkpoint_path ctx) (\<lambda>downloaded ctx.
     if downloaded = 0
     then (Inl (CheckpointEmpty checkpoint_id), cleanup_checkpoint_file checkpoint_path ctx)
     else
       (case mk_fuse_models (mf_codecs F) (mx_files ctx base_path) (mx_files ctx checkpoint_path) contribution of
          Inl m \<Rightarrow>
            (Inl (ModelError (''model fusion failed: '' @ m)),
             cleanup_checkpoint_file checkpoint_path (cleanup_checkpoint_file base_path ctx))
        | Inr fused \<Rightarrow>
            let ctx1 = ctx\<lparr>mx_files := (mx_files ctx)(fused_path \<mapsto> fused)\<rparr>;
                cleanup = cleanup_checkpoint_file fused_path \<circ> cleanup_checkpoint_file checkpoint_path
                  \<circ> cleanup_checkpoint_file base_path
            in (case upload_checkpoint void fused_path ctx1 of
                  (Inl e, ctx2) \<Rightarrow> (Inl e, cleanup ctx2)
                | (Inr fused_id, ctx2) \<Rightarrow> (Inr (OFused fused_id), cleanup ctx2))))))"

definition handle_fuse_weights :: "('e, 'f, 'j) mass_config \<Rightarrow> ('p, 'v, 'w, 'f) mass_services \<Rightarrow> uuid \<Rightarrow>
    object_id \<Rightarrow> 'f \<Rightarrow> ('e, 'f, 'p, 'v, 'w) mass_context \<Rightarrow>
    (mass_out, ('e, 'f, 'p, 'v, 'w) mass_context) mass_result" where
  "handle_fuse_weights F S model_id checkpoint_id contribution ctx =
     chain (get_instance model_id ctx, ctx) (\<lambda>inst ctx.
     chain (ensure_running (mi_session inst) model_id, ctx) (\<lambda>_ ctx.
     chain (ensure (se_state (mi_session inst) = Idle) (InvalidMassState (se_state (mi_session inst))), ctx) (\<lambda>_ ctx.
     chain (save_model_checkpoint F model_id inst ctx)
       (fuse_with_checkpoint F S model_id checkpoint_id contribution))))"

end
