(* ===== verification/Session_Proofs.thy ===== *)
theory Session_Proofs
  imports Mass_Qwen
begin

text \<open>
  The session of a model instance under any sequence of requests. The steps of the handlers
  are collected in a step relation on instances; an engine that logs its successful calls
  shows in which order the handlers perturb and update the weights.
\<close>

section \<open>The steps of an instance\<close>

inductive session_step :: "('e, 'f) engine_ops \<Rightarrow> ('e, 'f) mass_instance \<Rightarrow> ('e, 'f) mass_instance \<Rightarrow> bool"
  for E where
  step_up: "perturb_up_step E seed inst = (r, inst') \<Longrightarrow> session_step E inst inst'"
| step_down: "perturb_down_step E inst = (r, inst') \<Longrightarrow> session_step E inst inst'"
| step_optimize: "optimize_step E loss_up loss_down inst = (r, inst') \<Longrightarrow> session_step E inst inst'"
| step_reset: "reset_step E inst = (r, inst') \<Longrightarrow> session_step E inst inst'"
| step_predict: "en_predict E seqs (mi_engine inst) = (p, e) \<Longrightarrow> session_step E inst (inst\<lparr>mi_engine := e\<rparr>)"
| step_save: "en_save_checkpoint E (mi_engine inst) = (c, e) \<Longrightarrow> session_step E inst (inst\<lparr>mi_engine := e\<rparr>)"
| step_infer: "session_step E inst (set_state (after_inference (se_state (mi_session inst))) inst)"

abbreviation session_steps :: "('e, 'f) engine_ops \<Rightarrow> ('e, 'f) mass_instance \<Rightarrow> ('e, 'f) mass_instance \<Rightarrow> bool" where
  "session_steps E \<equiv> (session_step E)\<^sup>*\<^sup>*"

section \<open>An engine with a log of the calls that change the weights\<close>

datatype weight_call = CallUp | CallDown | CallUpdate

definition logged_call :: "weight_call \<Rightarrow> ('e \<Rightarrow> (string + unit) \<times> 'e) \<Rightarrow> 'e \<times> weight_call list \<Rightarrow>
    (string + unit) \<times> 'e \<times> weight_call list" where
  "logged_call c f = (\<lambda>(e, log). case f e of
     (Inl m, e') \<Rightarrow> (Inl m, e', log)
   | (Inr _, e') \<Rightarrow> (Inr (), e', log @ [c]))"

definition unlogged :: "('e \<Rightarrow> 'a \<times> 'e) \<Rightarrow> 'e \<times> weight_call list \<Rightarrow> 'a \<times> 'e \<times> weight_call list" where
  "unlogged f = (\<lambda>(e, log). let (r, e') = f e in (r, e', log))"

definition logged :: "('e, 'f) engine_ops \<Rightarrow> ('e \<times> weight_call list, 'f) engine_ops" where
  "logged E =
     \<lparr>en_build = (\<lambda>path content tok d. case en_build E path content tok d of Inl m \<Rightarrow> Inl m | Inr e \<Rightarrow> Inr (e, [])),
      en_set_error_feedback = (\<lambda>m. unlogged (en_set_error_feedback E m)),
      en_reset_state = unlogged (en_reset_state E),
      en_perturb_up = (\<lambda>seed. logged_call CallUp (en_perturb_up E seed)),
      en_perturb_down = logged_call CallDown (en_perturb_down E),
      en_update = (\<lambda>up down. logged_call CallUpdate (en_update E up down)),
      en_save_checkpoint = unlogged (en_save_checkpoint E),
      en_unload_model = unlogged (en_unload_model E),
      en_predict = (\<lambda>seqs. unlogged (en_predict E seqs))\<rparr>"

text \<open>The weights are unperturbed, perturbed upwards or perturbed downwards.\<close>

datatype weight_phase = Unperturbed | PerturbedUp | PerturbedDown

fun phase_step :: "weight_phase option \<Rightarrow> weight_call \<Rightarrow> weight_phase option" where
  "phase_step (Some Unperturbed) CallUp = Some PerturbedUp"
| "phase_step (Some PerturbedUp) CallDown = Some PerturbedDown"
| "phase_step (Some PerturbedDown) CallUpdate = Some Unperturbed"
| "phase_step (Some Unperturbed) CallUpdate = Some Unperturbed"
| "phase_step _ _ = None"

definition phase_of :: "weight_call list \<Rightarrow> weight_phase option" where
  "phase_of log = foldl phase_step (Some Unperturbed) log"

lemma phase_of_append [simp]: "phase_of [] = Some Unperturbed" "phase_of (log @ [c]) = phase_step (phase_of log) c"
  by (simp_all add: phase_of_def)

text \<open>What the state of the session says about the weights.\<close>

fun expected_phase :: "mass_state \<Rightarrow> weight_phase \<Rightarrow> bool" where
  "expected_phase Idle p = (p = Unperturbed)"
| "expected_phase PostPerturbUp p = (p = PerturbedUp)"
| "expected_phase AwaitingPerturbDown p = (p = PerturbedUp)"
| "expected_phase PostPerturbDown p = (p = PerturbedDown)"
| "expected_phase AwaitingOptimize p = (p = PerturbedDown \<or> p = Unperturbed)"

definition weights_match :: "('e \<times> weight_call list, 'f) mass_instance \<Rightarrow> bool" where
  "weights_match inst \<longleftrightarrow>
     (let phase = phase_of (snd (mi_engine inst)); session = mi_session inst in
      (se_frozen session \<longrightarrow> phase = Some Unperturbed)
      \<and> (\<not> se_frozen session \<longrightarrow> (\<exists>p. phase = Some p \<and> expected_phase (se_state session) p)))"

lemma unlogged_log: "unlogged f x = (r, y) \<Longrightarrow> snd y = snd x"
  by (auto simp: unlogged_def Let_def split: prod.splits)

lemma logged_call_log:
  "logged_call c f x = (r, y) \<Longrightarrow> (\<exists>m. r = Inl m) \<and> snd y = snd x \<or> r = Inr () \<and> snd y = snd x @ [c]"
  by (auto simp: logged_call_def split: prod.splits sum.splits)

lemma logged_engine:
  "en_perturb_up (logged E) seed x = (r, y) \<Longrightarrow> (\<exists>m. r = Inl m) \<and> snd y = snd x \<or> r = Inr () \<and> snd y = snd x @ [CallUp]"
  "en_perturb_down (logged E) x = (r, y) \<Longrightarrow> (\<exists>m. r = Inl m) \<and> snd y = snd x \<or> r = Inr () \<and> snd y = snd x @ [CallDown]"
  "en_update (logged E) up down x = (r, y) \<Longrightarrow> (\<exists>m. r = Inl m) \<and> snd y = snd x \<or> r = Inr () \<and> snd y = snd x @ [CallUpdate]"
  by (simp_all add: logged_def logged_call_log)

lemma unlogged_engine:
  "en_reset_state (logged E) x = (r', y) \<Longrightarrow> snd y = snd x"
  "en_save_checkpoint (logged E) x = (c, y) \<Longrightarrow> snd y = snd x"
  "en_predict (logged E) seqs x = (p, y) \<Longrightarrow> snd y = snd x"
  by (simp_all add: logged_def unlogged_log)

lemma unless_frozen_cases:
  assumes "unless_frozen f inst = (r, inst')"
  obtains "se_frozen (mi_session inst)" "r = Inr ()" "inst' = inst"
  | e where "\<not> se_frozen (mi_session inst)" "f (mi_engine inst) = (r, e)" "inst' = inst\<lparr>mi_engine := e\<rparr>"
  using assms by (auto simp: unless_frozen_def split: if_splits prod.splits)

lemma set_state_simps [simp]:
  "mi_engine (set_state s inst) = mi_engine inst"
  "se_state (mi_session (set_state s inst)) = s"
  "se_frozen (mi_session (set_state s inst)) = se_frozen (mi_session inst)"
  "se_running (mi_session (set_state s inst)) = se_running (mi_session inst)"
  "mi_oscillation (set_state s inst) = mi_oscillation inst"
  by (simp_all add: set_state_def)

lemma apply_frozen_oscillation_state [simp]:
  "se_state (apply_frozen_oscillation osc s) = se_state s"
  "se_running (apply_frozen_oscillation osc s) = se_running s"
  by (auto simp: apply_frozen_oscillation_def Let_def split: option.split)

lemma weights_match_log:
  "weights_match inst \<Longrightarrow> snd e = snd (mi_engine inst) \<Longrightarrow> weights_match (inst\<lparr>mi_engine := e\<rparr>)"
  by (simp add: weights_match_def Let_def)

text \<open>A step that acts under its guard, as seen from the result of the call it makes.\<close>

lemma perturb_up_step_cases:
  assumes "perturb_up_step E seed inst = (r, inst')"
  obtains "inst' = inst"
  | u inst1 where "unless_frozen (en_perturb_up E (Some seed)) inst = (u, inst1)" "se_state (mi_session inst) = Idle"
      "inst' = (case u of Inl m \<Rightarrow> inst1 | Inr _ \<Rightarrow> set_state PostPerturbUp inst1)"
  using assms by (auto simp: perturb_up_step_def split: if_splits prod.splits sum.splits)

lemma perturb_down_step_cases:
  assumes "perturb_down_step E inst = (r, inst')"
  obtains "inst' = inst"
  | u inst1 where "unless_frozen (en_perturb_down E) inst = (u, inst1)" "se_state (mi_session inst) = AwaitingPerturbDown"
      "inst' = (case u of Inl m \<Rightarrow> inst1 | Inr _ \<Rightarrow> set_state PostPerturbDown inst1)"
  using assms by (auto simp: perturb_down_step_def split: if_splits prod.splits sum.splits)

lemma optimize_step_cases:
  assumes "optimize_step E up down inst = (r, inst')"
  obtains "inst' = inst"
  | u e where "en_reset_state E (mi_engine inst) = (u, e)" "inst' = inst\<lparr>mi_engine := e\<rparr>"
  | u e v inst2 where "en_reset_state E (mi_engine inst) = (u, e)" "se_state (mi_session inst) = AwaitingOptimize"
      "unless_frozen (en_update E up down) (inst\<lparr>mi_engine := e\<rparr>) = (v, inst2)"
      "inst' = (case v of Inl m \<Rightarrow> inst2 | Inr _ \<Rightarrow>
         (set_state Idle inst2)\<lparr>mi_session :=
            apply_frozen_oscillation (mi_oscillation inst2) (mi_session (set_state Idle inst2))\<rparr>)"
proof -
  consider "inst' = inst" | "se_running (mi_session inst)" "se_state (mi_session inst) = AwaitingOptimize"
    using assms by (auto simp: optimize_step_def split: if_splits)
  then show ?thesis
  proof cases
    case 2
    obtain u e where u: "en_reset_state E (mi_engine inst) = (u, e)" by fastforce
    obtain v inst2 where v: "unless_frozen (en_update E up down) (inst\<lparr>mi_engine := e\<rparr>) = (v, inst2)" by fastforce
    from assms 2 u v show ?thesis
      by (cases u; cases v) (simp_all add: optimize_step_def Let_def that)
  qed (rule that(1))
qed

lemma weights_match_step:
  assumes "session_step (logged E) inst inst'" and m: "weights_match inst"
  shows "weights_match inst'"
  using assms(1)
proof cases
  case (step_up seed r)
  then show ?thesis
  proof (cases rule: perturb_up_step_cases)
    case (2 u inst1)
    from 2(1) show ?thesis
      by (rule unless_frozen_cases)
         (use m 2 in \<open>auto simp: weights_match_def Let_def dest!: logged_engine(1) split: sum.splits\<close>)
  qed (use m in simp)
next
  case (step_down r)
  then show ?thesis
  proof (cases rule: perturb_down_step_cases)
    case (2 u inst1)
    from 2(1) show ?thesis
      by (rule unless_frozen_cases)
         (use m 2 in \<open>auto simp: weights_match_def Let_def dest!: logged_engine(2) split: sum.splits\<close>)
  qed (use m in simp)
next
  case (step_optimize loss_up loss_down r)
  then show ?thesis
  proof (cases rule: optimize_step_cases)
    case (2 u e)
    then show ?thesis using weights_match_log [OF m unlogged_engine(1)] by simp
  next
    case (3 u e v inst2)
    have log: "snd e = snd (mi_engine inst)" using 3(1) by (rule unlogged_engine(1))
    from 3(3) show ?thesis
      by (rule unless_frozen_cases)
         (use m 3(2,4) log in \<open>auto simp: weights_match_def Let_def dest!: logged_engine(3) split: sum.splits\<close>)
  qed (use m in simp)
next
  case (step_reset r)
  then show ?thesis using m
    by (auto simp: reset_step_def weights_match_def Let_def split: if_splits prod.splits dest!: unlogged_engine(1))
next
  case step_infer
  then show ?thesis using m
    by (cases "se_state (mi_session inst)") (auto simp: weights_match_def Let_def)
qed (use m in \<open>auto intro!: weights_match_log dest: unlogged_engine\<close>)

lemma weights_match_steps:
  "session_steps (logged E) inst inst' \<Longrightarrow> weights_match inst \<Longrightarrow> weights_match inst'"
  by (induction rule: rtranclp_induct) (auto intro: weights_match_step)

text \<open>A frozen session without a schedule stays frozen and never touches the weights.\<close>

definition stays_frozen :: "('e \<times> weight_call list, 'f) mass_instance \<Rightarrow> bool" where
  "stays_frozen inst \<longleftrightarrow> se_frozen (mi_session inst) \<and> mi_oscillation inst = None \<and> snd (mi_engine inst) = []"

lemma stays_frozen_step:
  assumes "session_step (logged E) inst inst'" and "stays_frozen inst"
  shows "stays_frozen inst'"
  using assms
  by cases
     (auto simp: stays_frozen_def reset_step_def apply_frozen_oscillation_def
        split: if_splits prod.splits sum.splits dest!: unlogged_engine
        elim!: perturb_up_step_cases perturb_down_step_cases optimize_step_cases unless_frozen_cases)

lemma stays_frozen_steps:
  "session_steps (logged E) inst inst' \<Longrightarrow> stays_frozen inst \<Longrightarrow> stays_frozen inst'"
  by (induction rule: rtranclp_induct) (auto intro: stays_frozen_step)

end
