(* ===== verification/Slot_Proofs.thy ===== *)
theory Slot_Proofs
  imports Session_Proofs
begin

text \<open>
  The handlers of Qwen instances on the slots of the adapter. Every handler of a running
  instance moves that instance by steps of its session and no other slot; a start that fails
  gives its slot back.
\<close>

section \<open>Handlers move one slot by session steps\<close>

definition slot_moves :: "('e, 'f) engine_ops \<Rightarrow> uuid \<Rightarrow> (uuid \<rightharpoonup> ('e, 'f) model_slot) \<Rightarrow>
    (uuid \<rightharpoonup> ('e, 'f) model_slot) \<Rightarrow> bool" where
  "slot_moves E model_id q q' \<longleftrightarrow>
     (\<forall>j. j \<noteq> model_id \<longrightarrow> q' j = q j)
     \<and> (\<forall>inst. q model_id = Some (Running inst) \<longrightarrow>
          (\<exists>inst'. q' model_id = Some (Running inst') \<and> session_steps E inst inst'))
     \<and> ((\<forall>inst. q model_id \<noteq> Some (Running inst)) \<longrightarrow> q' model_id = q model_id)"

named_theorems slot_intros "handlers that move one slot"

lemma slot_moves_refl [simp, intro]: "slot_moves E i q q"
  by (simp add: slot_moves_def)

lemma slot_moves_trans: "slot_moves E i q q1 \<Longrightarrow> slot_moves E i q1 q2 \<Longrightarrow> slot_moves E i q q2"
  unfolding slot_moves_def by (metis (no_types, lifting) rtranclp_trans)

lemma slot_moves_step:
  "q i = Some (Running inst) \<Longrightarrow> session_steps E inst inst' \<Longrightarrow> slot_moves E i q (q(i \<mapsto> Running inst'))"
  by (simp add: slot_moves_def)

lemma slot_moves_running:
  "slot_moves E i q q' \<Longrightarrow> q i = Some (Running inst) \<Longrightarrow>
     \<exists>inst'. q' i = Some (Running inst') \<and> session_steps E inst inst'"
  by (simp add: slot_moves_def)

lemma slot_moves_other: "slot_moves E i q q' \<Longrightarrow> j \<noteq> i \<Longrightarrow> q' j = q j"
  by (simp add: slot_moves_def)

lemma chain_slot:
  assumes "slot_moves E i q (mx_qwen (snd m))"
    and "\<And>x s. m = (Inr x, s) \<Longrightarrow> slot_moves E i q (mx_qwen s) \<Longrightarrow> slot_moves E i q (mx_qwen (snd (f x s)))"
  shows "slot_moves E i q (mx_qwen (snd (chain m f)))"
  using assms by (cases m; cases "fst m") auto

text \<open>The same, while the slots are known exactly.\<close>

lemma chain_slots:
  assumes "mx_qwen (snd m) = q'" and "slot_moves E i q q'"
    and "\<And>x s. m = (Inr x, s) \<Longrightarrow> mx_qwen s = q' \<Longrightarrow> slot_moves E i q (mx_qwen (snd (f x s)))"
  shows "slot_moves E i q (mx_qwen (snd (chain m f)))"
  using assms by (cases m; cases "fst m") auto

lemma context_slots [simp]:
  "mx_qwen (snd (void_call g ctx)) = mx_qwen ctx"
  "mx_qwen (snd (operation_call h ctx)) = mx_qwen ctx"
  "mx_qwen (cleanup_checkpoint_file p ctx) = mx_qwen ctx"
  "mx_qwen (cleanup_optional po ctx) = mx_qwen ctx"
  "mx_qwen (snd (download_checkpoint v c p ctx)) = mx_qwen ctx"
  "mx_qwen (snd (upload_checkpoint v p ctx)) = mx_qwen ctx"
  "mx_qwen (put_instance i inst ctx) = (mx_qwen ctx)(i \<mapsto> Running inst)"
  "mx_qwen (set_slot i slot ctx) = (mx_qwen ctx)(i := slot)"
  by (auto simp: void_call_def operation_call_def cleanup_checkpoint_file_def cleanup_optional_def
      download_checkpoint_def upload_checkpoint_def put_instance_def set_slot_def Let_def
      split: prod.splits sum.splits option.splits)

lemma resolve_sequences_slots [simp]: "mx_qwen (snd (resolve_sequences F v req ctx)) = mx_qwen ctx"
proof (cases req)
  case (RVoidId oid l)
  obtain r s where d: "void_call (vc_download v oid) ctx = (r, s)" by fastforce
  have "mx_qwen s = mx_qwen ctx" using context_slots(1) [of "vc_download v oid" ctx] d by simp
  with RVoidId d show ?thesis
    by (cases r; cases "mk_decode_output (mf_codecs F) (projr r)") (simp_all add: resolve_sequences_def)
qed (simp add: resolve_sequences_def)

lemma get_instance_Inr: "get_instance i ctx = Inr inst \<longleftrightarrow> mx_qwen ctx i = Some (Running inst)"
  by (auto simp: get_instance_def split: option.splits model_slot.splits)

lemma instance_step_slot [slot_intros]:
  assumes "\<And>inst r inst'. step inst = (r, inst') \<Longrightarrow> session_step E inst inst'"
  shows "slot_moves E i (mx_qwen ctx) (mx_qwen (snd (instance_step i step ctx)))"
proof (cases "get_instance i ctx")
  case (Inr inst)
  obtain r inst' where step: "step inst = (r, inst')" by fastforce
  from assms [OF step] have "session_steps E inst inst'" by blast
  moreover have "mx_qwen (snd (instance_step i step ctx)) = (mx_qwen ctx)(i \<mapsto> Running inst')"
    using Inr step by (simp add: instance_step_def Let_def)
  ultimately show ?thesis using Inr by (simp add: get_instance_Inr slot_moves_step)
qed (simp add: instance_step_def)

text \<open>A call of the engine of a running instance leaves the instance with the new engine.\<close>

lemma engine_call_slots:
  assumes "engine_call f i inst ctx = (r, ctx')"
  obtains u e where "f (mi_engine inst) = (u, e)" "mx_qwen ctx' = (mx_qwen ctx)(i \<mapsto> Running (inst\<lparr>mi_engine := e\<rparr>))"
    "\<And>x inst'. r = Inr (x, inst') \<Longrightarrow> inst' = inst\<lparr>mi_engine := e\<rparr>"
proof -
  obtain u e where u: "f (mi_engine inst) = (u, e)" by fastforce
  with assms have "r = (case u of Inl m \<Rightarrow> Inl (ModelError m) | Inr x \<Rightarrow> Inr (x, inst\<lparr>mi_engine := e\<rparr>))"
    "ctx' = put_instance i (inst\<lparr>mi_engine := e\<rparr>) ctx"
    by (simp_all add: engine_call_def Let_def)
  with u show ?thesis by (intro that [OF u]) (auto split: sum.splits)
qed

lemma run_batched_slots:
  assumes "run_batched_inference F i inst seqs l ctx = (r, ctx')"
  obtains inst1 where "session_steps (mf_engine F) inst inst1" "mx_qwen ctx' = (mx_qwen ctx)(i \<mapsto> Running inst1)"
    "\<And>x inst'. r = Inr (x, inst') \<Longrightarrow> inst' = inst1"
proof -
  let ?f = "\<lambda>e. if l = 0 then (Inr [], e) else en_predict (mf_engine F) seqs e"
  obtain r1 s1 where c: "engine_call ?f i inst ctx = (r1, s1)" by fastforce
  obtain u e where u: "?f (mi_engine inst) = (u, e)" "mx_qwen s1 = (mx_qwen ctx)(i \<mapsto> Running (inst\<lparr>mi_engine := e\<rparr>))"
    "\<And>x inst'. r1 = Inr (x, inst') \<Longrightarrow> inst' = inst\<lparr>mi_engine := e\<rparr>"
    using engine_call_slots [OF c] by blast
  have "session_steps (mf_engine F) inst (inst\<lparr>mi_engine := e\<rparr>)"
    using u(1) by (cases "l = 0") (auto intro: session_step.step_predict)
  moreover have "ctx' = s1" "\<And>x inst'. r = Inr (x, inst') \<Longrightarrow> inst' = inst\<lparr>mi_engine := e\<rparr>"
    using assms c u(3) by (cases r1; auto simp: run_batched_inference_def result_simps split: prod.splits)+
  ultimately show ?thesis using u(2) that by blast
qed

text \<open>Steps after the slot of a running instance was moved.\<close>

lemma finish_inference_slot:
  assumes run: "q i = Some (Running inst)" and steps: "session_steps (mf_engine F) inst inst1"
    and q1: "mx_qwen s1 = q(i \<mapsto> Running inst1)"
  shows "slot_moves (mf_engine F) i q (mx_qwen (snd (finish_inference F void i (results, inst1) s1)))"
proof -
  note now = slot_moves_step [where q = q, OF run steps]
  have "session_steps (mf_engine F) inst (set_state (after_inference (se_state (mi_session inst1))) inst1)"
    using steps session_step.step_infer by (rule rtranclp.rtrancl_into_rtrancl)
  note infer = slot_moves_step [where q = q, OF run this]
  show ?thesis unfolding finish_inference_def prod.case
    by (intro chain_slots [OF _ now]) (simp_all add: q1 now infer)
qed

lemma handle_infer_slot [slot_intros]:
  "slot_moves (mf_engine F) i (mx_qwen ctx) (mx_qwen (snd (handle_infer F S i input ctx)))"
  unfolding handle_infer_def
proof (rule chain_slots [where q' = "mx_qwen ctx"])
  fix inst s assume "(get_instance i ctx, ctx) = (Inr inst, s)" and q: "mx_qwen s = mx_qwen ctx"
  then have run: "mx_qwen ctx i = Some (Running inst)" by (auto simp: get_instance_Inr)
  have batch: "slot_moves (mf_engine F) i (mx_qwen ctx)
      (mx_qwen (snd (chain (run_batched_inference F i inst seqs l s5) (finish_inference F void i))))"
    if q5: "mx_qwen s5 = mx_qwen ctx" for seqs l s5 void
  proof -
    obtain r s6 where c: "run_batched_inference F i inst seqs l s5 = (r, s6)" by fastforce
    obtain inst1 where i1: "session_steps (mf_engine F) inst inst1" "mx_qwen s6 = (mx_qwen ctx)(i \<mapsto> Running inst1)"
      "\<And>x inst'. r = Inr (x, inst') \<Longrightarrow> inst' = inst1"
      using run_batched_slots [OF c] q5 by metis
    show ?thesis
    proof (cases r)
      case (Inl m)
      with c i1(2) show ?thesis by (simp add: slot_moves_step [where q = "mx_qwen ctx", OF run i1(1)])
    next
      case (Inr p)
      with i1(3) have "p = (fst p, inst1)" by (cases p) simp
      with c Inr finish_inference_slot [OF run i1(1,2)] show ?thesis by (metis chain_simps(2))
    qed
  qed
  show "slot_moves (mf_engine F) i (mx_qwen ctx) (mx_qwen (snd (chain (ensure_running (mi_session inst) i, s) (\<lambda>_ ctx.
     chain (require_void_client S ctx ''inference'', ctx) (\<lambda>void ctx.
     chain (void_call (vc_download void input) ctx) (\<lambda>input_bytes ctx.
     chain (ok_or DecodeFrame (mk_decode_request (mf_codecs F) input_bytes), ctx) (\<lambda>request ctx.
     chain (resolve_sequences F void request ctx) (\<lambda>(sequences, limit) ctx.
     let limit' = (case limit of Some l \<Rightarrow> l | None \<Rightarrow> rc_inference_limit (mi_runtime_config inst)) in
     chain (run_batched_inference F i inst sequences limit' ctx) (finish_inference F void i)))))))))"
    by (intro chain_slots [where q' = "mx_qwen ctx"])
       (auto simp: q Let_def intro!: batch split: prod.split)
qed simp_all

lemma step_handlers_slot [slot_intros]:
  "slot_moves (mf_engine F) i (mx_qwen ctx) (mx_qwen (snd (handle_perturb_up F i seed ctx)))"
  "slot_moves (mf_engine F) i (mx_qwen ctx) (mx_qwen (snd (handle_perturb_down F i ctx)))"
  "slot_moves (mf_engine F) i (mx_qwen ctx) (mx_qwen (snd (handle_optimize F i up down ctx)))"
  "slot_moves (mf_engine F) i (mx_qwen ctx) (mx_qwen (snd (handle_reset F i ctx)))"
  "slot_moves (mf_engine F) i (mx_qwen ctx) (mx_qwen (snd (handle_query_model_params F i ctx)))"
  unfolding handle_perturb_up_def handle_perturb_down_def handle_optimize_def handle_reset_def
    handle_query_model_params_def
  by (rule instance_step_slot, erule session_step.intros)+ simp

lemma save_model_checkpoint_slots:
  assumes "save_model_checkpoint F i inst ctx = (r, ctx')"
  obtains inst1 where "session_steps (mf_engine F) inst inst1" "mx_qwen ctx' = (mx_qwen ctx)(i \<mapsto> Running inst1)"
proof -
  obtain r1 s1 where c: "engine_call (en_save_checkpoint (mf_engine F)) i inst ctx = (r1, s1)" by fastforce
  obtain u e where u: "en_save_checkpoint (mf_engine F) (mi_engine inst) = (u, e)"
    "mx_qwen s1 = (mx_qwen ctx)(i \<mapsto> Running (inst\<lparr>mi_engine := e\<rparr>))"
    by (rule engine_call_slots [OF c])
  have "mx_qwen ctx' = mx_qwen s1"
  proof (cases r1)
    case (Inr p)
    obtain path data inst1 where "p = ((path, data), inst1)" by (metis surj_pair)
    with assms c Inr show ?thesis by (auto simp: save_model_checkpoint_def)
  qed (use assms c in \<open>simp add: save_model_checkpoint_def\<close>)
  moreover have "session_steps (mf_engine F) inst (inst\<lparr>mi_engine := e\<rparr>)"
    using session_step.step_save [OF u(1)] by (rule r_into_rtranclp)
  ultimately show ?thesis using u(2) by (intro that) simp_all
qed

text \<open>After a checkpoint was saved, a handler only works on files and on the Void service.\<close>

lemma chain_save:
  assumes "mx_qwen ctx i = Some (Running inst)" and "mx_qwen s = mx_qwen ctx"
    and "\<And>x s'. mx_qwen (snd (g x s')) = mx_qwen s'"
  shows "slot_moves (mf_engine F) i (mx_qwen ctx) (mx_qwen (snd (chain (save_model_checkpoint F i inst s) g)))"
proof -
  obtain r s1 where c: "save_model_checkpoint F i inst s = (r, s1)" by fastforce
  obtain inst1 where "session_steps (mf_engine F) inst inst1" "mx_qwen s1 = (mx_qwen ctx)(i \<mapsto> Running inst1)"
    using save_model_checkpoint_slots [OF c] assms(2) by metis
  then show ?thesis using c assms(1,3) by (cases r) (simp_all add: slot_moves_step)
qed

lemma chain_same_slots:
  "mx_qwen (snd m) = q \<Longrightarrow> (\<And>x s. mx_qwen s = q \<Longrightarrow> mx_qwen (snd (f x s)) = q) \<Longrightarrow> mx_qwen (snd (chain m f)) = q"
  by (cases m; cases "fst m") auto

lemma upload_cleanup_slots:
  "mx_qwen (snd (case upload_checkpoint v path s of
     (Inl e, s1) \<Rightarrow> (Inl e, g s1) | (Inr x, s1) \<Rightarrow> (Inr (h x), g s1))) = mx_qwen s"
  if "\<And>t. mx_qwen (g t) = mx_qwen t"
proof -
  obtain r s1 where u: "upload_checkpoint v path s = (r, s1)" by fastforce
  then have "mx_qwen s1 = mx_qwen s" by (metis context_slots(6) snd_conv)
  with u that show ?thesis by (cases r) simp_all
qed

lemma handle_checkpoint_slot [slot_intros]:
  "slot_moves (mf_engine F) i (mx_qwen ctx) (mx_qwen (snd (handle_checkpoint F S i ctx)))"
  unfolding handle_checkpoint_def
proof (rule chain_slots [where q' = "mx_qwen ctx"])
  fix inst s assume "(get_instance i ctx, ctx) = (Inr inst, s)" and q: "mx_qwen s = mx_qwen ctx"
  then have run: "mx_qwen ctx i = Some (Running inst)" by (auto simp: get_instance_Inr)
  show "slot_moves (mf_engine F) i (mx_qwen ctx) (mx_qwen (snd (
     chain (ensure_running (mi_session inst) i, s) (\<lambda>_ ctx.
     chain (require_void_client S ctx ''checkpoint upload'', ctx) (\<lambda>void ctx.
     chain (save_model_checkpoint F i inst ctx) (\<lambda>path ctx.
     (case upload_checkpoint void path ctx of
        (Inl e, ctx) \<Rightarrow> (Inl e, cleanup_checkpoint_file path ctx)
      | (Inr checkpoint_id, ctx) \<Rightarrow> (Inr (OCheckpointed checkpoint_id), cleanup_checkpoint_file path ctx))))))))"
    by (intro chain_slots [where q' = "mx_qwen ctx"] chain_save [OF run]) (auto simp: q upload_cleanup_slots)
qed simp_all

lemma fuse_with_checkpoint_slots [simp]:
  "mx_qwen (snd (fuse_with_checkpoint F S i c contribution base s)) = mx_qwen s"
  unfolding fuse_with_checkpoint_def Let_def
  by (intro chain_same_slots) (auto simp: upload_cleanup_slots split: sum.split)

lemma handle_fuse_weights_slot [slot_intros]:
  "slot_moves (mf_engine F) i (mx_qwen ctx) (mx_qwen (snd (handle_fuse_weights F S i c contribution ctx)))"
  unfolding handle_fuse_weights_def
proof (rule chain_slots [where q' = "mx_qwen ctx"])
  fix inst s assume "(get_instance i ctx, ctx) = (Inr inst, s)" and q: "mx_qwen s = mx_qwen ctx"
  then have run: "mx_qwen ctx i = Some (Running inst)" by (auto simp: get_instance_Inr)
  show "slot_moves (mf_engine F) i (mx_qwen ctx) (mx_qwen (snd (
     chain (ensure_running (mi_session inst) i, s) (\<lambda>_ ctx.
     chain (ensure (se_state (mi_session inst) = Idle) (InvalidMassState (se_state (mi_session inst))), ctx) (\<lambda>_ ctx.
     chain (save_model_checkpoint F i inst ctx) (fuse_with_checkpoint F S i c contribution))))))"
    by (intro chain_slots [where q' = "mx_qwen ctx"] chain_save [OF run]) (auto simp: q)
qed simp_all

lemma handle_qwen_forward_slot [slot_intros]:
  "slot_moves (mf_engine F) i (mx_qwen ctx) (mx_qwen (snd (handle_qwen_operation_forward F S i input ctx)))"
proof -
  have tail: "mx_qwen (snd (case out of
        OInvoked (OpCommitted output_id) \<Rightarrow>
          chain (void_call (vc_download void output_id) s) (\<lambda>output_bytes ctx.
          chain (ok_or DecodeFrame (mk_decode_output (mf_codecs F) output_bytes), ctx) (\<lambda>qwen_output ctx.
          chain (ok_or (MOperation OperationOutputRagged) (dense_output qwen_output), ctx) (\<lambda>tensors ctx.
          chain (map_error (MOperation \<circ> OperationPayloadInvalid)
                   (encode_descriptor (mf_tensors F) qwen_contract SideOutput tensors (QDark None)), ctx) (\<lambda>frame ctx.
          chain (void_call (vc_publish_artifact void qwen_contract SideOutput frame) ctx) (\<lambda>output ctx.
          (Inr (OInvoked output), ctx))))))
      | _ \<Rightarrow> (Inl (UnexpectedTunnelResponse ''Qwen backend forward response''), s))) = mx_qwen s" for out void s
    by (auto intro!: chain_same_slots split: mass_out.split operation_artifact_ref.split)
  show ?thesis unfolding handle_qwen_operation_forward_def
    by (intro chain_slots [where q' = "mx_qwen ctx"] chain_slot) (auto simp: tail intro: handle_infer_slot slot_moves_trans)
qed

end
