(* ===== verification/Mass_Host.thy ===== *)
theory Mass_Host
  imports Mass_Qwen
begin

text \<open>
  The host of a Mass server (\<open>_black_hole_mass/src/lib.rs\<close>): registration of tunnel workers and
  the report of capacity to the parent, the selection of a target for a start, the routing of
  every operation to a local instance or to a worker, the local handlers, and the dispatch of
  requests. The lock of the start dispatch and the locks of the maps make each handler one
  step. A \<open>HashMap\<close> that is iterated over is an association list with distinct keys.
\<close>

section \<open>Capacity\<close>

definition DEFAULT_MAX_INSTANCES :: u64 where
  "DEFAULT_MAX_INSTANCES = 1"

definition resolve_max_instances :: "u64 option \<Rightarrow> u64 option" where
  "resolve_max_instances limit = Some (case limit of Some l \<Rightarrow> l | None \<Rightarrow> DEFAULT_MAX_INSTANCES)"

fun sum_capacity :: "u64 option \<Rightarrow> u64 option \<Rightarrow> u64 option" where
  "sum_capacity (Some lhs) (Some rhs) = Some (sat_add lhs rhs)"
| "sum_capacity _ _ = None"

definition advertised_capacity :: "('e, 'f, 'j) mass_config \<Rightarrow> ('e, 'f, 'p, 'v, 'w) mass_context \<Rightarrow> u64 option" where
  "advertised_capacity F ctx =
     foldl (\<lambda>acc (_, w). sum_capacity acc (tw_max_instances w)) (mf_max_instances F) (mx_workers ctx)"

definition has_capacity :: "u64 option \<Rightarrow> nat \<Rightarrow> bool" where
  "has_capacity limit current = (case limit of None \<Rightarrow> True | Some m \<Rightarrow> current < unat m)"

section \<open>The connection to the parent\<close>

definition net_request :: "('p, 'v, 'w, 'f) mass_services \<Rightarrow> nat \<Rightarrow> 'f mass_in \<Rightarrow> ('e, 'f, 'p, 'v, 'w) mass_context \<Rightarrow>
    (mass_out, ('e, 'f, 'p, 'v, 'w) mass_context) mass_result" where
  "net_request S connection request ctx =
     (let (r, w) = nt_request (mv_net S) connection request (mx_net ctx)
      in (map_error TunnelConnect r, ctx\<lparr>mx_net := w\<rparr>))"

definition update_tunnel_capacity :: "('p, 'v, 'w, 'f) mass_services \<Rightarrow> nat \<Rightarrow> uuid \<Rightarrow> u64 option \<Rightarrow>
    ('e, 'f, 'p, 'v, 'w) mass_context \<Rightarrow> (unit, ('e, 'f, 'p, 'v, 'w) mass_context) mass_result" where
  "update_tunnel_capacity S connection token max_instances ctx =
     chain (net_request S connection (IUpdateTunnelCapacity token max_instances) ctx) (\<lambda>out ctx.
       (case out of
          OAck \<Rightarrow> Inr ()
        | OError e \<Rightarrow> Inl (TunnelCapacityUpdateRejected e)
        | _ \<Rightarrow> Inl (UnexpectedTunnelResponse ''update tunnel capacity response''), ctx))"

definition register_tunnel_worker :: "('p, 'v, 'w, 'f) mass_services \<Rightarrow> uuid \<Rightarrow> u64 option \<Rightarrow> worker_capabilities \<Rightarrow>
    ('e, 'f, 'p, 'v, 'w) mass_context \<Rightarrow> (uuid \<times> nat, ('e, 'f, 'p, 'v, 'w) mass_context) mass_result" where
  "register_tunnel_worker S worker_id max_instances capabilities ctx =
     (case nt_connect (mv_net S) (mx_net ctx) of
        (Inl m, w) \<Rightarrow> (Inl (TunnelConnect m), ctx\<lparr>mx_net := w\<rparr>)
      | (Inr connection, w) \<Rightarrow>
          chain (net_request S connection (IRegisterTunnel worker_id max_instances capabilities) (ctx\<lparr>mx_net := w\<rparr>))
            (\<lambda>out ctx.
               (case out of
                  OTunnelRegistered token \<Rightarrow> Inr (token, connection)
                | OError e \<Rightarrow> Inl (TunnelRegistrationRejected e)
                | _ \<Rightarrow> Inl (UnexpectedTunnelResponse ''register tunnel response''), ctx)))"

text \<open>
  The retry loop. The list holds the elapsed time read after each failed attempt, one entry
  per attempt that is made; without a deadline the loop only ends with a registration, and a
  list that is used up is a loop that still runs.
\<close>

fun register_tunnel_worker_with_retry :: "('p, 'v, 'w, 'f) mass_services \<Rightarrow> uuid \<Rightarrow> u64 option \<Rightarrow>
    nat option \<Rightarrow> worker_capabilities \<Rightarrow> nat list \<Rightarrow> nat \<Rightarrow> ('e, 'f, 'p, 'v, 'w) mass_context \<Rightarrow>
    (uuid \<times> nat, ('e, 'f, 'p, 'v, 'w) mass_context) mass_result" where
  "register_tunnel_worker_with_retry S worker_id max_instances deadline capabilities [] attempts ctx =
     (Inl (StillRegistering attempts), ctx)"
| "register_tunnel_worker_with_retry S worker_id max_instances deadline capabilities (now # clock) attempts ctx =
     (case register_tunnel_worker S worker_id max_instances capabilities ctx of
        (Inr registered, ctx1) \<Rightarrow> (Inr registered, ctx1)
      | (Inl e, ctx1) \<Rightarrow>
          if (case deadline of Some d \<Rightarrow> d \<le> now | None \<Rightarrow> False)
          then (Inl (TunnelRegistrationDeadlineExceeded (Suc attempts) e), ctx1)
          else register_tunnel_worker_with_retry S worker_id max_instances deadline capabilities clock
                 (Suc attempts) ctx1)"

text \<open>The delay before the next attempt doubles up to a maximum.\<close>

definition DEFAULT_TUNNEL_CONNECT_RETRY_MS :: nat where "DEFAULT_TUNNEL_CONNECT_RETRY_MS = 200"
definition MAX_TUNNEL_CONNECT_RETRY_MS :: nat where "MAX_TUNNEL_CONNECT_RETRY_MS = 25600"

fun retry_delay :: "nat \<Rightarrow> nat" where
  "retry_delay 0 = DEFAULT_TUNNEL_CONNECT_RETRY_MS"
| "retry_delay (Suc n) = min (retry_delay n * 2) MAX_TUNNEL_CONNECT_RETRY_MS"

definition propagate_capacity_to_parent :: "('e, 'f, 'j) mass_config \<Rightarrow> ('p, 'v, 'w, 'f) mass_services \<Rightarrow>
    nat list \<Rightarrow> ('e, 'f, 'p, 'v, 'w) mass_context \<Rightarrow> (unit, ('e, 'f, 'p, 'v, 'w) mass_context) mass_result" where
  "propagate_capacity_to_parent F S clock ctx =
     (case mx_mode ctx of
        ModeRoot \<Rightarrow> (Inr (), ctx)
      | ModeWorker wm \<Rightarrow>
          let max_instances = advertised_capacity F ctx in
          (case wm_parent wm of
             None \<Rightarrow> (Inl (TunnelConnect ''tunnel parent session unavailable''), ctx)
           | Some connection \<Rightarrow>
               (case update_tunnel_capacity S connection (wm_tunnel_token wm) max_instances ctx of
                  (Inr _, ctx1) \<Rightarrow> (Inr (), ctx1)
                | (Inl _, ctx1) \<Rightarrow>
                    chain (register_tunnel_worker_with_retry S (wm_worker_id wm) max_instances
                             (wm_connect_deadline wm) (wm_capabilities wm) clock 0 ctx1)
                      (\<lambda>(token, session) ctx2.
                         (Inr (), ctx2\<lparr>mx_mode := ModeWorker
                            (wm\<lparr>wm_tunnel_token := token, wm_parent := Some session\<rparr>)\<rparr>)))))"

section \<open>Tunnel workers\<close>

definition handle_register_tunnel :: "('e, 'f, 'j) mass_config \<Rightarrow> ('p, 'v, 'w, 'f) mass_services \<Rightarrow> uuid \<Rightarrow> nat list \<Rightarrow>
    uuid \<Rightarrow> u64 option \<Rightarrow> worker_capabilities \<Rightarrow> nat option \<Rightarrow> ('e, 'f, 'p, 'v, 'w) mass_context \<Rightarrow>
    (mass_out, ('e, 'f, 'p, 'v, 'w) mass_context) mass_result" where
  \<comment> \<open>the third argument is the fresh token, which is only used for an unknown worker\<close>
  "handle_register_tunnel F S fresh clock worker_id max_instances capabilities connection ctx =
     (let max_instances' = resolve_max_instances max_instances;
          (token, workers) =
            (case find (\<lambda>(_, w). tw_worker_id w = worker_id) (mx_workers ctx) of
               Some (token, w) \<Rightarrow>
                 (token, AList.update token
                    (w\<lparr>tw_max_instances := max_instances', tw_capabilities := capabilities\<rparr>) (mx_workers ctx))
             | None \<Rightarrow>
                 (fresh, AList.update fresh
                    \<lparr>tw_token = fresh, tw_worker_id = worker_id, tw_max_instances = max_instances',
                     tw_capabilities = capabilities\<rparr> (mx_workers ctx)));
          ctx1 = ctx\<lparr>mx_workers := workers\<rparr>;
          ctx2 = (case connection of
                    None \<Rightarrow> ctx1
                  | Some c \<Rightarrow> ctx1\<lparr>mx_connections := (mx_connections ctx1)(token \<mapsto> c)\<rparr>)
      in chain (propagate_capacity_to_parent F S clock ctx2) (\<lambda>_ ctx3. (Inr (OTunnelRegistered token), ctx3)))"

definition handle_update_tunnel_capacity :: "('e, 'f, 'j) mass_config \<Rightarrow> ('p, 'v, 'w, 'f) mass_services \<Rightarrow> nat list \<Rightarrow>
    uuid \<Rightarrow> u64 option \<Rightarrow> ('e, 'f, 'p, 'v, 'w) mass_context \<Rightarrow>
    (mass_out, ('e, 'f, 'p, 'v, 'w) mass_context) mass_result" where
  "handle_update_tunnel_capacity F S clock token max_instances ctx =
     (case map_of (mx_workers ctx) token of
        None \<Rightarrow> (Inl (TunnelWorkerUnavailable token), ctx)
      | Some w \<Rightarrow>
          let ctx1 = ctx\<lparr>mx_workers := AList.update token
                (w\<lparr>tw_max_instances := resolve_max_instances max_instances\<rparr>) (mx_workers ctx)\<rparr>
          in chain (propagate_capacity_to_parent F S clock ctx1) (\<lambda>_ ctx2. (Inr OAck, ctx2)))"

text \<open>The connection of a worker is dropped when its session ends, if it is still that one.\<close>

definition drop_worker_tcp_session :: "uuid \<Rightarrow> nat \<Rightarrow> ('e, 'f, 'p, 'v, 'w) mass_context \<Rightarrow>
    ('e, 'f, 'p, 'v, 'w) mass_context" where
  "drop_worker_tcp_session token connection ctx =
     (if mx_connections ctx token = Some connection
      then ctx\<lparr>mx_connections := (mx_connections ctx)(token := None)\<rparr> else ctx)"

definition forward_tunnel_request :: "('p, 'v, 'w, 'f) mass_services \<Rightarrow> uuid \<Rightarrow> 'f tunnel_request \<Rightarrow>
    ('e, 'f, 'p, 'v, 'w) mass_context \<Rightarrow> (mass_out, ('e, 'f, 'p, 'v, 'w) mass_context) mass_result" where
  "forward_tunnel_request S token request ctx =
     chain (ok_or (TunnelWorkerUnavailable token) (map_of (mx_workers ctx) token), ctx) (\<lambda>_ ctx.
     chain (ok_or (TunnelWorkerUnavailable token) (mx_connections ctx token), ctx) (\<lambda>connection ctx.
     (case net_request S connection (ITunnelForward token request) ctx of
        (Inl e, ctx1) \<Rightarrow> (Inl (TunnelWorkerError e), ctx1)
      | (Inr (OError e), ctx1) \<Rightarrow> (Inl (TunnelWorkerError e), ctx1)
      | (Inr out, ctx1) \<Rightarrow> (Inr out, ctx1))))"

section \<open>Capabilities\<close>

definition architecture_satisfies :: "worker_capabilities \<Rightarrow> mass_architecture option \<Rightarrow> bool" where
  "architecture_satisfies capabilities required =
     (case required of None \<Rightarrow> True | Some r \<Rightarrow> r \<in> set (wc_architectures capabilities))"

definition validate_capability :: "('md, 'j) tensor_env \<Rightarrow> operation_capability \<Rightarrow> operation_error + unit" where
  "validate_capability E capability =
     (if oc_descriptor_hash capability \<noteq> descriptor_hash E (oc_descriptor capability)
      then Inl OperationContractHashMismatch
      else if oc_tensor_encodings capability = [] \<or> oc_metadata_encodings capability = []
      then Inl OperationCodecSetEmpty
      else if cap_backward (oc_operations capability) then
        (case oc_backward capability of
           None \<Rightarrow> Inl OperationBackwardContractMissing
         | Some b \<Rightarrow>
             if bc_descriptor_hash b \<noteq> descriptor_hash E (bc_descriptor b)
             then Inl OperationContractHashMismatch
             else if cd_id (bc_descriptor b) \<noteq> cd_id (oc_descriptor capability)
                \<or> cd_version (bc_descriptor b) \<noteq> cd_version (oc_descriptor capability)
             then Inl OperationBackwardContractMismatch
             else Inr ())
      else Inr ())"

definition ensure_operation_protocol_version :: "u16 \<Rightarrow> mass_error + unit" where
  "ensure_operation_protocol_version version =
     ensure (version = MASS_OPERATION_PROTOCOL_VERSION) (MOperation (UnsupportedOperationProtocolVersion version))"

definition operation_satisfies :: "operation_capability \<Rightarrow> operation_capability \<Rightarrow> bool" where
  "operation_satisfies advertised requested \<longleftrightarrow>
     oc_descriptor advertised = oc_descriptor requested
     \<and> oc_descriptor_hash advertised = oc_descriptor_hash requested
     \<and> list_all (\<lambda>e. e \<in> set (oc_tensor_encodings advertised)) (oc_tensor_encodings requested)
     \<and> list_all (\<lambda>e. e \<in> set (oc_metadata_encodings advertised)) (oc_metadata_encodings requested)
     \<and> (\<not> cap_backward (oc_operations requested) \<or> oc_backward advertised = oc_backward requested)
     \<and> satisfies (oc_operations advertised) (oc_operations requested)"

definition qwen_capability :: "('e, 'f, 'j) mass_config \<Rightarrow> operation_capability" where
  "qwen_capability F = (operation_capability_for (mf_tensors F) qwen_contract)\<lparr>oc_operations := OPTIMIZING\<rparr>"

definition local_worker_capabilities :: "('e, 'f, 'j) mass_config \<Rightarrow> ('p, 'v, 'w, 'f) mass_services \<Rightarrow>
    worker_capabilities" where
  "local_worker_capabilities F S =
     (let operations = (if mf_qwen F then [qwen_capability F] else []);
          operations' = (case mv_operation S of
              None \<Rightarrow> operations
            | Some op \<Rightarrow>
                if op_capability op \<in> set operations then operations else operations @ [op_capability op])
      in \<lparr>wc_architectures = (case mf_compiled_architecture F of None \<Rightarrow> [] | Some a \<Rightarrow> [a]),
          wc_operations = operations'\<rparr>)"

definition decode_qwen_config :: "('e, 'f, 'j) mass_config \<Rightarrow> operation_config option \<Rightarrow>
    mass_error + 'f mass_model_config option" where
  "decode_qwen_config F config =
     (case config of
        None \<Rightarrow> Inr None
      | Some c \<Rightarrow>
          if cfg_encoding c \<noteq> POSTCARD_V1 then Inl (MOperation OperationConfigInvalid)
          else (case mk_decode_config (mf_codecs F) (cfg_data c) of
                  None \<Rightarrow> Inl (MOperation OperationConfigInvalid)
                | Some decoded \<Rightarrow> Inr (Some decoded)))"

definition required_architecture :: "('e, 'f, 'j) mass_config \<Rightarrow> operation_capability \<Rightarrow> operation_config option \<Rightarrow>
    mass_error + mass_architecture option" where
  "required_architecture F capability config =
     (if operation_satisfies (qwen_capability F) capability
      then and_then (decode_qwen_config F config) (\<lambda>c. Inr (Option.bind c mc_required_architecture))
      else Inr None)"

section \<open>Placement\<close>

definition local_count :: "(uuid \<times> route_target) list \<Rightarrow> nat" where
  "local_count routes = length (filter (\<lambda>(_, t). t = RouteLocal) routes)"

definition worker_count :: "(uuid \<times> route_target) list \<Rightarrow> uuid \<Rightarrow> nat" where
  "worker_count routes token = length (filter (\<lambda>(_, t). t = RouteWorker token) routes)"

definition capabilities_eligible :: "worker_capabilities \<Rightarrow> operation_capability \<Rightarrow> mass_architecture option \<Rightarrow> bool" where
  "capabilities_eligible capabilities requested required \<longleftrightarrow>
     architecture_satisfies capabilities required
     \<and> list_ex (\<lambda>advertised. operation_satisfies advertised requested) (wc_operations capabilities)"

text \<open>The loop over the workers, with the best target so far and whether an eligible one exists.\<close>

fun scan_workers :: "operation_capability \<Rightarrow> mass_architecture option \<Rightarrow> (uuid \<times> route_target) list \<Rightarrow>
    tunnel_worker list \<Rightarrow> (route_target \<times> nat) option \<Rightarrow> bool \<Rightarrow> (route_target \<times> nat) option \<times> bool" where
  "scan_workers requested required routes [] best eligible_exists = (best, eligible_exists)"
| "scan_workers requested required routes (w # ws) best eligible_exists =
     (if \<not> capabilities_eligible (tw_capabilities w) requested required
      then scan_workers requested required routes ws best eligible_exists
      else
        let current = worker_count routes (tw_token w) in
        if \<not> has_capacity (tw_max_instances w) current
        then scan_workers requested required routes ws best True
        else
          let best' = (case best of
                Some (t, best_count) \<Rightarrow>
                  if best_count \<le> current then best else Some (RouteWorker (tw_token w), current)
              | None \<Rightarrow> Some (RouteWorker (tw_token w), current))
          in scan_workers requested required routes ws best' True)"

definition select_instance_target :: "('e, 'f, 'j) mass_config \<Rightarrow> ('p, 'v, 'w, 'f) mass_services \<Rightarrow>
    operation_capability \<Rightarrow> mass_architecture option \<Rightarrow> ('e, 'f, 'p, 'v, 'w) mass_context \<Rightarrow>
    mass_error + route_target" where
  "select_instance_target F S requested required ctx =
     and_then (map_error MOperation (validate_capability (mf_tensors F) requested)) (\<lambda>_.
       let local_eligible = capabilities_eligible (local_worker_capabilities F S) requested required;
           here = local_count (mx_routes ctx);
           best0 = (if local_eligible \<and> has_capacity (mf_max_instances F) here then Some (RouteLocal, here) else None);
           workers = sort_key tw_token (map snd (mx_workers ctx))
       in (case scan_workers requested required (mx_routes ctx) workers best0 local_eligible of
             (Some (target, _), _) \<Rightarrow> Inr target
           | (None, True) \<Rightarrow> Inl (MPlacement NoTunnelCapacity)
           | (None, False) \<Rightarrow>
               (case required of
                  Some r \<Rightarrow> Inl (MPlacement (NoCompatibleTunnelCapacity r))
                | None \<Rightarrow> Inl (MOperation (NoCompatibleOperation (cd_id (oc_descriptor requested))
                    (cd_version (oc_descriptor requested)))))))"

end
