(* ===== verification/Mass_Dispatch.thy ===== *)
theory Mass_Dispatch
  imports Mass_Host
begin

text \<open>
  The operations of an instance hosted by a Mass server (\<open>_black_hole_mass/src/lib.rs\<close>): the
  local handlers, for a Qwen instance and for one of the injected operation.
\<close>

definition ensure_root_mode :: "('e, 'f, 'p, 'v, 'w) mass_context \<Rightarrow> mass_error + unit" where
  "ensure_root_mode ctx =
     (case mx_mode ctx of
        ModeRoot \<Rightarrow> Inr ()
      | ModeWorker _ \<Rightarrow> Inl TunnelWorkerRejectsModelRequests)"

section \<open>Local handlers\<close>

definition hosted_instance :: "uuid \<Rightarrow> ('e, 'f, 'p, 'v, 'w) mass_context \<Rightarrow> mass_error + hosted_entry" where
  "hosted_instance instance_id ctx =
     ok_or (ModelInstanceNotRunning instance_id) (map_of (mx_instances ctx) instance_id)"

definition require_capability :: "bool \<Rightarrow> string \<Rightarrow> mass_error + unit" where
  "require_capability available name = ensure available (MOperation (OperationCapabilityUnavailable name))"

text \<open>The hosted instance, if its capability has the operation.\<close>

definition capable_instance :: "(operation_capabilities \<Rightarrow> bool) \<Rightarrow> string \<Rightarrow> uuid \<Rightarrow>
    ('e, 'f, 'p, 'v, 'w) mass_context \<Rightarrow> mass_error + hosted_entry" where
  "capable_instance cap name instance_id ctx =
     and_then (hosted_instance instance_id ctx) (\<lambda>inst.
     and_then (require_capability (cap (oc_operations (hi_capability inst))) name) (\<lambda>_. Inr inst))"

definition require_operation :: "('p, 'v, 'w, 'f) mass_services \<Rightarrow> mass_error + ('p, 'f) operation_ops" where
  "require_operation S = ok_or (MOperation OperationNotConfigured) (mv_operation S)"

text \<open>A unit operation of the injected implementation, acknowledged.\<close>

definition injected_ack :: "('p, 'v, 'w, 'f) mass_services \<Rightarrow> (('p, 'f) operation_ops \<Rightarrow> 'p \<Rightarrow> (string + unit) \<times> 'p) \<Rightarrow>
    ('e, 'f, 'p, 'v, 'w) mass_context \<Rightarrow> (mass_out, ('e, 'f, 'p, 'v, 'w) mass_context) mass_result" where
  "injected_ack S f ctx =
     chain (require_operation S, ctx) (\<lambda>op ctx.
     chain (operation_call (f op) ctx) (\<lambda>_ ctx. (Inr OAck, ctx)))"

definition handle_instance_start_local :: "('e, 'f, 'j) mass_config \<Rightarrow> ('p, 'v, 'w, 'f) mass_services \<Rightarrow> uuid \<Rightarrow>
    operation_capability \<Rightarrow> operation_config option \<Rightarrow> ('e, 'f, 'p, 'v, 'w) mass_context \<Rightarrow>
    (mass_out, ('e, 'f, 'p, 'v, 'w) mass_context) mass_result" where
  "handle_instance_start_local F S instance_id capability config ctx =
     chain
       (if mf_qwen F \<and> operation_satisfies (qwen_capability F) capability then
          chain (decode_qwen_config F config, ctx) (\<lambda>c ctx.
          chain (handle_start F S instance_id c ctx) (\<lambda>_ ctx. (Inr ImplQwen, ctx)))
        else
          chain (require_operation S, ctx) (\<lambda>op ctx.
          chain (ensure (operation_satisfies (op_capability op) capability)
                   (MOperation OperationContractMismatch), ctx) (\<lambda>_ ctx.
          chain (case mf_max_instances F of
                   None \<Rightarrow> Inr ()
                 | Some limit \<Rightarrow> ensure (length (mx_instances ctx) < unat limit)
                     (MPlacement (NoLocalCapacity (unat limit))), ctx) (\<lambda>_ ctx.
          chain (operation_call (op_start op instance_id config) ctx) (\<lambda>_ ctx. (Inr ImplInjected, ctx))))))
       (\<lambda>implementation ctx.
          (Inr OAck, ctx\<lparr>mx_instances := AList.update instance_id
             \<lparr>hi_capability = capability, hi_implementation = implementation\<rparr> (mx_instances ctx)\<rparr>))"

text \<open>A pass of an injected operation over an artifact, validated on both ends.\<close>

definition injected_pass :: "('e, 'f, 'j) mass_config \<Rightarrow> ('p, 'v, 'w, 'f) mass_services \<Rightarrow> string \<Rightarrow> contract_descriptor \<Rightarrow>
    (('p, 'f) operation_ops \<Rightarrow> bytes \<Rightarrow> 'p \<Rightarrow> (string + bytes) \<times> 'p) \<Rightarrow> operation_artifact_ref \<Rightarrow>
    ('e, 'f, 'p, 'v, 'w) mass_context \<Rightarrow> (mass_out, ('e, 'f, 'p, 'v, 'w) mass_context) mass_result" where
  "injected_pass F S what descriptor pass input ctx =
     chain (require_operation S, ctx) (\<lambda>op ctx.
     chain (require_void_client S ctx what, ctx) (\<lambda>void ctx.
     chain (void_call (vc_download_artifact void input) ctx) (\<lambda>input_bytes ctx.
     chain (map_error (MOperation \<circ> OperationPayloadInvalid)
              (validate_artifact (mf_tensors F) descriptor SideInput input_bytes), ctx) (\<lambda>_ ctx.
     chain (operation_call (pass op input_bytes) ctx) (\<lambda>output_bytes ctx.
     chain (map_error (MOperation \<circ> OperationPayloadInvalid)
              (validate_artifact (mf_tensors F) descriptor SideOutput output_bytes), ctx) (\<lambda>_ ctx.
     chain (void_call (vc_publish_artifact void descriptor SideOutput output_bytes) ctx) (\<lambda>output ctx.
     (Inr (OInvoked output), ctx))))))))"

definition handle_instance_invoke_local :: "('e, 'f, 'j) mass_config \<Rightarrow> ('p, 'v, 'w, 'f) mass_services \<Rightarrow> uuid \<Rightarrow>
    operation_artifact_ref \<Rightarrow> ('e, 'f, 'p, 'v, 'w) mass_context \<Rightarrow>
    (mass_out, ('e, 'f, 'p, 'v, 'w) mass_context) mass_result" where
  "handle_instance_invoke_local F S instance_id input ctx =
     chain (capable_instance cap_forward ''forward'' instance_id ctx, ctx) (\<lambda>inst ctx.
     if hi_implementation inst = ImplQwen then handle_qwen_operation_forward F S instance_id input ctx
     else injected_pass F S ''operation forward'' (oc_descriptor (hi_capability inst))
            (\<lambda>op. op_forward op instance_id) input ctx)"

definition handle_instance_backward_local :: "('e, 'f, 'j) mass_config \<Rightarrow> ('p, 'v, 'w, 'f) mass_services \<Rightarrow> uuid \<Rightarrow>
    operation_artifact_ref \<Rightarrow> ('e, 'f, 'p, 'v, 'w) mass_context \<Rightarrow>
    (mass_out, ('e, 'f, 'p, 'v, 'w) mass_context) mass_result" where
  "handle_instance_backward_local F S instance_id grad_input ctx =
     chain (capable_instance cap_backward ''backward'' instance_id ctx, ctx) (\<lambda>inst ctx.
     if hi_implementation inst = ImplQwen
     then (Inl (MOperation (OperationCapabilityUnavailable ''backward'')), ctx)
     else
       chain (ok_or (MOperation OperationBackwardContractMissing) (oc_backward (hi_capability inst)), ctx) (\<lambda>b ctx.
       injected_pass F S ''operation backward'' (bc_descriptor b) (\<lambda>op. op_backward op instance_id) grad_input ctx))"

definition handle_instance_reset_local :: "('e, 'f, 'j) mass_config \<Rightarrow> ('p, 'v, 'w, 'f) mass_services \<Rightarrow> uuid \<Rightarrow>
    ('e, 'f, 'p, 'v, 'w) mass_context \<Rightarrow> (mass_out, ('e, 'f, 'p, 'v, 'w) mass_context) mass_result" where
  "handle_instance_reset_local F S instance_id ctx =
     chain (capable_instance cap_reset ''reset'' instance_id ctx, ctx) (\<lambda>inst ctx.
     (case hi_implementation inst of
        ImplQwen \<Rightarrow> handle_reset F instance_id ctx
      | ImplInjected \<Rightarrow> injected_ack S (\<lambda>op. op_reset op instance_id) ctx))"

definition handle_instance_step_local :: "('p, 'v, 'w, 'f) mass_services \<Rightarrow> uuid \<Rightarrow>
    ('e, 'f, 'p, 'v, 'w) mass_context \<Rightarrow> (mass_out, ('e, 'f, 'p, 'v, 'w) mass_context) mass_result" where
  "handle_instance_step_local S instance_id ctx =
     chain (capable_instance cap_step ''step'' instance_id ctx, ctx) (\<lambda>inst ctx.
     (case hi_implementation inst of
        ImplQwen \<Rightarrow> (Inl (MOperation (OperationCapabilityUnavailable ''step'')), ctx)
      | ImplInjected \<Rightarrow> injected_ack S (\<lambda>op. op_step op instance_id) ctx))"

definition handle_instance_perturb_up_local :: "('e, 'f, 'j) mass_config \<Rightarrow> ('p, 'v, 'w, 'f) mass_services \<Rightarrow> uuid \<Rightarrow> u64 \<Rightarrow>
    ('e, 'f, 'p, 'v, 'w) mass_context \<Rightarrow> (mass_out, ('e, 'f, 'p, 'v, 'w) mass_context) mass_result" where
  "handle_instance_perturb_up_local F S instance_id seed ctx =
     chain (capable_instance cap_perturb ''perturb'' instance_id ctx, ctx) (\<lambda>inst ctx.
     (case hi_implementation inst of
        ImplQwen \<Rightarrow> handle_perturb_up F instance_id seed ctx
      | ImplInjected \<Rightarrow> injected_ack S (\<lambda>op. op_perturb_up op instance_id seed) ctx))"

definition handle_instance_perturb_down_local :: "('e, 'f, 'j) mass_config \<Rightarrow> ('p, 'v, 'w, 'f) mass_services \<Rightarrow> uuid \<Rightarrow>
    ('e, 'f, 'p, 'v, 'w) mass_context \<Rightarrow> (mass_out, ('e, 'f, 'p, 'v, 'w) mass_context) mass_result" where
  "handle_instance_perturb_down_local F S instance_id ctx =
     chain (capable_instance cap_perturb ''perturb'' instance_id ctx, ctx) (\<lambda>inst ctx.
     (case hi_implementation inst of
        ImplQwen \<Rightarrow> handle_perturb_down F instance_id ctx
      | ImplInjected \<Rightarrow> injected_ack S (\<lambda>op. op_perturb_down op instance_id) ctx))"

definition handle_instance_optimize_local :: "('e, 'f, 'j) mass_config \<Rightarrow> ('p, 'v, 'w, 'f) mass_services \<Rightarrow> uuid \<Rightarrow> 'f \<Rightarrow> 'f \<Rightarrow>
    ('e, 'f, 'p, 'v, 'w) mass_context \<Rightarrow> (mass_out, ('e, 'f, 'p, 'v, 'w) mass_context) mass_result" where
  "handle_instance_optimize_local F S instance_id loss_up loss_down ctx =
     chain (capable_instance cap_optimize ''optimize'' instance_id ctx, ctx) (\<lambda>inst ctx.
     (case hi_implementation inst of
        ImplQwen \<Rightarrow> handle_optimize F instance_id loss_up loss_down ctx
      | ImplInjected \<Rightarrow> injected_ack S (\<lambda>op. op_optimize op instance_id loss_up loss_down) ctx))"

definition handle_instance_checkpoint_local :: "('e, 'f, 'j) mass_config \<Rightarrow> ('p, 'v, 'w, 'f) mass_services \<Rightarrow> uuid \<Rightarrow>
    ('e, 'f, 'p, 'v, 'w) mass_context \<Rightarrow> (mass_out, ('e, 'f, 'p, 'v, 'w) mass_context) mass_result" where
  "handle_instance_checkpoint_local F S instance_id ctx =
     chain (capable_instance cap_checkpoint ''checkpoint'' instance_id ctx, ctx) (\<lambda>inst ctx.
     if hi_implementation inst = ImplQwen then handle_checkpoint F S instance_id ctx
     else
       chain (require_operation S, ctx) (\<lambda>op ctx.
       chain (operation_call (op_checkpoint op instance_id) ctx) (\<lambda>payload ctx.
       chain (require_void_client S ctx ''checkpoint upload'', ctx) (\<lambda>void ctx.
       chain (void_call (vc_upload void payload) ctx) (\<lambda>checkpoint_id ctx.
       (Inr (OCheckpointed checkpoint_id), ctx))))))"

definition handle_instance_fuse_local :: "('e, 'f, 'j) mass_config \<Rightarrow> ('p, 'v, 'w, 'f) mass_services \<Rightarrow> uuid \<Rightarrow> object_id \<Rightarrow> 'f \<Rightarrow>
    ('e, 'f, 'p, 'v, 'w) mass_context \<Rightarrow> (mass_out, ('e, 'f, 'p, 'v, 'w) mass_context) mass_result" where
  "handle_instance_fuse_local F S instance_id checkpoint_id contribution ctx =
     chain (capable_instance cap_fuse ''fuse'' instance_id ctx, ctx) (\<lambda>inst ctx.
     if hi_implementation inst = ImplQwen then handle_fuse_weights F S instance_id checkpoint_id contribution ctx
     else
       chain (require_void_client S ctx ''operation fuse'', ctx) (\<lambda>void ctx.
       chain (void_call (vc_download void checkpoint_id) ctx) (\<lambda>checkpoint ctx.
       chain (require_operation S, ctx) (\<lambda>op ctx.
       chain (operation_call (op_fuse op instance_id checkpoint contribution) ctx) (\<lambda>fused ctx.
       chain (void_call (vc_upload void fused) ctx) (\<lambda>fused_id ctx.
       (Inr (OFused fused_id), ctx)))))))"

definition handle_instance_query_local :: "('e, 'f, 'j) mass_config \<Rightarrow> ('p, 'v, 'w, 'f) mass_services \<Rightarrow> uuid \<Rightarrow>
    ('e, 'f, 'p, 'v, 'w) mass_context \<Rightarrow> (mass_out, ('e, 'f, 'p, 'v, 'w) mass_context) mass_result" where
  "handle_instance_query_local F S instance_id ctx =
     chain (capable_instance cap_query ''query'' instance_id ctx, ctx) (\<lambda>inst ctx.
     (case hi_implementation inst of
        ImplQwen \<Rightarrow> handle_query_model_params F instance_id ctx
      | ImplInjected \<Rightarrow>
          chain (require_operation S, ctx) (\<lambda>op ctx.
          chain (operation_call (op_query op instance_id) ctx) (\<lambda>params ctx. (Inr (OInstance params), ctx)))))"

definition handle_instance_shutdown_local :: "('e, 'f, 'j) mass_config \<Rightarrow> ('p, 'v, 'w, 'f) mass_services \<Rightarrow> uuid \<Rightarrow>
    ('e, 'f, 'p, 'v, 'w) mass_context \<Rightarrow> (mass_out, ('e, 'f, 'p, 'v, 'w) mass_context) mass_result" where
  "handle_instance_shutdown_local F S instance_id ctx =
     chain (hosted_instance instance_id ctx, ctx) (\<lambda>inst ctx.
     chain (case hi_implementation inst of
              ImplQwen \<Rightarrow> handle_shutdown F instance_id ctx
            | ImplInjected \<Rightarrow> injected_ack S (\<lambda>op. op_shutdown op instance_id) ctx) (\<lambda>_ ctx.
     (Inr OAck, ctx\<lparr>mx_instances := AList.delete instance_id (mx_instances ctx)\<rparr>)))"

end
