(* ===== verification/Mass_Routing.thy ===== *)
theory Mass_Routing
  imports Mass_Dispatch
begin

text \<open>
  The entry points of a Mass server (\<open>_black_hole_mass/src/lib.rs\<close>): the distributed operations
  that follow the route of an instance, the root-only ones, tunneled requests, the report of
  capacity, and the dispatch of requests.
\<close>

section \<open>Routing\<close>

definition route_for_instance :: "uuid \<Rightarrow> ('e, 'f, 'p, 'v, 'w) mass_context \<Rightarrow> mass_error + route_target" where
  "route_for_instance instance_id ctx =
     ok_or (ModelInstanceNotRunning instance_id) (map_of (mx_routes ctx) instance_id)"

text \<open>A request for an instance is served where its route points.\<close>

definition distributed :: "('p, 'v, 'w, 'f) mass_services \<Rightarrow> uuid \<Rightarrow> 'f tunnel_request \<Rightarrow>
    (('e, 'f, 'p, 'v, 'w) mass_context \<Rightarrow> (mass_out, ('e, 'f, 'p, 'v, 'w) mass_context) mass_result) \<Rightarrow>
    ('e, 'f, 'p, 'v, 'w) mass_context \<Rightarrow> (mass_out, ('e, 'f, 'p, 'v, 'w) mass_context) mass_result" where
  "distributed S instance_id request local_handler ctx =
     chain (route_for_instance instance_id ctx, ctx) (\<lambda>target ctx.
     (case target of
        RouteLocal \<Rightarrow> local_handler ctx
      | RouteWorker token \<Rightarrow> forward_tunnel_request S token request ctx))"

definition handle_instance_invoke_distributed :: "('e, 'f, 'j) mass_config \<Rightarrow> ('p, 'v, 'w, 'f) mass_services \<Rightarrow> uuid \<Rightarrow> operation_artifact_ref \<Rightarrow>
    ('e, 'f, 'p, 'v, 'w) mass_context \<Rightarrow> (mass_out, ('e, 'f, 'p, 'v, 'w) mass_context) mass_result" where
  "handle_instance_invoke_distributed F S instance_id input =
     distributed S instance_id (TInvoke MASS_OPERATION_PROTOCOL_VERSION instance_id input)
       (handle_instance_invoke_local F S instance_id input)"

definition handle_instance_backward_distributed :: "('e, 'f, 'j) mass_config \<Rightarrow> ('p, 'v, 'w, 'f) mass_services \<Rightarrow> uuid \<Rightarrow> operation_artifact_ref \<Rightarrow>
    ('e, 'f, 'p, 'v, 'w) mass_context \<Rightarrow> (mass_out, ('e, 'f, 'p, 'v, 'w) mass_context) mass_result" where
  "handle_instance_backward_distributed F S instance_id grad_input =
     distributed S instance_id (TBackwardInstance MASS_OPERATION_PROTOCOL_VERSION instance_id grad_input)
       (handle_instance_backward_local F S instance_id grad_input)"

definition handle_instance_reset_distributed :: "('e, 'f, 'j) mass_config \<Rightarrow> ('p, 'v, 'w, 'f) mass_services \<Rightarrow> uuid \<Rightarrow>
    ('e, 'f, 'p, 'v, 'w) mass_context \<Rightarrow> (mass_out, ('e, 'f, 'p, 'v, 'w) mass_context) mass_result" where
  "handle_instance_reset_distributed F S instance_id =
     distributed S instance_id (TResetInstance instance_id)
       (handle_instance_reset_local F S instance_id)"

definition handle_instance_step_distributed :: "('e, 'f, 'j) mass_config \<Rightarrow> ('p, 'v, 'w, 'f) mass_services \<Rightarrow> uuid \<Rightarrow>
    ('e, 'f, 'p, 'v, 'w) mass_context \<Rightarrow> (mass_out, ('e, 'f, 'p, 'v, 'w) mass_context) mass_result" where
  "handle_instance_step_distributed F S instance_id =
     distributed S instance_id (TStepInstance instance_id)
       (handle_instance_step_local S instance_id)"

definition handle_instance_perturb_up_distributed :: "('e, 'f, 'j) mass_config \<Rightarrow> ('p, 'v, 'w, 'f) mass_services \<Rightarrow> uuid \<Rightarrow> u64 \<Rightarrow>
    ('e, 'f, 'p, 'v, 'w) mass_context \<Rightarrow> (mass_out, ('e, 'f, 'p, 'v, 'w) mass_context) mass_result" where
  "handle_instance_perturb_up_distributed F S instance_id seed =
     distributed S instance_id (TPerturbUpInstance instance_id seed)
       (handle_instance_perturb_up_local F S instance_id seed)"

definition handle_instance_perturb_down_distributed :: "('e, 'f, 'j) mass_config \<Rightarrow> ('p, 'v, 'w, 'f) mass_services \<Rightarrow> uuid \<Rightarrow>
    ('e, 'f, 'p, 'v, 'w) mass_context \<Rightarrow> (mass_out, ('e, 'f, 'p, 'v, 'w) mass_context) mass_result" where
  "handle_instance_perturb_down_distributed F S instance_id =
     distributed S instance_id (TPerturbDownInstance instance_id)
       (handle_instance_perturb_down_local F S instance_id)"

definition handle_instance_optimize_distributed :: "('e, 'f, 'j) mass_config \<Rightarrow> ('p, 'v, 'w, 'f) mass_services \<Rightarrow> uuid \<Rightarrow> 'f \<Rightarrow> 'f \<Rightarrow>
    ('e, 'f, 'p, 'v, 'w) mass_context \<Rightarrow> (mass_out, ('e, 'f, 'p, 'v, 'w) mass_context) mass_result" where
  "handle_instance_optimize_distributed F S instance_id loss_up loss_down =
     distributed S instance_id (TOptimizeInstance instance_id loss_up loss_down)
       (handle_instance_optimize_local F S instance_id loss_up loss_down)"

definition handle_instance_checkpoint_distributed :: "('e, 'f, 'j) mass_config \<Rightarrow> ('p, 'v, 'w, 'f) mass_services \<Rightarrow> uuid \<Rightarrow>
    ('e, 'f, 'p, 'v, 'w) mass_context \<Rightarrow> (mass_out, ('e, 'f, 'p, 'v, 'w) mass_context) mass_result" where
  "handle_instance_checkpoint_distributed F S instance_id =
     distributed S instance_id (TCheckpointInstance instance_id)
       (handle_instance_checkpoint_local F S instance_id)"

definition handle_instance_fuse_distributed :: "('e, 'f, 'j) mass_config \<Rightarrow> ('p, 'v, 'w, 'f) mass_services \<Rightarrow> uuid \<Rightarrow> object_id \<Rightarrow> 'f \<Rightarrow>
    ('e, 'f, 'p, 'v, 'w) mass_context \<Rightarrow> (mass_out, ('e, 'f, 'p, 'v, 'w) mass_context) mass_result" where
  "handle_instance_fuse_distributed F S instance_id checkpoint_id contribution =
     distributed S instance_id (TFuseInstance instance_id checkpoint_id contribution)
       (handle_instance_fuse_local F S instance_id checkpoint_id contribution)"

definition handle_instance_query_distributed :: "('e, 'f, 'j) mass_config \<Rightarrow> ('p, 'v, 'w, 'f) mass_services \<Rightarrow> uuid \<Rightarrow>
    ('e, 'f, 'p, 'v, 'w) mass_context \<Rightarrow> (mass_out, ('e, 'f, 'p, 'v, 'w) mass_context) mass_result" where
  "handle_instance_query_distributed F S instance_id =
     distributed S instance_id (TQueryInstance instance_id)
       (handle_instance_query_local F S instance_id)"

definition handle_instance_start_distributed :: "('e, 'f, 'j) mass_config \<Rightarrow> ('p, 'v, 'w, 'f) mass_services \<Rightarrow> uuid \<Rightarrow>
    operation_capability \<Rightarrow> operation_config option \<Rightarrow> ('e, 'f, 'p, 'v, 'w) mass_context \<Rightarrow>
    (mass_out, ('e, 'f, 'p, 'v, 'w) mass_context) mass_result" where
  "handle_instance_start_distributed F S instance_id capability config ctx =
     (if map_of (mx_routes ctx) instance_id \<noteq> None \<or> map_of (mx_instances ctx) instance_id \<noteq> None
      then (Inl (ModelInstanceAlreadyRunning instance_id), ctx)
      else
        chain (required_architecture F capability config, ctx) (\<lambda>architecture ctx.
        chain (select_instance_target F S capability architecture ctx, ctx) (\<lambda>target ctx.
        chain (case target of
                 RouteLocal \<Rightarrow> handle_instance_start_local F S instance_id capability config ctx
               | RouteWorker token \<Rightarrow>
                   forward_tunnel_request S token
                     (TStartInstance MASS_OPERATION_PROTOCOL_VERSION instance_id capability config) ctx)
          (\<lambda>out ctx.
             if out \<noteq> OAck then (Inl (UnexpectedTunnelResponse ''hosted instance start response''), ctx)
             else (Inr OAck, ctx\<lparr>mx_routes := AList.update instance_id target (mx_routes ctx),
                    mx_requirements := (mx_requirements ctx)(instance_id \<mapsto> architecture)\<rparr>)))))"

definition handle_instance_shutdown_distributed :: "('e, 'f, 'j) mass_config \<Rightarrow> ('p, 'v, 'w, 'f) mass_services \<Rightarrow> uuid \<Rightarrow>
    ('e, 'f, 'p, 'v, 'w) mass_context \<Rightarrow> (mass_out, ('e, 'f, 'p, 'v, 'w) mass_context) mass_result" where
  "handle_instance_shutdown_distributed F S instance_id ctx =
     chain (distributed S instance_id (TShutdownInstance instance_id)
              (handle_instance_shutdown_local F S instance_id) ctx) (\<lambda>out ctx.
       (Inr out,
        if out = OAck
        then ctx\<lparr>mx_routes := AList.delete instance_id (mx_routes ctx),
                 mx_requirements := (mx_requirements ctx)(instance_id := None)\<rparr>
        else ctx))"

section \<open>Root-only entry points\<close>

definition root_only :: "(('e, 'f, 'p, 'v, 'w) mass_context \<Rightarrow> (mass_out, ('e, 'f, 'p, 'v, 'w) mass_context) mass_result) \<Rightarrow>
    ('e, 'f, 'p, 'v, 'w) mass_context \<Rightarrow> (mass_out, ('e, 'f, 'p, 'v, 'w) mass_context) mass_result" where
  "root_only handler ctx = chain (ensure_root_mode ctx, ctx) (\<lambda>_ ctx. handler ctx)"

definition handle_instance_start_routed :: "('e, 'f, 'j) mass_config \<Rightarrow> ('p, 'v, 'w, 'f) mass_services \<Rightarrow> uuid \<Rightarrow> operation_capability \<Rightarrow> operation_config option \<Rightarrow>
    ('e, 'f, 'p, 'v, 'w) mass_context \<Rightarrow> (mass_out, ('e, 'f, 'p, 'v, 'w) mass_context) mass_result" where
  "handle_instance_start_routed F S instance_id capability config =
     root_only (handle_instance_start_distributed F S instance_id capability config)"

definition handle_instance_invoke_routed :: "('e, 'f, 'j) mass_config \<Rightarrow> ('p, 'v, 'w, 'f) mass_services \<Rightarrow> uuid \<Rightarrow> operation_artifact_ref \<Rightarrow>
    ('e, 'f, 'p, 'v, 'w) mass_context \<Rightarrow> (mass_out, ('e, 'f, 'p, 'v, 'w) mass_context) mass_result" where
  "handle_instance_invoke_routed F S instance_id input =
     root_only (handle_instance_invoke_distributed F S instance_id input)"

definition handle_instance_backward_routed :: "('e, 'f, 'j) mass_config \<Rightarrow> ('p, 'v, 'w, 'f) mass_services \<Rightarrow> uuid \<Rightarrow> operation_artifact_ref \<Rightarrow>
    ('e, 'f, 'p, 'v, 'w) mass_context \<Rightarrow> (mass_out, ('e, 'f, 'p, 'v, 'w) mass_context) mass_result" where
  "handle_instance_backward_routed F S instance_id grad_input =
     root_only (handle_instance_backward_distributed F S instance_id grad_input)"

definition handle_instance_reset_routed :: "('e, 'f, 'j) mass_config \<Rightarrow> ('p, 'v, 'w, 'f) mass_services \<Rightarrow> uuid \<Rightarrow>
    ('e, 'f, 'p, 'v, 'w) mass_context \<Rightarrow> (mass_out, ('e, 'f, 'p, 'v, 'w) mass_context) mass_result" where
  "handle_instance_reset_routed F S instance_id =
     root_only (handle_instance_reset_distributed F S instance_id)"

definition handle_instance_step_routed :: "('e, 'f, 'j) mass_config \<Rightarrow> ('p, 'v, 'w, 'f) mass_services \<Rightarrow> uuid \<Rightarrow>
    ('e, 'f, 'p, 'v, 'w) mass_context \<Rightarrow> (mass_out, ('e, 'f, 'p, 'v, 'w) mass_context) mass_result" where
  "handle_instance_step_routed F S instance_id =
     root_only (handle_instance_step_distributed F S instance_id)"

definition handle_instance_perturb_up_routed :: "('e, 'f, 'j) mass_config \<Rightarrow> ('p, 'v, 'w, 'f) mass_services \<Rightarrow> uuid \<Rightarrow> u64 \<Rightarrow>
    ('e, 'f, 'p, 'v, 'w) mass_context \<Rightarrow> (mass_out, ('e, 'f, 'p, 'v, 'w) mass_context) mass_result" where
  "handle_instance_perturb_up_routed F S instance_id seed =
     root_only (handle_instance_perturb_up_distributed F S instance_id seed)"

definition handle_instance_perturb_down_routed :: "('e, 'f, 'j) mass_config \<Rightarrow> ('p, 'v, 'w, 'f) mass_services \<Rightarrow> uuid \<Rightarrow>
    ('e, 'f, 'p, 'v, 'w) mass_context \<Rightarrow> (mass_out, ('e, 'f, 'p, 'v, 'w) mass_context) mass_result" where
  "handle_instance_perturb_down_routed F S instance_id =
     root_only (handle_instance_perturb_down_distributed F S instance_id)"

definition handle_instance_optimize_routed :: "('e, 'f, 'j) mass_config \<Rightarrow> ('p, 'v, 'w, 'f) mass_services \<Rightarrow> uuid \<Rightarrow> 'f \<Rightarrow> 'f \<Rightarrow>
    ('e, 'f, 'p, 'v, 'w) mass_context \<Rightarrow> (mass_out, ('e, 'f, 'p, 'v, 'w) mass_context) mass_result" where
  "handle_instance_optimize_routed F S instance_id loss_up loss_down =
     root_only (handle_instance_optimize_distributed F S instance_id loss_up loss_down)"

definition handle_instance_checkpoint_routed :: "('e, 'f, 'j) mass_config \<Rightarrow> ('p, 'v, 'w, 'f) mass_services \<Rightarrow> uuid \<Rightarrow>
    ('e, 'f, 'p, 'v, 'w) mass_context \<Rightarrow> (mass_out, ('e, 'f, 'p, 'v, 'w) mass_context) mass_result" where
  "handle_instance_checkpoint_routed F S instance_id =
     root_only (handle_instance_checkpoint_distributed F S instance_id)"

definition handle_instance_fuse_routed :: "('e, 'f, 'j) mass_config \<Rightarrow> ('p, 'v, 'w, 'f) mass_services \<Rightarrow> uuid \<Rightarrow> object_id \<Rightarrow> 'f \<Rightarrow>
    ('e, 'f, 'p, 'v, 'w) mass_context \<Rightarrow> (mass_out, ('e, 'f, 'p, 'v, 'w) mass_context) mass_result" where
  "handle_instance_fuse_routed F S instance_id checkpoint_id contribution =
     root_only (handle_instance_fuse_distributed F S instance_id checkpoint_id contribution)"

definition handle_instance_query_routed :: "('e, 'f, 'j) mass_config \<Rightarrow> ('p, 'v, 'w, 'f) mass_services \<Rightarrow> uuid \<Rightarrow>
    ('e, 'f, 'p, 'v, 'w) mass_context \<Rightarrow> (mass_out, ('e, 'f, 'p, 'v, 'w) mass_context) mass_result" where
  "handle_instance_query_routed F S instance_id =
     root_only (handle_instance_query_distributed F S instance_id)"

definition handle_instance_shutdown_routed :: "('e, 'f, 'j) mass_config \<Rightarrow> ('p, 'v, 'w, 'f) mass_services \<Rightarrow> uuid \<Rightarrow>
    ('e, 'f, 'p, 'v, 'w) mass_context \<Rightarrow> (mass_out, ('e, 'f, 'p, 'v, 'w) mass_context) mass_result" where
  "handle_instance_shutdown_routed F S instance_id =
     root_only (handle_instance_shutdown_distributed F S instance_id)"

section \<open>Tunneled requests\<close>

definition handle_tunnel_request_local :: "('e, 'f, 'j) mass_config \<Rightarrow> ('p, 'v, 'w, 'f) mass_services \<Rightarrow> 'f tunnel_request \<Rightarrow>
    ('e, 'f, 'p, 'v, 'w) mass_context \<Rightarrow> (mass_out, ('e, 'f, 'p, 'v, 'w) mass_context) mass_result" where
  "handle_tunnel_request_local F S request ctx =
     (case request of
        TStartInstance version i capability config \<Rightarrow>
          chain (ensure_operation_protocol_version version, ctx)
            (\<lambda>_. handle_instance_start_distributed F S i capability config)
      | TInvoke version i input \<Rightarrow>
          chain (ensure_operation_protocol_version version, ctx) (\<lambda>_. handle_instance_invoke_distributed F S i input)
      | TBackwardInstance version i grad_input \<Rightarrow>
          chain (ensure_operation_protocol_version version, ctx)
            (\<lambda>_. handle_instance_backward_distributed F S i grad_input)
      | TStepInstance i \<Rightarrow> handle_instance_step_distributed F S i ctx
      | TResetInstance i \<Rightarrow> handle_instance_reset_distributed F S i ctx
      | TPerturbUpInstance i seed \<Rightarrow> handle_instance_perturb_up_distributed F S i seed ctx
      | TPerturbDownInstance i \<Rightarrow> handle_instance_perturb_down_distributed F S i ctx
      | TCheckpointInstance i \<Rightarrow> handle_instance_checkpoint_distributed F S i ctx
      | TOptimizeInstance i loss_up loss_down \<Rightarrow> handle_instance_optimize_distributed F S i loss_up loss_down ctx
      | TFuseInstance i checkpoint_id contribution \<Rightarrow>
          handle_instance_fuse_distributed F S i checkpoint_id contribution ctx
      | TShutdownInstance i \<Rightarrow> handle_instance_shutdown_distributed F S i ctx
      | TQueryInstance i \<Rightarrow> handle_instance_query_distributed F S i ctx)"

definition handle_tunnel_forward :: "('e, 'f, 'j) mass_config \<Rightarrow> ('p, 'v, 'w, 'f) mass_services \<Rightarrow> uuid \<Rightarrow> 'f tunnel_request \<Rightarrow>
    ('e, 'f, 'p, 'v, 'w) mass_context \<Rightarrow> (mass_out, ('e, 'f, 'p, 'v, 'w) mass_context) mass_result" where
  "handle_tunnel_forward F S token request ctx =
     (case mx_mode ctx of
        ModeWorker wm \<Rightarrow>
          if wm_tunnel_token wm = token then handle_tunnel_request_local F S request ctx
          else (Inl TunnelUnauthorizedForward, ctx)
      | ModeRoot \<Rightarrow> (Inl TunnelForwardUnsupportedOnRoot, ctx))"

section \<open>The report of capacity\<close>

definition target_architectures :: "('e, 'f, 'j) mass_config \<Rightarrow> (uuid \<times> tunnel_worker) list \<Rightarrow> route_target \<Rightarrow>
    mass_architecture list" where
  "target_architectures F workers target =
     (case target of
        RouteLocal \<Rightarrow> (case mf_compiled_architecture F of None \<Rightarrow> [] | Some a \<Rightarrow> [a])
      | RouteWorker token \<Rightarrow>
          (case map_of workers token of None \<Rightarrow> [] | Some w \<Rightarrow> wc_architectures (tw_capabilities w)))"

definition subtree_architectures :: "('e, 'f, 'j) mass_config \<Rightarrow> (uuid \<times> tunnel_worker) list \<Rightarrow> mass_architecture list" where
  "subtree_architectures F workers =
     foldl (\<lambda>archs a. if a \<in> set archs then archs else archs @ [a])
       (case mf_compiled_architecture F of None \<Rightarrow> [] | Some a \<Rightarrow> [a])
       (concat (map (\<lambda>(_, w). wc_architectures (tw_capabilities w)) workers))"

definition architecture_total :: "('e, 'f, 'j) mass_config \<Rightarrow> (uuid \<times> tunnel_worker) list \<Rightarrow> mass_architecture \<Rightarrow>
    u64 option" where
  "architecture_total F workers a =
     foldl (\<lambda>acc (_, w). if a \<in> set (wc_architectures (tw_capabilities w))
                           then sum_capacity acc (tw_max_instances w) else acc)
       (if mf_compiled_architecture F = Some a then mf_max_instances F else Some 0) workers"

definition architecture_occupied :: "('e, 'f, 'j) mass_config \<Rightarrow> ('e, 'f, 'p, 'v, 'w) mass_context \<Rightarrow> mass_architecture \<Rightarrow> nat" where
  "architecture_occupied F ctx a =
     length (filter (\<lambda>(model_id, target).
       a \<in> set (target_architectures F (mx_workers ctx) target)
       \<and> (case Option.bind (mx_requirements ctx model_id) (\<lambda>r. r) of
             Some required \<Rightarrow> required = a
           | None \<Rightarrow> True)) (mx_routes ctx))"

definition available_of :: "u64 option \<Rightarrow> nat \<Rightarrow> u64 option" where
  "available_of limit occupied = map_option (\<lambda>t. sat_sub t (of_nat occupied)) limit"

definition handle_query_model_capacity :: "('e, 'f, 'j) mass_config \<Rightarrow> ('e, 'f, 'p, 'v, 'w) mass_context \<Rightarrow>
    (mass_out, ('e, 'f, 'p, 'v, 'w) mass_context) mass_result" where
  "handle_query_model_capacity F ctx =
     (let occupied = length (mx_routes ctx);
          limit = advertised_capacity F ctx;
          per_architecture = map (\<lambda>a.
            let arch_total = architecture_total F (mx_workers ctx) a;
                arch_occupied = architecture_occupied F ctx a
            in (a, MassModelCapacity arch_total (available_of arch_total arch_occupied) arch_occupied []))
            (subtree_architectures F (mx_workers ctx))
      in (Inr (OInstanceCapacity
            (MassModelCapacity limit (available_of limit occupied) occupied per_architecture)), ctx))"

section \<open>Dispatch\<close>

text \<open>
  \<open>fresh\<close> is the token that a registration may draw, \<open>clock\<close> the clock of the retry loop of
  a re-registration and \<open>connection\<close> the connection that the request arrived on.
\<close>

definition handle_mass_request :: "('e, 'f, 'j) mass_config \<Rightarrow> ('p, 'v, 'w, 'f) mass_services \<Rightarrow> uuid \<Rightarrow> nat list \<Rightarrow>
    nat option \<Rightarrow> 'f mass_in \<Rightarrow> ('e, 'f, 'p, 'v, 'w) mass_context \<Rightarrow>
    (mass_out, ('e, 'f, 'p, 'v, 'w) mass_context) mass_result" where
  "handle_mass_request F S fresh clock connection request ctx =
     (case request of
        IRegisterTunnel worker_id max_instances capabilities \<Rightarrow>
          handle_register_tunnel F S fresh clock worker_id max_instances capabilities connection ctx
      | IUpdateTunnelCapacity token max_instances \<Rightarrow>
          handle_update_tunnel_capacity F S clock token max_instances ctx
      | ITunnelForward token req \<Rightarrow> handle_tunnel_forward F S token req ctx
      | IStartInstance version i capability config \<Rightarrow>
          chain (ensure_operation_protocol_version version, ctx)
            (\<lambda>_. handle_instance_start_routed F S i capability config)
      | IInvoke version i input \<Rightarrow>
          chain (ensure_operation_protocol_version version, ctx) (\<lambda>_. handle_instance_invoke_routed F S i input)
      | IBackwardInstance version i grad_input \<Rightarrow>
          chain (ensure_operation_protocol_version version, ctx)
            (\<lambda>_. handle_instance_backward_routed F S i grad_input)
      | IStepInstance i \<Rightarrow> handle_instance_step_routed F S i ctx
      | IResetInstance i \<Rightarrow> handle_instance_reset_routed F S i ctx
      | IPerturbUpInstance i seed \<Rightarrow> handle_instance_perturb_up_routed F S i seed ctx
      | IPerturbDownInstance i \<Rightarrow> handle_instance_perturb_down_routed F S i ctx
      | ICheckpointInstance i \<Rightarrow> handle_instance_checkpoint_routed F S i ctx
      | IOptimizeInstance i loss_up loss_down \<Rightarrow> handle_instance_optimize_routed F S i loss_up loss_down ctx
      | IFuseInstance i checkpoint_id contribution \<Rightarrow> handle_instance_fuse_routed F S i checkpoint_id contribution ctx
      | IShutdownInstance i \<Rightarrow> handle_instance_shutdown_routed F S i ctx
      | IQueryInstance i \<Rightarrow> handle_instance_query_routed F S i ctx
      | IQueryInstanceCapacity \<Rightarrow> handle_query_model_capacity F ctx)"

text \<open>An operation of a client is the same operation of the tunnel protocol, for a root only.\<close>

fun tunnel_request_of :: "'f mass_in \<Rightarrow> 'f tunnel_request option" where
  "tunnel_request_of (IStartInstance version i capability config) = Some (TStartInstance version i capability config)"
| "tunnel_request_of (IInvoke version i input) = Some (TInvoke version i input)"
| "tunnel_request_of (IBackwardInstance version i grad_input) = Some (TBackwardInstance version i grad_input)"
| "tunnel_request_of (IStepInstance i) = Some (TStepInstance i)"
| "tunnel_request_of (IResetInstance i) = Some (TResetInstance i)"
| "tunnel_request_of (IPerturbUpInstance i seed) = Some (TPerturbUpInstance i seed)"
| "tunnel_request_of (IPerturbDownInstance i) = Some (TPerturbDownInstance i)"
| "tunnel_request_of (ICheckpointInstance i) = Some (TCheckpointInstance i)"
| "tunnel_request_of (IOptimizeInstance i loss_up loss_down) = Some (TOptimizeInstance i loss_up loss_down)"
| "tunnel_request_of (IFuseInstance i checkpoint_id contribution) = Some (TFuseInstance i checkpoint_id contribution)"
| "tunnel_request_of (IShutdownInstance i) = Some (TShutdownInstance i)"
| "tunnel_request_of (IQueryInstance i) = Some (TQueryInstance i)"
| "tunnel_request_of request = None"

lemmas routed_defs = handle_instance_start_routed_def handle_instance_invoke_routed_def
  handle_instance_backward_routed_def handle_instance_step_routed_def handle_instance_reset_routed_def
  handle_instance_perturb_up_routed_def handle_instance_perturb_down_routed_def
  handle_instance_checkpoint_routed_def handle_instance_optimize_routed_def handle_instance_fuse_routed_def
  handle_instance_shutdown_routed_def handle_instance_query_routed_def

lemma client_request_on_root:
  assumes "tunnel_request_of request = Some req" and "mx_mode ctx = ModeRoot"
  shows "handle_mass_request F S fresh clock connection request ctx = handle_tunnel_request_local F S req ctx"
  using assms(1)
  by (cases request)
     (auto simp: handle_mass_request_def handle_tunnel_request_local_def routed_defs root_only_def
        ensure_root_mode_def assms(2) ensure_operation_protocol_version_def ensure_def)

lemma client_request_on_worker:
  assumes "tunnel_request_of request = Some req" and "mx_mode ctx = ModeWorker wm"
  shows "\<exists>e. handle_mass_request F S fresh clock connection request ctx = (Inl e, ctx)"
  using assms(1)
  by (cases request)
     (auto simp: handle_mass_request_def routed_defs root_only_def
        ensure_root_mode_def assms(2) ensure_operation_protocol_version_def ensure_def)

end
