(* ===== verification/Mass_Demo.thy ===== *)
theory Mass_Demo
  imports Slot_Proofs Mass_Routing Qwen_Proofs
begin

text \<open>
  Concrete servers on which the properties of the Mass server are instantiated: an engine
  that accepts every call, a Void client whose store is a list of objects with their positions
  as identifiers, an injected operation that returns its input, and the formats of the Qwen
  contract. Floating point values are natural numbers here.
\<close>

definition demo_engine :: "(unit, nat) engine_ops" where
  "demo_engine =
     \<lparr>en_build = (\<lambda>path content tok d. Inr ()),
      en_set_error_feedback = (\<lambda>m e. (Inr (), e)),
      en_reset_state = (\<lambda>e. (Inr (), e)),
      en_perturb_up = (\<lambda>seed e. (Inr (), e)),
      en_perturb_down = (\<lambda>e. (Inr (), e)),
      en_update = (\<lambda>up down e. (Inr (), e)),
      en_save_checkpoint = (\<lambda>e. (Inr (''/tmp/saved.gguf'', [1, 2]), e)),
      en_unload_model = (\<lambda>e. (Inr (), e)),
      en_predict = (\<lambda>seqs e. (Inr [], e))\<rparr>"

definition demo_defaults :: "nat mass_server_defaults" where
  "demo_defaults =
     \<lparr>sd_top_k = 4, sd_temperature = 1, sd_top_p = None, sd_kv_cache_quant = F16,
      sd_repeat_penalty = 1, sd_presence_penalty = 0, sd_inference_limit = 8,
      sd_training_config = \<lparr>tr_lr = 1, tr_epsilon = 1, tr_z_loss = 0, tr_lb_loss = 0,
        tr_clip_threshold = 1, tr_perturbation_mode = EngineWeight\<rparr>,
      sd_training_error_feedback = EFOff\<rparr>"

definition demo_model_config :: "nat mass_model_config" where
  "demo_model_config =
     \<lparr>mc_top_k = None, mc_temperature = None, mc_top_p = None, mc_repeat_penalty = None,
      mc_presence_penalty = None, mc_inference_limit = None, mc_training_lr = None,
      mc_training_epsilon = None, mc_training_z_loss = None, mc_training_lb_loss = None,
      mc_training_clip_threshold = None, mc_training_perturbation_mode = None,
      mc_training_error_feedback = None, mc_frozen = None, mc_oscillation_period_steps = None,
      mc_oscillation_train_steps = None, mc_oscillation_phase_steps = None,
      mc_oscillation_warmup_steps = None, mc_checkpoint_id = None, mc_required_architecture = None\<rparr>"

definition demo_codecs :: "nat mass_codecs" where
  "demo_codecs =
     \<lparr>mk_decode_config = (\<lambda>data. Some demo_model_config), mk_encode_params = (\<lambda>params. Some [9]),
      mk_encode_request = (\<lambda>request. Some [3]), mk_decode_request = (\<lambda>data. Some (RSequences [[IText ''hi'']] None)),
      mk_encode_output = (\<lambda>out. Some [4]), mk_decode_output = (\<lambda>data. Some (InferenceOutput [])),
      mk_fuse_models = (\<lambda>base other contribution. Inr [5]), mk_uuid_text = show_nat \<circ> unat\<rparr>"

definition demo_config :: "(unit \<times> weight_call list, nat, st_info) mass_config" where
  "demo_config =
     \<lparr>mf_compiled_architecture = None, mf_qwen = True, mf_tensors = qwen_env, mf_codecs = demo_codecs,
      mf_engine = logged demo_engine, mf_model_path = ''model.gguf'', mf_defaults = demo_defaults,
      mf_frozen = False, mf_max_instances = Some 2, mf_tokenizer_path = Some ''tokenizer.json'',
      mf_checkpoint_dir = Some ''/tmp''\<rparr>"

text \<open>The Void client: an object's identifier is its position in the store.\<close>

definition demo_void :: "bytes list void_client" where
  "demo_void =
     \<lparr>vc_download = (\<lambda>oid store. (case nth_get store (unat oid) of None \<Rightarrow> Inl ''not found'' | Some d \<Rightarrow> Inr d, store)),
      vc_upload = (\<lambda>data store. (Inr (of_nat (length store)), store @ [data])),
      vc_download_artifact = (\<lambda>ref store.
        (case nth_get store (unat (op_object_id ref)) of None \<Rightarrow> Inl ''not found'' | Some d \<Rightarrow> Inr d, store)),
      vc_publish_artifact = (\<lambda>contract side data store.
        (Inr (OpCommitted (of_nat (length store))), store @ [data])),
      vc_upload_file = (\<lambda>data store. (Inr (of_nat (length store)), store @ [data])),
      vc_download_to_file = (\<lambda>oid store.
        (case nth_get store (unat oid) of
           None \<Rightarrow> (Inl ''not found'', Some [], store)
         | Some d \<Rightarrow> (Inr (), Some d, store)))\<rparr>"

definition demo_net :: "(unit, nat) tunnel_net" where
  "demo_net = \<lparr>nt_request = (\<lambda>connection request w. (Inr OAck, w)), nt_connect = (\<lambda>w. (Inl ''refused'', w))\<rparr>"

definition demo_services :: "(unit, bytes list, unit, nat) mass_services" where
  "demo_services = \<lparr>mv_operation = None, mv_void = Some demo_void, mv_net = demo_net\<rparr>"

definition demo_context :: "(unit \<times> weight_call list, nat, unit, bytes list, unit) mass_context" where
  "demo_context =
     \<lparr>mx_mode = ModeRoot, mx_routes = [], mx_workers = [], mx_connections = Map.empty, mx_instances = [],
      mx_qwen = Map.empty, mx_requirements = Map.empty, mx_files = Map.empty, mx_operation = (),
      mx_void = [], mx_net = ()\<rparr>"

end
