(* ===== verification/Mass_Training.thy ===== *)
theory Mass_Training
  imports Mass_Demo
begin

text \<open>
  Properties of Qwen instances: starting and stopping, the consistency of the weights under
  any sequence of requests, frozen instances, the oscillation schedule, and temporary files.
\<close>

section \<open>Starting\<close>

lemma download_checkpoint_slots': "download_checkpoint v c p s = (r, s') \<Longrightarrow> mx_qwen s' = mx_qwen s"
  by (metis context_slots(5) snd_conv)

lemma resolve_model_source_slots:
  "mx_qwen (snd (resolve_model_source F S i config ctx)) = mx_qwen ctx"
  unfolding resolve_model_source_def Let_def
  by (cases "Option.bind config mc_checkpoint_id") (auto intro!: chain_same_slots)

lemma abandon_start_slots:
  "abandon_start i path e ctx = (r, ctx') \<Longrightarrow> r = Inl e \<and> mx_qwen ctx' = (mx_qwen ctx)(i := None)"
  by (auto simp: abandon_start_def)

text \<open>The outcomes of a start: the slots are as before, or the new instance runs.\<close>

lemma start_slot_cases:
  assumes "start_slot F S i config ctx0 = (r, ctx1)"
  obtains e where "r = Inl e" "mx_qwen ctx1 = mx_qwen ctx0"
  | source s oscillation engine0 u engine where "r = Inr OAck" "mx_qwen ctx0 i = None"
      "resolve_model_source F S i config (set_slot i (Some Starting) ctx0) = (Inr source, s)"
      "resolve_model_oscillation config = Inr oscillation"
      "en_build (mf_engine F) (rs_model_path source) (mx_files s (rs_model_path source))
         (rs_tokenizer_path source) (with_overrides (mf_defaults F) config) = Inr engine0"
      "en_set_error_feedback (mf_engine F) (to_engine_error_feedback
         (sd_training_error_feedback (with_overrides (mf_defaults F) config))) engine0 = (Inr u, engine)"
      "ctx1 = put_instance i
         \<lparr>mi_engine = engine, mi_runtime_config = runtime_config_of (with_overrides (mf_defaults F) config),
          mi_oscillation = oscillation, mi_checkpoint_path = rs_checkpoint_path source,
          mi_session = apply_initial_frozen_oscillation oscillation
            (session_new (resolve_model_frozen (mf_frozen F) config))\<rparr> s"
proof (cases "mx_qwen ctx0 i = None")
  case False
  with assms show ?thesis by (intro that(1)) (auto simp: start_slot_def)
next
  case free: True
  let ?s0 = "set_slot i (Some Starting) ctx0" and ?d = "with_overrides (mf_defaults F) config"
  have undo: "(mx_qwen ctx0)(i := None) = mx_qwen ctx0" using free by auto
  obtain q s where src: "resolve_model_source F S i config ?s0 = (q, s)" by fastforce
  have slots: "mx_qwen s = (mx_qwen ctx0)(i \<mapsto> Starting)"
    using resolve_model_source_slots [of F S i config ?s0] src by simp
  show ?thesis
  proof (cases q)
    case (Inl e)
    with assms free src slots undo show ?thesis by (intro that(1)) (auto simp: start_slot_def)
  next
    case source: (Inr source)
    note abandon = abandon_start_slots [where i = i and ctx = s and r = r and ctx' = ctx1]
    show ?thesis
    proof (cases "resolve_model_oscillation config")
      case (Inl e)
      with assms free src source have "abandon_start i (rs_checkpoint_path source) (OscillationError e) s = (r, ctx1)"
        by (simp add: start_slot_def Let_def)
      from abandon [OF this] slots undo show ?thesis by (intro that(1)) auto
    next
      case osc: (Inr oscillation)
      show ?thesis
      proof (cases "en_build (mf_engine F) (rs_model_path source) (mx_files s (rs_model_path source))
         (rs_tokenizer_path source) ?d")
        case (Inl m)
        with assms free src source osc have "abandon_start i (rs_checkpoint_path source) (ModelError m) s = (r, ctx1)"
          by (simp add: start_slot_def Let_def)
        from abandon [OF this] slots undo show ?thesis by (intro that(1)) auto
      next
        case build: (Inr engine0)
        obtain u engine where fb: "en_set_error_feedback (mf_engine F) (to_engine_error_feedback
            (sd_training_error_feedback ?d)) engine0 = (u, engine)" by fastforce
        show ?thesis
        proof (cases u)
          case (Inl m)
          with assms free src source osc build fb
          have "abandon_start i (rs_checkpoint_path source)
              (ModelError (''failed to set initial hyper parameters: '' @ m)) s = (r, ctx1)"
            by (simp add: start_slot_def Let_def)
          from abandon [OF this] slots undo show ?thesis by (intro that(1)) auto
        next
          case (Inr x)
          with assms free src source osc build fb show ?thesis
            by (intro that(2)) (auto simp: start_slot_def Let_def)
        qed
      qed
    qed
  qed
qed

lemma handle_start_cases:
  assumes "handle_start F S i config ctx0 = (r, ctx1)"
  obtains e where "r = Inl e" "mx_qwen ctx1 = mx_qwen ctx0" | "start_slot F S i config ctx0 = (r, ctx1)"
  using assms by (auto simp: handle_start_def split: option.splits if_splits)

text \<open>
  C25: A start that fails, for whatever reason, gives its slot back: the instances of the adapter
  are those from before, so that the same identifier can be started again.
\<close>

theorem failed_start_releases_slot:
  assumes "handle_start F S i config ctx0 = (Inl e, ctx1)"
  shows "mx_qwen ctx1 = mx_qwen ctx0"
  using assms by (elim handle_start_cases start_slot_cases) simp_all

section \<open>Requests of a running instance\<close>

inductive model_request :: "('e, 'f, 'j) mass_config \<Rightarrow> ('p, 'v, 'w, 'f) mass_services \<Rightarrow> uuid \<Rightarrow>
    ('e, 'f, 'p, 'v, 'w) mass_context \<Rightarrow> ('e, 'f, 'p, 'v, 'w) mass_context \<Rightarrow> bool"
  for F S model_id where
  "handle_perturb_up F model_id seed ctx = (r, ctx') \<Longrightarrow> model_request F S model_id ctx ctx'"
| "handle_perturb_down F model_id ctx = (r, ctx') \<Longrightarrow> model_request F S model_id ctx ctx'"
| "handle_optimize F model_id loss_up loss_down ctx = (r, ctx') \<Longrightarrow> model_request F S model_id ctx ctx'"
| "handle_reset F model_id ctx = (r, ctx') \<Longrightarrow> model_request F S model_id ctx ctx'"
| "handle_query_model_params F model_id ctx = (r, ctx') \<Longrightarrow> model_request F S model_id ctx ctx'"
| "handle_infer F S model_id input ctx = (r, ctx') \<Longrightarrow> model_request F S model_id ctx ctx'"
| "handle_qwen_operation_forward F S model_id artifact ctx = (r, ctx') \<Longrightarrow> model_request F S model_id ctx ctx'"
| "handle_checkpoint F S model_id ctx = (r, ctx') \<Longrightarrow> model_request F S model_id ctx ctx'"
| "handle_fuse_weights F S model_id checkpoint_id contribution ctx = (r, ctx') \<Longrightarrow> model_request F S model_id ctx ctx'"

lemma model_request_slot:
  "model_request F S i ctx ctx' \<Longrightarrow> slot_moves (mf_engine F) i (mx_qwen ctx) (mx_qwen ctx')"
  by (induction rule: model_request.induct) (metis slot_intros snd_conv)+

lemma model_requests_slot:
  "(model_request F S i)\<^sup>*\<^sup>* ctx ctx' \<Longrightarrow> slot_moves (mf_engine F) i (mx_qwen ctx) (mx_qwen ctx')"
  by (induction rule: rtranclp_induct) (auto intro: slot_moves_trans model_request_slot)

lemma started_instance:
  assumes "handle_start F S i config ctx0 = (Inr out, ctx1)" and "mf_engine F = logged E"
  obtains inst where "mx_qwen ctx1 i = Some (Running inst)" "snd (mi_engine inst) = []"
    "se_state (mi_session inst) = Idle" "se_running (mi_session inst)"
    "resolve_model_oscillation config = Inr (mi_oscillation inst)"
    "mi_session inst = apply_initial_frozen_oscillation (mi_oscillation inst)
       (session_new (resolve_model_frozen (mf_frozen F) config))"
proof -
  have "start_slot F S i config ctx0 = (Inr out, ctx1)"
    using assms(1) by (rule handle_start_cases) auto
  then show ?thesis
  proof (cases rule: start_slot_cases)
    case (2 source s oscillation engine0 u engine)
    have "snd engine0 = []"
      using 2(5) assms(2) by (auto simp: logged_def split: sum.splits)
    moreover have "snd engine = snd engine0"
      using 2(6) assms(2) by (auto simp: logged_def dest: unlogged_log)
    ultimately show ?thesis
      using 2 by (intro that) (auto simp: apply_initial_frozen_oscillation_def session_new_def split: option.split)
  qed simp
qed

text \<open>
  C21: After a start, every sequence of requests of an instance keeps the perturbation of the
  weights in step with the session. The engine's successful calls are a word of the protocol
  (up, down, update)*, with updates of unperturbed weights allowed: the weights are perturbed
  upwards exactly between an upward and a downward step, and when the session is idle or
  frozen they are not perturbed. No other instance is touched.
\<close>

theorem weights_follow_session:
  assumes "mf_engine F = logged E" and "handle_start F S i config ctx0 = (Inr out, ctx1)"
    and "(model_request F S i)\<^sup>*\<^sup>* ctx1 ctx2"
  shows "(\<exists>inst. mx_qwen ctx2 i = Some (Running inst) \<and> weights_match inst)
    \<and> (\<forall>j. j \<noteq> i \<longrightarrow> mx_qwen ctx2 j = mx_qwen ctx1 j)"
proof -
  obtain inst where inst: "mx_qwen ctx1 i = Some (Running inst)" "snd (mi_engine inst) = []"
    "se_state (mi_session inst) = Idle"
    using started_instance [OF assms(2,1)] by metis
  then have "weights_match inst" by (simp add: weights_match_def Let_def)
  moreover have moves: "slot_moves (logged E) i (mx_qwen ctx1) (mx_qwen ctx2)"
    using model_requests_slot [OF assms(3)] assms(1) by simp
  ultimately show ?thesis
    using slot_moves_running [OF moves inst(1)] slot_moves_other [OF moves] weights_match_steps by blast
qed

text \<open>
  C23: An instance that is started frozen and without a schedule never perturbs or updates its
  weights, whatever requests it serves.
\<close>

theorem frozen_instance_never_trains:
  assumes "mf_engine F = logged E" and "handle_start F S i config ctx0 = (Inr out, ctx1)"
    and "resolve_model_frozen (mf_frozen F) config" and "resolve_model_oscillation config = Inr None"
    and "(model_request F S i)\<^sup>*\<^sup>* ctx1 ctx2"
  shows "\<exists>inst. mx_qwen ctx2 i = Some (Running inst) \<and> snd (mi_engine inst) = [] \<and> se_frozen (mi_session inst)"
proof -
  obtain inst where inst: "mx_qwen ctx1 i = Some (Running inst)" "snd (mi_engine inst) = []"
    "Inr None = (Inr (mi_oscillation inst) :: oscillation_error + _)"
    "mi_session inst = apply_initial_frozen_oscillation (mi_oscillation inst) (session_new True)"
    using started_instance [OF assms(2,1)] assms(3,4) by metis
  then have "stays_frozen inst"
    by (simp add: stays_frozen_def apply_initial_frozen_oscillation_def session_new_def)
  moreover have "slot_moves (logged E) i (mx_qwen ctx1) (mx_qwen ctx2)"
    using model_requests_slot [OF assms(5)] assms(1) by simp
  from slot_moves_running [OF this inst(1)] obtain inst'
    where "mx_qwen ctx2 i = Some (Running inst')" "session_steps (logged E) inst inst'" by blast
  ultimately show ?thesis using stays_frozen_steps unfolding stays_frozen_def by blast
qed

section \<open>Instances\<close>

definition demo_bad_schedule :: "nat mass_model_config" where
  "demo_bad_schedule = demo_model_config\<lparr>mc_oscillation_period_steps := Some 0\<rparr>"

lemma failed_start_releases_slot_witness:
  "\<exists>ctx. handle_start demo_config demo_services 7 (Some demo_bad_schedule) demo_context
      = (Inl (OscillationError (InvalidOscillationPeriodSteps 0)), ctx) \<and> mx_qwen ctx = Map.empty"
proof -
  have "fst (handle_start demo_config demo_services 7 (Some demo_bad_schedule) demo_context)
      = Inl (OscillationError (InvalidOscillationPeriodSteps 0))" by code_simp
  then obtain ctx where ctx: "handle_start demo_config demo_services 7 (Some demo_bad_schedule) demo_context
      = (Inl (OscillationError (InvalidOscillationPeriodSteps 0)), ctx)" by (metis prod.collapse)
  with failed_start_releases_slot [OF ctx] show ?thesis by (simp add: demo_context_def)
qed

lemma demo_engine_logged: "mf_engine demo_config = logged demo_engine"
  by (simp add: demo_config_def)

lemma demo_starts:
  obtains ctx where "handle_start demo_config demo_services 7 None demo_context = (Inr OAck, ctx)"
proof -
  have "fst (handle_start demo_config demo_services 7 None demo_context) = Inr OAck" by code_simp
  then show thesis using that by (metis prod.collapse)
qed

lemma weights_follow_session_witness:
  "\<exists>ctx1 ctx2 inst. handle_start demo_config demo_services 7 None demo_context = (Inr OAck, ctx1)
    \<and> handle_perturb_up demo_config 7 11 ctx1 = (Inr OAck, ctx2)
    \<and> mx_qwen ctx2 7 = Some (Running inst) \<and> weights_match inst"
proof -
  obtain ctx1 where ctx1: "handle_start demo_config demo_services 7 None demo_context = (Inr OAck, ctx1)"
    by (rule demo_starts)
  have "fst (handle_perturb_up demo_config 7 11
      (snd (handle_start demo_config demo_services 7 None demo_context))) = Inr OAck" by code_simp
  then obtain ctx2 where ctx2: "handle_perturb_up demo_config 7 11 ctx1 = (Inr OAck, ctx2)"
    using ctx1 by (metis prod.collapse snd_conv)
  then have "(model_request demo_config demo_services 7)\<^sup>*\<^sup>* ctx1 ctx2" by (auto intro: model_request.intros)
  with weights_follow_session [OF demo_engine_logged ctx1] ctx1 ctx2 show ?thesis by blast
qed

lemma frozen_instance_never_trains_witness:
  "\<exists>ctx1 ctx2 inst. handle_start (demo_config\<lparr>mf_frozen := True\<rparr>) demo_services 7 None demo_context = (Inr OAck, ctx1)
    \<and> handle_perturb_up (demo_config\<lparr>mf_frozen := True\<rparr>) 7 11 ctx1 = (Inr OAck, ctx2)
    \<and> mx_qwen ctx2 7 = Some (Running inst) \<and> snd (mi_engine inst) = []"
proof -
  let ?F = "demo_config\<lparr>mf_frozen := True\<rparr>"
  have "fst (handle_start ?F demo_services 7 None demo_context) = Inr OAck"
    "fst (handle_perturb_up ?F 7 11 (snd (handle_start ?F demo_services 7 None demo_context))) = Inr OAck"
    by code_simp+
  then obtain ctx1 ctx2 where ctx: "handle_start ?F demo_services 7 None demo_context = (Inr OAck, ctx1)"
    "handle_perturb_up ?F 7 11 ctx1 = (Inr OAck, ctx2)"
    by (metis prod.collapse snd_conv)
  have "mf_engine ?F = logged demo_engine" "resolve_model_frozen (mf_frozen ?F) None"
    "resolve_model_oscillation (None :: nat mass_model_config option) = Inr None"
    by (simp_all add: demo_config_def resolve_model_frozen_def resolve_model_oscillation_def)
  moreover have "(model_request ?F demo_services 7)\<^sup>*\<^sup>* ctx1 ctx2" using ctx by (auto intro: model_request.intros)
  ultimately show ?thesis using frozen_instance_never_trains [OF _ ctx(1)] ctx by blast
qed

end
