(* ===== verification/Mass_Inference.thy ===== *)
theory Mass_Inference
  imports Mass_Training
begin

text \<open>
  The effect of an inference on the session, a whole round of zeroth-order training, and the
  temporary files that failed restores and fusions leave behind.
\<close>

section \<open>The outcome of an inference\<close>

text \<open>The engine after at most one prediction.\<close>

definition predicted_engine :: "('e, 'f) engine_ops \<Rightarrow> 'e \<Rightarrow> 'e \<Rightarrow> bool" where
  "predicted_engine E e e' \<longleftrightarrow> e' = e \<or> (\<exists>seqs p. en_predict E seqs e = (p, e'))"

text \<open>The instance after a request: its state only moves when the request succeeds.\<close>

definition infer_outcome :: "('e, 'f) engine_ops \<Rightarrow> uuid \<Rightarrow> ('e, 'f) mass_instance \<Rightarrow> (mass_error + mass_out) \<times>
    ('e, 'f, 'p, 'v, 'w) mass_context \<Rightarrow> bool" where
  "infer_outcome E i inst m \<longleftrightarrow>
     (\<exists>e. predicted_engine E (mi_engine inst) e \<and> mx_qwen (snd m) i = Some (Running
        (case fst m of
           Inl _ \<Rightarrow> inst\<lparr>mi_engine := e\<rparr>
         | Inr _ \<Rightarrow> set_state (after_inference (se_state (mi_session inst))) (inst\<lparr>mi_engine := e\<rparr>))))"

lemma chain_infer_outcome:
  assumes "mx_qwen (snd m) i = Some (Running (inst\<lparr>mi_engine := e\<rparr>))" and "predicted_engine E (mi_engine inst) e"
    and "\<And>x s. m = (Inr x, s) \<Longrightarrow> mx_qwen s i = Some (Running (inst\<lparr>mi_engine := e\<rparr>)) \<Longrightarrow> infer_outcome E i inst (f x s)"
  shows "infer_outcome E i inst (chain m f)"
  using assms by (cases m; cases "fst m") (auto simp: infer_outcome_def)

lemma chain_infer_same:
  assumes "mx_qwen (snd m) i = Some (Running inst)"
    and "\<And>x s. m = (Inr x, s) \<Longrightarrow> mx_qwen s i = Some (Running inst) \<Longrightarrow> infer_outcome E i inst (f x s)"
  shows "infer_outcome E i inst (chain m f)"
  using assms by (intro chain_infer_outcome [where e = "mi_engine inst"]) (simp_all add: predicted_engine_def)

lemma finish_inference_outcome:
  assumes q: "mx_qwen s i = Some (Running (inst\<lparr>mi_engine := e\<rparr>))" and e: "predicted_engine E (mi_engine inst) e"
  shows "infer_outcome E i inst (finish_inference F void i (results, inst\<lparr>mi_engine := e\<rparr>) s)"
  unfolding finish_inference_def prod.case
  by (intro chain_infer_outcome [OF _ e]) (use e in \<open>auto simp: q infer_outcome_def\<close>)

lemma batched_outcome:
  assumes q: "mx_qwen s i = Some (Running inst)"
  shows "infer_outcome (mf_engine F) i inst
    (chain (run_batched_inference F i inst seqs l s) (finish_inference F void i))"
proof -
  let ?f = "\<lambda>e. if l = 0 then (Inr [], e) else en_predict (mf_engine F) seqs e"
  obtain r1 s1 where c: "engine_call ?f i inst s = (r1, s1)" by fastforce
  obtain u e where e: "?f (mi_engine inst) = (u, e)" "mx_qwen s1 = (mx_qwen s)(i \<mapsto> Running (inst\<lparr>mi_engine := e\<rparr>))"
    "\<And>x inst'. r1 = Inr (x, inst') \<Longrightarrow> inst' = inst\<lparr>mi_engine := e\<rparr>"
    using engine_call_slots [OF c] by metis
  have p: "predicted_engine (mf_engine F) (mi_engine inst) e"
    using e(1) by (auto simp: predicted_engine_def split: if_splits)
  obtain r2 s2 where r: "run_batched_inference F i inst seqs l s = (r2, s2)" by fastforce
  have 2: "s2 = s1" "\<And>x inst'. r2 = Inr (x, inst') \<Longrightarrow> inst' = inst\<lparr>mi_engine := e\<rparr>"
    using r c e(3) unfolding run_batched_inference_def c
    by (cases r1; auto simp: result_simps split: prod.splits)+
  show ?thesis unfolding r
    by (rule chain_infer_outcome [OF _ p]) (use e(2) 2 p in \<open>auto intro!: finish_inference_outcome\<close>)
qed

lemma handle_infer_outcome:
  assumes "mx_qwen ctx i = Some (Running inst)"
  shows "infer_outcome (mf_engine F) i inst (handle_infer F S i input ctx)"
proof -
  have got: "get_instance i ctx = Inr inst" using assms by (simp add: get_instance_def)
  show ?thesis unfolding handle_infer_def got chain_simps Let_def
    apply (rule chain_infer_same, simp add: assms)+
    apply (simp split: prod.split)
    apply (blast intro: batched_outcome)
    done
qed

text \<open>
  An inference request on a running instance makes at most one prediction; when it fails,
  nothing else about the instance changes, and when it succeeds, the session moves on to the
  next step of the round.
\<close>

theorem infer_advances_session:
  assumes "mx_qwen ctx i = Some (Running inst)" and "handle_infer F S i input ctx = (r, ctx')"
  shows "\<exists>e. predicted_engine (mf_engine F) (mi_engine inst) e \<and> mx_qwen ctx' i = Some (Running
    (case r of
       Inl _ \<Rightarrow> inst\<lparr>mi_engine := e\<rparr>
     | Inr _ \<Rightarrow> set_state (after_inference (se_state (mi_session inst))) (inst\<lparr>mi_engine := e\<rparr>)))"
  using handle_infer_outcome [OF assms(1)] assms(2) by (metis infer_outcome_def fst_conv snd_conv)

section \<open>A round of training\<close>

definition reliable :: "('e, 'f) engine_ops \<Rightarrow> bool" where
  "reliable E \<longleftrightarrow> (\<forall>e seed up down. fst (en_perturb_up E seed e) = Inr () \<and> fst (en_perturb_down E e) = Inr ()
     \<and> fst (en_reset_state E e) = Inr () \<and> fst (en_update E up down e) = Inr ())"

text \<open>A running instance in a state of the session, with the calls its engine has logged.\<close>

definition in_state :: "('e \<times> weight_call list, 'f, 'p, 'v, 'w) mass_context \<Rightarrow> uuid \<Rightarrow> mass_session \<Rightarrow>
    frozen_oscillation option \<Rightarrow> weight_call list \<Rightarrow> bool" where
  "in_state ctx i session osc log \<longleftrightarrow> (\<exists>inst. mx_qwen ctx i = Some (Running inst) \<and> mi_session inst = session
     \<and> mi_oscillation inst = osc \<and> snd (mi_engine inst) = log)"

definition inference_ok :: "('e, 'f, 'j) mass_config \<Rightarrow> ('p, 'v, 'w, 'f) mass_services \<Rightarrow> uuid \<Rightarrow>
    ('e, 'f, 'p, 'v, 'w) mass_context \<Rightarrow> ('e, 'f, 'p, 'v, 'w) mass_context \<Rightarrow> bool" where
  "inference_ok F S i ctx ctx' \<longleftrightarrow> (\<exists>input out. handle_infer F S i input ctx = (Inr out, ctx'))"

lemma infer_in_state:
  assumes "inference_ok F S i ctx ctx'" and "mf_engine F = logged E" and "in_state ctx i session osc log"
  shows "in_state ctx' i (session\<lparr>se_state := after_inference (se_state session)\<rparr>) osc log"
proof -
  obtain input out where ok: "handle_infer F S i input ctx = (Inr out, ctx')"
    using assms(1) by (auto simp: inference_ok_def)
  obtain inst where inst: "mx_qwen ctx i = Some (Running inst)" "mi_session inst = session"
    "mi_oscillation inst = osc" "snd (mi_engine inst) = log" using assms(3) by (auto simp: in_state_def)
  obtain e where e: "predicted_engine (logged E) (mi_engine inst) e"
    "mx_qwen ctx' i = Some (Running (set_state (after_inference (se_state session)) (inst\<lparr>mi_engine := e\<rparr>)))"
    using handle_infer_outcome [OF inst(1), of F S input] ok assms(2) inst(2) by (auto simp: infer_outcome_def)
  have "snd e = log" using e(1) inst(4) by (auto simp: predicted_engine_def dest: unlogged_engine(3))
  with e(2) inst(2,3) show ?thesis by (simp add: in_state_def set_state_def)
qed

lemma infers_in_state:
  assumes "(inference_ok F S i)\<^sup>+\<^sup>+ ctx ctx'" and "mf_engine F = logged E" and "in_state ctx i session osc log"
  shows "in_state ctx' i (session\<lparr>se_state := after_inference (se_state session)\<rparr>) osc log"
  using assms(1,3)
proof (induction rule: tranclp_induct)
  case (base ctx')
  then show ?case using infer_in_state assms(2) by blast
next
  case (step ctx1 ctx2)
  have "after_inference (after_inference s) = after_inference s" for s by (cases s) simp_all
  with infer_in_state [OF step(2) assms(2) step.IH [OF step.prems]] show ?case by simp
qed

lemma reliable_calls:
  assumes "reliable E"
  shows "en_perturb_up (logged E) seed x = (r, y) \<Longrightarrow> r = Inr () \<and> snd y = snd x @ [CallUp]"
    and "en_perturb_down (logged E) x = (r, y) \<Longrightarrow> r = Inr () \<and> snd y = snd x @ [CallDown]"
    and "en_reset_state (logged E) x = (r, y) \<Longrightarrow> r = Inr () \<and> snd y = snd x"
    and "en_update (logged E) up down x = (r, y) \<Longrightarrow> r = Inr () \<and> snd y = snd x @ [CallUpdate]"
  using assms
  by (cases x; auto simp: logged_def logged_call_def unlogged_def reliable_def Let_def
      split: prod.splits sum.splits; metis fst_conv sum.distinct(1))+

lemma step_in_state:
  assumes "in_state ctx i session osc log"
    and "\<And>inst r inst'. mi_session inst = session \<Longrightarrow> mi_oscillation inst = osc \<Longrightarrow> snd (mi_engine inst) = log \<Longrightarrow>
      step inst = (r, inst') \<Longrightarrow>
      r = Inr () \<and> mi_session inst' = session' \<and> mi_oscillation inst' = osc \<and> snd (mi_engine inst') = log'"
    and "instance_step i step ctx = (r, ctx')"
  shows "r = Inr OAck \<and> in_state ctx' i session' osc log'"
proof -
  obtain inst where inst: "get_instance i ctx = Inr inst" "mi_session inst = session" "mi_oscillation inst = osc"
    "snd (mi_engine inst) = log" using assms(1) by (auto simp: in_state_def get_instance_Inr)
  obtain u inst' where step: "step inst = (u, inst')" by fastforce
  from assms(2) [OF inst(2-4) step] inst(1) step assms(3) show ?thesis
    by (auto simp: instance_step_def Let_def in_state_def)
qed

abbreviation trained :: "mass_session \<Rightarrow> weight_call list \<Rightarrow> weight_call list" where
  "trained session calls \<equiv> (if se_frozen session then [] else calls)"

lemma perturb_up_in_state:
  assumes "reliable E" and "se_running session" and "se_state session = Idle" and "mf_engine F = logged E"
    and "in_state ctx i session osc log" and "handle_perturb_up F i seed ctx = (r, ctx')"
  shows "r = Inr OAck \<and> in_state ctx' i (session\<lparr>se_state := PostPerturbUp\<rparr>) osc (log @ trained session [CallUp])"
  by (rule step_in_state [OF assms(5) _ assms(6) [unfolded handle_perturb_up_def assms(4)]])
     (use assms(1-3) in \<open>auto simp: perturb_up_step_def unless_frozen_def set_state_def Let_def
        split: prod.splits sum.splits dest!: reliable_calls(1) [OF assms(1)]\<close>)

lemma perturb_down_in_state:
  assumes "reliable E" and "se_running session" and "se_state session = AwaitingPerturbDown"
    and "mf_engine F = logged E"
    and "in_state ctx i session osc log" and "handle_perturb_down F i ctx = (r, ctx')"
  shows "r = Inr OAck \<and> in_state ctx' i (session\<lparr>se_state := PostPerturbDown\<rparr>) osc (log @ trained session [CallDown])"
  by (rule step_in_state [OF assms(5) _ assms(6) [unfolded handle_perturb_down_def assms(4)]])
     (use assms(1-3) in \<open>auto simp: perturb_down_step_def unless_frozen_def set_state_def Let_def
        split: prod.splits sum.splits dest!: reliable_calls(2) [OF assms(1)]\<close>)

lemma optimize_in_state:
  assumes "reliable E" and "se_running session" and "se_state session = AwaitingOptimize"
    and "mf_engine F = logged E"
    and "in_state ctx i session osc log" and "handle_optimize F i loss_up loss_down ctx = (r, ctx')"
  shows "r = Inr OAck \<and> in_state ctx' i (apply_frozen_oscillation osc (session\<lparr>se_state := Idle\<rparr>)) osc
    (log @ trained session [CallUpdate])"
  by (rule step_in_state [OF assms(5) _ assms(6) [unfolded handle_optimize_def assms(4)]])
     (use assms(1-3) in \<open>auto simp: optimize_step_def unless_frozen_def set_state_def Let_def
        split: prod.splits sum.splits dest!: reliable_calls(3,4) [OF assms(1)]\<close>)

text \<open>
  C22: A whole round of zeroth-order training on a reliable engine is acknowledged step by step:
  upward perturbation, one or more inferences, downward perturbation, one or more inferences,
  update. It ends in the idle state with exactly one upward, one downward and one update call
  on the engine, or none when the instance is frozen, and with the schedule advanced once.
\<close>

theorem training_round:
  assumes "mf_engine F = logged E" and "reliable E"
    and "in_state ctx0 i session osc log" and "se_running session" and "se_state session = Idle"
    and "handle_perturb_up F i seed ctx0 = (r1, ctx1)" and "(inference_ok F S i)\<^sup>+\<^sup>+ ctx1 ctx2"
    and "handle_perturb_down F i ctx2 = (r2, ctx3)" and "(inference_ok F S i)\<^sup>+\<^sup>+ ctx3 ctx4"
    and "handle_optimize F i loss_up loss_down ctx4 = (r3, ctx5)"
  shows "r1 = Inr OAck \<and> r2 = Inr OAck \<and> r3 = Inr OAck
    \<and> in_state ctx5 i (apply_frozen_oscillation osc session) osc
        (log @ trained session [CallUp, CallDown, CallUpdate])"
proof -
  note up = perturb_up_in_state [OF assms(2,4,5,1,3,6)]
  note up_inf = infers_in_state [OF assms(7,1) up [THEN conjunct2]]
  note down = perturb_down_in_state [OF assms(2) _ _ assms(1) up_inf assms(8)]
  note down_inf = infers_in_state [OF assms(9,1) down [THEN conjunct2]]
  note opt = optimize_in_state [OF assms(2) _ _ assms(1) down_inf assms(10)]
  have "session\<lparr>se_state := Idle\<rparr> = session" using assms(5) by (cases session) simp
  with up down opt assms(4,5) show ?thesis by (auto split: if_splits)
qed

section \<open>Files that are left behind\<close>

lemma write_file_kept: "mx_files (set_slot i slot ctx) = mx_files ctx"
  by (simp add: set_slot_def)

text \<open>
  When the download of a checkpoint fails in the middle, the start fails and leaves the
  partial file in the checkpoint directory.
\<close>

theorem failed_restore_leaves_file:
  assumes "mc_checkpoint_id config = Some checkpoint" and "mc_required_architecture config = None"
    and "mf_tokenizer_path F = Some tokenizer" and "mf_checkpoint_dir F = Some dir" and "mv_void S = Some void"
    and "mx_qwen ctx i = None"
    and "vc_download_to_file void checkpoint (mx_void ctx) = (Inl m, Some partial_data, v)"
  shows "\<exists>ctx'. handle_start F S i (Some config) ctx = (Inl (VoidError m), ctx')
    \<and> mx_qwen ctx' = mx_qwen ctx
    \<and> mx_files ctx' (checkpoint_file_name F dir i ''-'' checkpoint) = Some partial_data"
  using assms
  by (auto simp: handle_start_def start_slot_def resolve_model_source_def require_void_client_def
      download_checkpoint_def Let_def set_slot_def ok_or_def)

text \<open>
  A fusion on a server without a Void service writes the weights of the instance to a file
  and then fails, leaving that file behind.
\<close>

theorem fuse_without_void_leaves_file:
  assumes "mv_void S = None" and "mx_qwen ctx i = Some (Running inst)"
    and "se_running (mi_session inst)" and "se_state (mi_session inst) = Idle"
    and "en_save_checkpoint (mf_engine F) (mi_engine inst) = (Inr (path, weights), e)"
  shows "\<exists>ctx' error. handle_fuse_weights F S i checkpoint contribution ctx = (Inl error, ctx')
    \<and> mx_files ctx' path = Some weights"
  using assms
  by (auto simp: handle_fuse_weights_def get_instance_def ensure_running_def ensure_def
      save_model_checkpoint_def engine_call_def fuse_with_checkpoint_def require_void_client_def ok_or_def Let_def)

text \<open>
  An inference on an idle instance makes it wait for an update, which then changes weights
  that were never perturbed.
\<close>

theorem idle_inference_allows_update:
  assumes "mf_engine F = logged E" and "reliable E"
    and "in_state ctx0 i session osc log" and "se_running session" and "se_state session = Idle"
    and "\<not> se_frozen session"
    and "inference_ok F S i ctx0 ctx1" and "handle_optimize F i loss_up loss_down ctx1 = (r, ctx2)"
  shows "r = Inr OAck \<and> in_state ctx2 i (apply_frozen_oscillation osc session) osc (log @ [CallUpdate])"
proof -
  note inf = infer_in_state [OF assms(7,1,3)]
  have "session\<lparr>se_state := Idle\<rparr> = session" using assms(5) by (cases session) simp
  with optimize_in_state [OF assms(2) _ _ assms(1) inf assms(8)] assms(4-6) show ?thesis by simp
qed

section \<open>Instances\<close>

definition round_start :: "(unit \<times> weight_call list, nat, unit, bytes list, unit) mass_context" where
  "round_start = snd (handle_start demo_config demo_services 7 None (demo_context\<lparr>mx_void := [[0]]\<rparr>))"

definition round_up :: "(unit \<times> weight_call list, nat, unit, bytes list, unit) mass_context" where
  "round_up = snd (handle_perturb_up demo_config 7 11 round_start)"

definition round_up_infer :: "(unit \<times> weight_call list, nat, unit, bytes list, unit) mass_context" where
  "round_up_infer = snd (handle_infer demo_config demo_services 7 0 round_up)"

definition round_down :: "(unit \<times> weight_call list, nat, unit, bytes list, unit) mass_context" where
  "round_down = snd (handle_perturb_down demo_config 7 round_up_infer)"

definition round_down_infer :: "(unit \<times> weight_call list, nat, unit, bytes list, unit) mass_context" where
  "round_down_infer = snd (handle_infer demo_config demo_services 7 0 round_down)"

definition round_end :: "(unit \<times> weight_call list, nat, unit, bytes list, unit) mass_context" where
  "round_end = snd (handle_optimize demo_config 7 3 4 round_down_infer)"

lemma round_infers:
  "inference_ok demo_config demo_services 7 round_up round_up_infer"
  "inference_ok demo_config demo_services 7 round_down round_down_infer"
  "inference_ok demo_config demo_services 7 round_start (snd (handle_infer demo_config demo_services 7 0 round_start))"
proof -
  have "fst (handle_infer demo_config demo_services 7 0 round_up) = Inr (OInvoked (OpCommitted 1))"
    "fst (handle_infer demo_config demo_services 7 0 round_down) = Inr (OInvoked (OpCommitted 2))"
    "fst (handle_infer demo_config demo_services 7 0 round_start) = Inr (OInvoked (OpCommitted 1))"
    by code_simp+
  then show "inference_ok demo_config demo_services 7 round_up round_up_infer"
    "inference_ok demo_config demo_services 7 round_down round_down_infer"
    "inference_ok demo_config demo_services 7 round_start (snd (handle_infer demo_config demo_services 7 0 round_start))"
    unfolding inference_ok_def round_up_infer_def round_down_infer_def by (metis prod.collapse)+
qed

lemma round_start_state: "in_state round_start 7 (session_new False) None []"
proof -
  have "(case mx_qwen round_start 7 of Some (Running inst) \<Rightarrow> mi_session inst = session_new False
      \<and> mi_oscillation inst = None \<and> snd (mi_engine inst) = [] | _ \<Rightarrow> False)" by code_simp
  then show ?thesis by (auto simp: in_state_def split: option.splits model_slot.splits)
qed

lemma demo_engine_reliable: "reliable demo_engine"
  by (simp add: reliable_def demo_engine_def)

lemma training_round_witness:
  "in_state round_end 7 (session_new False) None [CallUp, CallDown, CallUpdate]"
proof -
  obtain r1 r2 r3 where "handle_perturb_up demo_config 7 11 round_start = (r1, round_up)"
    "handle_perturb_down demo_config 7 round_up_infer = (r2, round_down)"
    "handle_optimize demo_config 7 3 4 round_down_infer = (r3, round_end)"
    unfolding round_up_def round_down_def round_end_def by (metis prod.collapse)
  moreover have "(inference_ok demo_config demo_services 7)\<^sup>+\<^sup>+ round_up round_up_infer"
    "(inference_ok demo_config demo_services 7)\<^sup>+\<^sup>+ round_down round_down_infer"
    using round_infers by blast+
  ultimately have "in_state round_end 7 (apply_frozen_oscillation None (session_new False)) None
      ([] @ trained (session_new False) [CallUp, CallDown, CallUpdate])"
    by (intro training_round [OF demo_engine_logged demo_engine_reliable round_start_state,
          THEN conjunct2, THEN conjunct2, THEN conjunct2]) (simp_all add: session_new_def)
  then show ?thesis by (simp add: session_new_def apply_frozen_oscillation_def)
qed

lemma idle_inference_allows_update_witness:
  "\<exists>ctx. handle_optimize demo_config 7 3 4 (snd (handle_infer demo_config demo_services 7 0 round_start)) = (Inr OAck, ctx)
    \<and> in_state ctx 7 (session_new False) None [CallUpdate]"
proof -
  obtain r ctx where opt: "handle_optimize demo_config 7 3 4
      (snd (handle_infer demo_config demo_services 7 0 round_start)) = (r, ctx)" by fastforce
  from idle_inference_allows_update [OF demo_engine_logged demo_engine_reliable round_start_state _ _ _
      round_infers(3) opt] opt
  show ?thesis by (auto simp: session_new_def apply_frozen_oscillation_def)
qed

lemma infer_advances_session_witness:
  "\<exists>inst ctx'. mx_qwen round_up 7 = Some (Running inst) \<and> se_state (mi_session inst) = PostPerturbUp
    \<and> handle_infer demo_config demo_services 7 5 round_up = (Inl (VoidError ''not found''), ctx')
    \<and> (\<exists>e. mx_qwen ctx' 7 = Some (Running (inst\<lparr>mi_engine := e\<rparr>)))"
proof -
  have "(case mx_qwen round_up 7 of Some (Running inst) \<Rightarrow> se_state (mi_session inst) = PostPerturbUp | _ \<Rightarrow> False)"
    "fst (handle_infer demo_config demo_services 7 5 round_up) = Inl (VoidError ''not found'')"
    by code_simp+
  then obtain inst ctx' where *: "mx_qwen round_up 7 = Some (Running inst)" "se_state (mi_session inst) = PostPerturbUp"
    "handle_infer demo_config demo_services 7 5 round_up = (Inl (VoidError ''not found''), ctx')"
    by (auto split: option.splits model_slot.splits) (metis prod.collapse)
  with infer_advances_session [OF *(1,3)] show ?thesis by auto
qed

definition demo_restore :: "nat mass_model_config" where
  "demo_restore = demo_model_config\<lparr>mc_checkpoint_id := Some 5\<rparr>"

lemma failed_restore_leaves_file_witness:
  "\<exists>ctx. handle_start demo_config demo_services 7 (Some demo_restore) demo_context = (Inl (VoidError ''not found''), ctx)
    \<and> mx_files ctx ''/tmp/7-5.gguf'' = Some []"
proof -
  have "checkpoint_file_name demo_config ''/tmp'' 7 ''-'' 5 = ''/tmp/7-5.gguf''" by code_simp
  with failed_restore_leaves_file [of demo_restore 5 demo_config "''tokenizer.json''" "''/tmp''" demo_services demo_void
      demo_context 7 "''not found''" "[]" "[]"]
  show ?thesis
    by (auto simp: demo_restore_def demo_model_config_def demo_config_def demo_services_def demo_context_def
        demo_void_def nth_get_def)
qed

lemma fuse_without_void_leaves_file_witness:
  "\<exists>ctx error. handle_fuse_weights demo_config (demo_services\<lparr>mv_void := None\<rparr>) 7 5 1 round_start = (Inl error, ctx)
    \<and> mx_files ctx ''/tmp/saved.gguf'' = Some [1, 2]"
proof -
  obtain inst where "mx_qwen round_start 7 = Some (Running inst)" "mi_session inst = session_new False"
    using round_start_state by (auto simp: in_state_def)
  then show ?thesis
    by (intro fuse_without_void_leaves_file [where e = "mi_engine inst"])
       (auto simp: session_new_def demo_services_def demo_config_def logged_def demo_engine_def unlogged_def
          split: prod.splits)
qed

end
