(* ===== verification/Mass_Schedule.thy ===== *)
theory Mass_Schedule
  imports Mass_Demo
begin

text \<open>
  The train/freeze schedule of a Qwen instance. Between the end of the warm-up and the end of
  the counter the schedule is periodic and trains the configured share of every period; the
  flag in force lags the schedule by one update.
\<close>

section \<open>Residues\<close>

lemma residue_le:
  assumes "(c + x) mod p = (c + y) mod p" and "x \<le> y" and "y < (p::nat)"
  shows "x = y"
proof -
  have "p dvd (c + y) - (c + x)" using assms(1,2) by (metis add_le_mono1 add.commute mod_eq_dvd_iff_nat)
  with assms(2,3) show ?thesis by (auto dest: dvd_imp_le)
qed

lemma residues_of_window:
  assumes "0 < (p::nat)"
  shows "(\<lambda>k. (c + k) mod p) ` {..<p} = {..<p}" and "inj_on (\<lambda>k. (c + k) mod p) {..<p}"
proof -
  show inj: "inj_on (\<lambda>k. (c + k) mod p) {..<p}"
  proof (rule inj_onI)
    fix x y assume *: "x \<in> {..<p}" "y \<in> {..<p}" "(c + x) mod p = (c + y) mod p"
    then show "x = y" using residue_le [of c x p y] residue_le [of c y p x] by (cases "x \<le> y") auto
  qed
  have "(\<lambda>k. (c + k) mod p) ` {..<p} \<subseteq> {..<p}" using assms by auto
  with inj show "(\<lambda>k. (c + k) mod p) ` {..<p} = {..<p}"
    by (metis endo_inj_surj finite_lessThan)
qed

lemma window_count:
  assumes "0 < (p::nat)" and "t \<le> p"
  shows "card {k. k < p \<and> (c + k) mod p < t} = t"
proof -
  let ?f = "\<lambda>k. (c + k) mod p"
  have "?f ` {k. k < p \<and> ?f k < t} = {..<t}"
    using residues_of_window(1) [OF assms(1), of c] assms(2) by (auto simp: set_eq_iff image_iff) (metis lessThan_iff order_less_le_trans)
  moreover have "inj_on ?f {k. k < p \<and> ?f k < t}"
    by (rule inj_on_subset [OF residues_of_window(2) [OF assms(1)]]) auto
  ultimately show ?thesis by (metis card_image card_lessThan)
qed

section \<open>The schedule\<close>

lemma frozen_state_after_warmup:
  assumes "unat (fo_warmup_steps osc) + 1 + n < 2 ^ 32"
    and "n + unat (fo_phase_steps osc mod fo_period_steps osc) < 2 ^ 32"
  shows "frozen_state_for_optimize_step (of_nat (unat (fo_warmup_steps osc) + 1 + n)) osc =
    Some (\<not> (n + unat (fo_phase_steps osc) mod unat (fo_period_steps osc)) mod unat (fo_period_steps osc)
      < unat (fo_train_steps osc))"
proof -
  define s :: u32 where "s = of_nat (unat (fo_warmup_steps osc) + 1 + n)"
  have s: "unat s = unat (fo_warmup_steps osc) + 1 + n"
    unfolding s_def using assms(1) by (subst unat_of_nat) simp
  have rel: "s - fo_warmup_steps osc - 1 = of_nat n" by (simp add: s_def)
  have n: "unat (of_nat n :: u32) = n" using assms(1) by (simp add: unat_of_nat take_bit_nat_eq_self_iff)
  have add: "unat (of_nat n + fo_phase_steps osc mod fo_period_steps osc :: u32)
      = n + unat (fo_phase_steps osc) mod unat (fo_period_steps osc)"
    using assms(2) n by (simp add: unat_add_lem [THEN iffD1] unat_mod_distrib)
  have "\<not> s \<le> fo_warmup_steps osc" using s by (simp add: word_le_nat_alt)
  then show ?thesis unfolding s_def [symmetric]
    by (simp add: frozen_state_for_optimize_step_def Let_def rel add unat_mod_distrib word_less_nat_alt)
qed


definition demo_schedule :: "nat mass_model_config" where
  "demo_schedule = demo_model_config\<lparr>mc_oscillation_period_steps := Some 10, mc_oscillation_train_steps := Some 3,
     mc_oscillation_phase_steps := Some 4, mc_oscillation_warmup_steps := Some 20\<rparr>"

definition demo_oscillation :: frozen_oscillation where
  "demo_oscillation = \<lparr>fo_period_steps = 10, fo_train_steps = 3, fo_phase_steps = 4, fo_warmup_steps = 20\<rparr>"

lemma demo_schedule_resolves: "resolve_model_oscillation (Some demo_schedule) = Inr (Some demo_oscillation)"
  by (simp add: resolve_model_oscillation_def demo_schedule_def demo_model_config_def demo_oscillation_def
      unwrap_or_default_def)


section \<open>The flag in force\<close>

text \<open>The session after a number of updates that have all succeeded, as the schedule moves it.\<close>

lemma scheduled_session:
  assumes "Suc n < 2 ^ 32"
  shows "((apply_frozen_oscillation (Some osc)) ^^ n) (apply_initial_frozen_oscillation (Some osc) (session_new frozen))
    = (let s = apply_initial_frozen_oscillation (Some osc) (session_new frozen) in
       s\<lparr>se_optimize_steps := of_nat n, se_frozen :=
           (if of_nat n \<le> fo_warmup_steps osc then se_frozen s
            else the (frozen_state_for_optimize_step (of_nat n) osc))\<rparr>)"
  using assms
proof (induction n)
  case 0
  then show ?case
    by (simp add: apply_initial_frozen_oscillation_def session_new_def Let_def split: option.split)
next
  case (Suc n)
  define s where "s = apply_initial_frozen_oscillation (Some osc) (session_new frozen)"
  have n: "unat (of_nat n :: u32) = n" using Suc.prems by (subst unat_of_nat) simp
  have step: "sat_add (of_nat n) 1 = (of_nat (Suc n) :: u32)"
    using Suc.prems n by (simp add: sat_add_def)
  have less: "(of_nat n :: u32) < of_nat (Suc n)"
    using Suc.prems n by (subst word_less_nat_alt, subst (2) unat_of_nat) simp
  show ?case
    using Suc less
    by (simp add: s_def [symmetric] Let_def apply_frozen_oscillation_def step frozen_state_for_optimize_step_def
        del: of_nat_Suc)
qed

text \<open>
  With a schedule that has no warm-up, the first and the second update of an instance are
  both governed by the first entry of the schedule: the flag in force for update n+1 is entry
  n, except that entry 1 also governs the very first update. So the first period lasts one
  update longer than configured.
\<close>

theorem schedule_lags_one_update:
  assumes "fo_warmup_steps osc = 0" and "Suc n < 2 ^ 32"
  shows "frozen_state_for_optimize_step (of_nat (max 1 n)) osc
    = Some (se_frozen (((apply_frozen_oscillation (Some osc)) ^^ n)
        (apply_initial_frozen_oscillation (Some osc) (session_new frozen))))"
proof (cases n)
  case 0
  then show ?thesis using assms(1)
    by (simp add: apply_initial_frozen_oscillation_def frozen_state_for_optimize_step_def Let_def)
next
  case (Suc m)
  have "unat (of_nat n :: u32) = n" using assms(2) by (subst unat_of_nat) simp
  then have "\<not> (of_nat n :: u32) \<le> fo_warmup_steps osc" using Suc assms(1) by auto
  moreover have "max 1 n = n" using Suc by simp
  ultimately show ?thesis
    unfolding scheduled_session [OF assms(2)] by (simp add: Let_def frozen_state_for_optimize_step_def)
qed

definition demo_alternation :: frozen_oscillation where
  "demo_alternation = \<lparr>fo_period_steps = 3, fo_train_steps = 1, fo_phase_steps = 0, fo_warmup_steps = 0\<rparr>"

text \<open>One step in three is to train, but the first two updates do.\<close>

lemma schedule_lags_one_update_witness:
  "map (\<lambda>n. se_frozen (((apply_frozen_oscillation (Some demo_alternation)) ^^ n)
     (apply_initial_frozen_oscillation (Some demo_alternation) (session_new False)))) [0, 1, 2] = [False, False, True]"
proof -
  have "fo_warmup_steps demo_alternation = 0" by (simp add: demo_alternation_def)
  note lags = schedule_lags_one_update [OF this, where frozen = False]
  have "frozen_state_for_optimize_step (of_nat (max 1 0)) demo_alternation = Some False"
    "frozen_state_for_optimize_step (of_nat (max 1 1)) demo_alternation = Some False"
    "frozen_state_for_optimize_step (of_nat (max 1 2)) demo_alternation = Some True"
    by (simp_all add: frozen_state_for_optimize_step_def demo_alternation_def)
  with lags [of 0] lags [of 1] lags [of 2] show ?thesis by (simp del: funpow.simps)
qed

end
