(* ===== verification/Placement_Proofs.thy ===== *)
theory Placement_Proofs
  imports Mass_Demo
begin

text \<open>
  The placement of a new instance: among the local server and the registered workers that can
  serve the requested operation and still have room, the selection takes one with the fewest
  instances, and it fails only when there is none.
\<close>

section \<open>Candidates\<close>

text \<open>
  A specification without loops: the targets that are considered, in the order of preference,
  with the number of instances that are routed to each of them.
\<close>

definition worker_candidates :: "operation_capability \<Rightarrow> mass_architecture option \<Rightarrow> (uuid \<times> route_target) list \<Rightarrow>
    tunnel_worker list \<Rightarrow> (route_target \<times> nat) list" where
  "worker_candidates requested required routes ws =
     [(RouteWorker (tw_token w), worker_count routes (tw_token w)).
        w \<leftarrow> ws, capabilities_eligible (tw_capabilities w) requested required
          \<and> has_capacity (tw_max_instances w) (worker_count routes (tw_token w))]"

definition local_candidates :: "('e, 'f, 'j) mass_config \<Rightarrow> ('p, 'v, 'w, 'f) mass_services \<Rightarrow> operation_capability \<Rightarrow>
    mass_architecture option \<Rightarrow> (uuid \<times> route_target) list \<Rightarrow> (route_target \<times> nat) list" where
  "local_candidates F S requested required routes =
     (if capabilities_eligible (local_worker_capabilities F S) requested required
         \<and> has_capacity (mf_max_instances F) (local_count routes)
      then [(RouteLocal, local_count routes)] else [])"

definition candidates :: "('e, 'f, 'j) mass_config \<Rightarrow> ('p, 'v, 'w, 'f) mass_services \<Rightarrow> operation_capability \<Rightarrow>
    mass_architecture option \<Rightarrow> ('e, 'f, 'p, 'v, 'w) mass_context \<Rightarrow> (route_target \<times> nat) list" where
  "candidates F S requested required ctx =
     local_candidates F S requested required (mx_routes ctx)
     @ worker_candidates requested required (mx_routes ctx) (sort_key tw_token (map snd (mx_workers ctx)))"

text \<open>The first element with the least count.\<close>

fun first_least :: "('a \<times> nat) list \<Rightarrow> ('a \<times> nat) option" where
  "first_least [] = None"
| "first_least ((t, n) # cs) =
     (case first_least cs of
        Some (t', n') \<Rightarrow> if n' < n then Some (t', n') else Some (t, n)
      | None \<Rightarrow> Some (t, n))"

definition better :: "('a \<times> nat) option \<Rightarrow> ('a \<times> nat) option \<Rightarrow> ('a \<times> nat) option" where
  "better best new =
     (case (best, new) of
        (Some (t, n), Some (t', n')) \<Rightarrow> if n' < n then Some (t', n') else Some (t, n)
      | (None, _) \<Rightarrow> new
      | (_, None) \<Rightarrow> best)"

lemma better_simps [simp]: "better None x = x" "better x None = x"
  by (auto simp: better_def split: option.splits)

lemma first_least_Cons: "first_least (c # cs) = better (Some c) (first_least cs)"
  by (cases c) (auto simp: better_def split: option.splits)

lemma better_assoc: "better (better a b) c = better a (better b c)"
  by (auto simp: better_def split: option.splits if_splits)

lemma first_least_append: "first_least (xs @ ys) = better (first_least xs) (first_least ys)"
  by (induction xs) (simp_all add: first_least_Cons better_assoc del: first_least.simps(2))

lemma first_least_None [simp]: "first_least cs = None \<longleftrightarrow> cs = []"
  by (cases cs) (auto simp: first_least_Cons better_def split: option.splits simp del: first_least.simps(2))

lemma first_least_Some:
  "first_least cs = Some (t, n) \<Longrightarrow> (t, n) \<in> set cs \<and> (\<forall>c \<in> set cs. n \<le> snd c)"
proof (induction cs arbitrary: t n)
  case (Cons c cs)
  then show ?case
    by (cases c; cases "first_least cs") (force split: if_splits)+
qed simp

text \<open>The loop over the workers computes it.\<close>

lemma scan_workers_first_least:
  "scan_workers requested required routes ws best e =
     (better best (first_least (worker_candidates requested required routes ws)),
      e \<or> list_ex (\<lambda>w. capabilities_eligible (tw_capabilities w) requested required) ws)"
proof (induction ws arbitrary: best e)
  case (Cons w ws)
  let ?n = "worker_count routes (tw_token w)"
  have best': "(case best of Some (t, best_count) \<Rightarrow> if best_count \<le> ?n then best else Some (RouteWorker (tw_token w), ?n)
      | None \<Rightarrow> Some (RouteWorker (tw_token w), ?n)) = better best (Some (RouteWorker (tw_token w), ?n))"
    by (auto simp: better_def split: option.splits)
  show ?case
    using Cons.IH
    by (simp add: Let_def best' worker_candidates_def first_least_Cons better_assoc del: first_least.simps(2))
qed (simp add: worker_candidates_def)

definition placement_failure :: "operation_capability \<Rightarrow> mass_architecture option \<Rightarrow> bool \<Rightarrow> mass_error" where
  "placement_failure requested required eligible_exists =
     (if eligible_exists then MPlacement NoTunnelCapacity
      else case required of
             Some r \<Rightarrow> MPlacement (NoCompatibleTunnelCapacity r)
           | None \<Rightarrow> MOperation (NoCompatibleOperation (cd_id (oc_descriptor requested)) (cd_version (oc_descriptor requested))))"

definition eligible_exists :: "('e, 'f, 'j) mass_config \<Rightarrow> ('p, 'v, 'w, 'f) mass_services \<Rightarrow> operation_capability \<Rightarrow>
    mass_architecture option \<Rightarrow> ('e, 'f, 'p, 'v, 'w) mass_context \<Rightarrow> bool" where
  "eligible_exists F S requested required ctx \<longleftrightarrow>
     capabilities_eligible (local_worker_capabilities F S) requested required
     \<or> (\<exists>w \<in> snd ` set (mx_workers ctx). capabilities_eligible (tw_capabilities w) requested required)"

lemma select_instance_target_candidates:
  assumes "validate_capability (mf_tensors F) requested = Inr u"
  shows "select_instance_target F S requested required ctx =
    (case first_least (candidates F S requested required ctx) of
       Some (target, _) \<Rightarrow> Inr target
     | None \<Rightarrow> Inl (placement_failure requested required (eligible_exists F S requested required ctx)))"
proof -
  let ?routes = "mx_routes ctx" and ?ws = "sort_key tw_token (map snd (mx_workers ctx))"
  let ?e = "capabilities_eligible (local_worker_capabilities F S) requested required"
  have e: "?e \<or> list_ex (\<lambda>w. capabilities_eligible (tw_capabilities w) requested required) ?ws
      \<longleftrightarrow> eligible_exists F S requested required ctx"
    by (auto simp: eligible_exists_def list_ex_iff)
  have b: "better (if ?e \<and> has_capacity (mf_max_instances F) (local_count ?routes)
        then Some (RouteLocal, local_count ?routes) else None)
      (first_least (worker_candidates requested required ?routes ?ws))
      = first_least (candidates F S requested required ctx)"
    by (simp add: candidates_def local_candidates_def first_least_append)
  show ?thesis
    by (simp add: select_instance_target_def assms Let_def scan_workers_first_least e b placement_failure_def
        split: option.split)
qed

lemma selected_candidate:
  assumes "select_instance_target F S requested required ctx = Inr target"
  obtains n where "(target, n) \<in> set (candidates F S requested required ctx)"
    "\<forall>c \<in> set (candidates F S requested required ctx). n \<le> snd c"
proof -
  obtain u where u: "validate_capability (mf_tensors F) requested = Inr u"
    using assms by (cases "validate_capability (mf_tensors F) requested") (simp_all add: select_instance_target_def)
  from assms obtain n where "first_least (candidates F S requested required ctx) = Some (target, n)"
    by (auto simp: select_instance_target_candidates [OF u] split: option.splits)
  from first_least_Some [OF this] show ?thesis by (auto intro: that)
qed

lemma candidate_cases:
  assumes "(target, n) \<in> set (candidates F S requested required ctx)"
  obtains "target = RouteLocal" "n = local_count (mx_routes ctx)"
      "capabilities_eligible (local_worker_capabilities F S) requested required" "has_capacity (mf_max_instances F) n"
  | w where "w \<in> snd ` set (mx_workers ctx)" "target = RouteWorker (tw_token w)"
      "n = worker_count (mx_routes ctx) (tw_token w)" "capabilities_eligible (tw_capabilities w) requested required"
      "has_capacity (tw_max_instances w) n"
  using assms by (auto simp: candidates_def local_candidates_def worker_candidates_def split: if_splits)

text \<open>
  C40: The selection of a target is the first candidate with the fewest instances: the local
  server is preferred among equals, then the worker with the smaller token. It fails only when
  the requested capability is malformed or there is no candidate, and then tells a lack of room
  from a lack of an eligible target.
\<close>

theorem select_target_least_loaded:
  "select_instance_target F S requested required ctx =
     (case validate_capability (mf_tensors F) requested of
        Inl e \<Rightarrow> Inl (MOperation e)
      | Inr _ \<Rightarrow>
          (case first_least (candidates F S requested required ctx) of
             Some (target, _) \<Rightarrow> Inr target
           | None \<Rightarrow> Inl (placement_failure requested required (eligible_exists F S requested required ctx))))"
  by (cases "validate_capability (mf_tensors F) requested")
     (simp_all add: select_instance_target_candidates, simp add: select_instance_target_def)

text \<open>
  A selected target can serve the request, has room for one more instance, and no other
  candidate has fewer instances.
\<close>

theorem selected_target_has_room:
  assumes "select_instance_target F S requested required ctx = Inr target"
  shows "\<exists>n. (\<forall>c \<in> set (candidates F S requested required ctx). n \<le> snd c)
    \<and> (case target of
         RouteLocal \<Rightarrow> capabilities_eligible (local_worker_capabilities F S) requested required
           \<and> has_capacity (mf_max_instances F) n \<and> n = local_count (mx_routes ctx)
       | RouteWorker token \<Rightarrow> \<exists>w \<in> snd ` set (mx_workers ctx). tw_token w = token
           \<and> capabilities_eligible (tw_capabilities w) requested required
           \<and> has_capacity (tw_max_instances w) n \<and> n = worker_count (mx_routes ctx) token)"
proof -
  obtain n where n: "(target, n) \<in> set (candidates F S requested required ctx)"
    and least: "\<forall>c \<in> set (candidates F S requested required ctx). n \<le> snd c"
    using assms by (rule selected_candidate)
  from n show ?thesis by (rule candidate_cases) (use least in \<open>auto intro!: exI [of _ n]\<close>)
qed

lemma demo_selects_local:
  "select_instance_target demo_config demo_services (qwen_capability demo_config) None demo_context = Inr RouteLocal"
  by code_simp

lemma selected_target_has_room_witness:
  "capabilities_eligible (local_worker_capabilities demo_config demo_services) (qwen_capability demo_config) None
    \<and> has_capacity (mf_max_instances demo_config) (local_count (mx_routes demo_context))"
  using selected_target_has_room [OF demo_selects_local] by auto

end
