(* ===== verification/Host_Frame.thy ===== *)
theory Host_Frame
  imports Placement_Proofs
begin

text \<open>
  What the handlers of a Mass server leave alone: the registry of the host, that is its routes,
  workers, hosted instances and requirements. Only the registration of workers, the start and
  the shutdown of instances change it.
\<close>

definition registry :: "('e, 'f, 'p, 'v, 'w) mass_context \<Rightarrow> (uuid \<times> route_target) list \<times> (uuid \<times> tunnel_worker) list
    \<times> (uuid \<times> hosted_entry) list \<times> (uuid \<rightharpoonup> mass_architecture option)" where
  "registry ctx = (mx_routes ctx, mx_workers ctx, mx_instances ctx, mx_requirements ctx)"

named_theorems registry_frame "operations that keep the registry"

lemma registry_updates [registry_frame, simp]:
  "registry (ctx\<lparr>mx_void := v\<rparr>) = registry ctx"
  "registry (ctx\<lparr>mx_net := w\<rparr>) = registry ctx"
  "registry (ctx\<lparr>mx_operation := p\<rparr>) = registry ctx"
  "registry (ctx\<lparr>mx_qwen := q\<rparr>) = registry ctx"
  "registry (ctx\<lparr>mx_files := fs\<rparr>) = registry ctx"
  "registry (ctx\<lparr>mx_mode := m\<rparr>) = registry ctx"
  "registry (ctx\<lparr>mx_connections := c\<rparr>) = registry ctx"
  "registry (set_slot i slot ctx) = registry ctx"
  "registry (put_instance i inst ctx) = registry ctx"
  "registry (cleanup_checkpoint_file path ctx) = registry ctx"
  "registry (cleanup_optional opt ctx) = registry ctx"
  by (simp_all add: registry_def set_slot_def put_instance_def cleanup_checkpoint_file_def cleanup_optional_def
      split: option.split)

text \<open>A chain keeps the registry if its parts do.\<close>

lemma chain_registry:
  assumes "registry (snd m) = g" and "\<And>x s. registry s = g \<Longrightarrow> registry (snd (f x s)) = g"
  shows "registry (snd (chain m f)) = g"
  using assms by (cases m; cases "fst m") auto

lemma service_registry [registry_frame, simp]:
  "registry (snd (void_call f ctx)) = registry ctx"
  "registry (snd (operation_call h ctx)) = registry ctx"
  "registry (snd (net_request S c req ctx)) = registry ctx"
  "registry (snd (engine_call k i inst ctx)) = registry ctx"
  "registry (snd (download_checkpoint void oid path ctx)) = registry ctx"
  "registry (snd (upload_checkpoint void path ctx)) = registry ctx"
  "registry (snd (instance_step i step ctx)) = registry ctx"
  by (auto simp: void_call_def operation_call_def net_request_def engine_call_def download_checkpoint_def
      upload_checkpoint_def instance_step_def Let_def split: prod.splits sum.splits option.splits)

lemma step_registry [registry_frame, simp]:
  "registry (snd (handle_perturb_up F i seed ctx)) = registry ctx"
  "registry (snd (handle_perturb_down F i ctx)) = registry ctx"
  "registry (snd (handle_optimize F i up down ctx)) = registry ctx"
  "registry (snd (handle_reset F i ctx)) = registry ctx"
  "registry (snd (handle_query_model_params F i ctx)) = registry ctx"
  by (simp_all add: handle_perturb_up_def handle_perturb_down_def handle_optimize_def handle_reset_def
      handle_query_model_params_def)

lemma run_batched_registry [registry_frame, simp]:
  "registry (snd (run_batched_inference F i inst seqs l ctx)) = registry ctx"
  unfolding run_batched_inference_def by (rule chain_registry) (auto split: prod.split)

lemma finish_inference_registry [registry_frame, simp]:
  "registry (snd (finish_inference F void i p ctx)) = registry ctx"
  unfolding finish_inference_def by (cases p) (auto intro!: chain_registry)

lemma resolve_sequences_registry [registry_frame, simp]:
  "registry (snd (resolve_sequences F void req ctx)) = registry ctx"
  by (cases req) (auto simp: resolve_sequences_def intro!: chain_registry)

lemma handle_infer_registry [registry_frame, simp]:
  "registry (snd (handle_infer F S i input ctx)) = registry ctx"
  unfolding handle_infer_def Let_def by (intro chain_registry) (auto split: prod.split intro!: chain_registry)

lemma handle_qwen_forward_registry [registry_frame, simp]:
  "registry (snd (handle_qwen_operation_forward F S i input ctx)) = registry ctx"
  unfolding handle_qwen_operation_forward_def
  by (intro chain_registry)
     (auto split: mass_out.split operation_artifact_ref.split intro!: chain_registry)

lemma save_registry [registry_frame, simp]:
  "registry (snd (save_model_checkpoint F i inst ctx)) = registry ctx"
  unfolding save_model_checkpoint_def by (rule chain_registry) (auto split: prod.split)

lemma upload_checkpoint_registry:
  "upload_checkpoint void path ctx = (r, ctx') \<Longrightarrow> registry ctx' = registry ctx"
  by (metis service_registry(6) snd_conv)

lemma handle_checkpoint_registry [registry_frame, simp]:
  "registry (snd (handle_checkpoint F S i ctx)) = registry ctx"
  unfolding handle_checkpoint_def
  by (intro chain_registry) (auto split: prod.split sum.split dest: upload_checkpoint_registry)

lemma fuse_with_checkpoint_registry [registry_frame, simp]:
  "registry (snd (fuse_with_checkpoint F S i c x base ctx)) = registry ctx"
  unfolding fuse_with_checkpoint_def Let_def
  by (intro chain_registry) (auto split: prod.split sum.split dest: upload_checkpoint_registry)

lemma handle_fuse_registry [registry_frame, simp]:
  "registry (snd (handle_fuse_weights F S i c x ctx)) = registry ctx"
  unfolding handle_fuse_weights_def by (intro chain_registry) auto

lemma resolve_model_source_registry [registry_frame, simp]:
  "registry (snd (resolve_model_source F S i config ctx)) = registry ctx"
  unfolding resolve_model_source_def Let_def
  by (auto split: option.split intro!: chain_registry)

lemma abandon_registry [registry_frame, simp]:
  "registry (snd (abandon_start i path e ctx)) = registry ctx"
  by (simp add: abandon_start_def)

lemma handle_start_registry [registry_frame, simp]:
  "registry (snd (handle_start F S i config ctx)) = registry ctx"
proof -
  have "registry (snd (start_slot F S i config ctx)) = registry ctx"
  proof (cases "resolve_model_source F S i config (set_slot i (Some Starting) ctx)")
    case (Pair r s)
    with resolve_model_source_registry [of F S i config "set_slot i (Some Starting) ctx"]
    have "registry s = registry ctx" by simp
    with Pair show ?thesis
      by (auto simp: start_slot_def Let_def split: sum.split prod.split)
  qed
  then show ?thesis by (simp add: handle_start_def split: option.split)
qed

lemma handle_shutdown_registry [registry_frame, simp]:
  "registry (snd (handle_shutdown F i ctx)) = registry ctx"
  by (auto simp: handle_shutdown_def Let_def split: sum.split prod.split)

section \<open>The host\<close>

lemma update_tunnel_capacity_registry [registry_frame, simp]:
  "registry (snd (update_tunnel_capacity S c token limit ctx)) = registry ctx"
  unfolding update_tunnel_capacity_def by (intro chain_registry) auto

lemma register_tunnel_worker_registry [registry_frame, simp]:
  "registry (snd (register_tunnel_worker S w limit caps ctx)) = registry ctx"
  unfolding register_tunnel_worker_def by (auto split: prod.split sum.split intro!: chain_registry)

lemma register_retry_registry [registry_frame, simp]:
  "registry (snd (register_tunnel_worker_with_retry S w limit deadline caps clock n ctx)) = registry ctx"
proof (induction S w limit deadline caps clock n ctx rule: register_tunnel_worker_with_retry.induct)
  case (2 S w limit deadline caps now clock n ctx)
  then show ?case
    using register_tunnel_worker_registry [of S w limit caps ctx]
    by (cases "register_tunnel_worker S w limit caps ctx") (auto split: sum.split)
qed simp

lemma propagate_registry [registry_frame, simp]:
  "registry (snd (propagate_capacity_to_parent F S clock ctx)) = registry ctx"
proof (cases "mx_mode ctx")
  case (ModeWorker wm)
  show ?thesis
  proof (cases "wm_parent wm")
    case (Some c)
    obtain r s where u: "update_tunnel_capacity S c (wm_tunnel_token wm) (advertised_capacity F ctx) ctx = (r, s)"
      by fastforce
    then have "registry s = registry ctx"
      using update_tunnel_capacity_registry [of S c "wm_tunnel_token wm" "advertised_capacity F ctx" ctx] by simp
    with u ModeWorker Some show ?thesis
      by (auto simp: propagate_capacity_to_parent_def Let_def split: sum.split prod.split intro!: chain_registry)
  qed (simp add: propagate_capacity_to_parent_def ModeWorker Let_def)
qed (simp add: propagate_capacity_to_parent_def)

lemma net_request_registry: "net_request S c req ctx = (r, ctx') \<Longrightarrow> registry ctx' = registry ctx"
  by (metis service_registry(3) snd_conv)

lemma forward_registry [registry_frame, simp]:
  "registry (snd (forward_tunnel_request S token req ctx)) = registry ctx"
  unfolding forward_tunnel_request_def
  by (intro chain_registry) (auto split: prod.split sum.split mass_out.split dest: net_request_registry)

lemma injected_registry [registry_frame, simp]:
  "registry (snd (injected_ack S h ctx)) = registry ctx"
  "registry (snd (injected_pass F S what d pass input ctx)) = registry ctx"
  by (auto simp: injected_ack_def injected_pass_def intro!: chain_registry)

lemmas local_defs = handle_instance_invoke_local_def handle_instance_backward_local_def
  handle_instance_reset_local_def handle_instance_step_local_def handle_instance_perturb_up_local_def
  handle_instance_perturb_down_local_def handle_instance_optimize_local_def
  handle_instance_checkpoint_local_def handle_instance_fuse_local_def handle_instance_query_local_def

lemma local_registry [registry_frame, simp]:
  "registry (snd (handle_instance_invoke_local F S i input ctx)) = registry ctx"
  "registry (snd (handle_instance_backward_local F S i input ctx)) = registry ctx"
  "registry (snd (handle_instance_reset_local F S i ctx)) = registry ctx"
  "registry (snd (handle_instance_step_local S i ctx)) = registry ctx"
  "registry (snd (handle_instance_perturb_up_local F S i seed ctx)) = registry ctx"
  "registry (snd (handle_instance_perturb_down_local F S i ctx)) = registry ctx"
  "registry (snd (handle_instance_optimize_local F S i up down ctx)) = registry ctx"
  "registry (snd (handle_instance_checkpoint_local F S i ctx)) = registry ctx"
  "registry (snd (handle_instance_fuse_local F S i c x ctx)) = registry ctx"
  "registry (snd (handle_instance_query_local F S i ctx)) = registry ctx"
  unfolding local_defs
  by (intro chain_registry; auto split: implementation_kind.split intro!: chain_registry)+

lemma distributed_registry:
  assumes "\<And>s. registry (snd (local_handler s)) = registry s"
  shows "registry (snd (distributed S i req local_handler ctx)) = registry ctx"
  unfolding distributed_def by (rule chain_registry) (auto simp: assms split: route_target.split)

lemmas distributed_defs = handle_instance_invoke_distributed_def handle_instance_backward_distributed_def
  handle_instance_reset_distributed_def handle_instance_step_distributed_def
  handle_instance_perturb_up_distributed_def handle_instance_perturb_down_distributed_def
  handle_instance_optimize_distributed_def handle_instance_checkpoint_distributed_def
  handle_instance_fuse_distributed_def handle_instance_query_distributed_def

lemma distributed_ops_registry [registry_frame, simp]:
  "registry (snd (handle_instance_invoke_distributed F S i input ctx)) = registry ctx"
  "registry (snd (handle_instance_backward_distributed F S i input ctx)) = registry ctx"
  "registry (snd (handle_instance_reset_distributed F S i ctx)) = registry ctx"
  "registry (snd (handle_instance_step_distributed F S i ctx)) = registry ctx"
  "registry (snd (handle_instance_perturb_up_distributed F S i seed ctx)) = registry ctx"
  "registry (snd (handle_instance_perturb_down_distributed F S i ctx)) = registry ctx"
  "registry (snd (handle_instance_optimize_distributed F S i up down ctx)) = registry ctx"
  "registry (snd (handle_instance_checkpoint_distributed F S i ctx)) = registry ctx"
  "registry (snd (handle_instance_fuse_distributed F S i c x ctx)) = registry ctx"
  "registry (snd (handle_instance_query_distributed F S i ctx)) = registry ctx"
  unfolding distributed_defs by (rule distributed_registry; simp)+

end
