(* ===== verification/Host_Proofs.thy ===== *)
theory Host_Proofs
  imports Host_Frame
begin

text \<open>
  The invariant of the registry of a Mass server and its preservation by every request; the
  registration of workers; the protection of a worker against requests that do not come from
  its parent.
\<close>

section \<open>The invariant\<close>

definition within_limit :: "u64 option \<Rightarrow> nat \<Rightarrow> bool" where
  "within_limit limit n = (case limit of None \<Rightarrow> True | Some m \<Rightarrow> n \<le> unat m)"

text \<open>
  The keys of the maps are unique; a worker is stored under its own token, and no two entries
  belong to the same worker; a route to a worker leads to a registered one; the instances that
  are routed to the server itself are those it hosts, and they are within its limit; every
  routed instance, and no other, has a recorded requirement.
\<close>

definition workers_ok :: "(uuid \<times> tunnel_worker) list \<Rightarrow> bool" where
  "workers_ok ws \<longleftrightarrow> amap_wf ws \<and> (\<forall>(t, w) \<in> set ws. tw_token w = t)
     \<and> (\<forall>(t, w) \<in> set ws. \<forall>(t', w') \<in> set ws. tw_worker_id w = tw_worker_id w' \<longrightarrow> t = t')"

definition routes_ok :: "(uuid \<times> route_target) list \<Rightarrow> (uuid \<times> tunnel_worker) list \<Rightarrow>
    (uuid \<times> hosted_entry) list \<Rightarrow> (uuid \<rightharpoonup> mass_architecture option) \<Rightarrow> bool" where
  "routes_ok routes ws insts reqs \<longleftrightarrow> amap_wf routes \<and> amap_wf insts
     \<and> (\<forall>i t. map_of routes i = Some (RouteWorker t) \<longrightarrow> t \<in> fst ` set ws)
     \<and> (\<forall>i. map_of routes i = Some RouteLocal \<longleftrightarrow> i \<in> fst ` set insts)
     \<and> dom reqs = fst ` set routes"

definition host_ok :: "('e, 'f, 'j) mass_config \<Rightarrow> ('e, 'f, 'p, 'v, 'w) mass_context \<Rightarrow> bool" where
  "host_ok F ctx \<longleftrightarrow> workers_ok (mx_workers ctx)
     \<and> routes_ok (mx_routes ctx) (mx_workers ctx) (mx_instances ctx) (mx_requirements ctx)
     \<and> within_limit (mf_max_instances F) (local_count (mx_routes ctx))"

lemma host_ok_registry:
  "registry ctx' = registry ctx \<Longrightarrow> host_ok F ctx' \<longleftrightarrow> host_ok F ctx"
  by (simp add: registry_def host_ok_def)

lemma registry_eqD:
  "registry ctx' = registry ctx \<Longrightarrow> mx_routes ctx' = mx_routes ctx \<and> mx_workers ctx' = mx_workers ctx
    \<and> mx_instances ctx' = mx_instances ctx \<and> mx_requirements ctx' = mx_requirements ctx"
  by (simp add: registry_def)

lemma registry_result: "m = (r, ctx') \<Longrightarrow> registry (snd m) = registry ctx \<Longrightarrow> registry ctx' = registry ctx"
  by simp

section \<open>Workers\<close>

lemma set_amap_update:
  "amap_wf m \<Longrightarrow> set (AList.update k v m) = insert (k, v) {p \<in> set m. fst p \<noteq> k}"
proof -
  assume wf: "amap_wf m"
  have "(a, b) \<in> set (AList.update k v m) \<longleftrightarrow> (a, b) \<in> insert (k, v) {p \<in> set m. fst p \<noteq> k}" for a b
    by (simp add: amap_mem_iff [OF amap_wf_update [OF wf]] amap_mem_iff [OF wf] amap_update) auto
  then show ?thesis by (simp add: set_eq_iff)
qed

lemma workers_ok_token: "workers_ok ws \<Longrightarrow> map_of ws t = Some w \<Longrightarrow> tw_token w = t"
  by (auto simp: workers_ok_def dest!: map_of_SomeD)

lemma workers_ok_update:
  assumes "workers_ok ws" and "map_of ws t = Some w" and "tw_token w' = t" and "tw_worker_id w' = tw_worker_id w"
  shows "workers_ok (AList.update t w' ws)"
proof -
  have "amap_wf ws" and mem: "(t, w) \<in> set ws" using assms(1,2) by (auto simp: workers_ok_def dest: map_of_SomeD)
  with assms show ?thesis
    unfolding workers_ok_def set_amap_update [OF \<open>amap_wf ws\<close>] by fastforce
qed

lemma workers_ok_new:
  assumes "workers_ok ws" and "t \<notin> fst ` set ws" and "tw_token w = t"
    and "\<And>p. p \<in> set ws \<Longrightarrow> tw_worker_id (snd p) \<noteq> tw_worker_id w"
  shows "workers_ok (AList.update t w ws)"
proof -
  have "amap_wf ws" using assms(1) by (simp add: workers_ok_def)
  with assms show ?thesis
    unfolding workers_ok_def set_amap_update [OF \<open>amap_wf ws\<close>] by fastforce
qed

lemma routes_ok_workers:
  "routes_ok routes ws insts reqs \<Longrightarrow> fst ` set ws \<subseteq> fst ` set ws' \<Longrightarrow> routes_ok routes ws' insts reqs"
  by (auto simp: routes_ok_def)

lemma find_worker:
  "find (\<lambda>(_, w). tw_worker_id w = wid) ws = Some (t, w) \<Longrightarrow> (t, w) \<in> set ws \<and> tw_worker_id w = wid"
  "find (\<lambda>(_, w). tw_worker_id w = wid) ws = None \<Longrightarrow> p \<in> set ws \<Longrightarrow> tw_worker_id (snd p) \<noteq> wid"
  by (auto simp: find_Some_iff find_None_iff nth_mem split: prod.splits) (metis nth_mem prod.collapse snd_conv)+

text \<open>The token of a registration, and the workers after it.\<close>

definition registered_worker :: "uuid \<Rightarrow> uuid \<Rightarrow> u64 option \<Rightarrow> worker_capabilities \<Rightarrow> (uuid \<times> tunnel_worker) list \<Rightarrow>
    uuid \<times> (uuid \<times> tunnel_worker) list" where
  "registered_worker fresh wid limit caps ws =
     (case find (\<lambda>(_, w). tw_worker_id w = wid) ws of
        Some (token, w) \<Rightarrow>
          (token, AList.update token (w\<lparr>tw_max_instances := resolve_max_instances limit, tw_capabilities := caps\<rparr>) ws)
      | None \<Rightarrow>
          (fresh, AList.update fresh \<lparr>tw_token = fresh, tw_worker_id = wid,
             tw_max_instances = resolve_max_instances limit, tw_capabilities = caps\<rparr> ws))"

lemma handle_register_result:
  assumes "handle_register_tunnel F S fresh clock wid limit caps connection ctx = (r, ctx')"
  shows "registry ctx' = registry (ctx\<lparr>mx_workers := snd (registered_worker fresh wid limit caps (mx_workers ctx))\<rparr>)"
    and "r = Inr out \<Longrightarrow> out = OTunnelRegistered (fst (registered_worker fresh wid limit caps (mx_workers ctx)))"
proof -
  let ?p = "registered_worker fresh wid limit caps (mx_workers ctx)"
  let ?ctx1 = "ctx\<lparr>mx_workers := snd ?p\<rparr>"
  let ?ctx2 = "case connection of None \<Rightarrow> ?ctx1 | Some c \<Rightarrow> ?ctx1\<lparr>mx_connections := (mx_connections ?ctx1)(fst ?p \<mapsto> c)\<rparr>"
  let ?answer = "\<lambda>_ ctx3. (Inr (OTunnelRegistered (fst ?p)), ctx3)"
  have run: "handle_register_tunnel F S fresh clock wid limit caps connection ctx
      = chain (propagate_capacity_to_parent F S clock ?ctx2) ?answer"
    unfolding handle_register_tunnel_def registered_worker_def Let_def
    by (cases "find (\<lambda>(_, w). tw_worker_id w = wid) (mx_workers ctx)"; cases connection) (simp_all add: case_prod_beta)
  have "registry ?ctx2 = registry ?ctx1" by (simp split: option.split)
  then show "registry ctx' = registry ?ctx1"
    using assms run chain_registry [OF propagate_registry, where f = ?answer] by (metis snd_conv)
  show "out = OTunnelRegistered (fst ?p)" if "r = Inr out"
    using assms that by (auto simp: run chain_Inr_iff)
qed

lemma handle_register_ok:
  assumes "host_ok F ctx" and "fresh \<notin> fst ` set (mx_workers ctx)"
    and "handle_register_tunnel F S fresh clock wid limit caps connection ctx = (r, ctx')"
  shows "host_ok F ctx'"
proof -
  let ?p = "registered_worker fresh wid limit caps (mx_workers ctx)"
  have ws: "workers_ok (mx_workers ctx)" using assms(1) by (simp add: host_ok_def)
  have "workers_ok (snd ?p) \<and> fst ` set (mx_workers ctx) \<subseteq> fst ` set (snd ?p)"
  proof (cases "find (\<lambda>(_, w). tw_worker_id w = wid) (mx_workers ctx)")
    case None
    with workers_ok_new [OF ws assms(2)] find_worker(2) [OF None] show ?thesis
      by (auto simp: registered_worker_def dom_update)
  next
    case (Some q)
    obtain t w where q: "q = (t, w)" by (cases q)
    have "(t, w) \<in> set (mx_workers ctx)" using find_worker(1) [of wid "mx_workers ctx" t w] Some q by simp
    moreover from this ws have "map_of (mx_workers ctx) t = Some w" by (auto simp: workers_ok_def amap_mem_iff)
    moreover from this have "tw_token w = t" by (rule workers_ok_token [OF ws])
    ultimately show ?thesis
      using workers_ok_update [OF ws] by (auto simp: registered_worker_def Some q dom_update)
  qed
  with handle_register_result(1) [OF assms(3)] show ?thesis
    using assms(1) routes_ok_workers [of "mx_routes ctx" "mx_workers ctx" "mx_instances ctx" "mx_requirements ctx" "snd ?p"]
    by (auto simp: host_ok_def registry_def)
qed

lemma handle_update_capacity_ok:
  assumes "host_ok F ctx" and "handle_update_tunnel_capacity F S clock token limit ctx = (r, ctx')"
  shows "host_ok F ctx'"
proof (cases "map_of (mx_workers ctx) token")
  case None
  with assms show ?thesis by (simp add: handle_update_tunnel_capacity_def)
next
  case (Some w)
  let ?ws = "AList.update token (w\<lparr>tw_max_instances := resolve_max_instances limit\<rparr>) (mx_workers ctx)"
  have ws: "workers_ok (mx_workers ctx)" using assms(1) by (simp add: host_ok_def)
  moreover have "tw_token w = token" using ws Some by (rule workers_ok_token)
  ultimately have "workers_ok ?ws" using Some by (auto intro: workers_ok_update)
  moreover have "fst ` set (mx_workers ctx) \<subseteq> fst ` set ?ws" by (auto simp: dom_update)
  moreover have "registry ctx' = registry (ctx\<lparr>mx_workers := ?ws\<rparr>)"
    using assms(2) Some
      chain_registry [OF propagate_registry [of F S clock "ctx\<lparr>mx_workers := ?ws\<rparr>"], where f = "\<lambda>_ ctx2. (Inr OAck, ctx2)"]
    by (simp add: handle_update_tunnel_capacity_def Let_def)
  ultimately show ?thesis
    using assms(1) routes_ok_workers [of "mx_routes ctx" "mx_workers ctx" "mx_instances ctx" "mx_requirements ctx" ?ws]
    by (auto simp: host_ok_def registry_def)
qed

section \<open>Start and shutdown\<close>

lemma start_pick_registry:
  "registry (snd (if mf_qwen F \<and> operation_satisfies (qwen_capability F) capability then
      chain (decode_qwen_config F config, ctx) (\<lambda>c ctx.
      chain (handle_start F S i c ctx) (\<lambda>_ ctx. (Inr ImplQwen, ctx)))
    else
      chain (require_operation S, ctx) (\<lambda>op ctx.
      chain (ensure (operation_satisfies (op_capability op) capability) e1, ctx) (\<lambda>_ ctx.
      chain (limit ctx, ctx) (\<lambda>_ ctx.
      chain (operation_call (op_start op i config) ctx) (\<lambda>_ ctx. (Inr ImplInjected, ctx))))))) = registry ctx"
  by (auto intro!: chain_registry)

lemma start_local_registry:
  assumes "handle_instance_start_local F S i capability config ctx = (r, ctx')"
  shows "case r of
      Inl e \<Rightarrow> registry ctx' = registry ctx
    | Inr out \<Rightarrow> out = OAck \<and> (\<exists>entry. registry ctx' = registry (ctx\<lparr>mx_instances := AList.update i entry (mx_instances ctx)\<rparr>))"
proof -
  let ?pick = "if mf_qwen F \<and> operation_satisfies (qwen_capability F) capability then
      chain (decode_qwen_config F config, ctx) (\<lambda>c ctx.
      chain (handle_start F S i c ctx) (\<lambda>_ ctx. (Inr ImplQwen, ctx)))
    else
      chain (require_operation S, ctx) (\<lambda>op ctx.
      chain (ensure (operation_satisfies (op_capability op) capability) (MOperation OperationContractMismatch), ctx) (\<lambda>_ ctx.
      chain (case mf_max_instances F of None \<Rightarrow> Inr () | Some limit \<Rightarrow>
          ensure (length (mx_instances ctx) < unat limit) (MPlacement (NoLocalCapacity (unat limit))), ctx) (\<lambda>_ ctx.
      chain (operation_call (op_start op i config) ctx) (\<lambda>_ ctx. (Inr ImplInjected, ctx)))))"
  obtain q s where q: "?pick = (q, s)" by fastforce
  have "registry s = registry ctx"
    using start_pick_registry [of F capability config ctx S i "MOperation OperationContractMismatch"
        "\<lambda>ctx. case mf_max_instances F of None \<Rightarrow> Inr () | Some limit \<Rightarrow>
          ensure (length (mx_instances ctx) < unat limit) (MPlacement (NoLocalCapacity (unat limit)))"] q
    by simp
  with assms show ?thesis
    unfolding handle_instance_start_local_def q by (cases q) (auto simp: registry_def)
qed

lemma local_count_update:
  "i \<notin> fst ` set routes \<Longrightarrow> local_count (AList.update i t routes) = local_count routes + (if t = RouteLocal then 1 else 0)"
  by (simp add: local_count_def amap_update_new)

lemma local_count_delete: "local_count (AList.delete i routes) \<le> local_count routes"
  by (induction routes) (auto simp: local_count_def)

lemma within_limit_Suc: "has_capacity limit n \<Longrightarrow> within_limit limit (Suc n)"
  by (auto simp: has_capacity_def within_limit_def split: option.splits)

lemma routes_ok_add:
  assumes "routes_ok routes ws insts reqs" and "i \<notin> fst ` set routes" and "i \<notin> fst ` set insts"
  shows "routes_ok (AList.update i RouteLocal routes) ws (AList.update i entry insts) (reqs(i \<mapsto> a))"
    and "t \<in> fst ` set ws \<Longrightarrow> routes_ok (AList.update i (RouteWorker t) routes) ws insts (reqs(i \<mapsto> a))"
  using assms by (auto simp: routes_ok_def amap_update dom_update)

lemma amap_delete_keys: "fst ` set (AList.delete k m) = fst ` set m - {k}"
  by (induction m) auto

lemma routes_ok_remove:
  assumes "routes_ok routes ws insts reqs"
  shows "map_of routes i = Some RouteLocal \<Longrightarrow>
      routes_ok (AList.delete i routes) ws (AList.delete i insts) (reqs(i := None))"
    and "map_of routes i = Some (RouteWorker t) \<Longrightarrow> routes_ok (AList.delete i routes) ws insts (reqs(i := None))"
  using assms by (force simp: routes_ok_def amap_delete amap_delete_keys)+

lemma handle_start_distributed_ok:
  assumes ok: "host_ok F ctx"
    and start: "handle_instance_start_distributed F S i capability config ctx = (r, ctx')"
  shows "host_ok F ctx'"
proof -
  let ?fresh = "map_of (mx_routes ctx) i = None \<and> map_of (mx_instances ctx) i = None"
  consider "\<not> ?fresh" | e where "?fresh" "required_architecture F capability config = Inl e"
    | a e where "?fresh" "required_architecture F capability config = Inr a"
        "select_instance_target F S capability a ctx = Inl e"
    | a target where "?fresh" "required_architecture F capability config = Inr a"
        "select_instance_target F S capability a ctx = Inr target"
    by (metis sum.exhaust)
  then show ?thesis
  proof cases
    case (4 a target)
    let ?run = "case target of
        RouteLocal \<Rightarrow> handle_instance_start_local F S i capability config ctx
      | RouteWorker token \<Rightarrow> forward_tunnel_request S token
          (TStartInstance MASS_OPERATION_PROTOCOL_VERSION i capability config) ctx"
    obtain q s where q: "?run = (q, s)" by fastforce
    have run: "handle_instance_start_distributed F S i capability config ctx = chain ?run (\<lambda>out ctx.
        if out \<noteq> OAck then (Inl (UnexpectedTunnelResponse ''hosted instance start response''), ctx)
        else (Inr OAck, ctx\<lparr>mx_routes := AList.update i target (mx_routes ctx),
               mx_requirements := (mx_requirements ctx)(i \<mapsto> a)\<rparr>))"
      using 4 by (simp add: handle_instance_start_distributed_def)
    have ctx': "ctx' = (if q = Inr OAck then s\<lparr>mx_routes := AList.update i target (mx_routes s),
          mx_requirements := (mx_requirements s)(i \<mapsto> a)\<rparr> else s)"
      using start unfolding run q by (cases q; auto split: if_splits)
    have new: "i \<notin> fst ` set (mx_routes ctx)" "i \<notin> fst ` set (mx_instances ctx)"
      using 4(1) by (simp_all add: amap_dom)
    obtain n where n: "(target, n) \<in> set (candidates F S capability a ctx)"
      using 4(3) by (rule selected_candidate)
    then show ?thesis
    proof (cases rule: candidate_cases)
      case 1
      have "handle_instance_start_local F S i capability config ctx = (q, s)" using q 1(1) by simp
      note reg = start_local_registry [OF this]
      show ?thesis
      proof (cases q)
        case (Inl e)
        with reg have "registry s = registry ctx" by simp
        from host_ok_registry [OF this, of F] Inl ctx' ok show ?thesis by simp
      next
        case (Inr out)
        with reg obtain entry where out: "out = OAck"
          "registry s = registry (ctx\<lparr>mx_instances := AList.update i entry (mx_instances ctx)\<rparr>)" by auto
        with ctx' Inr have "registry ctx' = (AList.update i RouteLocal (mx_routes ctx), mx_workers ctx,
            AList.update i entry (mx_instances ctx), (mx_requirements ctx)(i \<mapsto> a))"
          by (auto simp: registry_def 1(1))
        with ok routes_ok_add(1) [OF _ new, of "mx_workers ctx" "mx_requirements ctx" entry a] 1(2,4) new(1)
        show ?thesis by (auto simp: registry_def host_ok_def local_count_update within_limit_Suc)
      qed
    next
      case (2 w)
      have reg: "registry s = registry ctx" using q 2(2) by (auto dest: registry_result)
      have "tw_token w \<in> fst ` set (mx_workers ctx)"
        using 2(1) ok by (force simp: host_ok_def workers_ok_def)
      with ok reg ctx' routes_ok_add(2) [OF _ new, of "mx_workers ctx" "mx_requirements ctx" "tw_token w" a] 2(2) new(1)
      show ?thesis
        by (auto simp: registry_def host_ok_def local_count_update split: if_splits)
    qed
  qed (use start ok in \<open>auto simp: handle_instance_start_distributed_def\<close>)
qed

lemma shutdown_local_registry:
  assumes "handle_instance_shutdown_local F S i ctx = (r, ctx')"
  shows "case r of
      Inl e \<Rightarrow> registry ctx' = registry ctx
    | Inr out \<Rightarrow> out = OAck \<and> registry ctx' = registry (ctx\<lparr>mx_instances := AList.delete i (mx_instances ctx)\<rparr>)"
proof (cases "hosted_instance i ctx")
  case (Inr entry)
  let ?stop = "case hi_implementation entry of ImplQwen \<Rightarrow> handle_shutdown F i ctx
      | ImplInjected \<Rightarrow> injected_ack S (\<lambda>op. op_shutdown op i) ctx"
  obtain q s where q: "?stop = (q, s)" by fastforce
  have "registry (snd ?stop) = registry ctx" by (simp split: implementation_kind.split)
  with q have "registry s = registry ctx" by simp
  with assms q Inr show ?thesis
    by (cases q) (auto simp: handle_instance_shutdown_local_def registry_def)
qed (use assms in \<open>auto simp: handle_instance_shutdown_local_def\<close>)

lemma handle_shutdown_distributed_ok:
  assumes ok: "host_ok F ctx" and stop: "handle_instance_shutdown_distributed F S i ctx = (r, ctx')"
  shows "host_ok F ctx'"
proof (cases "map_of (mx_routes ctx) i")
  case None
  with stop ok show ?thesis
    by (auto simp: handle_instance_shutdown_distributed_def distributed_def route_for_instance_def)
next
  case (Some target)
  let ?run = "case target of RouteLocal \<Rightarrow> handle_instance_shutdown_local F S i ctx
      | RouteWorker token \<Rightarrow> forward_tunnel_request S token (TShutdownInstance i) ctx"
  obtain q s where q: "?run = (q, s)" by fastforce
  have run: "handle_instance_shutdown_distributed F S i ctx = chain ?run (\<lambda>out ctx. (Inr out,
      if out = OAck then ctx\<lparr>mx_routes := AList.delete i (mx_routes ctx),
        mx_requirements := (mx_requirements ctx)(i := None)\<rparr> else ctx))"
    using Some by (simp add: handle_instance_shutdown_distributed_def distributed_def route_for_instance_def ok_or_def)
  have ctx': "ctx' = (if q = Inr OAck then s\<lparr>mx_routes := AList.delete i (mx_routes s),
        mx_requirements := (mx_requirements s)(i := None)\<rparr> else s)"
    using stop unfolding run q by (cases q; auto split: if_splits)
  have limit: "within_limit (mf_max_instances F) (local_count (AList.delete i (mx_routes ctx)))"
    using ok local_count_delete [of i "mx_routes ctx"]
    by (auto simp: host_ok_def within_limit_def split: option.splits)
  show ?thesis
  proof (cases target)
    case RouteLocal
    have "handle_instance_shutdown_local F S i ctx = (q, s)" using q RouteLocal by simp
    note reg = shutdown_local_registry [OF this]
    show ?thesis
    proof (cases q)
      case (Inl e)
      with reg have "registry s = registry ctx" by simp
      from host_ok_registry [OF this, of F] Inl ctx' ok show ?thesis by simp
    next
      case (Inr out)
      with reg ctx' have "registry ctx' = (AList.delete i (mx_routes ctx), mx_workers ctx,
          AList.delete i (mx_instances ctx), (mx_requirements ctx)(i := None))"
        by (auto simp: registry_def)
      with ok limit routes_ok_remove(1) Some RouteLocal show ?thesis by (auto simp: registry_def host_ok_def)
    qed
  next
    case (RouteWorker t)
    have reg: "registry s = registry ctx" using q RouteWorker by (auto dest: registry_result)
    with ok limit ctx' routes_ok_remove(2) Some RouteWorker show ?thesis
      by (auto simp: registry_def host_ok_def split: if_splits)
  qed
qed

section \<open>Every request\<close>

lemma tunnel_request_ok:
  assumes "host_ok F ctx" and "handle_tunnel_request_local F S req ctx = (r, ctx')"
  shows "host_ok F ctx'"
proof -
  have keep: "host_ok F ctx'" if "handle_tunnel_request_local F S req ctx = m" "registry (snd m) = registry ctx" for m
    using that assms by (metis host_ok_registry snd_conv)
  have version: "chain (ensure_operation_protocol_version v, ctx) f = (r, ctx') \<Longrightarrow>
      (\<And>r ctx'. f () ctx = (r, ctx') \<Longrightarrow> host_ok F ctx') \<Longrightarrow> host_ok F ctx'" for v f
    using assms(1) by (auto simp: ensure_operation_protocol_version_def ensure_def split: if_splits)
  show ?thesis
  proof (cases req)
    case (TStartInstance v i capability config)
    with assms version [of v "\<lambda>_. handle_instance_start_distributed F S i capability config"]
    show ?thesis by (simp add: handle_tunnel_request_local_def) (metis handle_start_distributed_ok)
  next
    case (TShutdownInstance i)
    with assms show ?thesis
      by (auto simp: handle_tunnel_request_local_def intro: handle_shutdown_distributed_ok)
  qed (rule keep [OF refl]; auto simp: handle_tunnel_request_local_def intro!: chain_registry)+
qed

text \<open>
  C26: Every request keeps the invariant of the registry: unique workers with their tokens,
  routes that lead to hosted instances or registered workers, and no more local instances than
  the limit of the server. A registration needs a token that no worker has yet.
\<close>

theorem requests_keep_registry:
  assumes "host_ok F ctx" and "fresh \<notin> fst ` set (mx_workers ctx)"
    and "handle_mass_request F S fresh clock connection request ctx = (r, ctx')"
  shows "host_ok F ctx'"
proof (cases "tunnel_request_of request")
  case (Some req)
  show ?thesis
  proof (cases "mx_mode ctx")
    case ModeRoot
    with assms Some show ?thesis by (metis client_request_on_root tunnel_request_ok)
  next
    case (ModeWorker wm)
    with assms Some show ?thesis by (metis client_request_on_worker snd_conv prod.inject)
  qed
next
  case None
  then consider token req where "request = ITunnelForward token req"
    | wid limit caps where "request = IRegisterTunnel wid limit caps"
    | token limit where "request = IUpdateTunnelCapacity token limit" | "request = IQueryInstanceCapacity"
    by (cases request) simp_all
  then show ?thesis
  proof cases
    case 1
    with assms show ?thesis
      by (auto simp: handle_mass_request_def handle_tunnel_forward_def intro: tunnel_request_ok
          split: mass_mode.splits if_splits)
  next
    case 2
    with assms show ?thesis by (auto simp: handle_mass_request_def dest: handle_register_ok)
  next
    case 3
    with assms show ?thesis by (auto simp: handle_mass_request_def intro: handle_update_capacity_ok)
  next
    case 4
    with assms show ?thesis by (auto simp: handle_mass_request_def handle_query_model_capacity_def Let_def)
  qed
qed

end
