(* ===== verification/Host_Network.thy ===== *)
theory Host_Network
  imports Host_Proofs
begin

text \<open>
  A root and its workers. The answer of a server to a tunneled request, two servers composed
  through the network of the root, the protection of a worker by its token, the registration of
  a worker that comes back, and an instance that a failed unload leaves behind.
\<close>

section \<open>The answer of a server\<close>

text \<open>\<open>handle_tunnel_tcp_request\<close> and \<open>handle_stream\<close>: an error is an answer.\<close>

definition handle_tunnel_tcp_request :: "('e, 'f, 'j) mass_config \<Rightarrow> ('p, 'v, 'w, 'f) mass_services \<Rightarrow> uuid \<Rightarrow> nat list \<Rightarrow>
    'f mass_in \<Rightarrow> ('e, 'f, 'p, 'v, 'w) mass_context \<Rightarrow> mass_out \<times> ('e, 'f, 'p, 'v, 'w) mass_context" where
  "handle_tunnel_tcp_request F S fresh clock request ctx =
     (case handle_mass_request F S fresh clock None request ctx of
        (Inr out, ctx') \<Rightarrow> (out, ctx')
      | (Inl error, ctx') \<Rightarrow> (OError error, ctx'))"

text \<open>The network of a root whose connections all lead to one worker.\<close>

definition worker_net :: "('e, 'f, 'j) mass_config \<Rightarrow> ('p, 'v, 'w, 'f) mass_services \<Rightarrow>
    (('e, 'f, 'p, 'v, 'w) mass_context, 'f) tunnel_net" where
  "worker_net F S =
     \<lparr>nt_request = (\<lambda>connection request w.
        let (out, w') = handle_tunnel_tcp_request F S 0 [] request w in (Inr out, w')),
      nt_connect = (\<lambda>w. (Inl ''connection refused'', w))\<rparr>"

fun tunnel_instance :: "'f tunnel_request \<Rightarrow> uuid" where
  "tunnel_instance (TStartInstance v i capability config) = i"
| "tunnel_instance (TInvoke v i input) = i"
| "tunnel_instance (TBackwardInstance v i grad_input) = i"
| "tunnel_instance (TStepInstance i) = i"
| "tunnel_instance (TResetInstance i) = i"
| "tunnel_instance (TPerturbUpInstance i seed) = i"
| "tunnel_instance (TPerturbDownInstance i) = i"
| "tunnel_instance (TCheckpointInstance i) = i"
| "tunnel_instance (TOptimizeInstance i loss_up loss_down) = i"
| "tunnel_instance (TFuseInstance i checkpoint_id contribution) = i"
| "tunnel_instance (TShutdownInstance i) = i"
| "tunnel_instance (TQueryInstance i) = i"

text \<open>The operations that only follow the route of an instance, in the current version.\<close>

fun plain_operation :: "'f tunnel_request \<Rightarrow> bool" where
  "plain_operation (TStartInstance v i capability config) \<longleftrightarrow> False"
| "plain_operation (TShutdownInstance i) \<longleftrightarrow> False"
| "plain_operation (TInvoke v i input) \<longleftrightarrow> v = MASS_OPERATION_PROTOCOL_VERSION"
| "plain_operation (TBackwardInstance v i grad_input) \<longleftrightarrow> v = MASS_OPERATION_PROTOCOL_VERSION"
| "plain_operation req \<longleftrightarrow> True"

lemma plain_operation_forwarded:
  assumes "plain_operation req" and "map_of (mx_routes ctx) (tunnel_instance req) = Some (RouteWorker t)"
  shows "handle_tunnel_request_local F S req ctx = forward_tunnel_request S t req ctx"
  using assms
  by (cases req)
     (auto simp: handle_tunnel_request_local_def distributed_defs distributed_def route_for_instance_def ok_or_def
        ensure_operation_protocol_version_def ensure_def)


section \<open>Tokens\<close>

text \<open>
  C28: A worker only serves its parent: an operation that a client sends to it directly, and a
  tunneled one with a token that is not its own, are refused, and nothing changes.
\<close>

theorem worker_requires_parent_token:
  assumes "mx_mode ctx = ModeWorker wm"
    and "tunnel_request_of request \<noteq> None \<or> (\<exists>token req. request = ITunnelForward token req \<and> token \<noteq> wm_tunnel_token wm)"
  shows "\<exists>e. handle_mass_request F S fresh clock connection request ctx = (Inl e, ctx)"
  using assms client_request_on_worker [OF _ assms(1)]
  by (auto simp: handle_mass_request_def handle_tunnel_forward_def)


section \<open>A failed unload\<close>

text \<open>
  When the engine of a local Qwen instance cannot be unloaded, the shutdown fails but has
  already given up the instance. It stays routed and hosted without a model: every further
  shutdown fails, it cannot be started again, and it keeps occupying the capacity of the server.
\<close>

theorem failed_unload_wedges_instance:
  assumes "mx_mode ctx = ModeRoot" and "map_of (mx_routes ctx) i = Some RouteLocal"
    and "map_of (mx_instances ctx) i = Some entry" and "hi_implementation entry = ImplQwen"
    and "mx_qwen ctx i = Some (Running inst)"
    and "en_unload_model (mf_engine F) (mi_engine inst) = (Inl m, e)"
    and "handle_instance_shutdown_routed F S i ctx = (r, ctx')"
  shows "r = Inl (ModelError m) \<and> registry ctx' = registry ctx
    \<and> handle_instance_shutdown_routed F S i ctx' = (Inl (ModelInstanceNotRunning i), ctx')
    \<and> handle_instance_start_routed F S i capability config ctx' = (Inl (ModelInstanceAlreadyRunning i), ctx')"
proof -
  have ctx': "ctx' = set_slot i None (cleanup_optional (mi_checkpoint_path inst) (set_slot i (Some ShuttingDown) ctx))"
    and r: "r = Inl (ModelError m)"
    using assms
    by (auto simp: handle_instance_shutdown_routed_def root_only_def ensure_root_mode_def
        handle_instance_shutdown_distributed_def distributed_def route_for_instance_def ok_or_def
        handle_instance_shutdown_local_def hosted_instance_def handle_shutdown_def get_instance_def Let_def)
  have same: "mx_routes ctx' = mx_routes ctx" "mx_instances ctx' = mx_instances ctx" "mx_mode ctx' = mx_mode ctx"
    "mx_qwen ctx' i = None"
    by (simp_all add: ctx' set_slot_def cleanup_optional_def cleanup_checkpoint_file_def split: option.split)
  have "registry ctx' = registry ctx" by (simp add: ctx')
  with assms r same show ?thesis
    by (simp add: handle_instance_shutdown_routed_def handle_instance_start_routed_def root_only_def ensure_root_mode_def
        handle_instance_shutdown_distributed_def handle_instance_start_distributed_def distributed_def
        route_for_instance_def ok_or_def handle_instance_shutdown_local_def hosted_instance_def handle_shutdown_def
        get_instance_def)
qed

end
