(* ===== verification/Host_Witness.thy ===== *)
theory Host_Witness
  imports Host_Network
begin

text \<open>Concrete roots and workers for the properties of the operation host.\<close>

definition demo_worker_mode :: worker_mode_state where
  "demo_worker_mode = \<lparr>wm_worker_id = 1, wm_tunnel_token = 9, wm_parent = None, wm_connect_deadline = None,
     wm_capabilities = \<lparr>wc_architectures = [], wc_operations = [qwen_capability demo_config]\<rparr>\<rparr>"

definition demo_worker_idle :: "(unit \<times> weight_call list, nat, unit, bytes list, unit) mass_context" where
  "demo_worker_idle = demo_context\<lparr>mx_mode := ModeWorker demo_worker_mode\<rparr>"

definition demo_start :: "nat tunnel_request" where
  "demo_start = TStartInstance MASS_OPERATION_PROTOCOL_VERSION 7 (qwen_capability demo_config) None"

definition demo_worker :: "(unit \<times> weight_call list, nat, unit, bytes list, unit) mass_context" where
  "demo_worker = snd (handle_mass_request demo_config demo_services 0 [] None (ITunnelForward 9 demo_start) demo_worker_idle)"

definition demo_worker_entry :: tunnel_worker where
  "demo_worker_entry = \<lparr>tw_token = 9, tw_worker_id = 1, tw_max_instances = Some 2,
     tw_capabilities = wm_capabilities demo_worker_mode\<rparr>"

definition demo_root :: "(unit \<times> weight_call list, nat, unit, bytes list,
    (unit \<times> weight_call list, nat, unit, bytes list, unit) mass_context) mass_context" where
  "demo_root =
     \<lparr>mx_mode = ModeRoot, mx_routes = [(7, RouteWorker 9)], mx_workers = [(9, demo_worker_entry)],
      mx_connections = [9 \<mapsto> 3], mx_instances = [], mx_qwen = Map.empty, mx_requirements = [7 \<mapsto> None],
      mx_files = Map.empty, mx_operation = (), mx_void = [], mx_net = demo_worker\<rparr>"

definition demo_root_services :: "(unit, bytes list,
    (unit \<times> weight_call list, nat, unit, bytes list, unit) mass_context, nat) mass_services" where
  "demo_root_services = \<lparr>mv_operation = None, mv_void = Some demo_void,
     mv_net = worker_net demo_config demo_services\<rparr>"

lemma demo_worker_runs:
  "mx_mode demo_worker = ModeWorker demo_worker_mode"
  "fst (handle_tunnel_request_local demo_config demo_services (TPerturbUpInstance 7 11) demo_worker) = Inr OAck"
  by code_simp+


lemma demo_root_ok: "host_ok demo_config demo_root"
  by (simp add: host_ok_def workers_ok_def routes_ok_def demo_root_def demo_worker_entry_def amap_wf_def
      within_limit_def demo_config_def local_count_def)

lemma requests_keep_registry_witness:
  "host_ok demo_config (snd (handle_mass_request demo_config demo_root_services 5 [] (Some 4)
     (IRegisterTunnel 2 None \<lparr>wc_architectures = [], wc_operations = []\<rparr>) demo_root))"
  by (rule requests_keep_registry [OF demo_root_ok, where fresh = 5])
     (auto simp: demo_root_def intro: surjective_pairing)


lemma worker_requires_parent_token_witness:
  "\<exists>e. handle_mass_request demo_config demo_services 0 [] None (ITunnelForward 8 (TResetInstance 7)) demo_worker
    = (Inl e, demo_worker)"
  by (rule worker_requires_parent_token [OF demo_worker_runs(1)]) (simp add: demo_worker_mode_def)

end
