(* ===== verification/Flux_Topology.thy ===== *)
theory Flux_Topology
  imports Wire_Types "HOL-Library.Product_Lexorder"
begin

text \<open>
  The strategy-neutral topology of a flow graph (\<open>_black_hole_flux/src/topology/mod.rs\<close>): the
  resolved graph with what is observed of its progress, and the dependency frontier of a pass.
  A hash map is an association list and a hash set a list without repetitions; the order of an
  iteration is the order of the list, and the theorems hold for every order. \<open>usize\<close> counters
  of vertices and edges are kept as \<open>nat\<close>. A failure is a constructor per message of the code,
  with the values the message shows; \<open>Panicked\<close> marks an \<open>expect\<close> or an arithmetic panic.
\<close>

datatype flow_failure =
    NotPending u32
  | UnresolvedPredecessors u32 nat
  | NotReady u32
  | DownstreamNotPending u32
  | DownstreamOverrun u32 nat nat
  | DuplicatePorts "u32 list"
  | EmptyGraph
  | NoSourceContract u32
  | MissingPort u32 u32
  | NoEdgeDescriptor u32 u32
  | NoDestinationContract u32
  | SourceContractMismatch u32 u32
  | DestinationContractMismatch u32 u32
  | BundleMismatch u32 u32
  | TooManyProducers u32 nat
  | ProducerCountMismatch u32 "u32 list" "nat list"
  | GraphCycle
  | SinkCount "u32 list"
  | EffectFailed string
  | EmptyPipeline
  | NoSink
  | MissingMailbox u32
  | NoActiveInput u32
  | MissingCounter u32
  | OutputDisappeared
  | Panicked string

section \<open>Hash maps\<close>

text \<open>\<open>entry(k).or_insert(v)\<close>, \<open>*entry(k).or_default() += 1\<close> and \<open>entry(k).or_default().push(x)\<close>.\<close>

definition or_insert :: "'k \<Rightarrow> 'v \<Rightarrow> ('k \<times> 'v) list \<Rightarrow> ('k \<times> 'v) list" where
  "or_insert k v m = (case map_of m k of None \<Rightarrow> AList.update k v m | Some _ \<Rightarrow> m)"

definition lookup_or :: "'v \<Rightarrow> ('k \<times> 'v) list \<Rightarrow> 'k \<Rightarrow> 'v" where
  "lookup_or d m k = (case map_of m k of None \<Rightarrow> d | Some v \<Rightarrow> v)"

definition bump :: "'k \<Rightarrow> ('k \<times> 'n::{zero, one, plus}) list \<Rightarrow> ('k \<times> 'n) list" where
  "bump k m = AList.update k (lookup_or 0 m k + 1) m"

definition push_entry :: "'k \<Rightarrow> 'x \<Rightarrow> ('k \<times> 'x list) list \<Rightarrow> ('k \<times> 'x list) list" where
  "push_entry k x m = AList.update k (lookup_or [] m k @ [x]) m"

lemma map_of_or_insert [amap_simps]:
  "map_of (or_insert k v m) j = (if j = k \<and> map_of m k = None then Some v else map_of m j)"
  by (auto simp: or_insert_def amap_simps split: option.split)

lemma amap_wf_or_insert [simp, intro]: "amap_wf m \<Longrightarrow> amap_wf (or_insert k v m)"
  by (auto simp: or_insert_def split: option.split)

lemma or_insert_keys [simp]: "fst ` set (or_insert k v m) = insert k (fst ` set m)"
  by (auto simp: or_insert_def map_of_eq_None_iff dom_map_of_conv_image_fst [symmetric] amap_simps
      split: option.split if_splits)

lemma lookup_or_bump [amap_simps]:
  "lookup_or 0 (bump k m) j = (if j = k then lookup_or 0 m k + 1 else lookup_or 0 m j)"
  by (simp add: lookup_or_def bump_def amap_simps)

lemma lookup_or_push [amap_simps]:
  "lookup_or [] (push_entry k x m) j = (if j = k then lookup_or [] m k @ [x] else lookup_or [] m j)"
  by (simp add: lookup_or_def push_entry_def amap_simps)

lemma amap_wf_bump [simp, intro]: "amap_wf m \<Longrightarrow> amap_wf (bump k m)"
  by (simp add: bump_def)

lemma amap_wf_push [simp, intro]: "amap_wf m \<Longrightarrow> amap_wf (push_entry k x m)"
  by (simp add: push_entry_def)

lemma update_keys [simp]: "fst ` set (AList.update k v m) = insert k (fst ` set m)"
  by (simp add: dom_map_of_conv_image_fst [symmetric] amap_simps)

lemma bump_keys [simp]: "fst ` set (bump k m) = insert k (fst ` set m)"
  by (simp add: bump_def)

lemma push_keys [simp]: "fst ` set (push_entry k x m) = insert k (fst ` set m)"
  by (simp add: push_entry_def)

section \<open>Observable state\<close>

datatype sun_node_state = NodeIdle | Propagation1 | Propagation2 | Optimization

datatype sun_operational_state = OpQueued | OpRunning | OpSucceeded | OpFailed

record sun_node_appearance =
  na_id :: u32
  na_journey_id :: uuid
  na_warp_journey_id :: uuid
  na_label :: string
  na_input_ports :: "u32 list"
  na_state :: sun_node_state
  na_state_sequence :: u64
  na_grad_step :: nat
  na_operational_state :: sun_operational_state
  na_phase_annotation :: "string option"

record sun_edge_appearance =
  ea_source :: u32
  ea_target :: u32
  ea_target_port :: u32

record sun_appearance =
  ap_finalized :: bool
  ap_grad_steps :: nat
  ap_nodes :: "sun_node_appearance list"
  ap_edges :: "sun_edge_appearance list"

record declared_edge =
  de_port_id :: u32
  de_source_contract :: contract_descriptor
  de_destination_contract :: contract_descriptor

record port_target =
  pt_port_id :: u32
  pt_vertex_id :: u32

record propagation_target =
  pg_node_id :: u32
  pg_port_id :: u32
  pg_input_id :: object_id
  pg_next_input_id :: object_id
  pg_output_id :: object_id

record sun_topology =
  sg_finalized :: bool
  sg_journey_ids :: "(u32 \<times> uuid) list"
  sg_warp_journey_ids :: "(u32 \<times> uuid) list"
  sg_node_labels :: "(u32 \<times> string) list"
  sg_node_operational_states :: "(u32 \<times> sun_operational_state) list"
  sg_node_phase_annotations :: "(u32 \<times> string) list"
  sg_node_state_sequences :: "(u32 \<times> u64) list"
  sg_vertex_ports :: "(u32 \<times> u32 list) list"
  sg_port_vertices :: "(u32 \<times> u32) list"
  sg_declared_outputs :: "(u32 \<times> u32 list) list"
  sg_node_contracts :: "(u32 \<times> contract_descriptor) list"
  sg_declared_edges :: "(u32 \<times> declared_edge list) list"
  sg_duplicate_ports :: "u32 list"
  sg_incoming :: "(u32 \<times> u32 list) list"
  sg_outgoing :: "(u32 \<times> port_target list) list"

definition empty_topology :: sun_topology where
  "empty_topology = \<lparr>sg_finalized = False, sg_journey_ids = [], sg_warp_journey_ids = [], sg_node_labels = [],
     sg_node_operational_states = [], sg_node_phase_annotations = [], sg_node_state_sequences = [],
     sg_vertex_ports = [], sg_port_vertices = [], sg_declared_outputs = [], sg_node_contracts = [],
     sg_declared_edges = [], sg_duplicate_ports = [], sg_incoming = [], sg_outgoing = []\<rparr>"

definition default_gradient_accumulation_steps :: nat where
  "default_gradient_accumulation_steps = 1"

text \<open>The edge lists of the type-level descriptors: an edge is a port with the contract at its end.\<close>

primrec declared_edges_of :: "contract_descriptor \<Rightarrow> (u32 \<times> contract_descriptor) list \<Rightarrow> declared_edge list" where
  "declared_edges_of source [] = []"
| "declared_edges_of source (e # es) =
     \<lparr>de_port_id = fst e, de_source_contract = source, de_destination_contract = snd e\<rparr> # declared_edges_of source es"

section \<open>Recorded progress\<close>

definition forward_started_node :: "u32 \<Rightarrow> sun_topology \<Rightarrow> sun_topology" where
  "forward_started_node i t =
     t\<lparr>sg_node_operational_states := AList.update i OpRunning (sg_node_operational_states t),
       sg_node_phase_annotations := AList.update i ''forward'' (sg_node_phase_annotations t),
       sg_node_state_sequences := bump i (sg_node_state_sequences t)\<rparr>"

definition record_forward_started :: "u32 list \<Rightarrow> sun_topology \<Rightarrow> sun_topology" where
  "record_forward_started ids t = fold forward_started_node ids t"

definition record_forward_completed :: "u32 \<Rightarrow> sun_topology \<Rightarrow> sun_topology" where
  "record_forward_completed i t =
     t\<lparr>sg_node_operational_states := AList.update i OpSucceeded (sg_node_operational_states t)\<rparr>"

definition pipeline_started_node :: "u32 \<Rightarrow> sun_topology \<Rightarrow> sun_topology" where
  "pipeline_started_node i t =
     (let was_running = map_of (sg_node_operational_states t) i = Some OpRunning;
          t = t\<lparr>sg_node_operational_states := AList.update i OpRunning (sg_node_operational_states t),
                sg_node_phase_annotations := AList.update i ''pipeline'' (sg_node_phase_annotations t)\<rparr>
      in if was_running then t else t\<lparr>sg_node_state_sequences := bump i (sg_node_state_sequences t)\<rparr>)"

definition record_pipeline_started :: "u32 list \<Rightarrow> sun_topology \<Rightarrow> sun_topology" where
  "record_pipeline_started ids t = fold pipeline_started_node ids t"

definition record_pipeline_completed :: "u32 \<Rightarrow> sun_topology \<Rightarrow> sun_topology" where
  "record_pipeline_completed i t =
     t\<lparr>sg_node_operational_states := AList.update i OpSucceeded (sg_node_operational_states t)\<rparr>"

section \<open>The appearance\<close>

definition node_appearance :: "sun_topology \<Rightarrow> u32 \<times> uuid \<Rightarrow> sun_node_appearance" where
  "node_appearance t node =
     (let i = fst node in
      \<lparr>na_id = i, na_journey_id = snd node,
       na_warp_journey_id = lookup_or 0 (sg_warp_journey_ids t) i,
       na_label = lookup_or (''cell '' @ show_nat (unat i)) (sg_node_labels t) i,
       na_input_ports = lookup_or [] (sg_vertex_ports t) i,
       na_state = NodeIdle,
       na_state_sequence = lookup_or 0 (sg_node_state_sequences t) i,
       na_grad_step = 1,
       na_operational_state = lookup_or OpQueued (sg_node_operational_states t) i,
       na_phase_annotation = map_of (sg_node_phase_annotations t) i\<rparr>)"

definition edge_appearances :: "u32 \<times> port_target list \<Rightarrow> sun_edge_appearance list" where
  "edge_appearances out =
     map (\<lambda>target. \<lparr>ea_source = fst out, ea_target = pt_vertex_id target, ea_target_port = pt_port_id target\<rparr>) (snd out)"

definition edge_key :: "sun_edge_appearance \<Rightarrow> u32 \<times> u32 \<times> u32" where
  "edge_key e = (ea_source e, ea_target e, ea_target_port e)"

definition appearance :: "sun_topology \<Rightarrow> sun_appearance" where
  "appearance t =
     \<lparr>ap_finalized = sg_finalized t, ap_grad_steps = 1,
      ap_nodes = sort_key na_id (map (node_appearance t) (sg_journey_ids t)),
      ap_edges = remdups_adj (sort_key edge_key (concat (map edge_appearances (sg_outgoing t))))\<rparr>"

section \<open>The frontier\<close>

type_synonym pending_counts = "(u32 \<times> nat) list"

definition pending_dependency_counts :: "sun_topology \<Rightarrow> pending_counts" where
  "pending_dependency_counts t =
     map (\<lambda>node. (fst node, case map_of (sg_incoming t) (fst node) of None \<Rightarrow> 0 | Some sources \<Rightarrow> length sources))
       (sg_journey_ids t)"

definition initial_ready_nodes :: "pending_counts \<Rightarrow> u32 list" where
  "initial_ready_nodes pending = map fst (filter (\<lambda>p. snd p = 0) pending)"

definition sorted_node_ids :: "u32 list \<Rightarrow> u32 list" where
  "sorted_node_ids nodes = sort nodes"

text \<open>The decrements of an advance: how many edges lead to each target.\<close>

definition target_decrements :: "port_target list \<Rightarrow> (u32 \<times> nat) list" where
  "target_decrements targets = fold (\<lambda>t. bump (pt_vertex_id t)) targets []"

fun check_decrements :: "pending_counts \<Rightarrow> (u32 \<times> nat) list \<Rightarrow> flow_failure + unit" where
  "check_decrements pending [] = Inr ()"
| "check_decrements pending ((target, decrement) # ds) =
     (case map_of pending target of
        None \<Rightarrow> Inl (DownstreamNotPending target)
      | Some unresolved \<Rightarrow>
          if unresolved < decrement then Inl (DownstreamOverrun target unresolved decrement)
          else check_decrements pending ds)"

fun apply_decrement :: "u32 \<times> nat \<Rightarrow> pending_counts \<times> u32 list \<Rightarrow> pending_counts \<times> u32 list" where
  "apply_decrement (target, decrement) (pending, ready) =
     (case map_of pending target of
        None \<Rightarrow> (pending, ready)
      | Some unresolved \<Rightarrow>
          (AList.update target (unresolved - decrement) pending,
           if unresolved - decrement = 0 then List.insert target ready else ready))"

definition advance_frontier :: "u32 \<Rightarrow> port_target list \<Rightarrow> pending_counts \<times> u32 list \<Rightarrow>
    flow_failure + pending_counts \<times> u32 list" where
  "advance_frontier node targets frontier =
     (let (pending, ready) = frontier in
      case map_of pending node of
        None \<Rightarrow> Inl (NotPending node)
      | Some unresolved \<Rightarrow>
          if unresolved \<noteq> 0 then Inl (UnresolvedPredecessors node unresolved)
          else if node \<notin> set ready then Inl (NotReady node)
          else and_then (check_decrements pending (target_decrements targets)) (\<lambda>_.
            Inr (fold apply_decrement (target_decrements targets)
                   (AList.delete node pending, removeAll node ready))))"

definition port_ids :: "sun_topology \<Rightarrow> u32 list" where
  "port_ids t = map fst (sg_port_vertices t)"

definition vertex_ids :: "sun_topology \<Rightarrow> u32 list" where
  "vertex_ids t = map fst (sg_journey_ids t)"

definition root_vertex_ids :: "sun_topology \<Rightarrow> u32 list" where
  "root_vertex_ids t = sort (map fst (filter (\<lambda>p. snd p = []) (sg_incoming t)))"

end
