(* ===== verification/Flux_Compile.thy ===== *)
theory Flux_Compile
  imports Flux_Topology
begin

text \<open>
  The deployment of a flow graph (\<open>_black_hole_flux/src/compile\<close>): the registration of spawned
  vertices, the labels of their types, and the resolution of the neutral topology, which checks
  the declared edges against the registered contracts, counts the producers of every port,
  rejects cycles with Kahn's algorithm and requires a single sink.
\<close>

section \<open>Registration of vertices\<close>

definition register_port :: "u32 \<Rightarrow> u32 \<times> object_id \<Rightarrow> sun_topology \<Rightarrow> sun_topology" where
  "register_port vertex port t =
     (if map_of (sg_port_vertices t) (fst port) \<noteq> None
      then t\<lparr>sg_duplicate_ports := List.insert (fst port) (sg_duplicate_ports t)\<rparr>
      else t\<lparr>sg_port_vertices := AList.update (fst port) vertex (sg_port_vertices t)\<rparr>)"

text \<open>The trait \<open>SunProgram\<close>; a state holds its topology behind a lock.\<close>

record ('s, 'u, 'b, 'w) sun_program =
  sp_topology :: "'s \<Rightarrow> sun_topology"
  sp_set_topology :: "sun_topology \<Rightarrow> 's \<Rightarrow> 's"
  sp_unary_seed :: "object_id \<Rightarrow> 'u"
  sp_unary_inbox :: "'u \<Rightarrow> object_id"
  sp_binary_seed :: "object_id \<times> object_id \<Rightarrow> 'b"
  sp_binary_inboxes :: "'b \<Rightarrow> object_id \<times> object_id"
  sp_warp_seed :: "object_id \<Rightarrow> uuid \<Rightarrow> 'w"
  sp_register_inboxes :: "(u32 \<times> object_id) list \<Rightarrow> 's \<Rightarrow> 's"

definition register_in_topology :: "u32 \<Rightarrow> string \<Rightarrow> (u32 \<times> object_id) list \<Rightarrow> contract_descriptor \<Rightarrow>
    declared_edge list \<Rightarrow> uuid \<Rightarrow> uuid option \<Rightarrow> sun_topology \<Rightarrow> sun_topology" where
  "register_in_topology vertex label ports contract edges journey warp_journey t =
     fold (register_port vertex) ports
       (t\<lparr>sg_journey_ids := or_insert vertex journey (sg_journey_ids t),
          sg_warp_journey_ids := (case warp_journey of None \<Rightarrow> sg_warp_journey_ids t
             | Some w \<Rightarrow> AList.update vertex w (sg_warp_journey_ids t)),
          sg_node_labels := or_insert vertex label (sg_node_labels t),
          sg_node_operational_states := or_insert vertex OpQueued (sg_node_operational_states t),
          sg_node_state_sequences := or_insert vertex 0 (sg_node_state_sequences t),
          sg_vertex_ports := or_insert vertex (map fst ports) (sg_vertex_ports t),
          sg_node_contracts := or_insert vertex contract (sg_node_contracts t),
          sg_declared_outputs := or_insert vertex (map de_port_id edges) (sg_declared_outputs t),
          sg_declared_edges := or_insert vertex edges (sg_declared_edges t)\<rparr>)"

definition register_vertex :: "('s, 'u, 'b, 'w) sun_program \<Rightarrow> u32 \<Rightarrow> string \<Rightarrow> (u32 \<times> object_id) list \<Rightarrow>
    contract_descriptor \<Rightarrow> declared_edge list \<Rightarrow> uuid \<Rightarrow> uuid option \<Rightarrow> 's \<Rightarrow> 's" where
  "register_vertex P vertex label ports contract edges journey warp_journey s =
     sp_register_inboxes P ports
       (sp_set_topology P
         (register_in_topology vertex label ports contract edges journey warp_journey (sp_topology P s)) s)"

section \<open>Labels of types\<close>

definition is_token_char :: "char \<Rightarrow> bool" where
  "is_token_char c \<longleftrightarrow> of_char c \<in> {48..57::nat} \<or> of_char c \<in> {65..90::nat} \<or> of_char c \<in> {97..122::nat}
     \<or> c = CHR ''_'' \<or> c = CHR '':'' \<or> c = CHR 0x27"

text \<open>The part of a token after its last double colon, as \<open>rsplit\<close> finds it from the right.\<close>

fun last_segment :: "string \<Rightarrow> string" where
  "last_segment (CHR '':'' # CHR '':'' # cs) = []"
| "last_segment (c # cs) = c # last_segment cs"
| "last_segment [] = []"

definition push_shortened_type_token :: "string \<Rightarrow> string \<Rightarrow> string" where
  "push_shortened_type_token shortened token =
     (if token = [] then shortened else shortened @ List.rev (last_segment (List.rev token)))"

fun shorten_from :: "string \<Rightarrow> string \<Rightarrow> string \<Rightarrow> string" where
  "shorten_from [] shortened token = push_shortened_type_token shortened token"
| "shorten_from (c # cs) shortened token =
     (if is_token_char c then shorten_from cs shortened (token @ [c])
      else shorten_from cs (push_shortened_type_token shortened token @ [c]) [])"

definition is_space :: "char \<Rightarrow> bool" where
  "is_space c \<longleftrightarrow> of_char c \<in> {9..13::nat} \<or> c = CHR '' ''"

definition trim :: "string \<Rightarrow> string" where
  "trim s = List.rev (dropWhile is_space (List.rev (dropWhile is_space s)))"

definition short_type_label :: "string \<Rightarrow> string" where
  "short_type_label label = trim (shorten_from label [] [])"

section \<open>Spawning\<close>

text \<open>
  The parts of the spawn actions that run when their effect completes. A node is its type name,
  contract and declared edges; the journey is what the effect returned.
\<close>

definition spawn_unary :: "('s, 'u, 'b, 'w) sun_program \<Rightarrow> u32 \<Rightarrow> string \<Rightarrow> contract_descriptor \<Rightarrow>
    declared_edge list \<Rightarrow> string + uuid \<Rightarrow> 'u \<Rightarrow> 's \<Rightarrow> flow_failure + 's" where
  "spawn_unary P port type_name contract edges output seed s =
     (case output of
        Inl e \<Rightarrow> Inl (EffectFailed (''spawn failed: '' @ e))
      | Inr journey \<Rightarrow>
          Inr (register_vertex P port (short_type_label type_name) [(port, sp_unary_inbox P seed)]
                 contract edges journey None s))"

definition spawn_binary :: "('s, 'u, 'b, 'w) sun_program \<Rightarrow> u32 \<Rightarrow> u32 \<Rightarrow> string \<Rightarrow> contract_descriptor \<Rightarrow>
    declared_edge list \<Rightarrow> string + uuid \<Rightarrow> 'b \<Rightarrow> 's \<Rightarrow> flow_failure + 's" where
  "spawn_binary P p1 p2 type_name contract edges output seed s =
     (case output of
        Inl e \<Rightarrow> Inl (EffectFailed (''spawn failed: '' @ e))
      | Inr journey \<Rightarrow>
          let (inbox1, inbox2) = sp_binary_inboxes P seed in
          Inr (register_vertex P p1 (short_type_label type_name) [(p1, inbox1), (p2, inbox2)]
                 contract edges journey None s))"

definition spawn_warp_animal :: "string + uuid \<Rightarrow> 'u \<Rightarrow> flow_failure + 'u \<times> uuid" where
  "spawn_warp_animal output carry =
     (case output of
        Inl e \<Rightarrow> Inl (EffectFailed (''warp spawn failed: '' @ e))
      | Inr warp_journey \<Rightarrow> Inr (carry, warp_journey))"

definition warp_boundary_seed :: "('s, 'u, 'b, 'w) sun_program \<Rightarrow> 'u \<times> uuid \<Rightarrow> 'w" where
  "warp_boundary_seed P input = sp_warp_seed P (sp_unary_inbox P (fst input)) (snd input)"

definition spawn_warp_boundary :: "('s, 'u, 'b, 'w) sun_program \<Rightarrow> u32 \<Rightarrow> string \<Rightarrow> string \<Rightarrow>
    contract_descriptor \<Rightarrow> declared_edge list \<Rightarrow> string + uuid \<Rightarrow> 'u \<times> uuid \<Rightarrow> 's \<Rightarrow> flow_failure + 's" where
  "spawn_warp_boundary P port warp_type boundary_type contract edges output carry s =
     (case output of
        Inl e \<Rightarrow> Inl (EffectFailed (''boundary spawn failed: '' @ e))
      | Inr journey \<Rightarrow>
          let (init, warp_journey) = carry in
          Inr (register_vertex P port
                 (''Warp<'' @ short_type_label warp_type @ '', '' @ short_type_label boundary_type @ ''>'')
                 [(port, sp_unary_inbox P init)] contract edges journey (Some warp_journey) s))"

section \<open>Resolution\<close>

primrec try_fold :: "('x \<Rightarrow> 's \<Rightarrow> 'e + 's) \<Rightarrow> 'x list \<Rightarrow> 's \<Rightarrow> 'e + 's" where
  "try_fold f [] s = Inr s"
| "try_fold f (x # xs) s = and_then (f x s) (try_fold f xs)"

record resolution =
  rs_counts :: "(u32 \<times> nat) list"
  rs_outgoing :: "(u32 \<times> port_target list) list"
  rs_incoming :: "(u32 \<times> u32 list) list"

definition resolve_port :: "sun_topology \<Rightarrow> u32 \<Rightarrow> contract_descriptor \<Rightarrow> declared_edge list \<Rightarrow> u32 \<Rightarrow>
    resolution \<Rightarrow> flow_failure + resolution" where
  "resolve_port t source contract declared port rs =
     and_then (ok_or (MissingPort source port) (map_of (sg_port_vertices t) port)) (\<lambda>target.
     and_then (ok_or (NoEdgeDescriptor source port) (find (\<lambda>e. de_port_id e = port) declared)) (\<lambda>edge.
     and_then (ok_or (NoDestinationContract target) (map_of (sg_node_contracts t) target)) (\<lambda>destination.
     if de_source_contract edge \<noteq> contract then Inl (SourceContractMismatch source port)
     else if de_destination_contract edge \<noteq> destination then Inl (DestinationContractMismatch source port)
     else if cd_outputs contract \<noteq> cd_inputs destination then Inl (BundleMismatch source port)
     else if map_of (rs_counts rs) port = None then Inl (Panicked ''registered port'')
     else Inr \<lparr>rs_counts = bump port (rs_counts rs),
               rs_outgoing = push_entry source \<lparr>pt_port_id = port, pt_vertex_id = target\<rparr> (rs_outgoing rs),
               rs_incoming = push_entry target source (rs_incoming rs)\<rparr>)))"

definition resolve_source :: "sun_topology \<Rightarrow> u32 \<times> u32 list \<Rightarrow> resolution \<Rightarrow> flow_failure + resolution" where
  "resolve_source t out rs =
     and_then (ok_or (NoSourceContract (fst out)) (map_of (sg_node_contracts t) (fst out))) (\<lambda>contract.
     try_fold (resolve_port t (fst out) contract (lookup_or [] (sg_declared_edges t) (fst out))) (snd out) rs)"

definition check_producers :: "(u32 \<times> nat) list \<Rightarrow> flow_failure + unit" where
  "check_producers counts =
     (case find (\<lambda>c. snd c > 1) counts of
        None \<Rightarrow> Inr ()
      | Some c \<Rightarrow> Inl (TooManyProducers (fst c) (snd c)))"

definition port_counts :: "(u32 \<times> nat) list \<Rightarrow> u32 list \<Rightarrow> nat list" where
  "port_counts counts ports = map (lookup_or 0 counts) ports"

definition check_vertex_ports :: "(u32 \<times> nat) list \<Rightarrow> (u32 \<times> u32 list) list \<Rightarrow> flow_failure + unit" where
  "check_vertex_ports counts vertex_ports =
     (case find (\<lambda>v. \<not> list_all (\<lambda>n. n = 0) (port_counts counts (snd v))
                    \<and> \<not> list_all (\<lambda>n. n = 1) (port_counts counts (snd v))) vertex_ports of
        None \<Rightarrow> Inr ()
      | Some v \<Rightarrow> Inl (ProducerCountMismatch (fst v) (snd v) (port_counts counts (snd v))))"

text \<open>
  The loop of Kahn's algorithm. \<open>None\<close> stands for its two panics: a target without a degree, and
  the decrement of a degree that is zero (which wraps in a build without overflow checks).
\<close>

fun release_targets :: "port_target list \<Rightarrow> (u32 \<times> nat) list \<Rightarrow> u32 list \<Rightarrow> ((u32 \<times> nat) list \<times> u32 list) option" where
  "release_targets [] degrees queue = Some (degrees, queue)"
| "release_targets (t # ts) degrees queue =
     (case map_of degrees (pt_vertex_id t) of
        None \<Rightarrow> None
      | Some 0 \<Rightarrow> None
      | Some (Suc n) \<Rightarrow>
          release_targets ts (AList.update (pt_vertex_id t) n degrees)
            (if n = 0 then queue @ [pt_vertex_id t] else queue))"

lemma sum_update:
  "map_of m k = Some (Suc n) \<Longrightarrow> Suc (sum_list (map snd (AList.update k n m))) = sum_list (map snd m)"
  by (induction m) auto

lemma release_targets_measure:
  "release_targets ts d q = Some (d', q') \<Longrightarrow>
   sum_list (map snd d') + length q' \<le> sum_list (map snd d) + length q"
proof (induction ts d q rule: release_targets.induct)
  case (2 t ts d q)
  then obtain n where n: "map_of d (pt_vertex_id t) = Some (Suc n)"
    by (auto split: option.splits nat.splits)
  with 2 sum_update [OF n] show ?case by (fastforce split: if_splits)
qed simp

function kahn_visit :: "(u32 \<times> port_target list) list \<Rightarrow> (u32 \<times> nat) list \<Rightarrow> u32 list \<Rightarrow> nat \<Rightarrow> nat option" where
  "kahn_visit outgoing degrees [] visited = Some visited"
| "kahn_visit outgoing degrees (i # queue) visited =
     (case release_targets (lookup_or [] outgoing i) degrees queue of
        None \<Rightarrow> None
      | Some (degrees, queue) \<Rightarrow> kahn_visit outgoing degrees queue (Suc visited))"
  by pat_completeness auto

termination
  by (relation "measure (\<lambda>(outgoing, degrees, queue, visited). sum_list (map snd degrees) + length queue)")
     (auto dest!: release_targets_measure)

definition graph_sinks :: "u32 list \<Rightarrow> (u32 \<times> port_target list) list \<Rightarrow> u32 list" where
  "graph_sinks vertices outgoing = sort (filter (\<lambda>v. lookup_or [] outgoing v = []) vertices)"

definition check_resolution :: "sun_topology \<Rightarrow> u32 list \<Rightarrow> resolution \<Rightarrow> flow_failure + u32" where
  "check_resolution t vertices rs =
     and_then (check_producers (rs_counts rs)) (\<lambda>_.
     and_then (check_vertex_ports (rs_counts rs) (sg_vertex_ports t)) (\<lambda>_.
     let degrees = map (\<lambda>(i, sources). (i, length sources)) (rs_incoming rs);
         roots = sort (map fst (filter (\<lambda>d. snd d = 0) degrees)) in
     (case kahn_visit (rs_outgoing rs) degrees roots 0 of
        None \<Rightarrow> Inl (Panicked ''resolved vertex'')
      | Some visited \<Rightarrow>
          if visited \<noteq> length vertices then Inl GraphCycle
          else (case graph_sinks vertices (rs_outgoing rs) of
                  [sink] \<Rightarrow> Inr sink
                | sinks \<Rightarrow> Inl (SinkCount sinks)))))"

definition resolve_neutral_topology :: "sun_topology \<Rightarrow> (flow_failure + u32) \<times> sun_topology" where
  "resolve_neutral_topology topology =
     (let t = topology\<lparr>sg_finalized := False\<rparr>;
          vertices = vertex_ids t in
      if sg_duplicate_ports t \<noteq> [] then (Inl (DuplicatePorts (sort (sg_duplicate_ports t))), t)
      else if vertices = [] then (Inl EmptyGraph, t)
      else case try_fold (resolve_source t) (sg_declared_outputs t)
             \<lparr>rs_counts = map (\<lambda>p. (fst p, 0)) (sg_port_vertices t),
              rs_outgoing = map (\<lambda>v. (v, [])) vertices,
              rs_incoming = map (\<lambda>v. (v, [])) vertices\<rparr> of
             Inl e \<Rightarrow> (Inl e, t)
           | Inr rs \<Rightarrow>
               (case check_resolution t vertices rs of
                  Inl e \<Rightarrow> (Inl e, t)
                | Inr sink \<Rightarrow>
                    (Inr sink, t\<lparr>sg_incoming := rs_incoming rs, sg_outgoing := rs_outgoing rs, sg_finalized := True\<rparr>)))"

end
