(* ===== verification/Flux_Forward.thy ===== *)
theory Flux_Forward
  imports Flux_Compile
begin

text \<open>
  The forward scheduler of a flow graph (\<open>_black_hole_flux/src/forward\<close>): its state, the two
  parts of every action (what it emits for its effect, and how it absorbs the completion), the
  effects over a Void client, and the serving pipeline, in which several inputs are in flight.
  Random identifiers are drawn from a sequence. A failed effect is its error text.
\<close>

record artifact_delivery =
  ad_emission_id :: object_id
  ad_recv :: object_id
  ad_send :: object_id

record 's forward_runtime =
  fr_inner :: 's
  fr_pending :: pending_counts
  fr_ready :: "u32 list"
  fr_inputs :: "(u32 \<times> object_id) list"
  fr_next_inputs :: "(u32 \<times> object_id) list"
  fr_outputs :: "(u32 \<times> object_id) list"
  fr_sink_id :: "u32 option"
  fr_pipeline_inputs :: "artifact_delivery list"
  fr_pipeline_input_ids :: "(u32 \<times> object_id) list list"
  fr_pipeline_output_ids :: "(u32 \<times> object_id) list list"
  fr_node_completed :: "(u32 \<times> nat) list"
  fr_root_sent :: "(u32 \<times> nat) list"
  fr_completed_outputs :: "artifact_delivery list"
  fr_pipeline_completions :: nat
  fr_pipeline_target_completions :: nat
  fr_pipeline_window :: nat

record 's forward_sun_state =
  fs_topology :: sun_topology
  fs_runtime :: "'s forward_runtime"

definition empty_runtime :: "'s \<Rightarrow> 's forward_runtime" where
  "empty_runtime inner = \<lparr>fr_inner = inner, fr_pending = [], fr_ready = [], fr_inputs = [], fr_next_inputs = [],
     fr_outputs = [], fr_sink_id = None, fr_pipeline_inputs = [], fr_pipeline_input_ids = [],
     fr_pipeline_output_ids = [], fr_node_completed = [], fr_root_sent = [], fr_completed_outputs = [],
     fr_pipeline_completions = 0, fr_pipeline_target_completions = 0, fr_pipeline_window = 0\<rparr>"

text \<open>The completion of an effect, with the failure an action makes of its error.\<close>

definition completed_or :: "string \<Rightarrow> string + 'a \<Rightarrow> flow_failure + 'a" where
  "completed_or message output = (case output of Inl e \<Rightarrow> Inl (EffectFailed message) | Inr x \<Rightarrow> Inr x)"

definition completed_with :: "string \<Rightarrow> string + 'a \<Rightarrow> flow_failure + 'a" where
  "completed_with message output = (case output of Inl e \<Rightarrow> Inl (EffectFailed (message @ e)) | Inr x \<Rightarrow> Inr x)"

lemma completed_simps [simp]:
  "completed_or m (Inr x) = Inr x" "completed_with m (Inr x) = Inr x"
  "completed_or m (Inl e) = Inl (EffectFailed m)" "completed_with m (Inl e) = Inl (EffectFailed (m @ e))"
  by (simp_all add: completed_or_def completed_with_def)

section \<open>Finalization\<close>

definition finalize_forward_graph :: "string + unit \<Rightarrow> 's forward_sun_state \<Rightarrow>
    (flow_failure + unit) \<times> 's forward_sun_state" where
  "finalize_forward_graph output s =
     (case completed_or ''finalize forward graph failed'' output of
        Inl e \<Rightarrow> (Inl e, s)
      | Inr _ \<Rightarrow>
          let (result, t) = resolve_neutral_topology (fs_topology s); s = s\<lparr>fs_topology := t\<rparr> in
          (case result of
             Inl e \<Rightarrow> (Inl e, s)
           | Inr sink \<Rightarrow>
               (Inr (), s\<lparr>fs_runtime := (fs_runtime s)
                  \<lparr>fr_pending := [], fr_ready := [], fr_next_inputs := [], fr_outputs := [], fr_pipeline_inputs := [],
                   fr_pipeline_input_ids := [], fr_pipeline_output_ids := [], fr_node_completed := [],
                   fr_root_sent := [], fr_completed_outputs := [], fr_pipeline_completions := 0,
                   fr_pipeline_target_completions := 0, fr_pipeline_window := 0, fr_sink_id := Some sink\<rparr>\<rparr>)))"

section \<open>Deliveries over the Void client\<close>

text \<open>
  The methods of the trait \<open>VoidOps\<close> that the scheduler uses, and the postcard codec of a
  delivery. A long poll answers with the bytes, or with nothing after its timeout.
\<close>

record 'v flow_void =
  fv_upload_with :: "object_id \<Rightarrow> bytes \<Rightarrow> 'v \<Rightarrow> (string + unit) \<times> 'v"
  fv_download_wait :: "object_id \<Rightarrow> u64 \<Rightarrow> 'v \<Rightarrow> (string + bytes option) \<times> 'v"
  fv_encode :: "artifact_delivery \<Rightarrow> string + bytes"
  fv_decode :: "bytes \<Rightarrow> string + artifact_delivery"

definition DEFAULT_TRANSMISSION_LONG_POLL_TIMEOUT_MS :: u64 where
  "DEFAULT_TRANSMISSION_LONG_POLL_TIMEOUT_MS = 30000"

definition send_artifact_delivery :: "'v flow_void \<Rightarrow> propagation_target \<Rightarrow> artifact_delivery \<Rightarrow> 'v \<Rightarrow>
    (string + unit) \<times> 'v" where
  "send_artifact_delivery V target delivery v =
     (let delivery = \<lparr>ad_emission_id = ad_emission_id delivery, ad_recv = pg_next_input_id target,
                      ad_send = pg_output_id target\<rparr> in
      case fv_encode V delivery of
        Inl e \<Rightarrow> (Inl (''serialize artifact delivery: '' @ e), v)
      | Inr data \<Rightarrow>
          (case fv_upload_with V (pg_input_id target) data v of
             (Inl e, v) \<Rightarrow> (Inl (''send artifact to vertex '' @ show_nat (unat (pg_node_id target)) @ '' port ''
                @ show_nat (unat (pg_port_id target)) @ '': '' @ e), v)
           | (Inr _, v) \<Rightarrow> (Inr (), v)))"

text \<open>The loop of an effect over its sends; the identifiers form a \<open>BTreeSet\<close>.\<close>

fun send_deliveries :: "'v flow_void \<Rightarrow> (propagation_target \<times> artifact_delivery) list \<Rightarrow> u32 list \<Rightarrow> 'v \<Rightarrow>
    (string + u32 list) \<times> 'v" where
  "send_deliveries V [] sent v = (Inr sent, v)"
| "send_deliveries V ((target, delivery) # sends) sent v =
     (case send_artifact_delivery V target delivery v of
        (Inl e, v) \<Rightarrow> (Inl e, v)
      | (Inr _, v) \<Rightarrow> send_deliveries V sends (insort_insert (pg_node_id target) sent) v)"

definition send_root_artifact_delivery :: "'v flow_void \<Rightarrow> propagation_target list \<Rightarrow> artifact_delivery \<Rightarrow> 'v \<Rightarrow>
    (string + u32 list) \<times> 'v" where
  "send_root_artifact_delivery V targets delivery v =
     send_deliveries V (map (\<lambda>target. (target, delivery)) targets) [] v"

definition send_ready_root_artifact_deliveries :: "'v flow_void \<Rightarrow> (propagation_target \<times> artifact_delivery) list \<Rightarrow>
    'v \<Rightarrow> (string + u32 list) \<times> 'v" where
  "send_ready_root_artifact_deliveries V sends v = send_deliveries V sends [] v"

text \<open>The wait for a delivery polls until it answers; \<open>None\<close> after as many polls as \<open>rounds\<close>.\<close>

fun wait_for_artifact_delivery :: "'v flow_void \<Rightarrow> nat \<Rightarrow> object_id \<Rightarrow> 'v \<Rightarrow>
    (string + artifact_delivery) option \<times> 'v" where
  "wait_for_artifact_delivery V 0 i v = (None, v)"
| "wait_for_artifact_delivery V (Suc rounds) i v =
     (case fv_download_wait V i DEFAULT_TRANSMISSION_LONG_POLL_TIMEOUT_MS v of
        (Inr (Some data), v) \<Rightarrow>
          (Some (case fv_decode V data of Inl e \<Rightarrow> Inl (''postcard deserialize: '' @ e) | Inr d \<Rightarrow> Inr d), v)
      | (_, v) \<Rightarrow> wait_for_artifact_delivery V rounds i v)"

record scheduler_delivery =
  sd_node_id :: u32
  sd_delivery :: artifact_delivery
  sd_sent_node_ids :: "u32 list"

text \<open>
  One wait for the outputs of several nodes. \<open>arrival\<close> is the position of the endpoint whose
  wait finishes first.
\<close>

definition wait_for_node_artifact_delivery :: "'v flow_void \<Rightarrow> nat \<Rightarrow> nat \<Rightarrow> (u32 \<times> object_id) list \<Rightarrow>
    (u32 \<times> propagation_target list) list \<Rightarrow> 'v \<Rightarrow> (string + scheduler_delivery) option \<times> 'v" where
  "wait_for_node_artifact_delivery V rounds arrival endpoints downstream v =
     (if endpoints = [] then (Some (Inl ''no typed artifact endpoints to wait for''), v)
      else
        let (node, i) = endpoints ! (arrival mod length endpoints) in
        (case wait_for_artifact_delivery V rounds i v of
           (None, v) \<Rightarrow> (None, v)
         | (Some (Inl e), v) \<Rightarrow> (Some (Inl e), v)
         | (Some (Inr delivery), v) \<Rightarrow>
             (case send_deliveries V (map (\<lambda>target. (target, delivery)) (lookup_or [] downstream node)) [] v of
                (Inl e, v) \<Rightarrow> (Some (Inl e), v)
              | (Inr sent, v) \<Rightarrow>
                  (Some (Inr \<lparr>sd_node_id = node, sd_delivery = delivery, sd_sent_node_ids = sent\<rparr>), v))))"

section \<open>One forward pass\<close>

text \<open>Fresh identifiers for a list of keys, from the draw number \<open>n\<close> on.\<close>

definition draw_ids :: "(nat \<Rightarrow> uuid) \<Rightarrow> nat \<Rightarrow> u32 list \<Rightarrow> (u32 \<times> uuid) list" where
  "draw_ids fresh n ks = map (\<lambda>(j, k). (k, fresh j)) (List.enumerate n ks)"

definition queue_node :: "u32 \<Rightarrow> sun_topology \<Rightarrow> sun_topology" where
  "queue_node i t =
     t\<lparr>sg_node_operational_states := AList.update i OpQueued (sg_node_operational_states t),
       sg_node_phase_annotations := AList.delete i (sg_node_phase_annotations t)\<rparr>"

definition prepare_forward_pass :: "(nat \<Rightarrow> uuid) \<Rightarrow> string + unit \<Rightarrow> artifact_delivery \<Rightarrow> 's forward_sun_state \<Rightarrow>
    (flow_failure + artifact_delivery) \<times> 's forward_sun_state" where
  "prepare_forward_pass fresh output carry s =
     (case completed_or ''prepare forward pass failed'' output of
        Inl e \<Rightarrow> (Inl e, s)
      | Inr _ \<Rightarrow>
          let t = fs_topology s;
              pending = pending_dependency_counts t;
              ready = initial_ready_nodes pending;
              ports = port_ids t;
              nodes = vertex_ids t in
          (Inr carry,
           s\<lparr>fs_topology := fold queue_node nodes t,
             fs_runtime := (fs_runtime s)
               \<lparr>fr_next_inputs := draw_ids fresh 0 ports,
                fr_outputs := draw_ids fresh (length ports) nodes,
                fr_pending := pending, fr_ready := ready\<rparr>\<rparr>))"

definition port_sends :: "'s forward_runtime \<Rightarrow> u32 \<times> u32 list \<Rightarrow> propagation_target list" where
  "port_sends r vertex =
     List.map_filter (\<lambda>port.
       case (map_of (fr_inputs r) port, map_of (fr_next_inputs r) port, map_of (fr_outputs r) (fst vertex)) of
         (Some input, Some next, Some output) \<Rightarrow>
           Some \<lparr>pg_node_id = fst vertex, pg_port_id = port, pg_input_id = input, pg_next_input_id = next,
                 pg_output_id = output\<rparr>
       | _ \<Rightarrow> None) (snd vertex)"

definition emit_forward_roots :: "'s forward_sun_state \<Rightarrow> propagation_target list" where
  "emit_forward_roots s =
     (let t = fs_topology s; r = fs_runtime s in
      sort_key (\<lambda>target. (pg_node_id target, pg_port_id target))
        (concat (map (port_sends r)
          (filter (\<lambda>vertex. lookup_or [] (sg_incoming t) (fst vertex) = []) (sg_vertex_ports t)))))"

definition absorb_forward_roots :: "string + u32 list \<Rightarrow> artifact_delivery \<Rightarrow> 's forward_sun_state \<Rightarrow>
    (flow_failure + artifact_delivery) \<times> 's forward_sun_state" where
  "absorb_forward_roots output carry s =
     (case completed_with ''send forward roots failed: '' output of
        Inl e \<Rightarrow> (Inl e, s)
      | Inr sent \<Rightarrow> (Inr carry, s\<lparr>fs_topology := record_forward_started sent (fs_topology s)\<rparr>))"

definition downstream_target :: "'s forward_runtime \<Rightarrow> port_target \<Rightarrow> propagation_target option" where
  "downstream_target r target =
     (case (map_of (fr_inputs r) (pt_port_id target), map_of (fr_next_inputs r) (pt_port_id target),
            map_of (fr_outputs r) (pt_vertex_id target)) of
        (Some input, Some next, Some output) \<Rightarrow>
          Some \<lparr>pg_node_id = pt_vertex_id target, pg_port_id = pt_port_id target, pg_input_id = input,
                pg_next_input_id = next, pg_output_id = output\<rparr>
      | _ \<Rightarrow> None)"

definition emit_forward_node :: "'s forward_sun_state \<Rightarrow> (u32 \<times> object_id) list \<times> (u32 \<times> propagation_target list) list" where
  "emit_forward_node s =
     (let t = fs_topology s; r = fs_runtime s; ready = sorted_node_ids (fr_ready r) in
      (List.map_filter (\<lambda>i. map_option (\<lambda>out. (i, out)) (map_of (fr_outputs r) i)) ready,
       map (\<lambda>i. (i, List.map_filter (downstream_target r) (lookup_or [] (sg_outgoing t) i))) ready))"

definition absorb_forward_node :: "string + scheduler_delivery \<Rightarrow> 's forward_sun_state \<Rightarrow>
    (flow_failure + artifact_delivery) \<times> 's forward_sun_state" where
  "absorb_forward_node output s =
     (case completed_with ''process forward node failed: '' output of
        Inl e \<Rightarrow> (Inl e, s)
      | Inr completion \<Rightarrow>
          let t = fs_topology s; r = fs_runtime s; node = sd_node_id completion in
          (case advance_frontier node (lookup_or [] (sg_outgoing t) node) (fr_pending r, fr_ready r) of
             Inl e \<Rightarrow> (Inl e, s)
           | Inr (pending, ready) \<Rightarrow>
               (Inr (sd_delivery completion),
                s\<lparr>fs_runtime := r\<lparr>fr_pending := pending, fr_ready := ready\<rparr>,
                  fs_topology := record_forward_started (sd_sent_node_ids completion) (record_forward_completed node t)\<rparr>)))"

definition pending_forward_work :: "'s forward_sun_state \<Rightarrow> bool" where
  "pending_forward_work s \<longleftrightarrow> fr_pending (fs_runtime s) \<noteq> []"

definition complete_forward_pass :: "string + unit \<Rightarrow> artifact_delivery \<Rightarrow> 's forward_sun_state \<Rightarrow>
    (flow_failure + artifact_delivery) \<times> 's forward_sun_state" where
  "complete_forward_pass output carry s =
     (case completed_or ''complete forward pass failed'' output of
        Inl e \<Rightarrow> (Inl e, s)
      | Inr _ \<Rightarrow>
          (Inr carry, s\<lparr>fs_runtime := (fs_runtime s)
             \<lparr>fr_inputs := fr_next_inputs (fs_runtime s), fr_next_inputs := [], fr_outputs := []\<rparr>\<rparr>))"

definition discard_forward_output :: "string + unit \<Rightarrow> flow_failure + unit" where
  "discard_forward_output output = completed_or ''discard forward output failed'' output"

end
