(* ===== verification/Flux_Pipeline.thy ===== *)
theory Flux_Pipeline
  imports Flux_Forward
begin

text \<open>
  The serving pipeline of a flow graph (\<open>_black_hole_flux/src/forward\<close>): a window of inputs is
  collected and given mailboxes of its own for every port and vertex; then roots are seeded and
  completions absorbed, with several inputs in flight, until every vertex has handled every
  input. The counters of a window are natural numbers.
\<close>

definition pipeline_task_for_node :: "'s forward_runtime \<Rightarrow> u32 \<Rightarrow> nat option" where
  "pipeline_task_for_node r node =
     (let completed = lookup_or 0 (fr_node_completed r) node in
      if completed < length (fr_pipeline_inputs r) then Some completed else None)"

definition dependencies_ready :: "'s forward_runtime \<Rightarrow> sun_topology \<Rightarrow> u32 \<Rightarrow> nat \<Rightarrow> bool" where
  "dependencies_ready r t node input_index \<longleftrightarrow>
     (let sources = lookup_or [] (sg_incoming t) node in
      if sources = [] then lookup_or 0 (fr_root_sent r) node > input_index
      else list_all (\<lambda>u. lookup_or 0 (fr_node_completed r) u > input_index) sources)"

definition pipeline_ready_nodes :: "'s forward_runtime \<Rightarrow> sun_topology \<Rightarrow> u32 list" where
  "pipeline_ready_nodes r t =
     sort (filter (\<lambda>node. case pipeline_task_for_node r node of
        None \<Rightarrow> False | Some input_index \<Rightarrow> dependencies_ready r t node input_index) (vertex_ids t))"

text \<open>\<open>get(index).and_then(|map| map.get(&key).copied())\<close>\<close>

definition mailbox_at :: "(u32 \<times> object_id) list list \<Rightarrow> nat \<Rightarrow> u32 \<Rightarrow> object_id option" where
  "mailbox_at tables index key = (if index < length tables then map_of (tables ! index) key else None)"

definition pipeline_input_id :: "'s forward_runtime \<Rightarrow> nat \<Rightarrow> u32 \<Rightarrow> flow_failure + object_id" where
  "pipeline_input_id r input_index port =
     ok_or (Panicked ''missing pipeline input'') (mailbox_at (fr_pipeline_input_ids r) input_index port)"

definition pipeline_target :: "'s forward_runtime \<Rightarrow> sun_topology \<Rightarrow> nat \<Rightarrow> u32 \<Rightarrow> flow_failure + propagation_target" where
  "pipeline_target r t input_index port =
     and_then (ok_or (Panicked ''missing node for port'') (map_of (sg_port_vertices t) port)) (\<lambda>node.
     and_then (pipeline_input_id r input_index port) (\<lambda>input.
     and_then (ok_or (Panicked ''missing next pipeline mailbox'')
       (case mailbox_at (fr_pipeline_input_ids r) (input_index + 1) port of
          Some i \<Rightarrow> Some i | None \<Rightarrow> map_of (fr_next_inputs r) port)) (\<lambda>next.
     and_then (ok_or (Panicked ''missing pipeline output'') (mailbox_at (fr_pipeline_output_ids r) input_index node)) (\<lambda>out.
     Inr \<lparr>pg_node_id = node, pg_port_id = port, pg_input_id = input, pg_next_input_id = next, pg_output_id = out\<rparr>))))"

definition pipeline_targets :: "'s forward_runtime \<Rightarrow> sun_topology \<Rightarrow> nat \<Rightarrow> u32 list \<Rightarrow>
    flow_failure + propagation_target list" where
  "pipeline_targets r t input_index ports =
     try_fold (\<lambda>port acc. and_then (pipeline_target r t input_index port) (\<lambda>target. Inr (acc @ [target]))) ports []"

section \<open>Collecting a window\<close>

definition begin_forward_pipeline :: "nat \<Rightarrow> string + unit \<Rightarrow> 's forward_sun_state \<Rightarrow>
    (flow_failure + unit) \<times> 's forward_sun_state" where
  "begin_forward_pipeline max_in_flight output s =
     (case completed_or ''begin forward pipeline failed'' output of
        Inl e \<Rightarrow> (Inl e, s)
      | Inr _ \<Rightarrow> (Inr (), s\<lparr>fs_runtime := (fs_runtime s)
          \<lparr>fr_pipeline_inputs := [], fr_completed_outputs := [], fr_pipeline_window := max max_in_flight 1\<rparr>\<rparr>))"

definition store_forward_pipeline_input :: "string + unit \<Rightarrow> artifact_delivery \<Rightarrow> 's forward_sun_state \<Rightarrow>
    (flow_failure + unit) \<times> 's forward_sun_state" where
  "store_forward_pipeline_input output carry s =
     (case completed_or ''store forward pipeline input failed'' output of
        Inl e \<Rightarrow> (Inl e, s)
      | Inr _ \<Rightarrow> (Inr (), s\<lparr>fs_runtime := (fs_runtime s)
          \<lparr>fr_pipeline_inputs := fr_pipeline_inputs (fs_runtime s) @ [carry]\<rparr>\<rparr>))"

definition pending_forward_pipeline_inputs :: "'s forward_sun_state \<Rightarrow> bool" where
  "pending_forward_pipeline_inputs s \<longleftrightarrow>
     length (fr_pipeline_inputs (fs_runtime s)) < fr_pipeline_window (fs_runtime s)"

text \<open>
  The mailboxes of a window of \<open>n\<close> inputs: the first input of a port uses the current inbox, the
  others fresh ones, drawn per port before the inbox of the next window; then the outputs.
\<close>

fun prepare_port_mailboxes :: "(nat \<Rightarrow> uuid) \<Rightarrow> nat \<Rightarrow> nat \<Rightarrow> u32 list \<Rightarrow> 's forward_runtime \<Rightarrow>
    (flow_failure + unit) \<times> 's forward_runtime" where
  "prepare_port_mailboxes fresh n k [] r = (Inr (), r)"
| "prepare_port_mailboxes fresh n k (port # ports) r =
     (case map_of (fr_inputs r) port of
        None \<Rightarrow> (Inl (MissingMailbox port), r)
      | Some initial \<Rightarrow>
          prepare_port_mailboxes fresh n (Suc k) ports
            (r\<lparr>fr_pipeline_input_ids := map (\<lambda>(i, m). AList.update port (if i = 0 then initial else fresh (k * n + i - 1)) m)
                 (List.enumerate 0 (fr_pipeline_input_ids r)),
               fr_next_inputs := AList.update port (fresh (k * n + n - 1)) (fr_next_inputs r)\<rparr>))"

fun prepare_node_mailboxes :: "(nat \<Rightarrow> uuid) \<Rightarrow> nat \<Rightarrow> nat \<Rightarrow> u32 list \<Rightarrow> (u32 \<times> object_id) list list \<Rightarrow>
    (u32 \<times> object_id) list list" where
  "prepare_node_mailboxes fresh n first [] tables = tables"
| "prepare_node_mailboxes fresh n first (node # nodes) tables =
     prepare_node_mailboxes fresh n (first + n) nodes
       (map (\<lambda>(i, m). AList.update node (fresh (first + i)) m) (List.enumerate 0 tables))"

definition prepare_forward_pipeline :: "(nat \<Rightarrow> uuid) \<Rightarrow> string + unit \<Rightarrow> 's forward_sun_state \<Rightarrow>
    (flow_failure + unit) \<times> 's forward_sun_state" where
  "prepare_forward_pipeline fresh output s =
     (case completed_or ''prepare forward pipeline failed'' output of
        Inl e \<Rightarrow> (Inl e, s)
      | Inr _ \<Rightarrow>
          let r = fs_runtime s; t = fs_topology s; n = length (fr_pipeline_inputs r) in
          if n = 0 then (Inl EmptyPipeline, s)
          else
            let ports = sort (port_ids t); nodes = sort (vertex_ids t); roots = root_vertex_ids t in
            (case fr_sink_id r of
               None \<Rightarrow> (Inl NoSink, s)
             | Some sink \<Rightarrow>
                 let r = r\<lparr>fr_pipeline_input_ids := replicate n [], fr_pipeline_output_ids := replicate n [],
                           fr_next_inputs := []\<rparr> in
                 (case prepare_port_mailboxes fresh n 0 ports r of
                    (Inl e, r) \<Rightarrow> (Inl e, s\<lparr>fs_runtime := r\<rparr>)
                  | (Inr _, r) \<Rightarrow>
                      (Inr (),
                       s\<lparr>fs_runtime := r
                          \<lparr>fr_pipeline_output_ids :=
                             prepare_node_mailboxes fresh n (length ports * n) nodes (fr_pipeline_output_ids r),
                           fr_node_completed := map (\<lambda>i. (i, 0)) nodes, fr_root_sent := map (\<lambda>i. (i, 0)) roots,
                           fr_pipeline_completions := 0, fr_pipeline_target_completions := length nodes * n,
                           fr_sink_id := Some sink\<rparr>,
                         fs_topology := fold queue_node nodes t\<rparr>))))"

section \<open>Progress\<close>

definition ready_root_sends :: "'s forward_runtime \<Rightarrow> sun_topology \<Rightarrow> u32 \<Rightarrow>
    flow_failure + (propagation_target \<times> artifact_delivery) list" where
  "ready_root_sends r t root =
     (case pipeline_task_for_node r root of
        None \<Rightarrow> Inr []
      | Some input_index \<Rightarrow>
          if lookup_or 0 (fr_root_sent r) root > input_index then Inr []
          else and_then (pipeline_targets r t input_index (lookup_or [] (sg_vertex_ports t) root))
                 (\<lambda>targets. Inr (map (\<lambda>target. (target, fr_pipeline_inputs r ! input_index)) targets)))"

definition emit_ready_roots :: "'s forward_sun_state \<Rightarrow> flow_failure + (propagation_target \<times> artifact_delivery) list" where
  "emit_ready_roots s =
     try_fold (\<lambda>root acc. and_then (ready_root_sends (fs_runtime s) (fs_topology s) root) (\<lambda>sends. Inr (acc @ sends)))
       (root_vertex_ids (fs_topology s)) []"

definition absorb_ready_roots :: "string + u32 list \<Rightarrow> 's forward_sun_state \<Rightarrow>
    (flow_failure + unit) \<times> 's forward_sun_state" where
  "absorb_ready_roots output s =
     (case completed_with ''send ready forward roots failed: '' output of
        Inl e \<Rightarrow> (Inl e, s)
      | Inr sent \<Rightarrow>
          (Inr (), s\<lparr>fs_runtime := (fs_runtime s)\<lparr>fr_root_sent := fold bump sent (fr_root_sent (fs_runtime s))\<rparr>,
                     fs_topology := record_forward_started sent (fs_topology s)\<rparr>))"

definition ready_node_downstream :: "'s forward_runtime \<Rightarrow> sun_topology \<Rightarrow> u32 \<Rightarrow>
    flow_failure + (u32 \<times> object_id) list \<times> (u32 \<times> propagation_target list)" where
  "ready_node_downstream r t node =
     and_then (ok_or (Panicked ''ready pipeline node must have an active input'') (pipeline_task_for_node r node)) (\<lambda>k.
     and_then (pipeline_targets r t k (map pt_port_id (lookup_or [] (sg_outgoing t) node))) (\<lambda>targets.
     Inr (case mailbox_at (fr_pipeline_output_ids r) k node of Some i \<Rightarrow> [(node, i)] | None \<Rightarrow> [], (node, targets))))"

definition emit_pipeline_node :: "'s forward_sun_state \<Rightarrow>
    flow_failure + (u32 \<times> object_id) list \<times> (u32 \<times> propagation_target list) list" where
  "emit_pipeline_node s =
     try_fold (\<lambda>node (endpoints, downstream).
         and_then (ready_node_downstream (fs_runtime s) (fs_topology s) node) (\<lambda>(endpoint, targets).
         Inr (endpoints @ endpoint, downstream @ [targets])))
       (pipeline_ready_nodes (fs_runtime s) (fs_topology s)) ([], [])"

definition absorb_pipeline_node :: "string + scheduler_delivery \<Rightarrow> 's forward_sun_state \<Rightarrow>
    (flow_failure + unit) \<times> 's forward_sun_state" where
  "absorb_pipeline_node output s =
     (case completed_with ''process ready forward pipeline node failed: '' output of
        Inl e \<Rightarrow> (Inl e, s)
      | Inr completion \<Rightarrow>
          let r = fs_runtime s; node = sd_node_id completion in
          (case pipeline_task_for_node r node of
             None \<Rightarrow> (Inl (NoActiveInput node), s)
           | Some input_index \<Rightarrow>
               (case map_of (fr_node_completed r) node of
                  None \<Rightarrow> (Inl (MissingCounter node), s)
                | Some completed \<Rightarrow>
                    let r = r\<lparr>fr_node_completed := AList.update node (Suc completed) (fr_node_completed r),
                              fr_pipeline_completions := Suc (fr_pipeline_completions r)\<rparr>;
                        r = (if Some node = fr_sink_id r
                             then r\<lparr>fr_completed_outputs := fr_completed_outputs r @ [sd_delivery completion]\<rparr> else r);
                        r = (if fr_pipeline_completions r = fr_pipeline_target_completions r
                             then r\<lparr>fr_inputs := fr_next_inputs r, fr_next_inputs := []\<rparr> else r);
                        t = record_forward_started (sd_sent_node_ids completion)
                              (record_forward_completed node (fs_topology s)) in
                    (Inr (), s\<lparr>fs_runtime := r,
                       fs_topology := t\<lparr>sg_node_phase_annotations :=
                         AList.update node (''pipeline input '' @ show_nat (input_index + 1))
                           (sg_node_phase_annotations t)\<rparr>\<rparr>))))"

definition pending_forward_pipeline_work :: "'s forward_sun_state \<Rightarrow> bool" where
  "pending_forward_pipeline_work s \<longleftrightarrow>
     fr_pipeline_completions (fs_runtime s) < fr_pipeline_target_completions (fs_runtime s)"

section \<open>Completed outputs\<close>

definition pending_forward_outputs :: "'s forward_sun_state \<Rightarrow> bool" where
  "pending_forward_outputs s \<longleftrightarrow> fr_completed_outputs (fs_runtime s) \<noteq> []"

definition emit_pipeline_output :: "'s forward_sun_state \<Rightarrow> flow_failure + artifact_delivery" where
  "emit_pipeline_output s =
     (case fr_completed_outputs (fs_runtime s) of
        [] \<Rightarrow> Inl (Panicked ''output predicate guarantees a completed forward output'')
      | d # _ \<Rightarrow> Inr d)"

definition absorb_pipeline_output :: "string + unit \<Rightarrow> artifact_delivery \<Rightarrow> 's forward_sun_state \<Rightarrow>
    (flow_failure + artifact_delivery) \<times> 's forward_sun_state" where
  "absorb_pipeline_output output carry s =
     (case completed_or ''take forward pipeline output failed'' output of
        Inl e \<Rightarrow> (Inl e, s)
      | Inr _ \<Rightarrow>
          (case fr_completed_outputs (fs_runtime s) of
             [] \<Rightarrow> (Inl OutputDisappeared, s)
           | _ # ds \<Rightarrow> (Inr carry, s\<lparr>fs_runtime := (fs_runtime s)\<lparr>fr_completed_outputs := ds\<rparr>\<rparr>)))"

end
