(* ===== verification/Flux_Graph.thy ===== *)
theory Flux_Graph
  imports Main
begin

text \<open>
  Multigraphs given by their successor lists, for the theorems on the flow graph: edges into a
  vertex counted over a set of sources, orders of the vertices that respect the edges, and the
  progress that an acyclic graph guarantees.
\<close>

definition graph_edges :: "('v \<Rightarrow> 'v list) \<Rightarrow> 'v set \<Rightarrow> ('v \<times> 'v) set" where
  "graph_edges succ V = {(u, v). u \<in> V \<and> v \<in> set (succ u)}"

lemma graph_edges_iff [simp]: "(u, v) \<in> graph_edges succ V \<longleftrightarrow> u \<in> V \<and> v \<in> set (succ u)"
  by (simp add: graph_edges_def)

lemma graph_edges_closed: "(\<And>u. u \<in> V \<Longrightarrow> set (succ u) \<subseteq> V) \<Longrightarrow> graph_edges succ V \<subseteq> V \<times> V"
  by (auto simp: graph_edges_def)

text \<open>The number of edges that lead from the vertices in \<open>A\<close> to \<open>v\<close>.\<close>

definition edges_into :: "('v \<Rightarrow> 'v list) \<Rightarrow> 'v set \<Rightarrow> 'v \<Rightarrow> nat" where
  "edges_into succ A v = (\<Sum>u\<in>A. count_list (succ u) v)"

lemma edges_into_remove:
  "finite A \<Longrightarrow> i \<in> A \<Longrightarrow> edges_into succ A v = count_list (succ i) v + edges_into succ (A - {i}) v"
  by (simp add: edges_into_def sum.remove)

lemma count_list_0: "count_list xs x = 0 \<longleftrightarrow> x \<notin> set xs"
  by (induction xs) auto

lemma edges_into_0: "finite A \<Longrightarrow> edges_into succ A v = 0 \<longleftrightarrow> (\<forall>u\<in>A. v \<notin> set (succ u))"
  by (simp add: edges_into_def count_list_0)

lemma length_count_sum: "finite X \<Longrightarrow> set xs \<subseteq> X \<Longrightarrow> length xs = (\<Sum>u\<in>X. count_list xs u)"
proof (induction xs)
  case (Cons x xs)
  then have "(\<Sum>u\<in>X. count_list (x # xs) u) = (\<Sum>u\<in>X. (if u = x then 1 else 0) + count_list xs u)"
    by (intro sum.cong) auto
  also have "\<dots> = 1 + (\<Sum>u\<in>X. count_list xs u)"
    using Cons.prems by (simp add: sum.distrib)
  finally show ?case using Cons by simp
qed simp

lemma graph_progress:
  assumes "finite V" and "acyclic (graph_edges succ V)" and "A \<subseteq> V" and "A \<noteq> {}"
  obtains v where "v \<in> A" and "edges_into succ A v = 0"
proof -
  let ?R = "Restr (graph_edges succ V) A"
  have fin: "finite A" using assms(1,3) by (rule rev_finite_subset)
  have "acyclic ?R" using assms(2) by (rule acyclic_subset) auto
  moreover have "finite ?R" using fin by simp
  ultimately have "wf ?R" by (rule finite_acyclic_wf [rotated])
  moreover obtain a where "a \<in> A" using assms(4) by auto
  ultimately obtain v where v: "v \<in> A" and least: "\<And>u. (u, v) \<in> ?R \<Longrightarrow> u \<notin> A"
    by (metis wfE_min)
  have "v \<notin> set (succ u)" if "u \<in> A" for u
    using that v least [of u] assms(3) by auto
  then have "edges_into succ A v = 0" by (simp add: edges_into_0 [OF fin])
  with v show ?thesis by (rule that)
qed

text \<open>A list of vertices in which every vertex comes after all its predecessors.\<close>

definition edge_order :: "('v \<times> 'v) set \<Rightarrow> 'v list \<Rightarrow> bool" where
  "edge_order E xs \<longleftrightarrow> distinct xs \<and> (\<forall>ys v zs. xs = ys @ v # zs \<longrightarrow> (\<forall>u. (u, v) \<in> E \<longrightarrow> u \<in> set ys))"

lemma edge_order_Nil [simp, intro]: "edge_order E []"
  by (simp add: edge_order_def)

lemma edge_order_snoc:
  "edge_order E (xs @ [x]) \<longleftrightarrow> edge_order E xs \<and> x \<notin> set xs \<and> (\<forall>u. (u, x) \<in> E \<longrightarrow> u \<in> set xs)"
  by (auto simp: edge_order_def append_eq_append_conv2 Cons_eq_append_conv append_eq_Cons_conv)
     (metis append_Nil2 append_assoc append_Cons self_append_conv)+

lemma edge_order_acyclic:
  assumes "edge_order E xs" and "E \<subseteq> set xs \<times> set xs"
  shows "acyclic E"
proof -
  define pos where "pos v = length (takeWhile (\<lambda>x. x \<noteq> v) xs)" for v
  have "pos u < pos v" if e: "(u, v) \<in> E" for u v
  proof -
    from e assms(2) have "v \<in> set xs" by auto
    then obtain ys zs where xs: "xs = ys @ v # zs" and v: "v \<notin> set ys" by (metis split_list_first)
    with assms(1) e have u: "u \<in> set ys" by (auto simp: edge_order_def)
    have "takeWhile (\<lambda>x. x \<noteq> v) xs = ys"
      using v unfolding xs by (subst takeWhile_append2) auto
    moreover from u obtain ps qs where "ys = ps @ u # qs" "u \<notin> set ps" by (metis split_list_first)
    then have "takeWhile (\<lambda>x. x \<noteq> u) xs = ps" "length ps < length ys"
      unfolding xs by (auto simp: takeWhile_tail intro: trans [OF takeWhile_append2])
    ultimately show ?thesis by (simp add: pos_def)
  qed
  then have "E \<subseteq> measure pos" by auto
  then show ?thesis using wf_acyclic [OF wf_measure] acyclic_subset by blast
qed

end
