(* ===== verification/Flux_Kahn.thy ===== *)
theory Flux_Kahn
  imports Flux_Compile Flux_Graph
begin

text \<open>
  Kahn's algorithm as the resolution of a flow graph runs it: it never panics on the degrees of
  the graph, its visits respect the edges, and it visits every vertex exactly when the graph has
  no cycle.
\<close>

abbreviation target_vertices :: "port_target list \<Rightarrow> u32 list" where
  "target_vertices ts \<equiv> map pt_vertex_id ts"

abbreviation successors :: "(u32 \<times> port_target list) list \<Rightarrow> u32 \<Rightarrow> u32 list" where
  "successors outgoing u \<equiv> target_vertices (lookup_or [] outgoing u)"

lemma release_targets_run:
  assumes "\<And>v. v \<in> V \<Longrightarrow> map_of d v = Some (n v + count_list (target_vertices ts) v)"
    and "set (target_vertices ts) \<subseteq> V"
  shows "\<exists>d' new. release_targets ts d q = Some (d', q @ new) \<and> (\<forall>v\<in>V. map_of d' v = Some (n v))
    \<and> distinct new \<and> set new = {v \<in> set (target_vertices ts). n v = 0}"
  using assms
proof (induction ts arbitrary: d q)
  case (Cons t ts)
  let ?v = "pt_vertex_id t"
  let ?m = "n ?v + count_list (target_vertices ts) ?v"
  let ?q = "if ?m = 0 then q @ [?v] else q"
  have v: "map_of d ?v = Some (Suc ?m)" using Cons.prems by simp
  have "map_of (AList.update ?v ?m d) w = Some (n w + count_list (target_vertices ts) w)" if "w \<in> V" for w
    using Cons.prems(1) [OF that] by (auto simp: amap_simps)
  with Cons.IH [of "AList.update ?v ?m d" ?q] Cons.prems(2) obtain d' new where
    run: "release_targets ts (AList.update ?v ?m d) ?q = Some (d', ?q @ new)"
    and d': "\<forall>w\<in>V. map_of d' w = Some (n w)" and new: "distinct new"
      "set new = {w \<in> set (target_vertices ts). n w = 0}"
    by auto
  have "release_targets (t # ts) d q = Some (d', q @ ((if ?m = 0 then [?v] else []) @ new))"
    using run v by (simp split: if_splits)
  moreover have "distinct ((if ?m = 0 then [?v] else []) @ new)"
    using new by (auto simp: count_list_0)
  moreover have "set ((if ?m = 0 then [?v] else []) @ new) = {w \<in> set (target_vertices (t # ts)). n w = 0}"
    using new(2) by (auto simp: count_list_0)
  ultimately show ?case using d' by blast
qed simp

definition kahn_inv :: "u32 set \<Rightarrow> (u32 \<Rightarrow> u32 list) \<Rightarrow> (u32 \<times> nat) list \<Rightarrow> u32 list \<Rightarrow> u32 list \<Rightarrow> bool" where
  "kahn_inv V succ degrees queue visited \<longleftrightarrow>
     distinct (visited @ queue)
     \<and> (\<forall>v\<in>V. map_of degrees v = Some (edges_into succ (V - set visited) v))
     \<and> set (visited @ queue) = {v \<in> V. edges_into succ (V - set visited) v = 0}
     \<and> edge_order (graph_edges succ V) visited"

lemma kahn_inv_step:
  assumes "finite V" and "\<And>u. u \<in> V \<Longrightarrow> set (successors outgoing u) \<subseteq> V"
    and inv: "kahn_inv V (successors outgoing) degrees (i # queue) visited"
  shows "\<exists>degrees' queue'. release_targets (lookup_or [] outgoing i) degrees queue = Some (degrees', queue')
    \<and> kahn_inv V (successors outgoing) degrees' queue' (visited @ [i])"
proof -
  let ?succ = "successors outgoing"
  let ?A = "V - set visited"
  let ?n = "edges_into ?succ (?A - {i})"
  have i: "i \<in> V" "i \<notin> set visited" "i \<in> ?A" "edges_into ?succ ?A i = 0" "i \<notin> set queue"
    and dist: "distinct (visited @ queue)"
    using inv unfolding kahn_inv_def by auto
  have split: "edges_into ?succ ?A v = count_list (?succ i) v + ?n v" for v
    using assms(1) i(3) by (intro edges_into_remove) auto
  have deg: "map_of degrees v = Some (?n v + count_list (?succ i) v)" if "v \<in> V" for v
    using inv that unfolding kahn_inv_def by (simp add: split)
  have zero: "{v \<in> V. edges_into ?succ ?A v = 0} = set (visited @ i # queue)"
    using inv unfolding kahn_inv_def by simp
  obtain degrees' new where run: "release_targets (lookup_or [] outgoing i) degrees queue = Some (degrees', queue @ new)"
    and deg': "\<forall>v\<in>V. map_of degrees' v = Some (?n v)" and new: "distinct new" "set new = {v \<in> set (?succ i). ?n v = 0}"
    using release_targets_run [of V degrees ?n "lookup_or [] outgoing i" queue, OF deg] assms(2) [OF i(1)] by auto
  have A': "?A - {i} = V - set (visited @ [i])" by auto
  have fresh: "set new \<inter> set (visited @ i # queue) = {}"
    using new(2) zero split by (auto simp: count_list_0)
  have sub: "set (?succ i) \<subseteq> V" by (rule assms(2) [OF i(1)])
  have "set (visited @ [i] @ queue @ new) = {v \<in> V. ?n v = 0}"
  proof (intro set_eqI iffI)
    fix v assume "v \<in> set (visited @ [i] @ queue @ new)"
    moreover have "v \<in> V \<and> ?n v = 0" if "v \<in> set (visited @ i # queue)"
    proof -
      from that have "v \<in> {v \<in> V. edges_into ?succ ?A v = 0}" unfolding zero .
      then show ?thesis using split [of v] by simp
    qed
    ultimately show "v \<in> {v \<in> V. ?n v = 0}" using new(2) sub by auto
  next
    fix v assume v: "v \<in> {v \<in> V. ?n v = 0}"
    show "v \<in> set (visited @ [i] @ queue @ new)"
    proof (cases "v \<in> set (?succ i)")
      case False
      then have "edges_into ?succ ?A v = 0" using split [of v] v by (simp add: count_list_0)
      with v zero show ?thesis by auto
    qed (use v new in auto)
  qed
  moreover have "distinct (visited @ [i] @ queue @ new)" using dist i(2,5) new(1) fresh by auto
  moreover have "u \<in> set visited" if "(u, i) \<in> graph_edges ?succ V" for u
    using that i(4) assms(1) by (auto simp: edges_into_0)
  then have "edge_order (graph_edges ?succ V) (visited @ [i])"
    using inv i(2) by (auto simp: edge_order_snoc kahn_inv_def)
  ultimately have "kahn_inv V ?succ degrees' (queue @ new) (visited @ [i])"
    using deg' unfolding kahn_inv_def A' by simp
  with run show ?thesis by auto
qed

lemma kahn_visit_run:
  assumes "finite V" and "\<And>u. u \<in> V \<Longrightarrow> set (successors outgoing u) \<subseteq> V"
    and "kahn_inv V (successors outgoing) degrees queue visited"
  shows "\<exists>degrees' order. kahn_visit outgoing degrees queue (length visited) = Some (length order)
    \<and> kahn_inv V (successors outgoing) degrees' [] order"
  using assms(2,3)
proof (induction outgoing degrees queue "length visited" arbitrary: visited rule: kahn_visit.induct)
  case (2 outgoing degrees i queue)
  obtain degrees' queue' where run: "release_targets (lookup_or [] outgoing i) degrees queue = Some (degrees', queue')"
    and inv: "kahn_inv V (successors outgoing) degrees' queue' (visited @ [i])"
    using kahn_inv_step [OF assms(1) 2(2,3)] by auto
  from 2(1) [OF run refl _ 2(2) inv] run show ?case by simp
qed (auto simp: exI)

lemma kahn_visits_all_iff_acyclic:
  assumes "finite V" and "\<And>u. u \<in> V \<Longrightarrow> set (successors outgoing u) \<subseteq> V"
    and "kahn_inv V (successors outgoing) degrees queue []"
  shows "\<exists>n. kahn_visit outgoing degrees queue 0 = Some n
    \<and> (n = card V \<longleftrightarrow> acyclic (graph_edges (successors outgoing) V))"
proof -
  let ?E = "graph_edges (successors outgoing) V"
  obtain degrees' order where run: "kahn_visit outgoing degrees queue 0 = Some (length order)"
    and inv: "kahn_inv V (successors outgoing) degrees' [] order"
    using kahn_visit_run [OF assms] by auto
  have order: "distinct order" "set order \<subseteq> V" "edge_order ?E order"
    "set order = {v \<in> V. edges_into (successors outgoing) (V - set order) v = 0}"
    using inv unfolding kahn_inv_def by auto
  have all: "length order = card V \<longleftrightarrow> set order = V"
    using order(1,2) assms(1) by (metis card_subset_eq distinct_card)
  have "acyclic ?E" if "set order = V"
    using graph_edges_closed [of V "successors outgoing", OF assms(2)] that
    by (intro edge_order_acyclic [OF order(3)]) simp
  moreover have "set order = V" if ac: "acyclic ?E"
  proof (rule ccontr)
    assume "set order \<noteq> V"
    with order(2) obtain v where "v \<in> V - set order" "edges_into (successors outgoing) (V - set order) v = 0"
      using graph_progress [OF assms(1) ac, of "V - set order"] by blast
    with order(4) show False by auto
  qed
  ultimately show ?thesis using run all by auto
qed

end
