(* ===== verification/Flux_Resolve.thy ===== *)
theory Flux_Resolve
  imports Flux_Kahn
begin

text \<open>
  What the resolution of a flow graph accepts: an abstract specification of a well-formed flow
  graph over the registered descriptors, the invariant of a topology under registration, and the
  equivalence of the resolution with the specification.
\<close>

section \<open>Well-formed topologies\<close>

definition topology_wf :: "sun_topology \<Rightarrow> bool" where
  "topology_wf t \<longleftrightarrow>
     amap_wf (sg_journey_ids t) \<and> amap_wf (sg_declared_outputs t) \<and> amap_wf (sg_port_vertices t)
     \<and> amap_wf (sg_vertex_ports t)
     \<and> fst ` set (sg_declared_outputs t) = fst ` set (sg_journey_ids t)
     \<and> fst ` set (sg_node_contracts t) = fst ` set (sg_journey_ids t)
     \<and> fst ` set (sg_declared_edges t) = fst ` set (sg_journey_ids t)
     \<and> snd ` set (sg_port_vertices t) \<subseteq> fst ` set (sg_journey_ids t)
     \<and> (\<forall>v. lookup_or [] (sg_declared_outputs t) v = map de_port_id (lookup_or [] (sg_declared_edges t) v))"

lemma topology_wf_empty: "topology_wf empty_topology"
  by (simp add: topology_wf_def empty_topology_def lookup_or_def)

lemma register_port_fields [simp]:
  "sg_journey_ids (register_port v p t) = sg_journey_ids t"
  "sg_declared_outputs (register_port v p t) = sg_declared_outputs t"
  "sg_node_contracts (register_port v p t) = sg_node_contracts t"
  "sg_declared_edges (register_port v p t) = sg_declared_edges t"
  "sg_vertex_ports (register_port v p t) = sg_vertex_ports t"
  by (simp_all add: register_port_def)

lemma topology_wf_register_port:
  assumes "topology_wf t" and "v \<in> fst ` set (sg_journey_ids t)"
  shows "topology_wf (register_port v p t)"
proof -
  have "snd ` set (AList.update k v m) \<subseteq> insert v (snd ` set m)" for k and m :: "(u32 \<times> u32) list"
    by (induction m) auto
  from this [of "fst p" "sg_port_vertices t"] assms
  have "snd ` set (AList.update (fst p) v (sg_port_vertices t)) \<subseteq> fst ` set (sg_journey_ids t)"
    unfolding topology_wf_def by blast
  with assms show ?thesis by (simp add: topology_wf_def register_port_def)
qed

lemma fold_register_ports:
  "topology_wf t \<Longrightarrow> v \<in> fst ` set (sg_journey_ids t) \<Longrightarrow> topology_wf (fold (register_port v) ports t)"
  by (induction ports arbitrary: t) (auto simp: topology_wf_register_port)

lemma topology_wf_register:
  assumes "topology_wf t"
  shows "topology_wf (register_in_topology vertex label ports contract edges journey warp_journey t)"
  unfolding register_in_topology_def
proof (rule fold_register_ports)
  let ?new = "vertex \<notin> fst ` set (sg_journey_ids t)"
  have "map_of (sg_declared_outputs t) vertex = None \<longleftrightarrow> ?new" "map_of (sg_declared_edges t) vertex = None \<longleftrightarrow> ?new"
    using assms unfolding amap_dom topology_wf_def by simp_all
  then have "lookup_or [] (or_insert vertex (map de_port_id edges) (sg_declared_outputs t)) v
      = map de_port_id (lookup_or [] (or_insert vertex edges (sg_declared_edges t)) v)" for v
    using assms unfolding topology_wf_def lookup_or_def map_of_or_insert by auto
  moreover have "snd ` set (sg_port_vertices t) \<subseteq> insert vertex (fst ` set (sg_journey_ids t))"
    using assms unfolding topology_wf_def by blast
  ultimately show "topology_wf (t\<lparr>sg_journey_ids := or_insert vertex journey (sg_journey_ids t),
          sg_warp_journey_ids := (case warp_journey of None \<Rightarrow> sg_warp_journey_ids t
             | Some w \<Rightarrow> AList.update vertex w (sg_warp_journey_ids t)),
          sg_node_labels := or_insert vertex label (sg_node_labels t),
          sg_node_operational_states := or_insert vertex OpQueued (sg_node_operational_states t),
          sg_node_state_sequences := or_insert vertex 0 (sg_node_state_sequences t),
          sg_vertex_ports := or_insert vertex (map fst ports) (sg_vertex_ports t),
          sg_node_contracts := or_insert vertex contract (sg_node_contracts t),
          sg_declared_outputs := or_insert vertex (map de_port_id edges) (sg_declared_outputs t),
          sg_declared_edges := or_insert vertex edges (sg_declared_edges t)\<rparr>)"
    using assms by (simp add: topology_wf_def)
qed simp

section \<open>The specification\<close>

definition outputs_of :: "sun_topology \<Rightarrow> u32 \<Rightarrow> u32 list" where
  "outputs_of t u = lookup_or [] (sg_declared_outputs t) u"

definition target_of :: "sun_topology \<Rightarrow> u32 \<Rightarrow> port_target" where
  "target_of t port = \<lparr>pt_port_id = port, pt_vertex_id = lookup_or 0 (sg_port_vertices t) port\<rparr>"

abbreviation flow_succ :: "sun_topology \<Rightarrow> u32 \<Rightarrow> u32 list" where
  "flow_succ t u \<equiv> map (\<lambda>p. pt_vertex_id (target_of t p)) (outputs_of t u)"

abbreviation flow_vertices :: "sun_topology \<Rightarrow> u32 set" where
  "flow_vertices t \<equiv> set (vertex_ids t)"

definition valid_edge :: "sun_topology \<Rightarrow> u32 \<Rightarrow> u32 \<Rightarrow> bool" where
  "valid_edge t source port \<longleftrightarrow>
     (\<exists>target contract edge destination.
        map_of (sg_port_vertices t) port = Some target \<and> map_of (sg_node_contracts t) source = Some contract
        \<and> find (\<lambda>e. de_port_id e = port) (lookup_or [] (sg_declared_edges t) source) = Some edge
        \<and> map_of (sg_node_contracts t) target = Some destination
        \<and> de_source_contract edge = contract \<and> de_destination_contract edge = destination
        \<and> cd_outputs contract = cd_inputs destination)"

definition producers :: "sun_topology \<Rightarrow> u32 \<Rightarrow> nat" where
  "producers t port = sum_list (map (\<lambda>out. count_list (snd out) port) (sg_declared_outputs t))"

text \<open>
  A flow graph: every declared edge ends at a registered port and agrees with the contracts at
  both ends; no port has two producers, and the ports of a vertex are all fed or all free; there
  is no cycle; and \<open>sink\<close> is the only vertex without outputs.
\<close>

definition flow_graph :: "sun_topology \<Rightarrow> u32 \<Rightarrow> bool" where
  "flow_graph t sink \<longleftrightarrow>
     sg_duplicate_ports t = []
     \<and> (\<forall>u\<in>flow_vertices t. \<forall>p\<in>set (outputs_of t u). valid_edge t u p)
     \<and> (\<forall>p. producers t p \<le> 1)
     \<and> (\<forall>(v, ports)\<in>set (sg_vertex_ports t).
          (\<forall>p\<in>set ports. producers t p = 0) \<or> (\<forall>p\<in>set ports. producers t p = 1))
     \<and> acyclic (graph_edges (flow_succ t) (flow_vertices t))
     \<and> {v \<in> flow_vertices t. outputs_of t v = []} = {sink}"

section \<open>The edges that the resolution places\<close>

definition place :: "sun_topology \<Rightarrow> u32 \<times> u32 \<Rightarrow> resolution \<Rightarrow> resolution" where
  "place t e rs =
     \<lparr>rs_counts = bump (snd e) (rs_counts rs),
      rs_outgoing = push_entry (fst e) (target_of t (snd e)) (rs_outgoing rs),
      rs_incoming = push_entry (pt_vertex_id (target_of t (snd e))) (fst e) (rs_incoming rs)\<rparr>"

definition edge_list :: "(u32 \<times> u32 list) list \<Rightarrow> (u32 \<times> u32) list" where
  "edge_list outs = concat (map (\<lambda>out. map (Pair (fst out)) (snd out)) outs)"

definition counts_ports :: "sun_topology \<Rightarrow> resolution \<Rightarrow> bool" where
  "counts_ports t rs \<longleftrightarrow> fst ` set (rs_counts rs) = fst ` set (sg_port_vertices t)"

lemma try_fold_Inr:
  assumes "\<And>x s s'. I s \<Longrightarrow> x \<in> set xs \<Longrightarrow> f x s = Inr s' \<longleftrightarrow> P x \<and> s' = g x s"
    and "\<And>x s. I s \<Longrightarrow> x \<in> set xs \<Longrightarrow> P x \<Longrightarrow> I (g x s)" and "I s"
  shows "try_fold f xs s = Inr s' \<longleftrightarrow> (\<forall>x\<in>set xs. P x) \<and> s' = fold g xs s"
  using assms
proof (induction xs arbitrary: s)
  case (Cons x xs)
  have "try_fold f (x # xs) s = Inr s' \<longleftrightarrow> P x \<and> try_fold f xs (g x s) = Inr s'"
    using Cons.prems(1) [OF Cons.prems(3), of x] by (auto simp: and_then_Inr_iff)
  with Cons show ?case by auto
qed auto

lemma resolve_port_Inr:
  assumes "map_of (sg_node_contracts t) source = Some contract" and "counts_ports t rs"
  shows "resolve_port t source contract (lookup_or [] (sg_declared_edges t) source) port rs = Inr rs'
    \<longleftrightarrow> valid_edge t source port \<and> rs' = place t (source, port) rs"
proof (cases "map_of (sg_port_vertices t) port")
  case (Some target)
  then have "port \<in> fst ` set (sg_port_vertices t)" by (metis map_of_eq_None_iff option.distinct(1))
  then have "map_of (rs_counts rs) port \<noteq> None"
    using assms(2) by (simp add: counts_ports_def amap_dom)
  with Some assms(1) show ?thesis
    by (auto simp: resolve_port_def valid_edge_def place_def target_of_def lookup_or_def result_simps
        split: if_splits)
qed (simp add: resolve_port_def valid_edge_def)

lemma counts_ports_place:
  "counts_ports t rs \<Longrightarrow> valid_edge t (fst e) (snd e) \<Longrightarrow> counts_ports t (place t e rs)"
  by (auto simp: counts_ports_def place_def valid_edge_def dest!: map_of_SomeD)
     (metis fst_conv image_eqI)+

lemma resolve_source_Inr:
  assumes "counts_ports t rs"
  shows "resolve_source t out rs = Inr rs' \<longleftrightarrow>
    (map_of (sg_node_contracts t) (fst out) \<noteq> None \<and> (\<forall>p\<in>set (snd out). valid_edge t (fst out) p))
    \<and> rs' = fold (place t) (map (Pair (fst out)) (snd out)) rs"
proof (cases "map_of (sg_node_contracts t) (fst out)")
  case (Some contract)
  have "try_fold (resolve_port t (fst out) contract (lookup_or [] (sg_declared_edges t) (fst out))) (snd out) rs = Inr rs'
      \<longleftrightarrow> (\<forall>p\<in>set (snd out). valid_edge t (fst out) p) \<and> rs' = fold (\<lambda>p. place t (fst out, p)) (snd out) rs"
    by (rule try_fold_Inr [where I = "counts_ports t"])
       (use Some assms in \<open>auto simp: resolve_port_Inr counts_ports_place\<close>)
  with Some show ?thesis by (auto simp: resolve_source_def fold_map comp_def)
qed (simp add: resolve_source_def)

lemma fold_counts_ports:
  "counts_ports t rs \<Longrightarrow> (\<And>e. e \<in> set es \<Longrightarrow> valid_edge t (fst e) (snd e)) \<Longrightarrow> counts_ports t (fold (place t) es rs)"
  by (induction es arbitrary: rs) (simp_all add: counts_ports_place)

lemma resolve_sources_Inr:
  assumes "counts_ports t rs"
  shows "try_fold (resolve_source t) outs rs = Inr rs' \<longleftrightarrow>
    (\<forall>out\<in>set outs. map_of (sg_node_contracts t) (fst out) \<noteq> None \<and> (\<forall>p\<in>set (snd out). valid_edge t (fst out) p))
    \<and> rs' = fold (place t) (edge_list outs) rs"
proof -
  have "try_fold (resolve_source t) outs rs = Inr rs' \<longleftrightarrow>
    (\<forall>out\<in>set outs. map_of (sg_node_contracts t) (fst out) \<noteq> None \<and> (\<forall>p\<in>set (snd out). valid_edge t (fst out) p))
    \<and> rs' = fold (\<lambda>out. fold (place t) (map (Pair (fst out)) (snd out))) outs rs"
    by (rule try_fold_Inr [where I = "counts_ports t"])
       (use assms in \<open>auto simp: resolve_source_Inr intro!: fold_counts_ports\<close>)
  also have "fold (\<lambda>out. fold (place t) (map (Pair (fst out)) (snd out))) outs rs = fold (place t) (edge_list outs) rs"
    unfolding edge_list_def by (induction outs arbitrary: rs) simp_all
  finally show ?thesis .
qed

lemma place_counts:
  "lookup_or 0 (rs_counts (fold (place t) es rs)) q = lookup_or 0 (rs_counts rs) q + count_list (map snd es) q"
  by (induction es arbitrary: rs) (auto simp: place_def amap_simps)

lemma place_outgoing:
  "lookup_or [] (rs_outgoing (fold (place t) es rs)) u
    = lookup_or [] (rs_outgoing rs) u @ map (\<lambda>e. target_of t (snd e)) (filter (\<lambda>e. fst e = u) es)"
  by (induction es arbitrary: rs) (auto simp: place_def amap_simps)

lemma place_incoming:
  "lookup_or [] (rs_incoming (fold (place t) es rs)) v
    = lookup_or [] (rs_incoming rs) v @ map fst (filter (\<lambda>e. pt_vertex_id (target_of t (snd e)) = v) es)"
  by (induction es arbitrary: rs) (auto simp: place_def amap_simps)

lemma place_wf:
  "amap_wf (rs_counts rs) \<Longrightarrow> amap_wf (rs_counts (fold (place t) es rs))"
  "amap_wf (rs_incoming rs) \<Longrightarrow> amap_wf (rs_incoming (fold (place t) es rs))"
  by (induction es arbitrary: rs) (simp_all add: place_def)

lemma place_keys:
  assumes "\<And>e. e \<in> set es \<Longrightarrow> pt_vertex_id (target_of t (snd e)) \<in> fst ` set (rs_incoming rs)"
  shows "fst ` set (rs_incoming (fold (place t) es rs)) = fst ` set (rs_incoming rs)"
  using assms by (induction es arbitrary: rs) (auto simp: place_def insert_absorb)

section \<open>The resolved edges\<close>

lemma edge_list_ports:
  "amap_wf outs \<Longrightarrow> map snd (filter (\<lambda>e. fst e = u) (edge_list outs)) = lookup_or [] outs u"
proof (induction outs)
  case (Cons out outs)
  obtain s ports where out: "out = (s, ports)" by (cases out)
  have none: "filter (\<lambda>e. fst e = s) (edge_list outs) = []" if "s \<notin> fst ` set outs"
    using that by (auto simp: edge_list_def filter_empty_conv)
  from Cons out none show ?case
    by (cases "s = u") (auto simp: edge_list_def lookup_or_def amap_wf_def filter_map comp_def)
qed (simp add: edge_list_def lookup_or_def)

lemma edge_list_producers: "count_list (map snd (edge_list (sg_declared_outputs t))) q = producers t q"
proof -
  have "count_list (map snd (edge_list outs)) q = sum_list (map (\<lambda>out. count_list (snd out) q) outs)" for outs
    by (induction outs) (simp_all add: edge_list_def comp_def)
  then show ?thesis by (simp add: producers_def)
qed

lemma edge_list_sources: "e \<in> set (edge_list outs) \<Longrightarrow> fst e \<in> fst ` set outs"
  by (force simp: edge_list_def)

lemma edge_list_mem: "(u, p) \<in> set (edge_list outs) \<longleftrightarrow> (\<exists>ports. (u, ports) \<in> set outs \<and> p \<in> set ports)"
  by (force simp: edge_list_def)

lemma count_crossed:
  "count_list (map fst (filter (\<lambda>e. h e = v) es)) u = count_list (map h (filter (\<lambda>e. fst e = u) es)) v"
  by (induction es) auto

text \<open>A topology whose edges are resolved to \<open>incoming\<close> and \<open>outgoing\<close>.\<close>

definition resolved_edges :: "sun_topology \<Rightarrow> (u32 \<times> u32 list) list \<Rightarrow> (u32 \<times> port_target list) list \<Rightarrow> bool" where
  "resolved_edges t incoming outgoing \<longleftrightarrow>
     amap_wf incoming \<and> fst ` set incoming = flow_vertices t
     \<and> (\<forall>u. lookup_or [] outgoing u = map (target_of t) (outputs_of t u))
     \<and> (\<forall>u. set (flow_succ t u) \<subseteq> flow_vertices t)
     \<and> (\<forall>v. set (lookup_or [] incoming v) \<subseteq> flow_vertices t)
     \<and> (\<forall>u v. count_list (lookup_or [] incoming v) u = count_list (flow_succ t u) v)"

lemma resolved_edges_degree:
  assumes "resolved_edges t incoming outgoing"
  shows "length (lookup_or [] incoming v) = edges_into (flow_succ t) (flow_vertices t) v"
  using assms length_count_sum [of "flow_vertices t" "lookup_or [] incoming v"]
  by (simp add: resolved_edges_def edges_into_def)

lemma valid_edge_vertex:
  assumes "topology_wf t" and "valid_edge t u p"
  shows "pt_vertex_id (target_of t p) \<in> flow_vertices t"
proof -
  from assms(2) obtain v where v: "map_of (sg_port_vertices t) p = Some v" by (auto simp: valid_edge_def)
  then have "v \<in> snd ` set (sg_port_vertices t)" by (force dest: map_of_SomeD)
  with assms(1) have "v \<in> fst ` set (sg_journey_ids t)" unfolding topology_wf_def by blast
  with v show ?thesis by (simp add: target_of_def lookup_or_def vertex_ids_def)
qed

definition initial_resolution :: "sun_topology \<Rightarrow> resolution" where
  "initial_resolution t = \<lparr>rs_counts = map (\<lambda>p. (fst p, 0)) (sg_port_vertices t),
     rs_outgoing = map (\<lambda>v. (v, [])) (vertex_ids t), rs_incoming = map (\<lambda>v. (v, [])) (vertex_ids t)\<rparr>"

lemma lookup_or_constant: "lookup_or d (map (\<lambda>v. (f v, d)) vs) u = d"
  by (induction vs) (auto simp: lookup_or_def)

definition edges_valid :: "sun_topology \<Rightarrow> bool" where
  "edges_valid t \<longleftrightarrow> (\<forall>u\<in>flow_vertices t. \<forall>p\<in>set (outputs_of t u). valid_edge t u p)"

lemma outputs_of_entry:
  assumes "amap_wf (sg_declared_outputs t)" and "out \<in> set (sg_declared_outputs t)"
  shows "outputs_of t (fst out) = snd out"
  using assms amap_mem_iff [OF assms(1), of "fst out" "snd out"] by (simp add: outputs_of_def lookup_or_def)

lemma edges_valid_iff:
  assumes "topology_wf t"
  shows "(\<forall>out\<in>set (sg_declared_outputs t). map_of (sg_node_contracts t) (fst out) \<noteq> None
      \<and> (\<forall>p\<in>set (snd out). valid_edge t (fst out) p)) \<longleftrightarrow> edges_valid t"
proof -
  have wf: "amap_wf (sg_declared_outputs t)"
    and keys: "fst ` set (sg_declared_outputs t) = flow_vertices t" "fst ` set (sg_node_contracts t) = flow_vertices t"
    using assms by (auto simp: topology_wf_def vertex_ids_def)
  have "map_of (sg_node_contracts t) (fst out) \<noteq> None" if "out \<in> set (sg_declared_outputs t)" for out
    using that keys by (auto simp: amap_dom)
  then show ?thesis
    unfolding edges_valid_def keys(1) [symmetric] using outputs_of_entry [OF wf] by auto
qed

lemma placed_edges:
  assumes "topology_wf t" and "edges_valid t"
    and rs: "rs = fold (place t) (edge_list (sg_declared_outputs t)) (initial_resolution t)"
  shows "resolved_edges t (rs_incoming rs) (rs_outgoing rs)"
    and "lookup_or 0 (rs_counts rs) q = producers t q" and "amap_wf (rs_counts rs)"
proof -
  let ?es = "edge_list (sg_declared_outputs t)"
  have wf: "amap_wf (sg_journey_ids t)" "amap_wf (sg_declared_outputs t)" "amap_wf (sg_port_vertices t)"
    "fst ` set (sg_declared_outputs t) = flow_vertices t"
    using assms(1) by (auto simp: topology_wf_def vertex_ids_def)
  have ports: "map snd (filter (\<lambda>e. fst e = u) ?es) = outputs_of t u" for u
    unfolding outputs_of_def by (rule edge_list_ports [OF wf(2)])
  have valid: "valid_edge t (fst e) (snd e)" if "e \<in> set ?es" for e
  proof -
    have "snd e \<in> set (map snd (filter (\<lambda>e'. fst e' = fst e) ?es))" using that by auto
    then have "snd e \<in> set (outputs_of t (fst e))" unfolding ports .
    moreover have "fst e \<in> flow_vertices t" using edge_list_sources [OF that] wf(4) by simp
    ultimately show ?thesis using assms(2) by (simp add: edges_valid_def)
  qed
  have out: "lookup_or [] (rs_outgoing rs) u = map (target_of t) (outputs_of t u)" for u
    unfolding rs place_outgoing ports [symmetric] by (simp add: initial_resolution_def lookup_or_constant comp_def)
  have inc: "lookup_or [] (rs_incoming rs) v = map fst (filter (\<lambda>e. pt_vertex_id (target_of t (snd e)) = v) ?es)" for v
    unfolding rs place_incoming by (simp add: initial_resolution_def lookup_or_constant)
  have "count_list (lookup_or [] (rs_incoming rs) v) u = count_list (flow_succ t u) v" for u v
    unfolding inc ports [symmetric] by (simp add: count_crossed comp_def)
  moreover have "set (flow_succ t u) \<subseteq> flow_vertices t" for u
    unfolding ports [symmetric] using valid valid_edge_vertex [OF assms(1)] by fastforce
  moreover have "set (lookup_or [] (rs_incoming rs) v) \<subseteq> flow_vertices t" for v
    unfolding inc using edge_list_sources [of _ "sg_declared_outputs t"] wf(4) by auto
  moreover have "amap_wf (rs_incoming rs)" unfolding rs
    by (rule place_wf(2)) (use wf(1) in \<open>simp add: initial_resolution_def amap_wf_def vertex_ids_def comp_def\<close>)
  moreover have "fst ` set (rs_incoming rs) = flow_vertices t" unfolding rs
    by (subst place_keys) (use valid valid_edge_vertex [OF assms(1)] in \<open>auto simp: initial_resolution_def image_image\<close>)
  ultimately show "resolved_edges t (rs_incoming rs) (rs_outgoing rs)"
    using out unfolding resolved_edges_def by blast
  show "lookup_or 0 (rs_counts rs) q = producers t q"
    unfolding rs place_counts edge_list_producers by (simp add: initial_resolution_def lookup_or_constant)
  show "amap_wf (rs_counts rs)" unfolding rs
    by (rule place_wf(1)) (use wf(3) in \<open>simp add: initial_resolution_def amap_wf_def comp_def\<close>)
qed

section \<open>The checks of a resolution\<close>

lemma check_producers_iff:
  assumes "amap_wf counts"
  shows "check_producers counts = Inr () \<longleftrightarrow> (\<forall>p. lookup_or 0 counts p \<le> 1)"
proof -
  have "check_producers counts = Inr () \<longleftrightarrow> find (\<lambda>c. snd c > 1) counts = None"
    by (simp add: check_producers_def split: option.splits)
  also have "\<dots> \<longleftrightarrow> (\<forall>c\<in>set counts. snd c \<le> 1)"
    by (auto simp: find_None_iff not_less)
  also have "\<dots> \<longleftrightarrow> (\<forall>p n. map_of counts p = Some n \<longrightarrow> n \<le> 1)"
    using amap_mem_iff [OF assms] by fastforce
  also have "\<dots> \<longleftrightarrow> (\<forall>p. lookup_or 0 counts p \<le> 1)"
    by (auto simp: lookup_or_def split: option.splits)
  finally show ?thesis .
qed

lemma check_vertex_ports_iff:
  "check_vertex_ports counts vps = Inr () \<longleftrightarrow>
    (\<forall>(v, ports)\<in>set vps. (\<forall>p\<in>set ports. lookup_or 0 counts p = 0) \<or> (\<forall>p\<in>set ports. lookup_or 0 counts p = 1))"
proof -
  have "check_vertex_ports counts vps = Inr () \<longleftrightarrow>
      find (\<lambda>v. \<not> list_all (\<lambda>n. n = 0) (port_counts counts (snd v))
                    \<and> \<not> list_all (\<lambda>n. n = 1) (port_counts counts (snd v))) vps = None"
    by (simp add: check_vertex_ports_def split: option.splits)
  then show ?thesis by (auto simp: find_None_iff port_counts_def list_all_iff)
qed

lemma map_of_map_length: "map_of (map (\<lambda>(i, xs). (i, length xs)) m) v = map_option length (map_of m v)"
  by (induction m) auto

lemma kahn_inv_initial:
  assumes "resolved_edges t incoming outgoing"
    and degrees: "degrees = map (\<lambda>(i, sources). (i, length sources)) incoming"
  shows "kahn_inv (flow_vertices t) (flow_succ t) degrees (sort (map fst (filter (\<lambda>d. snd d = 0) degrees))) []"
proof -
  let ?V = "flow_vertices t"
  let ?deg = "edges_into (flow_succ t) ?V"
  have wf: "amap_wf incoming" "fst ` set incoming = ?V"
    using assms(1) by (simp_all add: resolved_edges_def)
  have keys: "map fst degrees = map fst incoming" by (simp add: degrees case_prod_beta comp_def)
  have wfd: "amap_wf degrees" using wf(1) keys by (simp add: amap_wf_def)
  have deg: "map_of degrees v = Some (?deg v)" if "v \<in> ?V" for v
  proof -
    from that wf(2) obtain xs where "map_of incoming v = Some xs"
      by (metis amap_dom not_None_eq)
    then show ?thesis
      using resolved_edges_degree [OF assms(1), of v] by (simp add: degrees map_of_map_length lookup_or_def)
  qed
  have V: "fst ` set degrees = ?V" using keys wf(2) by (metis list.set_map)
  have "set (map fst (filter (\<lambda>d. snd d = 0) degrees)) = {v \<in> ?V. ?deg v = 0}"
  proof (intro set_eqI iffI)
    fix v assume "v \<in> set (map fst (filter (\<lambda>d. snd d = 0) degrees))"
    then have m: "(v, 0) \<in> set degrees" by auto
    then have "v \<in> ?V" unfolding V [symmetric] by force
    with m deg [of v] amap_mem_iff [OF wfd] show "v \<in> {v \<in> ?V. ?deg v = 0}" by auto
  next
    fix v assume "v \<in> {v \<in> ?V. ?deg v = 0}"
    with deg [of v] have "map_of degrees v = Some 0" by auto
    then show "v \<in> set (map fst (filter (\<lambda>d. snd d = 0) degrees))" by (force dest: map_of_SomeD)
  qed
  moreover have "distinct (map fst (filter (\<lambda>d. snd d = 0) degrees))"
    using wfd by (simp add: amap_wf_def distinct_map_filter)
  ultimately show ?thesis using deg by (simp add: kahn_inv_def)
qed

lemma sort_singleton_iff:
  assumes "distinct xs"
  shows "sort xs = [a] \<longleftrightarrow> set xs = {a}"
proof
  assume "set xs = {a}"
  with assms have "length xs = 1" by (metis distinct_card card_1_singleton_iff One_nat_def)
  with \<open>set xs = {a}\<close> have "xs = [a]" by (cases xs) auto
  then show "sort xs = [a]" by simp
qed (metis set_sort list.set)

section \<open>The resolution\<close>

lemma kahn_of_resolved:
  assumes "resolved_edges t incoming outgoing"
  defines "degrees \<equiv> map (\<lambda>(i, sources). (i, length sources)) incoming"
  shows "\<exists>n. kahn_visit outgoing degrees (sort (map fst (filter (\<lambda>d. snd d = 0) degrees))) 0 = Some n
    \<and> (n = card (flow_vertices t) \<longleftrightarrow> acyclic (graph_edges (flow_succ t) (flow_vertices t)))"
proof -
  have succ: "successors outgoing = flow_succ t"
    using assms(1) by (simp add: resolved_edges_def fun_eq_iff comp_def)
  have closed: "set (flow_succ t u) \<subseteq> flow_vertices t" for u
    using assms(1) unfolding resolved_edges_def by blast
  have "set (successors outgoing u) \<subseteq> flow_vertices t" for u
    using closed [of u] unfolding fun_cong [OF succ, of u] .
  then show ?thesis
    using kahn_visits_all_iff_acyclic [of "flow_vertices t" outgoing degrees, unfolded succ,
        OF finite_set _ kahn_inv_initial [OF assms(1) degrees_def [THEN meta_eq_to_obj_eq]]] by blast
qed

lemma check_resolution_iff:
  assumes "amap_wf (sg_journey_ids t)"
    and edges: "resolved_edges t (rs_incoming rs) (rs_outgoing rs)"
    and counts: "\<And>p. lookup_or 0 (rs_counts rs) p = producers t p" "amap_wf (rs_counts rs)"
  shows "check_resolution t (vertex_ids t) rs = Inr sink \<longleftrightarrow>
    (\<forall>p. producers t p \<le> 1)
    \<and> (\<forall>(v, ports)\<in>set (sg_vertex_ports t).
         (\<forall>p\<in>set ports. producers t p = 0) \<or> (\<forall>p\<in>set ports. producers t p = 1))
    \<and> acyclic (graph_edges (flow_succ t) (flow_vertices t))
    \<and> {v \<in> flow_vertices t. outputs_of t v = []} = {sink}"
proof -
  let ?degrees = "map (\<lambda>(i, sources). (i, length sources)) (rs_incoming rs)"
  let ?roots = "sort (map fst (filter (\<lambda>d. snd d = 0) ?degrees))"
  let ?E = "graph_edges (flow_succ t) (flow_vertices t)"
  have dist: "distinct (vertex_ids t)" using assms(1) by (simp add: vertex_ids_def amap_wf_def)
  obtain n where kahn: "kahn_visit (rs_outgoing rs) ?degrees ?roots 0 = Some n"
    and n: "n = card (flow_vertices t) \<longleftrightarrow> acyclic ?E"
    using kahn_of_resolved [OF edges] by auto
  have card: "card (flow_vertices t) = length (vertex_ids t)" by (rule distinct_card [OF dist])
  have "lookup_or [] (rs_outgoing rs) v = [] \<longleftrightarrow> outputs_of t v = []" for v
    using edges by (simp add: resolved_edges_def)
  then have sinks: "graph_sinks (vertex_ids t) (rs_outgoing rs) = [sink]
      \<longleftrightarrow> {v \<in> flow_vertices t. outputs_of t v = []} = {sink}"
    using dist by (simp add: graph_sinks_def sort_singleton_iff)
  have one: "(case xs of [sink] \<Rightarrow> Inr sink | sinks \<Rightarrow> Inl (SinkCount sinks)) = Inr sink \<longleftrightarrow> xs = [sink]" for xs
    by (auto split: list.split)
  have kahn': "(case kahn_visit (rs_outgoing rs) ?degrees ?roots 0 of
        None \<Rightarrow> Inl (Panicked ''resolved vertex'')
      | Some visited \<Rightarrow>
          if visited \<noteq> length (vertex_ids t) then Inl GraphCycle
          else (case graph_sinks (vertex_ids t) (rs_outgoing rs) of
                  [sink] \<Rightarrow> Inr sink
                | sinks \<Rightarrow> Inl (SinkCount sinks))) = Inr sink
    \<longleftrightarrow> acyclic ?E \<and> {v \<in> flow_vertices t. outputs_of t v = []} = {sink}"
    using n unfolding kahn by (simp add: card one sinks)
  have u: "x = Inr () \<longleftrightarrow> (\<exists>y. x = Inr y)" for x :: "flow_failure + unit" by (cases x) auto
  show ?thesis
    unfolding check_resolution_def Let_def and_then_Inr_iff kahn'
    using check_producers_iff [OF counts(2)] check_vertex_ports_iff [of "rs_counts rs" "sg_vertex_ports t"]
    unfolding counts(1) u by auto
qed

lemma finalized_fields [simp]:
  "outputs_of (t\<lparr>sg_finalized := b\<rparr>) = outputs_of t"
  "target_of (t\<lparr>sg_finalized := b\<rparr>) = target_of t"
  "producers (t\<lparr>sg_finalized := b\<rparr>) = producers t"
  "vertex_ids (t\<lparr>sg_finalized := b\<rparr>) = vertex_ids t"
  "valid_edge (t\<lparr>sg_finalized := b\<rparr>) = valid_edge t"
  by (simp_all add: outputs_of_def target_of_def producers_def vertex_ids_def valid_edge_def fun_eq_iff)

lemma finalized_reset [simp]:
  "topology_wf (t\<lparr>sg_finalized := b\<rparr>) = topology_wf t"
  "edges_valid (t\<lparr>sg_finalized := b\<rparr>) = edges_valid t"
  "flow_graph (t\<lparr>sg_finalized := b\<rparr>) = flow_graph t"
  "resolved_edges (t\<lparr>sg_finalized := b\<rparr>) = resolved_edges t"
  by (simp_all add: topology_wf_def edges_valid_def flow_graph_def resolved_edges_def fun_eq_iff)

lemma resolve_result:
  assumes "topology_wf t"
  shows "fst (resolve_neutral_topology t) = Inr sink \<longleftrightarrow> flow_graph t sink"
    and "fst (resolve_neutral_topology t) = Inr sink \<Longrightarrow>
      \<exists>incoming outgoing. snd (resolve_neutral_topology t)
          = t\<lparr>sg_incoming := incoming, sg_outgoing := outgoing, sg_finalized := True\<rparr>
        \<and> resolved_edges t incoming outgoing"
proof -
  define u where "u = t\<lparr>sg_finalized := False\<rparr>"
  define rs where "rs = fold (place u) (edge_list (sg_declared_outputs u)) (initial_resolution u)"
  have wf: "topology_wf u" using assms by (simp add: u_def)
  have counts: "counts_ports u (initial_resolution u)"
    by (simp add: counts_ports_def initial_resolution_def image_image)
  have fold: "try_fold (resolve_source u) (sg_declared_outputs u) (initial_resolution u) = Inr rs'
      \<longleftrightarrow> edges_valid u \<and> rs' = rs" for rs'
    unfolding resolve_sources_Inr [OF counts] edges_valid_iff [OF wf] rs_def ..
  have run: "resolve_neutral_topology t =
     (if sg_duplicate_ports u \<noteq> [] then (Inl (DuplicatePorts (sort (sg_duplicate_ports u))), u)
      else if vertex_ids u = [] then (Inl EmptyGraph, u)
      else case try_fold (resolve_source u) (sg_declared_outputs u) (initial_resolution u) of
             Inl e \<Rightarrow> (Inl e, u)
           | Inr rs \<Rightarrow>
               (case check_resolution u (vertex_ids u) rs of
                  Inl e \<Rightarrow> (Inl e, u)
                | Inr sink \<Rightarrow>
                    (Inr sink, u\<lparr>sg_incoming := rs_incoming rs, sg_outgoing := rs_outgoing rs, sg_finalized := True\<rparr>)))"
    by (simp only: resolve_neutral_topology_def Let_def initial_resolution_def u_def)
  have check: "check_resolution u (vertex_ids u) rs = Inr sink \<and> sg_duplicate_ports u = [] \<longleftrightarrow> flow_graph u sink"
    if "edges_valid u" for sink
    using check_resolution_iff [OF _ placed_edges [OF wf that rs_def], of sink] wf that
    by (auto simp: flow_graph_def topology_wf_def edges_valid_def)
  have valid: "edges_valid u" "sg_duplicate_ports u = []" "vertex_ids u \<noteq> []" if "flow_graph u sink" for sink
    using that by (auto simp: flow_graph_def edges_valid_def)
  have accept: "fst (resolve_neutral_topology t) = Inr sink \<longleftrightarrow> edges_valid u \<and> sg_duplicate_ports u = []
      \<and> vertex_ids u \<noteq> [] \<and> check_resolution u (vertex_ids u) rs = Inr sink" for sink
  proof (cases "edges_valid u")
    case True
    then have "try_fold (resolve_source u) (sg_declared_outputs u) (initial_resolution u) = Inr rs"
      unfolding fold by simp
    with True show ?thesis unfolding run by (auto split: sum.splits)
  next
    case False
    with fold obtain e where "try_fold (resolve_source u) (sg_declared_outputs u) (initial_resolution u) = Inl e"
      by (cases "try_fold (resolve_source u) (sg_declared_outputs u) (initial_resolution u)") auto
    with False show ?thesis unfolding run by simp
  qed
  show "fst (resolve_neutral_topology t) = Inr sink \<longleftrightarrow> flow_graph t sink"
    unfolding accept using check valid [of sink] by (auto simp: u_def)
  show "\<exists>incoming outgoing. snd (resolve_neutral_topology t)
          = t\<lparr>sg_incoming := incoming, sg_outgoing := outgoing, sg_finalized := True\<rparr>
        \<and> resolved_edges t incoming outgoing"
    if "fst (resolve_neutral_topology t) = Inr sink"
  proof -
    from that have "edges_valid u" "sg_duplicate_ports u = []" "vertex_ids u \<noteq> []"
      and sink: "check_resolution u (vertex_ids u) rs = Inr sink" unfolding accept by auto
    moreover from this have "try_fold (resolve_source u) (sg_declared_outputs u) (initial_resolution u) = Inr rs"
      unfolding fold by simp
    ultimately have "snd (resolve_neutral_topology t)
        = t\<lparr>sg_incoming := rs_incoming rs, sg_outgoing := rs_outgoing rs, sg_finalized := True\<rparr>"
      unfolding run by (simp add: u_def)
    moreover have "resolved_edges t (rs_incoming rs) (rs_outgoing rs)"
      using placed_edges(1) [OF wf \<open>edges_valid u\<close> rs_def] by (simp add: u_def)
    ultimately show ?thesis by blast
  qed
qed

section \<open>No panics\<close>

definition panic_free :: "flow_failure + 'a \<Rightarrow> bool" where
  "panic_free r \<longleftrightarrow> (\<forall>m. r \<noteq> Inl (Panicked m))"

lemma panic_free_simps [simp]:
  "panic_free (Inr x)" "panic_free (Inl e) \<longleftrightarrow> (\<forall>m. e \<noteq> Panicked m)"
  by (simp_all add: panic_free_def)

lemma panic_free_and_then:
  "panic_free r \<Longrightarrow> (\<And>x. r = Inr x \<Longrightarrow> panic_free (f x)) \<Longrightarrow> panic_free (and_then r f)"
  by (cases r) auto

lemma panic_free_ok_or [simp]: "panic_free (ok_or e x) \<longleftrightarrow> x \<noteq> None \<or> (\<forall>m. e \<noteq> Panicked m)"
  by (cases x) auto

lemma panic_free_try_fold:
  assumes "\<And>x s. I s \<Longrightarrow> panic_free (f x s)" and "\<And>x s s'. I s \<Longrightarrow> f x s = Inr s' \<Longrightarrow> I s'" and "I s"
  shows "panic_free (try_fold f xs s)"
  using assms(3) by (induction xs arbitrary: s) (auto intro!: panic_free_and_then assms(1) dest: assms(2))

lemma resolve_port_panic_free:
  assumes "counts_ports t rs"
  shows "panic_free (resolve_port t source contract declared port rs)"
proof -
  have "map_of (rs_counts rs) port \<noteq> None" if "map_of (sg_port_vertices t) port = Some target" for target
    using that assms by (auto simp: counts_ports_def amap_dom dest!: map_of_SomeD)
       (metis fst_conv image_eqI)
  then show ?thesis
    by (auto simp: resolve_port_def result_simps intro!: panic_free_and_then)
qed

lemma resolve_port_counts:
  assumes "counts_ports t rs" and "resolve_port t source contract declared port rs = Inr rs'"
  shows "counts_ports t rs'"
proof -
  have "rs_counts rs' = bump port (rs_counts rs)" "map_of (rs_counts rs) port \<noteq> None"
    using assms(2) by (auto simp: resolve_port_def result_simps split: if_splits)
  then show ?thesis using assms(1) unfolding counts_ports_def amap_dom by (simp add: insert_absorb)
qed

lemma resolve_source_panic_free:
  assumes "counts_ports t rs"
  shows "panic_free (resolve_source t out rs)"
  unfolding resolve_source_def
  by (intro panic_free_and_then panic_free_try_fold [where I = "counts_ports t"])
     (use assms in \<open>auto simp: resolve_port_panic_free intro: resolve_port_counts\<close>)

lemma resolve_source_counts:
  assumes "counts_ports t rs" and "resolve_source t out rs = Inr rs'"
  shows "counts_ports t rs'"
  using assms resolve_source_Inr [OF assms(1), of out rs'] by (auto intro!: fold_counts_ports)

lemma resolution_panic_free:
  assumes "topology_wf t"
  shows "panic_free (fst (resolve_neutral_topology t))"
proof -
  define u where "u = t\<lparr>sg_finalized := False\<rparr>"
  have wf: "topology_wf u" using assms by (simp add: u_def)
  have counts: "counts_ports u (initial_resolution u)"
    by (simp add: counts_ports_def initial_resolution_def image_image)
  let ?fold = "try_fold (resolve_source u) (sg_declared_outputs u) (initial_resolution u)"
  have fold: "panic_free ?fold"
    by (rule panic_free_try_fold [where I = "counts_ports u"])
       (auto simp: resolve_source_panic_free counts intro: resolve_source_counts)
  have check: "panic_free (check_resolution u (vertex_ids u) rs)" if "?fold = Inr rs" for rs
  proof -
    from that have rs: "edges_valid u" "rs = fold (place u) (edge_list (sg_declared_outputs u)) (initial_resolution u)"
      unfolding resolve_sources_Inr [OF counts] edges_valid_iff [OF wf] by simp_all
    obtain n where "kahn_visit (rs_outgoing rs) (map (\<lambda>(i, sources). (i, length sources)) (rs_incoming rs))
        (sort (map fst (filter (\<lambda>d. snd d = 0) (map (\<lambda>(i, sources). (i, length sources)) (rs_incoming rs))))) 0 = Some n"
      using kahn_of_resolved [OF placed_edges(1) [OF wf rs]] by auto
    then show ?thesis
      unfolding check_resolution_def Let_def
      by (auto intro!: panic_free_and_then simp: check_producers_def check_vertex_ports_def
          split: option.split list.split)
  qed
  show ?thesis
    unfolding resolve_neutral_topology_def Let_def u_def [symmetric] initial_resolution_def [symmetric]
    using fold check by (auto split: sum.split)
qed

end
