(* ===== verification/Flux_Programs.thy ===== *)
theory Flux_Programs
  imports Flux_Forward Flux_Resolve
begin

text \<open>
  The programs of a flow graph as implementations of \<open>SunProgram\<close>
  (\<open>programs/forward_only\<close>, \<open>programs/checkpoint_evaluate\<close>), the contract of that interface, and
  the states that a deployment reaches: one spawn after the other, each registering its vertex.
\<close>

record cell_init =
  ci_recv_id :: object_id
  ci_grad_steps :: nat

record fusion_seed =
  fu_p1_recv_id :: object_id
  fu_p2_recv_id :: object_id
  fu_grad_steps :: nat

record boundary_init =
  bi_recv_id :: object_id
  bi_grad_steps :: nat
  bi_warp_journey_id :: uuid

record 's neutral_sun_state =
  ns_topology :: sun_topology
  ns_inner :: 's

definition extend_inboxes :: "(u32 \<times> object_id) list \<Rightarrow> (u32 \<times> object_id) list \<Rightarrow> (u32 \<times> object_id) list" where
  "extend_inboxes ports inputs = fold (\<lambda>(p, i). AList.update p i) ports inputs"

definition forward_program :: "('s forward_sun_state, cell_init, fusion_seed, boundary_init) sun_program" where
  "forward_program =
     \<lparr>sp_topology = fs_topology, sp_set_topology = (\<lambda>t. fs_topology_update (\<lambda>_. t)),
      sp_unary_seed = (\<lambda>inbox. \<lparr>ci_recv_id = inbox, ci_grad_steps = 1\<rparr>),
      sp_unary_inbox = ci_recv_id,
      sp_binary_seed = (\<lambda>(p1, p2). \<lparr>fu_p1_recv_id = p1, fu_p2_recv_id = p2, fu_grad_steps = 1\<rparr>),
      sp_binary_inboxes = (\<lambda>seed. (fu_p1_recv_id seed, fu_p2_recv_id seed)),
      sp_warp_seed = (\<lambda>inbox warp. \<lparr>bi_recv_id = inbox, bi_grad_steps = 1, bi_warp_journey_id = warp\<rparr>),
      sp_register_inboxes = (\<lambda>ports s. s\<lparr>fs_runtime := (fs_runtime s)
        \<lparr>fr_inputs := extend_inboxes ports (fr_inputs (fs_runtime s))\<rparr>\<rparr>)\<rparr>"

definition checkpoint_evaluate_program :: "('s neutral_sun_state, cell_init, fusion_seed, boundary_init) sun_program" where
  "checkpoint_evaluate_program =
     \<lparr>sp_topology = ns_topology, sp_set_topology = (\<lambda>t. ns_topology_update (\<lambda>_. t)),
      sp_unary_seed = (\<lambda>inbox. \<lparr>ci_recv_id = inbox, ci_grad_steps = 1\<rparr>),
      sp_unary_inbox = ci_recv_id,
      sp_binary_seed = (\<lambda>(p1, p2). \<lparr>fu_p1_recv_id = p1, fu_p2_recv_id = p2, fu_grad_steps = 1\<rparr>),
      sp_binary_inboxes = (\<lambda>seed. (fu_p1_recv_id seed, fu_p2_recv_id seed)),
      sp_warp_seed = (\<lambda>inbox warp. \<lparr>bi_recv_id = inbox, bi_grad_steps = 1, bi_warp_journey_id = warp\<rparr>),
      sp_register_inboxes = (\<lambda>ports s. s)\<rparr>"

definition finalize_neutral_graph :: "string + unit \<Rightarrow> 's neutral_sun_state \<Rightarrow>
    (flow_failure + unit) \<times> 's neutral_sun_state" where
  "finalize_neutral_graph output s =
     (case completed_or ''finalize neutral graph failed'' output of
        Inl e \<Rightarrow> (Inl e, s)
      | Inr _ \<Rightarrow>
          let (result, t) = resolve_neutral_topology (ns_topology s) in
          (case result of Inl e \<Rightarrow> Inl e | Inr sink \<Rightarrow> Inr (), s\<lparr>ns_topology := t\<rparr>))"

section \<open>The contract of a program\<close>

text \<open>
  Seeds give their inboxes back, the topology of a state is a field of its own, and registering
  inboxes leaves it alone.
\<close>

locale sun_program_spec =
  fixes P :: "('s, 'u, 'b, 'w) sun_program"
  assumes unary_inbox [simp]: "sp_unary_inbox P (sp_unary_seed P i) = i"
    and binary_inboxes [simp]: "sp_binary_inboxes P (sp_binary_seed P is) = is"
    and topology_set [simp]: "sp_topology P (sp_set_topology P t s) = t"
    and topology_inboxes [simp]: "sp_topology P (sp_register_inboxes P ports s) = sp_topology P s"
begin

lemma register_vertex_topology [simp]:
  "sp_topology P (register_vertex P vertex label ports contract edges journey warp s)
    = register_in_topology vertex label ports contract edges journey warp (sp_topology P s)"
  by (simp add: register_vertex_def)

lemma spawn_keeps_wf:
  assumes "topology_wf (sp_topology P s)"
  shows "spawn_unary P p name c es (Inr j) u s = Inr s' \<Longrightarrow> topology_wf (sp_topology P s')"
    and "spawn_binary P p q name c es (Inr j) b s = Inr s' \<Longrightarrow> topology_wf (sp_topology P s')"
    and "spawn_warp_boundary P p wname name c es (Inr j) (u, w) s = Inr s' \<Longrightarrow> topology_wf (sp_topology P s')"
  using assms
  by (auto simp: spawn_unary_def spawn_binary_def spawn_warp_boundary_def topology_wf_register split: prod.splits)

end

interpretation forward_spec: sun_program_spec forward_program
  by unfold_locales (auto simp: forward_program_def)

interpretation neutral_spec: sun_program_spec checkpoint_evaluate_program
  by unfold_locales (auto simp: checkpoint_evaluate_program_def)

section \<open>Deployed states\<close>

definition empty_forward_state :: "'s \<Rightarrow> 's forward_sun_state" where
  "empty_forward_state inner = \<lparr>fs_topology = empty_topology, fs_runtime = empty_runtime inner\<rparr>"

inductive deployed :: "'s forward_sun_state \<Rightarrow> bool" where
  deployed_empty: "deployed (empty_forward_state inner)"
| deployed_unary: "deployed s \<Longrightarrow>
    spawn_unary forward_program p name c es output seed s = Inr s' \<Longrightarrow> deployed s'"
| deployed_binary: "deployed s \<Longrightarrow>
    spawn_binary forward_program p q name c es output seed s = Inr s' \<Longrightarrow> deployed s'"
| deployed_warp: "deployed s \<Longrightarrow>
    spawn_warp_boundary forward_program p wname name c es output carry s = Inr s' \<Longrightarrow> deployed s'"

text \<open>
  The ports of the vertices: unless a port was claimed twice, every port belongs to exactly the
  vertex that lists it, is listed once, and every vertex lists its own key. Every port has an
  inbox.
\<close>

definition ports_ok :: "sun_topology \<Rightarrow> bool" where
  "ports_ok t \<longleftrightarrow> sg_duplicate_ports t = [] \<longrightarrow>
     (\<forall>v. distinct (lookup_or [] (sg_vertex_ports t) v))
     \<and> (\<forall>p v. map_of (sg_port_vertices t) p = Some v \<longleftrightarrow> p \<in> set (lookup_or [] (sg_vertex_ports t) v))
     \<and> (\<forall>v\<in>fst ` set (sg_journey_ids t). v \<in> set (lookup_or [] (sg_vertex_ports t) v))"

definition deploy_ok :: "'s forward_sun_state \<Rightarrow> bool" where
  "deploy_ok s \<longleftrightarrow> topology_wf (fs_topology s) \<and> ports_ok (fs_topology s)
     \<and> fst ` set (sg_vertex_ports (fs_topology s)) = fst ` set (sg_journey_ids (fs_topology s))
     \<and> fst ` set (sg_journey_ids (fs_topology s)) \<subseteq> fst ` set (sg_port_vertices (fs_topology s))
     \<and> fst ` set (fr_inputs (fs_runtime s)) = fst ` set (sg_port_vertices (fs_topology s))
     \<and> amap_wf (fr_inputs (fs_runtime s))"

lemma register_ports_fields [simp]:
  "sg_journey_ids (fold (register_port v) ports t) = sg_journey_ids t"
  "sg_vertex_ports (fold (register_port v) ports t) = sg_vertex_ports t"
  by (induction ports arbitrary: t) simp_all

lemma register_ports_keys:
  "fst ` set (sg_port_vertices (fold (register_port v) ports t)) = fst ` set ports \<union> fst ` set (sg_port_vertices t)"
  by (induction ports arbitrary: t)
     (auto simp: register_port_def amap_dom insert_absorb split: option.splits)

lemma register_ports_free:
  assumes "sg_duplicate_ports (fold (register_port v) ports t) = []"
  shows "sg_duplicate_ports t = [] \<and> distinct (map fst ports) \<and> fst ` set ports \<inter> fst ` set (sg_port_vertices t) = {}
    \<and> map_of (sg_port_vertices (fold (register_port v) ports t)) p
        = (if p \<in> fst ` set ports then Some v else map_of (sg_port_vertices t) p)"
  using assms
proof (induction ports arbitrary: t)
  case (Cons q ports)
  let ?t = "register_port v q t"
  have IH: "sg_duplicate_ports ?t = []" "distinct (map fst ports)"
    "fst ` set ports \<inter> fst ` set (sg_port_vertices ?t) = {}"
    "map_of (sg_port_vertices (fold (register_port v) ports ?t)) p
        = (if p \<in> fst ` set ports then Some v else map_of (sg_port_vertices ?t) p)"
    using Cons.IH [of ?t] Cons.prems by simp_all
  have new: "map_of (sg_port_vertices t) (fst q) = None"
  proof (rule ccontr)
    assume "map_of (sg_port_vertices t) (fst q) \<noteq> None"
    with IH(1) have "fst q \<in> set []" by (simp add: register_port_def List.insert_def split: if_splits)
    then show False by simp
  qed
  then have t: "?t = t\<lparr>sg_port_vertices := AList.update (fst q) v (sg_port_vertices t)\<rparr>"
    by (simp add: register_port_def)
  from IH new show ?case by (auto simp: t amap_simps amap_dom)
qed simp

lemma extend_inboxes_keys:
  "fst ` set (extend_inboxes ports inputs) = fst ` set ports \<union> fst ` set inputs"
  by (induction ports arbitrary: inputs) (simp_all add: extend_inboxes_def case_prod_beta)

lemma extend_inboxes_wf: "amap_wf inputs \<Longrightarrow> amap_wf (extend_inboxes ports inputs)"
  by (induction ports arbitrary: inputs) (auto simp: extend_inboxes_def)

lemma deploy_ok_register:
  assumes "deploy_ok s" and own: "vertex \<in> fst ` set ports"
  shows "deploy_ok (register_vertex forward_program vertex label ports contract edges journey warp s)"
proof -
  let ?t = "fs_topology s"
  let ?t' = "register_in_topology vertex label ports contract edges journey warp ?t"
  let ?s' = "register_vertex forward_program vertex label ports contract edges journey warp s"
  have old: "topology_wf ?t" "ports_ok ?t" "fst ` set (sg_vertex_ports ?t) = fst ` set (sg_journey_ids ?t)"
    "fst ` set (sg_journey_ids ?t) \<subseteq> fst ` set (sg_port_vertices ?t)"
    "fst ` set (fr_inputs (fs_runtime s)) = fst ` set (sg_port_vertices ?t)" "amap_wf (fr_inputs (fs_runtime s))"
    using assms(1) by (simp_all add: deploy_ok_def)
  have t': "fs_topology ?s' = ?t'" by (simp add: register_vertex_def forward_program_def)
  have inputs: "fr_inputs (fs_runtime ?s') = extend_inboxes ports (fr_inputs (fs_runtime s))"
    by (simp add: register_vertex_def forward_program_def)
  have vp: "sg_vertex_ports ?t' = or_insert vertex (map fst ports) (sg_vertex_ports ?t)"
    "sg_journey_ids ?t' = or_insert vertex journey (sg_journey_ids ?t)"
    "fst ` set (sg_port_vertices ?t') = fst ` set ports \<union> fst ` set (sg_port_vertices ?t)"
    by (simp_all add: register_in_topology_def register_ports_keys)
  have "ports_ok ?t'"
    unfolding ports_ok_def
  proof (intro impI)
    assume dup: "sg_duplicate_ports ?t' = []"
    from register_ports_free [OF this [unfolded register_in_topology_def]]
    have free: "sg_duplicate_ports ?t = []" "distinct (map fst ports)"
      "fst ` set ports \<inter> fst ` set (sg_port_vertices ?t) = {}"
      and pv: "\<And>p. map_of (sg_port_vertices ?t') p
        = (if p \<in> fst ` set ports then Some vertex else map_of (sg_port_vertices ?t) p)"
      by (simp_all add: register_in_topology_def)
    have "vertex \<notin> fst ` set (sg_vertex_ports ?t)" using free(3) own old(3,4) by blast
    then have vps: "lookup_or [] (sg_vertex_ports ?t') v
        = (if v = vertex then map fst ports else lookup_or [] (sg_vertex_ports ?t) v)" for v
      unfolding vp amap_dom [symmetric] by (simp add: lookup_or_def map_of_or_insert)
    have none: "lookup_or [] (sg_vertex_ports ?t) vertex = []"
      using \<open>vertex \<notin> fst ` set (sg_vertex_ports ?t)\<close> by (simp add: amap_dom [symmetric] lookup_or_def)
    have old': "distinct (lookup_or [] (sg_vertex_ports ?t) v)"
      "map_of (sg_port_vertices ?t) p = Some v \<longleftrightarrow> p \<in> set (lookup_or [] (sg_vertex_ports ?t) v)" for p v
      using old(2) free(1) by (simp_all add: ports_ok_def)
    have taken: "p \<notin> fst ` set ports" if "p \<in> set (lookup_or [] (sg_vertex_ports ?t) v)" for p v
      using that old'(2) [of p v] free(3) by (force dest: map_of_SomeD)
    show "(\<forall>v. distinct (lookup_or [] (sg_vertex_ports ?t') v))
     \<and> (\<forall>p v. map_of (sg_port_vertices ?t') p = Some v \<longleftrightarrow> p \<in> set (lookup_or [] (sg_vertex_ports ?t') v))
     \<and> (\<forall>v\<in>fst ` set (sg_journey_ids ?t'). v \<in> set (lookup_or [] (sg_vertex_ports ?t') v))"
      unfolding vps pv vp(2) or_insert_keys
    proof (intro conjI allI ballI)
      show "v \<in> set (if v = vertex then map fst ports else lookup_or [] (sg_vertex_ports ?t) v)"
        if "v \<in> insert vertex (fst ` set (sg_journey_ids ?t))" for v
        using that own old(2) free(1) by (auto simp: ports_ok_def)
      show "distinct (if v = vertex then map fst ports else lookup_or [] (sg_vertex_ports ?t) v)" for v
        using free(2) old'(1) by simp
      show "(if p \<in> fst ` set ports then Some vertex else map_of (sg_port_vertices ?t) p) = Some v
          \<longleftrightarrow> p \<in> set (if v = vertex then map fst ports else lookup_or [] (sg_vertex_ports ?t) v)" for p v
        using old'(2) [of p v] taken [of p v] none by (cases "p \<in> fst ` set ports"; cases "v = vertex") auto
    qed
  qed
  then show ?thesis
    unfolding deploy_ok_def t' inputs vp extend_inboxes_keys or_insert_keys
    using old own by (auto simp: topology_wf_register extend_inboxes_wf)
qed

lemma deployed_ok: "deployed s \<Longrightarrow> deploy_ok s"
proof (induction rule: deployed.induct)
  case (deployed_empty inner)
  show ?case
    by (simp add: deploy_ok_def empty_forward_state_def topology_wf_empty ports_ok_def)
       (simp add: empty_topology_def empty_runtime_def lookup_or_def)
next
  case (deployed_unary s p name c es res seed s')
  then show ?case by (auto simp: spawn_unary_def intro!: deploy_ok_register split: sum.splits)
next
  case (deployed_binary s p q name c es res seed s')
  then show ?case by (auto simp: spawn_binary_def intro!: deploy_ok_register split: sum.splits prod.splits)
next
  case (deployed_warp s p wname name c es res carry s')
  then show ?case by (auto simp: spawn_warp_boundary_def intro!: deploy_ok_register split: sum.splits prod.splits)
qed

end
