(* ===== verification/Flux_Frontier.thy ===== *)
theory Flux_Frontier
  imports Flux_Topology Flux_Graph
begin

text \<open>
  The dependency frontier over an acyclic graph: the pending counts of a pass are the edges from
  the vertices that have not completed, completing a ready vertex never fails and moves the
  frontier on, and completing any other vertex is refused.
\<close>

definition frontier_inv :: "u32 set \<Rightarrow> (u32 \<Rightarrow> u32 list) \<Rightarrow> pending_counts \<times> u32 list \<Rightarrow> u32 list \<Rightarrow> bool" where
  "frontier_inv V succ frontier visited \<longleftrightarrow>
     (\<forall>v. map_of (fst frontier) v
        = (if v \<in> V - set visited then Some (edges_into succ (V - set visited) v) else None))
     \<and> set (snd frontier) = {v \<in> V - set visited. edges_into succ (V - set visited) v = 0}
     \<and> amap_wf (fst frontier) \<and> distinct (snd frontier)
     \<and> edge_order (graph_edges succ V) visited \<and> set visited \<subseteq> V"

lemma frontier_pending_empty: "frontier_inv V succ (p, r) visited \<Longrightarrow> p = [] \<longleftrightarrow> set visited = V"
proof -
  assume inv: "frontier_inv V succ (p, r) visited"
  have "p = [] \<longleftrightarrow> (\<forall>v. map_of p v = None)"
    by (cases p) (auto simp: map_of_eq_None_iff)
  also have "\<dots> \<longleftrightarrow> V \<subseteq> set visited" using inv by (auto simp: frontier_inv_def)
  finally show ?thesis using inv by (auto simp: frontier_inv_def)
qed

lemma frontier_ready_nonempty:
  assumes "finite V" and "acyclic (graph_edges succ V)" and "frontier_inv V succ (p, r) visited" and "p \<noteq> []"
  shows "r \<noteq> []"
proof -
  have "V - set visited \<noteq> {}"
    using frontier_pending_empty [OF assms(3)] assms(3,4) by (auto simp: frontier_inv_def)
  then obtain v where "v \<in> V - set visited" "edges_into succ (V - set visited) v = 0"
    using graph_progress [OF assms(1,2), of "V - set visited"] by blast
  then have "v \<in> set r" using assms(3) by (simp add: frontier_inv_def)
  then show ?thesis by auto
qed

lemma map_of_decrements:
  "map_of (fold (\<lambda>t. bump (pt_vertex_id t)) ts m) v
    = (if v \<in> set (map pt_vertex_id ts) then Some (lookup_or 0 m v + count_list (map pt_vertex_id ts) v) else map_of m v)"
  for m :: "(u32 \<times> nat) list"
  by (induction ts arbitrary: m) (auto simp: bump_def lookup_or_def amap_simps)

lemma target_decrements_props:
  "map_of (target_decrements ts) v
    = (if v \<in> set (map pt_vertex_id ts) then Some (count_list (map pt_vertex_id ts) v) else None)"
  "amap_wf (target_decrements ts)"
proof -
  show "map_of (target_decrements ts) v
    = (if v \<in> set (map pt_vertex_id ts) then Some (count_list (map pt_vertex_id ts) v) else None)"
    by (simp add: target_decrements_def map_of_decrements lookup_or_def)
  have "amap_wf m \<Longrightarrow> amap_wf (fold (\<lambda>t. bump (pt_vertex_id t)) ts m)" for m :: "(u32 \<times> nat) list"
    by (induction ts arbitrary: m) simp_all
  then show "amap_wf (target_decrements ts)" by (simp add: target_decrements_def)
qed

lemma check_decrements_ok:
  "(\<And>v n. (v, n) \<in> set ds \<Longrightarrow> \<exists>u. map_of pending v = Some u \<and> n \<le> u) \<Longrightarrow> check_decrements pending ds = Inr ()"
proof (induction pending ds rule: check_decrements.induct)
  case (2 pending v n ds)
  then obtain u where "map_of pending v = Some u" "n \<le> u" by fastforce
  with 2 show ?case by simp
qed simp

lemma apply_decrements:
  assumes "amap_wf ds" and "\<forall>d\<in>set ds. map_of p (fst d) \<noteq> None"
  shows "map_of (fst (fold apply_decrement ds (p, r))) v
      = (case map_of ds v of None \<Rightarrow> map_of p v | Some n \<Rightarrow> map_option (\<lambda>u. u - n) (map_of p v))
    \<and> (v \<in> set (snd (fold apply_decrement ds (p, r)))
        \<longleftrightarrow> v \<in> set r \<or> (\<exists>n u. map_of ds v = Some n \<and> map_of p v = Some u \<and> u \<le> n))
    \<and> (amap_wf p \<longrightarrow> amap_wf (fst (fold apply_decrement ds (p, r))))
    \<and> (distinct r \<longrightarrow> distinct (snd (fold apply_decrement ds (p, r))))"
  using assms
proof (induction ds arbitrary: p r)
  case (Cons d ds)
  obtain w n where d: "d = (w, n)" by (cases d)
  obtain u where u: "map_of p w = Some u" using Cons.prems(2) d by auto
  let ?p = "AList.update w (u - n) p"
  let ?r = "if u - n = 0 then List.insert w r else r"
  have new: "w \<notin> fst ` set ds" "amap_wf ds" using Cons.prems(1) d by (auto simp: amap_wf_def)
  have w: "map_of ds w = None" using new(1) by (simp add: amap_dom)
  have run: "fold apply_decrement (d # ds) (p, r) = fold apply_decrement ds (?p, ?r)"
    using u by (simp add: d)
  have pres: "\<forall>d\<in>set ds. map_of ?p (fst d) \<noteq> None"
    using Cons.prems(2) by (simp add: amap_simps)
  note IH = Cons.IH [OF new(2) pres, where r = ?r]
  show ?case
  proof (cases "v = w")
    case True
    with IH w u show ?thesis unfolding run by (simp add: d amap_simps)
  next
    case False
    with IH u show ?thesis unfolding run by (cases "map_of ds v") (auto simp: d amap_simps)
  qed
qed simp

lemma advance_ready:
  assumes "finite V" and "\<And>u. u \<in> V \<Longrightarrow> set (succ u) \<subseteq> V" and inv: "frontier_inv V succ (pending, ready) visited"
    and "node \<in> set ready" and targets: "map pt_vertex_id targets = succ node"
  shows "\<exists>frontier. advance_frontier node targets (pending, ready) = Inr frontier
    \<and> frontier_inv V succ frontier (visited @ [node])"
proof -
  let ?A = "V - set visited"
  let ?n = "edges_into succ (?A - {node})"
  let ?ds = "target_decrements targets"
  let ?f = "fold apply_decrement ?ds (AList.delete node pending, removeAll node ready)"
  have node: "node \<in> V" "node \<notin> set visited" "edges_into succ ?A node = 0" "node \<in> ?A"
    and pend: "\<And>v. map_of pending v = (if v \<in> ?A then Some (edges_into succ ?A v) else None)"
    and ready: "set ready = {v \<in> ?A. edges_into succ ?A v = 0}" "distinct ready" "amap_wf pending"
    and order: "edge_order (graph_edges succ V) visited" "set visited \<subseteq> V"
    using inv assms(4) by (auto simp: frontier_inv_def)
  have split: "edges_into succ ?A v = count_list (succ node) v + ?n v" for v
    using assms(1) node(4) by (intro edges_into_remove) auto
  have none: "\<forall>u\<in>?A. node \<notin> set (succ u)" using node(3) assms(1) by (simp add: edges_into_0)
  have dec: "map_of ?ds v = (if v \<in> set (succ node) then Some (count_list (succ node) v) else None)" for v
    using target_decrements_props(1) [of targets v] by (simp only: targets)
  have pred: "u \<in> set visited" if "u \<in> V" "node \<in> set (succ u)" for u
    using none that by blast
  have sub: "v \<in> ?A - {node}" if "v \<in> set (succ node)" for v
  proof -
    have "v \<in> V" using that assms(2) node(1) by auto
    moreover have "v \<notin> set visited"
    proof
      assume "v \<in> set visited"
      then obtain ys zs where "visited = ys @ v # zs" by (meson split_list)
      then have "node \<in> set ys" using order(1) that node(1) by (auto simp: edge_order_def)
      with \<open>visited = ys @ v # zs\<close> node(2) show False by simp
    qed
    ultimately show ?thesis using that none node(4) by auto
  qed
  have dec_mem: "fst d \<in> set (succ node) \<and> snd d = count_list (succ node) (fst d)" if "d \<in> set ?ds" for d
  proof -
    have "map_of ?ds (fst d) = Some (snd d)"
      using that amap_mem_iff [OF target_decrements_props(2), of "fst d" "snd d"] by simp
    then show ?thesis unfolding dec by (simp split: if_splits)
  qed
  have "check_decrements pending ?ds = Inr ()"
  proof (rule check_decrements_ok)
    fix v n assume "(v, n) \<in> set ?ds"
    from dec_mem [OF this] have v: "v \<in> set (succ node)" "n = count_list (succ node) v" by simp_all
    then have "map_of pending v = Some (edges_into succ ?A v)" using sub [of v] pend [of v] by simp
    then show "\<exists>u. map_of pending v = Some u \<and> n \<le> u" unfolding split [of v] v(2) by auto
  qed
  note check = this
  have run: "advance_frontier node targets (pending, ready) = Inr ?f"
    using pend [of node] node assms(4) check by (simp add: advance_frontier_def)
  have pres: "\<forall>d\<in>set ?ds. map_of (AList.delete node pending) (fst d) \<noteq> None"
    using dec_mem sub pend by (auto simp: amap_simps)
  note f = apply_decrements [OF target_decrements_props(2) pres, where r = "removeAll node ready"]
  have A': "V - set (visited @ [node]) = ?A - {node}" by auto
  have del: "map_of (AList.delete node pending) v = (if v \<in> ?A - {node} then Some (edges_into succ ?A v) else None)" for v
    using pend [of v] by (auto simp: amap_simps)
  have "map_of (fst ?f) v = (if v \<in> ?A - {node} then Some (?n v) else None)" for v
    using f [of v, THEN conjunct1] sub [of v] split [of v]
    unfolding dec del by (auto simp: count_list_0 [THEN iffD2])
  moreover have "set (snd ?f) = {v \<in> ?A - {node}. ?n v = 0}"
  proof (rule set_eqI)
    fix v
    show "v \<in> set (snd ?f) \<longleftrightarrow> v \<in> {v \<in> ?A - {node}. ?n v = 0}"
      unfolding f [of v, THEN conjunct2, THEN conjunct1] dec del using ready(1) split [of v] sub [of v]
      by (auto simp: count_list_0)
  qed
  moreover have "amap_wf (fst ?f)" "distinct (snd ?f)"
    using f [THEN conjunct2, THEN conjunct2] ready(2,3) by (simp_all add: distinct_removeAll)
  moreover have "edge_order (graph_edges succ V) (visited @ [node])"
    using order(1) node(2) pred by (auto simp: edge_order_snoc)
  ultimately have "frontier_inv V succ ?f (visited @ [node])"
    unfolding frontier_inv_def A' using order(2) node(1) by simp
  with run show ?thesis by blast
qed

lemma advance_not_ready:
  assumes "frontier_inv V succ (pending, ready) visited" and "node \<notin> set ready"
  shows "\<exists>e. advance_frontier node targets (pending, ready) = Inl e"
  using assms by (auto simp: advance_frontier_def frontier_inv_def split: option.splits)

end
