(* ===== verification/Flux_Pass.thy ===== *)
theory Flux_Pass
  imports Flux_Programs Flux_Frontier
begin

text \<open>
  Forward passes over a finalized flow graph: the loop over completions as the driver runs it,
  with the messages its effects send, and the states a serving program reaches.
\<close>

section \<open>The driver\<close>

text \<open>
  The loop \<open>While<PendingForwardWork, ForwardPassLoop>\<close>: while work is pending, one of the
  endpoints that the emitted wait names completes and is absorbed. The third argument collects
  the completions, the fourth the targets they were forwarded to.
\<close>

inductive pass_loop :: "'s forward_sun_state \<Rightarrow> scheduler_delivery list \<Rightarrow> propagation_target list \<Rightarrow>
    's forward_sun_state \<Rightarrow> bool" where
  pass_start: "pass_loop s [] [] s"
| pass_next: "pass_loop s cs ms s1 \<Longrightarrow> pending_forward_work s1 \<Longrightarrow>
    sd_node_id c \<in> fst ` set (fst (emit_forward_node s1)) \<Longrightarrow>
    absorb_forward_node (Inr c) s1 = (Inr d, s2) \<Longrightarrow>
    pass_loop s (cs @ [c]) (ms @ lookup_or [] (snd (emit_forward_node s1)) (sd_node_id c)) s2"

text \<open>A program that finalizes its deployment once and then serves pass after pass.\<close>

inductive serving :: "'s forward_sun_state \<Rightarrow> u32 \<Rightarrow> bool" where
  serving_start: "deployed s \<Longrightarrow> finalize_forward_graph (Inr ()) s = (Inr (), s1) \<Longrightarrow>
    fr_sink_id (fs_runtime s1) = Some sink \<Longrightarrow> serving s1 sink"
| serving_pass: "serving s sink \<Longrightarrow> prepare_forward_pass fresh (Inr ()) input s = (Inr d, s1) \<Longrightarrow>
    absorb_forward_roots (Inr sent) d s1 = (Inr d', s2) \<Longrightarrow>
    pass_loop s2 cs ms s3 \<Longrightarrow> \<not> pending_forward_work s3 \<Longrightarrow>
    complete_forward_pass (Inr ()) d'' s3 = (Inr out, s4) \<Longrightarrow> serving s4 sink"

section \<open>What stays\<close>

text \<open>The parts of a topology that recorded progress does not change.\<close>

definition graph_of :: "sun_topology \<Rightarrow> (u32 \<times> uuid) list \<times> (u32 \<times> u32 list) list \<times> (u32 \<times> u32) list \<times>
    (u32 \<times> u32 list) list \<times> (u32 \<times> contract_descriptor) list \<times> (u32 \<times> declared_edge list) list \<times> u32 list \<times>
    (u32 \<times> u32 list) list \<times> (u32 \<times> port_target list) list" where
  "graph_of t = (sg_journey_ids t, sg_vertex_ports t, sg_port_vertices t, sg_declared_outputs t,
     sg_node_contracts t, sg_declared_edges t, sg_duplicate_ports t, sg_incoming t, sg_outgoing t)"

lemma graph_of_progress [simp]:
  "graph_of (forward_started_node i t) = graph_of t"
  "graph_of (record_forward_completed i t) = graph_of t"
  "graph_of (queue_node i t) = graph_of t"
  by (simp_all add: graph_of_def forward_started_node_def record_forward_completed_def queue_node_def)

lemma graph_of_folds [simp]:
  "graph_of (record_forward_started ids t) = graph_of t"
  "graph_of (fold queue_node ids t) = graph_of t"
proof -
  show "graph_of (record_forward_started ids t) = graph_of t"
    unfolding record_forward_started_def by (induction ids arbitrary: t) simp_all
  show "graph_of (fold queue_node ids t) = graph_of t"
    by (induction ids arbitrary: t) simp_all
qed

lemma graph_of_facts:
  assumes "graph_of t' = graph_of t"
  shows "sg_outgoing t' = sg_outgoing t" "sg_incoming t' = sg_incoming t" "sg_vertex_ports t' = sg_vertex_ports t"
    "sg_port_vertices t' = sg_port_vertices t" "vertex_ids t' = vertex_ids t" "port_ids t' = port_ids t"
    "outputs_of t' = outputs_of t" "target_of t' = target_of t" "topology_wf t' = topology_wf t"
    "flow_graph t' = flow_graph t" "resolved_edges t' = resolved_edges t" "ports_ok t' = ports_ok t"
    "sg_journey_ids t' = sg_journey_ids t"
proof -
  have f: "sg_journey_ids t' = sg_journey_ids t" "sg_vertex_ports t' = sg_vertex_ports t"
    "sg_port_vertices t' = sg_port_vertices t" "sg_declared_outputs t' = sg_declared_outputs t"
    "sg_node_contracts t' = sg_node_contracts t" "sg_declared_edges t' = sg_declared_edges t"
    "sg_duplicate_ports t' = sg_duplicate_ports t" "sg_incoming t' = sg_incoming t" "sg_outgoing t' = sg_outgoing t"
    using assms by (simp_all add: graph_of_def)
  have d: "outputs_of t' = outputs_of t" "target_of t' = target_of t" "vertex_ids t' = vertex_ids t"
    "producers t' = producers t" "valid_edge t' = valid_edge t"
    by (simp_all add: outputs_of_def target_of_def vertex_ids_def producers_def valid_edge_def f fun_eq_iff)
  show "sg_outgoing t' = sg_outgoing t" "sg_incoming t' = sg_incoming t" "sg_vertex_ports t' = sg_vertex_ports t"
    "sg_port_vertices t' = sg_port_vertices t" "vertex_ids t' = vertex_ids t" "port_ids t' = port_ids t"
    "outputs_of t' = outputs_of t" "target_of t' = target_of t" "sg_journey_ids t' = sg_journey_ids t"
    by (simp_all add: f d port_ids_def)
  show "topology_wf t' = topology_wf t" "ports_ok t' = ports_ok t"
    by (simp_all add: topology_wf_def ports_ok_def f)
  show "flow_graph t' = flow_graph t" "resolved_edges t' = resolved_edges t"
    by (simp_all add: flow_graph_def resolved_edges_def f d fun_eq_iff)
qed

text \<open>A state that is ready for the next pass.\<close>

definition serving_ok :: "'s forward_sun_state \<Rightarrow> u32 \<Rightarrow> bool" where
  "serving_ok s sink \<longleftrightarrow>
     (let t = fs_topology s in
      topology_wf t \<and> ports_ok t \<and> flow_graph t sink \<and> resolved_edges t (sg_incoming t) (sg_outgoing t)
      \<and> fst ` set (fr_inputs (fs_runtime s)) = fst ` set (sg_port_vertices t) \<and> amap_wf (fr_inputs (fs_runtime s))
      \<and> fr_sink_id (fs_runtime s) = Some sink)"

lemma finalized_serving:
  assumes "deployed s" and "finalize_forward_graph (Inr ()) s = (Inr (), s1)"
    and "fr_sink_id (fs_runtime s1) = Some sink"
  shows "serving_ok s1 sink"
proof -
  let ?t = "fs_topology s"
  have ok: "deploy_ok s" by (rule deployed_ok [OF assms(1)])
  then have wf: "topology_wf ?t" by (simp add: deploy_ok_def)
  obtain sink' where res: "fst (resolve_neutral_topology ?t) = Inr sink'"
    and t1: "fs_topology s1 = snd (resolve_neutral_topology ?t)"
    and r1: "fr_inputs (fs_runtime s1) = fr_inputs (fs_runtime s)" "fr_sink_id (fs_runtime s1) = Some sink'"
    using assms(2) by (auto simp: finalize_forward_graph_def Let_def split: sum.splits prod.splits)
  obtain incoming outgoing where t: "fs_topology s1 = ?t\<lparr>sg_incoming := incoming, sg_outgoing := outgoing, sg_finalized := True\<rparr>"
    and edges: "resolved_edges ?t incoming outgoing"
    using resolve_result(2) [OF wf res] t1 by auto
  have graph: "flow_graph ?t sink'" using resolve_result(1) [OF wf] res by blast
  have fields: "outputs_of (fs_topology s1) = outputs_of ?t" "target_of (fs_topology s1) = target_of ?t"
    "vertex_ids (fs_topology s1) = vertex_ids ?t" "producers (fs_topology s1) = producers ?t"
    "valid_edge (fs_topology s1) = valid_edge ?t"
    by (simp_all add: t outputs_of_def target_of_def vertex_ids_def producers_def valid_edge_def fun_eq_iff)
  have "topology_wf (fs_topology s1)" "ports_ok (fs_topology s1)"
    using ok by (simp_all add: t deploy_ok_def topology_wf_def ports_ok_def)
  moreover have "flow_graph (fs_topology s1) sink'"
    using graph unfolding flow_graph_def fields by (simp add: t)
  moreover have "resolved_edges (fs_topology s1) incoming outgoing"
    using edges unfolding resolved_edges_def fields .
  ultimately show ?thesis
    using ok r1 assms(3) by (simp add: serving_ok_def t deploy_ok_def)
qed

lemma map_of_draw_ids:
  "map_of (draw_ids fresh n ks) k \<noteq> None \<longleftrightarrow> k \<in> set ks"
  by (induction ks arbitrary: n) (auto simp: draw_ids_def)

lemma draw_ids_keys: "map fst (draw_ids fresh n ks) = ks"
  by (induction ks arbitrary: n) (auto simp: draw_ids_def)

section \<open>The invariant of a pass\<close>

definition pass_inv :: "'s forward_sun_state \<Rightarrow> scheduler_delivery list \<Rightarrow> 's forward_sun_state \<Rightarrow> bool" where
  "pass_inv s cs s' \<longleftrightarrow>
     graph_of (fs_topology s') = graph_of (fs_topology s)
     \<and> fr_inputs (fs_runtime s') = fr_inputs (fs_runtime s)
     \<and> fr_next_inputs (fs_runtime s') = fr_next_inputs (fs_runtime s)
     \<and> fr_outputs (fs_runtime s') = fr_outputs (fs_runtime s)
     \<and> fr_sink_id (fs_runtime s') = fr_sink_id (fs_runtime s)
     \<and> frontier_inv (flow_vertices (fs_topology s)) (flow_succ (fs_topology s))
         (fr_pending (fs_runtime s'), fr_ready (fs_runtime s')) (map sd_node_id cs)"

lemma prepared_frontier:
  assumes "topology_wf t" and "resolved_edges t (sg_incoming t) (sg_outgoing t)"
  shows "frontier_inv (flow_vertices t) (flow_succ t)
    (pending_dependency_counts t, initial_ready_nodes (pending_dependency_counts t)) []"
proof -
  let ?deg = "edges_into (flow_succ t) (flow_vertices t)"
  have "(case map_of (sg_incoming t) v of None \<Rightarrow> 0 | Some sources \<Rightarrow> length sources) = ?deg v" for v
    using resolved_edges_degree [OF assms(2), of v] by (simp add: lookup_or_def split: option.splits)
  then have pend: "pending_dependency_counts t = map (\<lambda>v. (v, ?deg v)) (vertex_ids t)"
    by (simp add: pending_dependency_counts_def vertex_ids_def)
  have dist: "distinct (vertex_ids t)" using assms(1) by (simp add: topology_wf_def amap_wf_def vertex_ids_def)
  have "map_of (map (\<lambda>v. (v, ?deg v)) vs) v = (if v \<in> set vs then Some (?deg v) else None)" for vs v
    by (induction vs) auto
  moreover have "initial_ready_nodes (map (\<lambda>v. (v, ?deg v)) vs) = filter (\<lambda>v. ?deg v = 0) vs" for vs
    by (induction vs) (auto simp: initial_ready_nodes_def)
  ultimately show ?thesis
    using dist by (auto simp: frontier_inv_def pend amap_wf_def comp_def)
qed

lemma prepare_pass:
  assumes "serving_ok s sink" and "prepare_forward_pass fresh (Inr ()) input s = (Inr d, s1)"
  shows "serving_ok s1 sink" and "pass_inv s1 [] s1"
    and "fr_inputs (fs_runtime s1) = fr_inputs (fs_runtime s)"
    and "map fst (fr_next_inputs (fs_runtime s1)) = port_ids (fs_topology s)"
    and "map fst (fr_outputs (fs_runtime s1)) = vertex_ids (fs_topology s)"
    and "graph_of (fs_topology s1) = graph_of (fs_topology s)"
proof -
  let ?t = "fs_topology s"
  have s1: "fs_topology s1 = fold queue_node (vertex_ids ?t) ?t"
    "fr_inputs (fs_runtime s1) = fr_inputs (fs_runtime s)" "fr_sink_id (fs_runtime s1) = fr_sink_id (fs_runtime s)"
    "fr_next_inputs (fs_runtime s1) = draw_ids fresh 0 (port_ids ?t)"
    "fr_outputs (fs_runtime s1) = draw_ids fresh (length (port_ids ?t)) (vertex_ids ?t)"
    "fr_pending (fs_runtime s1) = pending_dependency_counts ?t"
    "fr_ready (fs_runtime s1) = initial_ready_nodes (pending_dependency_counts ?t)"
    using assms(2) by (auto simp: prepare_forward_pass_def Let_def)
  show g: "graph_of (fs_topology s1) = graph_of ?t" by (simp add: s1)
  note facts = graph_of_facts [OF g]
  show "serving_ok s1 sink" using assms(1) by (simp add: serving_ok_def facts s1(2,3) Let_def)
  have "topology_wf ?t" "resolved_edges ?t (sg_incoming ?t) (sg_outgoing ?t)"
    using assms(1) by (simp_all add: serving_ok_def Let_def)
  from prepared_frontier [OF this] show "pass_inv s1 [] s1"
    by (simp add: pass_inv_def s1(6,7) facts)
  show "fr_inputs (fs_runtime s1) = fr_inputs (fs_runtime s)"
    "map fst (fr_next_inputs (fs_runtime s1)) = port_ids ?t" "map fst (fr_outputs (fs_runtime s1)) = vertex_ids ?t"
    by (simp_all add: s1 draw_ids_keys)
qed

lemma map_filter_all: "(\<And>x. x \<in> set xs \<Longrightarrow> f x = Some (g x)) \<Longrightarrow> List.map_filter f xs = map g xs"
  by (induction xs) simp_all

lemma keys_of_map_fst: "map fst m = ks \<Longrightarrow> fst ` set m = set ks"
  by (metis list.set_map)

lemma endpoints_ready:
  assumes "pass_inv s cs s'" and "map fst (fr_outputs (fs_runtime s)) = vertex_ids (fs_topology s)"
  shows "map fst (fst (emit_forward_node s')) = sort (fr_ready (fs_runtime s'))"
proof -
  let ?r = "fs_runtime s'"
  have "map_of (fr_outputs ?r) i \<noteq> None" if "i \<in> set (fr_ready ?r)" for i
  proof -
    have "i \<in> flow_vertices (fs_topology s)" using assms(1) that by (auto simp: pass_inv_def frontier_inv_def)
    moreover have "fr_outputs ?r = fr_outputs (fs_runtime s)" using assms(1) by (simp add: pass_inv_def)
    ultimately have "i \<in> fst ` set (fr_outputs ?r)" using keys_of_map_fst [OF assms(2)] by simp
    then show ?thesis by (simp add: amap_dom)
  qed
  then have "List.map_filter (\<lambda>i. map_option (Pair i) (map_of (fr_outputs ?r) i)) (sort (fr_ready ?r))
      = map (\<lambda>i. (i, the (map_of (fr_outputs ?r) i))) (sort (fr_ready ?r))"
    by (intro map_filter_all) auto
  then show ?thesis by (simp add: emit_forward_node_def sorted_node_ids_def Let_def comp_def)
qed

lemma serving_graph:
  assumes "serving_ok s sink"
  shows "acyclic (graph_edges (flow_succ (fs_topology s)) (flow_vertices (fs_topology s)))"
    and "set (flow_succ (fs_topology s) u) \<subseteq> flow_vertices (fs_topology s)"
    and "map pt_vertex_id (lookup_or [] (sg_outgoing (fs_topology s)) u) = flow_succ (fs_topology s) u"
    and "lookup_or [] (sg_outgoing (fs_topology s)) u = map (target_of (fs_topology s)) (outputs_of (fs_topology s) u)"
  using assms by (auto simp: serving_ok_def Let_def flow_graph_def resolved_edges_def)

lemma absorb_ready:
  assumes "serving_ok s sink" and inv: "pass_inv s cs s'" and ready: "sd_node_id c \<in> set (fr_ready (fs_runtime s'))"
  shows "\<exists>s''. absorb_forward_node (Inr c) s' = (Inr (sd_delivery c), s'') \<and> pass_inv s (cs @ [c]) s''"
proof -
  let ?t = "fs_topology s" and ?r = "fs_runtime s'"
  let ?targets = "lookup_or [] (sg_outgoing (fs_topology s')) (sd_node_id c)"
  have g: "graph_of (fs_topology s') = graph_of ?t" using inv by (simp add: pass_inv_def)
  note facts = graph_of_facts [OF g]
  have targets: "map pt_vertex_id ?targets = flow_succ ?t (sd_node_id c)"
    unfolding facts by (rule serving_graph(3) [OF assms(1)])
  have front: "frontier_inv (flow_vertices ?t) (flow_succ ?t) (fr_pending ?r, fr_ready ?r) (map sd_node_id cs)"
    using inv by (simp add: pass_inv_def)
  from advance_ready [OF finite_set serving_graph(2) [OF assms(1)] front ready targets]
  obtain frontier where adv: "advance_frontier (sd_node_id c) ?targets (fr_pending ?r, fr_ready ?r) = Inr frontier"
    and front': "frontier_inv (flow_vertices ?t) (flow_succ ?t) frontier (map sd_node_id (cs @ [c]))" by auto
  obtain pending rdy where f: "frontier = (pending, rdy)" by (cases frontier)
  let ?s'' = "s'\<lparr>fs_runtime := ?r\<lparr>fr_pending := pending, fr_ready := rdy\<rparr>,
      fs_topology := record_forward_started (sd_sent_node_ids c) (record_forward_completed (sd_node_id c) (fs_topology s'))\<rparr>"
  have "absorb_forward_node (Inr c) s' = (Inr (sd_delivery c), ?s'')"
    using adv by (simp add: absorb_forward_node_def f Let_def)
  moreover have "pass_inv s (cs @ [c]) ?s''"
    using inv front' by (simp add: pass_inv_def f)
  ultimately show ?thesis by blast
qed

lemma pass_loop_inv:
  assumes "pass_loop s cs ms s'" and "serving_ok s sink" and "pass_inv s [] s"
    and "map fst (fr_outputs (fs_runtime s)) = vertex_ids (fs_topology s)"
  shows "pass_inv s cs s'"
  using assms
proof (induction rule: pass_loop.induct)
  case (pass_next s cs ms s1 c d s2)
  then have inv: "pass_inv s cs s1" by simp
  have "sd_node_id c \<in> set (fr_ready (fs_runtime s1))"
    using keys_of_map_fst [OF endpoints_ready [OF inv pass_next.prems(3)]] pass_next.hyps(3) by simp
  from absorb_ready [OF pass_next.prems(1) inv this] pass_next.hyps(4) show ?case by auto
qed simp

lemma roots_absorbed:
  assumes "absorb_forward_roots (Inr sent) d s1 = (Inr d', s2)"
  shows "graph_of (fs_topology s2) = graph_of (fs_topology s1)" "fs_runtime s2 = fs_runtime s1"
  using assms by (auto simp: absorb_forward_roots_def)

lemma serving_ok_cong:
  assumes "graph_of (fs_topology s2) = graph_of (fs_topology s1)" and "fs_runtime s2 = fs_runtime s1"
  shows "serving_ok s2 sink = serving_ok s1 sink" "pass_inv s2 cs s' = pass_inv s1 cs s'"
  using graph_of_facts [OF assms(1)] assms by (simp_all add: serving_ok_def pass_inv_def Let_def)

text \<open>A pass from a serving state, up to some point of its loop.\<close>

definition pass_run :: "'s forward_sun_state \<Rightarrow> 's forward_sun_state \<Rightarrow> scheduler_delivery list \<Rightarrow> propagation_target list \<Rightarrow>
    's forward_sun_state \<Rightarrow> bool" where
  "pass_run s s1 cs ms s' \<longleftrightarrow>
     (\<exists>fresh input d sent d' s2. prepare_forward_pass fresh (Inr ()) input s = (Inr d, s1)
        \<and> absorb_forward_roots (Inr sent) d s1 = (Inr d', s2) \<and> pass_loop s2 cs ms s')"

lemma pass_run_inv:
  assumes "serving_ok s sink" and "pass_run s s1 cs ms s'"
  shows "pass_inv s1 cs s'" and "serving_ok s1 sink" and "fr_inputs (fs_runtime s1) = fr_inputs (fs_runtime s)"
    and "map fst (fr_next_inputs (fs_runtime s1)) = port_ids (fs_topology s)"
    and "map fst (fr_outputs (fs_runtime s1)) = vertex_ids (fs_topology s)"
    and "graph_of (fs_topology s1) = graph_of (fs_topology s)"
    and "map fst (fst (emit_forward_node s')) = sort (fr_ready (fs_runtime s'))"
proof -
  obtain fresh input d sent d' s2 where prep: "prepare_forward_pass fresh (Inr ()) input s = (Inr d, s1)"
    and roots: "absorb_forward_roots (Inr sent) d s1 = (Inr d', s2)" and loop: "pass_loop s2 cs ms s'"
    using assms(2) by (auto simp: pass_run_def)
  note p = prepare_pass [OF assms(1) prep]
  note r = roots_absorbed [OF roots]
  note cong = serving_ok_cong [OF r]
  show s1: "serving_ok s1 sink" "fr_inputs (fs_runtime s1) = fr_inputs (fs_runtime s)"
    "map fst (fr_next_inputs (fs_runtime s1)) = port_ids (fs_topology s)"
    "map fst (fr_outputs (fs_runtime s1)) = vertex_ids (fs_topology s)"
    "graph_of (fs_topology s1) = graph_of (fs_topology s)"
    by (rule p)+
  have outs: "map fst (fr_outputs (fs_runtime s2)) = vertex_ids (fs_topology s2)"
    using p(5,6) r graph_of_facts(5) by metis
  have start: "pass_inv s2 [] s2"
    unfolding cong using p(2) r by (simp add: pass_inv_def)
  have "pass_inv s2 cs s'"
    by (rule pass_loop_inv [OF loop _ start outs, of sink]) (simp add: cong p(1))
  then show "pass_inv s1 cs s'" by (simp add: cong)
  show "map fst (fst (emit_forward_node s')) = sort (fr_ready (fs_runtime s'))"
    by (rule endpoints_ready [OF \<open>pass_inv s2 cs s'\<close> outs])
qed

lemma serving_invariant: "serving s sink \<Longrightarrow> serving_ok s sink"
proof (induction rule: serving.induct)
  case (serving_pass s sink fresh input d s1 sent d' s2 cs ms s3 d'' out s4)
  have run: "pass_run s s1 cs ms s3" unfolding pass_run_def using serving_pass.hyps by blast
  note inv = pass_run_inv [OF serving_pass.IH run]
  have g: "graph_of (fs_topology s3) = graph_of (fs_topology s)" using inv(1,6) by (simp add: pass_inv_def)
  have s4: "fs_topology s4 = fs_topology s3" "fr_inputs (fs_runtime s4) = fr_next_inputs (fs_runtime s3)"
    "fr_sink_id (fs_runtime s4) = fr_sink_id (fs_runtime s3)"
    using serving_pass.hyps(6) by (auto simp: complete_forward_pass_def)
  have rot: "map fst (fr_next_inputs (fs_runtime s3)) = port_ids (fs_topology s)"
    "fr_sink_id (fs_runtime s3) = Some sink"
    using inv(1,2,4) by (simp_all add: pass_inv_def serving_ok_def Let_def)
  have "amap_wf (sg_port_vertices (fs_topology s))"
    using serving_pass.IH by (simp add: serving_ok_def Let_def topology_wf_def)
  then have "amap_wf (fr_next_inputs (fs_runtime s3))"
    "fst ` set (fr_next_inputs (fs_runtime s3)) = fst ` set (sg_port_vertices (fs_topology s))"
    using rot(1) keys_of_map_fst [OF rot(1)] by (simp_all add: amap_wf_def port_ids_def)
  then show ?case
    using serving_pass.IH rot(2) graph_of_facts [OF g] by (simp add: serving_ok_def Let_def s4)
qed (rule finalized_serving)

end
