(* ===== verification/Flux_Serving.thy ===== *)
theory Flux_Serving
  imports Flux_Pass "HOL-Library.Multiset"
begin

text \<open>
  The properties of a serving program: a pass never gets stuck or fails on its own account, ends
  after as many completions as there are vertices with that of the sink, respects the edges of
  the graph, and feeds every input port exactly once, through the mailbox that was announced.
\<close>

section \<open>The messages of a pass\<close>

text \<open>The message to a port of a prepared state.\<close>

definition port_message :: "'s forward_sun_state \<Rightarrow> u32 \<Rightarrow> propagation_target" where
  "port_message s port =
     (let r = fs_runtime s; v = pt_vertex_id (target_of (fs_topology s) port) in
      \<lparr>pg_node_id = v, pg_port_id = port, pg_input_id = lookup_or 0 (fr_inputs r) port,
       pg_next_input_id = lookup_or 0 (fr_next_inputs r) port, pg_output_id = lookup_or 0 (fr_outputs r) v\<rparr>)"

text \<open>A prepared state has all the mailboxes of its ports and vertices.\<close>

definition prepared_ok :: "'s forward_sun_state \<Rightarrow> bool" where
  "prepared_ok s \<longleftrightarrow> map fst (fr_next_inputs (fs_runtime s)) = port_ids (fs_topology s)
     \<and> map fst (fr_outputs (fs_runtime s)) = vertex_ids (fs_topology s)"

lemma lookup_known: "k \<in> fst ` set m \<Longrightarrow> map_of m k = Some (lookup_or d m k)"
  by (cases "map_of m k") (simp_all add: lookup_or_def amap_dom)

lemma lookup_or_mem: "x \<in> set (lookup_or [] m k) \<Longrightarrow> k \<in> fst ` set m \<and> map_of m k = Some (lookup_or [] m k)"
  by (cases "map_of m k") (auto simp: lookup_or_def dest: map_of_SomeD intro: rev_image_eqI)

lemma lookup_or_map_pair: "i \<in> set is \<Longrightarrow> lookup_or [] (map (\<lambda>i. (i, f i)) is) i = f i"
  by (induction "is") (auto simp: lookup_or_def)

lemma port_mailboxes:
  assumes "serving_ok s sink" and "prepared_ok s" and "map_of (sg_port_vertices (fs_topology s)) p = Some v"
  shows "map_of (fr_inputs (fs_runtime s)) p = Some (lookup_or 0 (fr_inputs (fs_runtime s)) p)"
    and "map_of (fr_next_inputs (fs_runtime s)) p = Some (lookup_or 0 (fr_next_inputs (fs_runtime s)) p)"
    and "map_of (fr_outputs (fs_runtime s)) v = Some (lookup_or 0 (fr_outputs (fs_runtime s)) v)"
    and "pt_vertex_id (target_of (fs_topology s) p) = v"
proof -
  let ?t = "fs_topology s" and ?r = "fs_runtime s"
  have p: "p \<in> fst ` set (sg_port_vertices ?t)" using assms(3) by (force dest: map_of_SomeD)
  have v: "v \<in> snd ` set (sg_port_vertices ?t)" using assms(3) by (force dest: map_of_SomeD)
  have keys: "fst ` set (fr_next_inputs ?r) = fst ` set (sg_port_vertices ?t)" "fst ` set (fr_outputs ?r) = flow_vertices ?t"
    using assms(2) keys_of_map_fst [of "fr_next_inputs ?r"] keys_of_map_fst [of "fr_outputs ?r"]
    by (simp_all add: prepared_ok_def port_ids_def)
  have ok: "fst ` set (fr_inputs ?r) = fst ` set (sg_port_vertices ?t)" "topology_wf ?t"
    using assms(1) by (simp_all add: serving_ok_def Let_def)
  show "map_of (fr_inputs ?r) p = Some (lookup_or 0 (fr_inputs ?r) p)"
    "map_of (fr_next_inputs ?r) p = Some (lookup_or 0 (fr_next_inputs ?r) p)"
    by (rule lookup_known; simp add: ok keys p)+
  have "v \<in> fst ` set (sg_journey_ids ?t)" using v ok(2) unfolding topology_wf_def by blast
  then show "map_of (fr_outputs ?r) v = Some (lookup_or 0 (fr_outputs ?r) v)"
    by (intro lookup_known) (simp add: keys vertex_ids_def)
  show "pt_vertex_id (target_of ?t p) = v" using assms(3) by (simp add: target_of_def lookup_or_def)
qed

lemma output_port_known:
  assumes "serving_ok s sink" and "p \<in> set (outputs_of (fs_topology s) u)"
  obtains v where "map_of (sg_port_vertices (fs_topology s)) p = Some v"
proof -
  let ?t = "fs_topology s"
  have t: "topology_wf ?t" "flow_graph ?t sink" using assms(1) by (simp_all add: serving_ok_def Let_def)
  have "u \<in> fst ` set (sg_declared_outputs ?t)"
    using lookup_or_mem [of p "sg_declared_outputs (fs_topology s)" u] assms(2) unfolding outputs_of_def by blast
  then have "u \<in> flow_vertices ?t" using t(1) by (simp add: topology_wf_def vertex_ids_def)
  with t(2) assms(2) have "valid_edge ?t u p" by (auto simp: flow_graph_def)
  then show ?thesis using that by (auto simp: valid_edge_def)
qed

lemma downstream_messages:
  assumes "serving_ok s sink" and "prepared_ok s" and inv: "pass_inv s cs s'" and "i \<in> set (fr_ready (fs_runtime s'))"
  shows "lookup_or [] (snd (emit_forward_node s')) i = map (port_message s) (outputs_of (fs_topology s) i)"
proof -
  let ?t = "fs_topology s"
  have g: "graph_of (fs_topology s') = graph_of ?t" using inv by (simp add: pass_inv_def)
  have same: "fr_inputs (fs_runtime s') = fr_inputs (fs_runtime s)"
    "fr_next_inputs (fs_runtime s') = fr_next_inputs (fs_runtime s)" "fr_outputs (fs_runtime s') = fr_outputs (fs_runtime s)"
    using inv by (simp_all add: pass_inv_def)
  have target: "downstream_target (fs_runtime s') (target_of ?t p) = Some (port_message s p)"
    if p: "p \<in> set (outputs_of ?t i)" for p
  proof -
    obtain v where v: "map_of (sg_port_vertices ?t) p = Some v" using output_port_known [OF assms(1) p] .
    note m = port_mailboxes [OF assms(1,2) v]
    have "pt_port_id (target_of ?t p) = p" by (simp add: target_of_def)
    then show ?thesis by (simp add: downstream_target_def same m port_message_def Let_def)
  qed
  have "snd (emit_forward_node s') = map (\<lambda>i. (i, List.map_filter (downstream_target (fs_runtime s'))
      (lookup_or [] (sg_outgoing (fs_topology s')) i))) (sort (fr_ready (fs_runtime s')))"
    by (simp add: emit_forward_node_def Let_def sorted_node_ids_def)
  then have "lookup_or [] (snd (emit_forward_node s')) i
      = List.map_filter (downstream_target (fs_runtime s')) (lookup_or [] (sg_outgoing (fs_topology s')) i)"
    using assms(4) by (simp only: lookup_or_map_pair set_sort)
  also have "\<dots> = List.map_filter (\<lambda>p. downstream_target (fs_runtime s') (target_of ?t p)) (outputs_of ?t i)"
    unfolding graph_of_facts(1) [OF g] serving_graph(4) [OF assms(1)]
    by (induction "outputs_of ?t i") (simp_all add: List.map_filter_def comp_def filter_map)
  also have "\<dots> = map (port_message s) (outputs_of ?t i)" by (rule map_filter_all) (rule target)
  finally show ?thesis .
qed

lemma pass_loop_messages:
  assumes "pass_loop s cs ms s'" and "serving_ok s sink" and "pass_inv s [] s" and "prepared_ok s"
  shows "ms = concat (map (\<lambda>c. map (port_message s) (outputs_of (fs_topology s) (sd_node_id c))) cs)"
  using assms
proof (induction rule: pass_loop.induct)
  case (pass_next s cs ms s1 c d s2)
  have outs: "map fst (fr_outputs (fs_runtime s)) = vertex_ids (fs_topology s)"
    using pass_next.prems(3) by (simp add: prepared_ok_def)
  have inv: "pass_inv s cs s1" by (rule pass_loop_inv [OF pass_next.hyps(1) pass_next.prems(1,2) outs])
  have "sd_node_id c \<in> set (fr_ready (fs_runtime s1))"
    using keys_of_map_fst [OF endpoints_ready [OF inv outs]] pass_next.hyps(3) by simp
  from downstream_messages [OF pass_next.prems(1,3) inv this] pass_next.IH [OF pass_next.prems]
  show ?case by simp
qed simp

lemma root_iff_unfed:
  assumes "serving_ok s sink" and "map_of (sg_port_vertices (fs_topology s)) p = Some v"
  shows "lookup_or [] (sg_incoming (fs_topology s)) v = [] \<longleftrightarrow> producers (fs_topology s) p = 0"
    and "producers (fs_topology s) p \<le> 1" and "p \<in> set (lookup_or [] (sg_vertex_ports (fs_topology s)) v)"
proof -
  let ?t = "fs_topology s"
  have t: "topology_wf ?t" "flow_graph ?t sink" "resolved_edges ?t (sg_incoming ?t) (sg_outgoing ?t)" "ports_ok ?t"
    using assms(1) by (simp_all add: serving_ok_def Let_def)
  have dup: "sg_duplicate_ports ?t = []" using t(2) by (simp add: flow_graph_def)
  show p: "p \<in> set (lookup_or [] (sg_vertex_ports ?t) v)" using t(4) dup assms(2) by (simp add: ports_ok_def)
  show "producers ?t p \<le> 1" using t(2) by (simp add: flow_graph_def)
  obtain ports where ports: "map_of (sg_vertex_ports ?t) v = Some ports" "p \<in> set ports"
    using p lookup_or_mem [OF p] by blast
  have "(v, ports) \<in> set (sg_vertex_ports ?t)" by (rule map_of_SomeD [OF ports(1)])
  with t(2) have all: "(\<forall>p\<in>set ports. producers ?t p = 0) \<or> (\<forall>p\<in>set ports. producers ?t p = 1)"
    unfolding flow_graph_def by fastforce
  have outs: "amap_wf (sg_declared_outputs ?t)" "fst ` set (sg_declared_outputs ?t) = flow_vertices ?t"
    using t(1) by (simp_all add: topology_wf_def vertex_ids_def)
  have fed: "producers ?t q = 0 \<longleftrightarrow> (\<forall>u\<in>flow_vertices ?t. q \<notin> set (outputs_of ?t u))" for q
  proof -
    have "producers ?t q = 0 \<longleftrightarrow> (\<forall>out\<in>set (sg_declared_outputs ?t). q \<notin> set (snd out))"
      by (simp add: producers_def count_list_0)
    also have "\<dots> \<longleftrightarrow> (\<forall>u\<in>flow_vertices ?t. q \<notin> set (outputs_of ?t u))"
      unfolding outs(2) [symmetric] by (simp add: outputs_of_entry [OF outs(1)])
    finally show ?thesis .
  qed
  have "lookup_or [] (sg_incoming ?t) v = [] \<longleftrightarrow> edges_into (flow_succ ?t) (flow_vertices ?t) v = 0"
    using resolved_edges_degree [OF t(3), of v] by auto
  also have "\<dots> \<longleftrightarrow> (\<forall>u\<in>flow_vertices ?t. \<forall>q\<in>set (outputs_of ?t u). pt_vertex_id (target_of ?t q) \<noteq> v)"
    by (auto simp: edges_into_0)
  also have "\<dots> \<longleftrightarrow> (\<forall>q\<in>set ports. producers ?t q = 0)"
  proof -
    have "pt_vertex_id (target_of ?t q) = v \<longleftrightarrow> q \<in> set ports" if q: "q \<in> set (outputs_of ?t u)" for u q
    proof -
      obtain w where w: "map_of (sg_port_vertices ?t) q = Some w" using output_port_known [OF assms(1) q] .
      then have "pt_vertex_id (target_of ?t q) = w" by (simp add: target_of_def lookup_or_def)
      moreover have "map_of (sg_port_vertices ?t) q = Some v \<longleftrightarrow> q \<in> set ports"
        using t(4) dup ports(1) by (simp add: ports_ok_def lookup_or_def)
      ultimately show ?thesis using w by auto
    qed
    then show ?thesis unfolding fed by blast
  qed
  also have "\<dots> \<longleftrightarrow> producers ?t p = 0" using all ports(2) by force
  finally show "lookup_or [] (sg_incoming ?t) v = [] \<longleftrightarrow> producers ?t p = 0" .
qed

section \<open>Every port is fed once\<close>

lemma concat_single:
  "distinct xs \<Longrightarrow> concat (map (\<lambda>y. if y = x then zs else []) xs) = (if x \<in> set xs then zs else [])"
  by (induction xs) auto

lemma distinct_count: "distinct xs \<Longrightarrow> count_list xs x = (if x \<in> set xs then 1 else 0)"
  by (induction xs) auto

lemma filter_port_messages:
  "filter (\<lambda>m. pg_port_id m = p) (map (port_message s) ps) = replicate (count_list ps p) (port_message s p)"
  by (induction ps) (auto simp: port_message_def Let_def)

lemma concat_replicate: "concat (map (\<lambda>x. replicate (f x) y) xs) = replicate (sum_list (map f xs)) y"
  by (induction xs) (auto simp: replicate_add)

lemma root_messages:
  assumes "serving_ok s sink" and "prepared_ok s" and v: "map_of (sg_port_vertices (fs_topology s)) p = Some v"
  shows "filter (\<lambda>m. pg_port_id m = p) (emit_forward_roots s)
    = (if producers (fs_topology s) p = 0 then [port_message s p] else [])"
proof -
  let ?t = "fs_topology s" and ?r = "fs_runtime s"
  let ?roots = "filter (\<lambda>vertex. lookup_or [] (sg_incoming ?t) (fst vertex) = []) (sg_vertex_ports ?t)"
  have t: "topology_wf ?t" "flow_graph ?t sink" "ports_ok ?t" using assms(1) by (simp_all add: serving_ok_def Let_def)
  have wf: "amap_wf (sg_vertex_ports ?t)" using t(1) by (simp add: topology_wf_def)
  have owns: "map_of (sg_port_vertices ?t) q = Some w \<longleftrightarrow> q \<in> set (lookup_or [] (sg_vertex_ports ?t) w)"
    and dist: "distinct (lookup_or [] (sg_vertex_ports ?t) w)" for q w
    using t(2,3) by (simp_all add: ports_ok_def flow_graph_def)
  have entry: "lookup_or [] (sg_vertex_ports ?t) (fst w) = snd w" if "w \<in> set (sg_vertex_ports ?t)" for w
    using that amap_mem_iff [OF wf, of "fst w" "snd w"] by (simp add: lookup_or_def)
  have sends: "filter (\<lambda>m. pg_port_id m = p) (port_sends ?r w) = (if fst w = v then [port_message s p] else [])"
    if w: "w \<in> set (sg_vertex_ports ?t)" for w
  proof -
    have port: "map_of (sg_port_vertices ?t) q = Some (fst w)" if "q \<in> set (snd w)" for q
      using that owns [of q "fst w"] entry [OF w] by simp
    have "port_sends ?r w = map (port_message s) (snd w)"
      unfolding port_sends_def
    proof (rule map_filter_all)
      fix q assume "q \<in> set (snd w)"
      note m = port_mailboxes [OF assms(1,2) port [OF this]]
      show "(case (map_of (fr_inputs ?r) q, map_of (fr_next_inputs ?r) q, map_of (fr_outputs ?r) (fst w)) of
         (Some input, Some next, Some output) \<Rightarrow>
           Some \<lparr>pg_node_id = fst w, pg_port_id = q, pg_input_id = input, pg_next_input_id = next,
                 pg_output_id = output\<rparr>
       | _ \<Rightarrow> None) = Some (port_message s q)"
        by (simp add: m port_message_def Let_def)
    qed
    then have "filter (\<lambda>m. pg_port_id m = p) (port_sends ?r w) = replicate (count_list (snd w) p) (port_message s p)"
      by (simp add: filter_port_messages)
    moreover have "count_list (snd w) p = (if fst w = v then 1 else 0)"
    proof -
      have "p \<in> set (snd w) \<longleftrightarrow> fst w = v" using owns [of p "fst w"] entry [OF w] v by auto
      moreover have "distinct (snd w)" using dist [of "fst w"] entry [OF w] by simp
      ultimately show ?thesis by (simp add: distinct_count)
    qed
    ultimately show ?thesis by simp
  qed
  have "v \<in> fst ` set (sg_vertex_ports ?t)"
    using lookup_or_mem [OF root_iff_unfed(3) [OF assms(1) v]] by (rule conjunct1)
  then have root: "v \<in> fst ` set ?roots \<longleftrightarrow> producers ?t p = 0"
    using root_iff_unfed(1) [OF assms(1) v] by auto
  have "filter (\<lambda>m. pg_port_id m = p) (concat (map (port_sends ?r) ?roots))
      = concat (map (\<lambda>w. if fst w = v then [port_message s p] else []) ?roots)"
    unfolding filter_concat map_map comp_def by (intro arg_cong [where f = concat] map_cong) (auto simp: sends)
  also have "\<dots> = concat (map (\<lambda>y. if y = v then [port_message s p] else []) (map fst ?roots))"
    by (simp add: comp_def)
  also have "\<dots> = (if producers ?t p = 0 then [port_message s p] else [])"
    using wf root by (subst concat_single) (auto simp: amap_wf_def distinct_map_filter)
  finally have "filter (\<lambda>m. pg_port_id m = p) (concat (map (port_sends ?r) ?roots))
      = (if producers ?t p = 0 then [port_message s p] else [])" .
  then show ?thesis by (simp add: emit_forward_roots_def Let_def filter_sort)
qed

lemma completed_messages:
  assumes "topology_wf t" and "distinct is" and "set is = flow_vertices t"
  shows "sum_list (map (\<lambda>i. count_list (outputs_of t i) p) is) = producers t p"
proof -
  have wf: "amap_wf (sg_declared_outputs t)" "set (map fst (sg_declared_outputs t)) = flow_vertices t"
    using assms(1) by (simp_all add: topology_wf_def vertex_ids_def)
  have "mset is = mset (map fst (sg_declared_outputs t))"
    using assms(2,3) wf by (subst set_eq_iff_mset_eq_distinct [symmetric]) (simp_all add: amap_wf_def)
  then have "mset (map (\<lambda>i. count_list (outputs_of t i) p) is)
      = mset (map (\<lambda>i. count_list (outputs_of t i) p) (map fst (sg_declared_outputs t)))"
    unfolding mset_map by (rule arg_cong)
  then have "sum_list (map (\<lambda>i. count_list (outputs_of t i) p) is)
      = sum_list (map (\<lambda>i. count_list (outputs_of t i) p) (map fst (sg_declared_outputs t)))"
    by (metis sum_mset_sum_list)
  also have "\<dots> = producers t p"
    unfolding producers_def map_map comp_def
    by (intro arg_cong [where f = sum_list] map_cong) (simp_all add: outputs_of_entry [OF wf(1)])
  finally show ?thesis .
qed

lemma pass_run_prepared:
  assumes "serving_ok s sink" and "pass_run s s1 cs ms s'"
  shows "prepared_ok s1"
    and "ms = concat (map (\<lambda>c. map (port_message s1) (outputs_of (fs_topology s1) (sd_node_id c))) cs)"
proof -
  obtain fresh input d sent d' s2 where prep: "prepare_forward_pass fresh (Inr ()) input s = (Inr d, s1)"
    and roots: "absorb_forward_roots (Inr sent) d s1 = (Inr d', s2)" and loop: "pass_loop s2 cs ms s'"
    using assms(2) by (auto simp: pass_run_def)
  note p = prepare_pass [OF assms(1) prep]
  note r = roots_absorbed [OF roots]
  note g = graph_of_facts [OF r(1)]
  show prepared: "prepared_ok s1" using p(4-6) graph_of_facts(5,6) [OF p(6)] by (simp add: prepared_ok_def)
  then have "prepared_ok s2" using r(2) g by (simp add: prepared_ok_def)
  moreover have "pass_inv s2 [] s2" unfolding serving_ok_cong [OF r] using p(2) r by (simp add: pass_inv_def)
  moreover have "port_message s2 = port_message s1"
    using r(2) g by (simp add: port_message_def fun_eq_iff)
  ultimately show "ms = concat (map (\<lambda>c. map (port_message s1) (outputs_of (fs_topology s1) (sd_node_id c))) cs)"
    using pass_loop_messages [OF loop, of sink] p(1) g by (simp add: serving_ok_cong [OF r])
qed

section \<open>Properties\<close>

lemma completed_all:
  assumes "serving_ok s sink" and run: "pass_run s s1 cs ms s'" and "\<not> pending_forward_work s'"
  shows "set (map sd_node_id cs) = flow_vertices (fs_topology s)" and "distinct (map sd_node_id cs)"
proof -
  note inv = pass_run_inv [OF assms(1) run]
  note g = graph_of_facts [OF inv(6)]
  have front: "frontier_inv (flow_vertices (fs_topology s)) (flow_succ (fs_topology s))
      (fr_pending (fs_runtime s'), fr_ready (fs_runtime s')) (map sd_node_id cs)"
    using inv(1) by (simp add: pass_inv_def g)
  from frontier_pending_empty [OF front] assms(3)
  show "set (map sd_node_id cs) = flow_vertices (fs_topology s)" by (simp add: pending_forward_work_def)
  show "distinct (map sd_node_id cs)" using front by (simp add: frontier_inv_def edge_order_def)
qed

text \<open>
  C32: A serving program feeds every input port exactly once in a pass: over the messages to the
  roots and those forwarded on the completions there is one to each port, sent to the mailbox
  where its vertex is waiting, with the mailbox of the next pass, which is where that pass will
  send, and with the output mailbox that the wait of this pass listens on.
\<close>

theorem each_port_fed_once:
  assumes "serving s sink" and "pass_run s s1 cs ms s2" and "\<not> pending_forward_work s2"
    and "complete_forward_pass (Inr ()) d s2 = (Inr d', s3)"
    and "map_of (sg_port_vertices (fs_topology s)) p = Some v"
  shows "\<exists>inbox next out. map_of (fr_inputs (fs_runtime s)) p = Some inbox
    \<and> map_of (fr_inputs (fs_runtime s3)) p = Some next \<and> map_of (fr_outputs (fs_runtime s1)) v = Some out
    \<and> filter (\<lambda>m. pg_port_id m = p) (emit_forward_roots s1 @ ms)
      = [\<lparr>pg_node_id = v, pg_port_id = p, pg_input_id = inbox, pg_next_input_id = next, pg_output_id = out\<rparr>]"
proof -
  have ok: "serving_ok s sink" by (rule serving_invariant [OF assms(1)])
  note inv = pass_run_inv [OF ok assms(2)]
  note prep = pass_run_prepared [OF ok assms(2)]
  note g = graph_of_facts [OF inv(6)]
  have v: "map_of (sg_port_vertices (fs_topology s1)) p = Some v" using assms(5) by (simp add: g)
  note m = port_mailboxes [OF inv(2) prep(1) v]
  have wf: "topology_wf (fs_topology s1)" using inv(2) by (simp add: serving_ok_def Let_def)
  have "filter (\<lambda>m. pg_port_id m = p) ms
      = concat (map (\<lambda>i. replicate (count_list (outputs_of (fs_topology s1) i) p) (port_message s1 p)) (map sd_node_id cs))"
    unfolding prep(2) filter_concat by (simp add: comp_def filter_port_messages)
  also have "\<dots> = replicate (producers (fs_topology s1) p) (port_message s1 p)"
    unfolding concat_replicate
    by (subst completed_messages [OF wf]) (use completed_all [OF ok assms(2,3)] in \<open>simp_all add: g\<close>)
  finally have "filter (\<lambda>m. pg_port_id m = p) (emit_forward_roots s1 @ ms) = [port_message s1 p]"
    using root_messages [OF inv(2) prep(1) v] root_iff_unfed(2) [OF inv(2) v]
    by (cases "producers (fs_topology s1) p") auto
  moreover have "fr_inputs (fs_runtime s3) = fr_next_inputs (fs_runtime s1)"
    using assms(4) inv(1) by (auto simp: complete_forward_pass_def pass_inv_def)
  ultimately show ?thesis using m inv(3) by (simp add: port_message_def Let_def)
qed

text \<open>
  C31: A forward pass of a serving program cannot get stuck and ends with the sink. At any point
  of its loop the completions respect the edges of the graph and there are at most as many as
  vertices; while work is pending there is an endpoint to wait for, and absorbing a completion
  of any endpoint succeeds; and when the loop ends, every vertex has completed exactly once, the
  sink as the last one, so that the result of the pass is the output of the sink.
\<close>

theorem forward_pass_completes:
  assumes "serving s sink" and "pass_run s s1 cs ms s2"
  shows "edge_order (graph_edges (flow_succ (fs_topology s)) (flow_vertices (fs_topology s))) (map sd_node_id cs)
    \<and> length cs \<le> length (vertex_ids (fs_topology s))
    \<and> (pending_forward_work s2 \<longrightarrow> fst (emit_forward_node s2) \<noteq> []
        \<and> (\<forall>c. sd_node_id c \<in> fst ` set (fst (emit_forward_node s2)) \<longrightarrow>
              (\<exists>s3. absorb_forward_node (Inr c) s2 = (Inr (sd_delivery c), s3))))
    \<and> (\<not> pending_forward_work s2 \<longrightarrow> set (map sd_node_id cs) = flow_vertices (fs_topology s)
        \<and> sd_node_id (last cs) = sink)"
proof -
  let ?t = "fs_topology s"
  let ?E = "graph_edges (flow_succ ?t) (flow_vertices ?t)"
  let ?is = "map sd_node_id cs"
  have ok: "serving_ok s sink" by (rule serving_invariant [OF assms(1)])
  note inv = pass_run_inv [OF ok assms(2)]
  note g = graph_of_facts [OF inv(6)]
  have front: "frontier_inv (flow_vertices ?t) (flow_succ ?t)
      (fr_pending (fs_runtime s2), fr_ready (fs_runtime s2)) ?is"
    using inv(1) by (simp add: pass_inv_def g)
  then have order: "edge_order ?E ?is" "set ?is \<subseteq> flow_vertices ?t" by (simp_all add: frontier_inv_def)
  have "length cs = card (set ?is)" using order(1) by (metis distinct_card edge_order_def length_map)
  also have "\<dots> \<le> length (vertex_ids ?t)"
    using card_mono [OF finite_set order(2)] card_length [of "vertex_ids ?t"] by linarith
  finally have len: "length cs \<le> length (vertex_ids ?t)" .
  have endpoints: "fst ` set (fst (emit_forward_node s2)) = set (fr_ready (fs_runtime s2))"
    using keys_of_map_fst [OF inv(7)] by simp
  have live: "fst (emit_forward_node s2) \<noteq> []" if "pending_forward_work s2"
    using frontier_ready_nonempty [OF finite_set serving_graph(1) [OF ok] front] that endpoints
    by (auto simp: pending_forward_work_def)
  have absorbs: "\<exists>s3. absorb_forward_node (Inr c) s2 = (Inr (sd_delivery c), s3)"
    if "sd_node_id c \<in> fst ` set (fst (emit_forward_node s2))" for c
    using absorb_ready [OF inv(2,1), of c] that endpoints by auto
  have sink: "sd_node_id (last cs) = sink" if finished: "\<not> pending_forward_work s2"
  proof -
    have all: "set ?is = flow_vertices ?t" by (rule completed_all(1) [OF ok assms(2) finished])
    have graph: "{v \<in> flow_vertices ?t. outputs_of ?t v = []} = {sink}"
      using ok by (simp add: serving_ok_def Let_def flow_graph_def)
    then have "cs \<noteq> []" using all by auto
    then obtain js where js: "?is = js @ [sd_node_id (last cs)]"
      by (metis append_butlast_last_id last_map list.map_disc_iff)
    have last: "sd_node_id (last cs) \<in> flow_vertices ?t" using all js by (metis in_set_conv_decomp)
    have "outputs_of ?t (sd_node_id (last cs)) = []"
    proof (rule ccontr)
      assume "outputs_of ?t (sd_node_id (last cs)) \<noteq> []"
      then obtain w where w: "w \<in> set (flow_succ ?t (sd_node_id (last cs)))" by (cases "outputs_of ?t (sd_node_id (last cs))") auto
      then have "w \<in> set ?is" using serving_graph(2) [OF ok] all by blast
      then obtain ys zs where split: "?is = ys @ w # zs" by (meson split_list)
      then have "sd_node_id (last cs) \<in> set ys" using order(1) w last by (auto simp: edge_order_def)
      with split js have "sd_node_id (last cs) \<in> set (butlast ?is)"
        by (metis butlast_append in_set_butlast_appendI list.distinct(1) Un_iff set_append)
      then show False using order(1) js by (simp add: edge_order_def)
    qed
    with last graph show ?thesis by auto
  qed
  show ?thesis using order(1) len live absorbs sink completed_all(1) [OF ok assms(2)] by blast
qed

text \<open>
  C30: The resolution of a deployed topology accepts exactly the flow graphs, and answers with
  their sink: every declared edge ends at a registered port and agrees with the contracts of
  both ends, no port has two producers, the ports of a vertex are all fed or all free, the graph
  has no cycle, and the sink is its only vertex without outputs. It never panics.
\<close>

theorem resolve_accepts_flow_graphs:
  assumes "deployed s"
  shows "(fst (resolve_neutral_topology (fs_topology s)) = Inr sink \<longleftrightarrow> flow_graph (fs_topology s) sink)
    \<and> fst (resolve_neutral_topology (fs_topology s)) \<noteq> Inl (Panicked m)"
proof -
  have wf: "topology_wf (fs_topology s)" using deployed_ok [OF assms] by (simp add: deploy_ok_def)
  show ?thesis
    using resolve_result(1) [OF wf] resolution_panic_free [OF wf] by (simp add: panic_free_def)
qed

end
