(* ===== verification/Flux_Window.thy ===== *)
theory Flux_Window
  imports Flux_Pipeline Flux_Serving
begin

text \<open>
  A window of the serving pipeline: the loop over completions with several inputs in flight. The
  number of inputs that a vertex has completed never exceeds that of a predecessor, and as long
  as some vertex has not completed every input there is one that can go on.
\<close>

section \<open>The driver\<close>

text \<open>The identifiers that the effect over ready roots reports are those of the targets it sent to.\<close>

definition sent_nodes :: "(propagation_target \<times> artifact_delivery) list \<Rightarrow> u32 list" where
  "sent_nodes sends = fold (\<lambda>(target, _). insort_insert (pg_node_id target)) sends []"

lemma send_deliveries_sent:
  "send_deliveries V sends sent v = (Inr r, v') \<Longrightarrow> r = fold (\<lambda>(target, _). insort_insert (pg_node_id target)) sends sent"
  by (induction V sends sent v rule: send_deliveries.induct) (auto split: prod.splits sum.splits)

lemma send_ready_roots_sent: "send_ready_root_artifact_deliveries V sends v = (Inr r, v') \<Longrightarrow> r = sent_nodes sends"
  unfolding send_ready_root_artifact_deliveries_def sent_nodes_def by (rule send_deliveries_sent)

lemma sent_nodes_facts: "set (sent_nodes sends) = (pg_node_id \<circ> fst) ` set sends" "distinct (sent_nodes sends)"
proof -
  have "set (fold (\<lambda>(target, _). insort_insert (pg_node_id target)) sends xs) = (pg_node_id \<circ> fst) ` set sends \<union> set xs
      \<and> distinct (fold (\<lambda>(target, _). insort_insert (pg_node_id target)) sends xs)" if "distinct xs" for xs
    using that by (induction sends arbitrary: xs) (auto simp: set_insort_insert distinct_insort_insert image_iff, force)
  from this [of "[]"] show "set (sent_nodes sends) = (pg_node_id \<circ> fst) ` set sends" "distinct (sent_nodes sends)"
    by (simp_all add: sent_nodes_def)
qed

text \<open>
  The loop \<open>While<PendingForwardPipelineWork, ForwardPipelineProgress>\<close>: the ready roots are
  sent, then one of the endpoints of the emitted wait completes and is absorbed.
\<close>

inductive pipe_loop :: "'s forward_sun_state \<Rightarrow> scheduler_delivery list \<Rightarrow> 's forward_sun_state \<Rightarrow> bool" where
  pipe_start: "pipe_loop s [] s"
| pipe_tick: "pipe_loop s cs s1 \<Longrightarrow> pending_forward_pipeline_work s1 \<Longrightarrow> emit_ready_roots s1 = Inr sends \<Longrightarrow>
    absorb_ready_roots (Inr (sent_nodes sends)) s1 = (Inr (), s2) \<Longrightarrow> emit_pipeline_node s2 = Inr (endpoints, downstream) \<Longrightarrow>
    sd_node_id c \<in> fst ` set endpoints \<Longrightarrow> absorb_pipeline_node (Inr c) s2 = (Inr (), s3) \<Longrightarrow> pipe_loop s (cs @ [c]) s3"

text \<open>The collection of the inputs of a window.\<close>

definition collect_window :: "nat \<Rightarrow> artifact_delivery list \<Rightarrow> 's forward_sun_state \<Rightarrow> 's forward_sun_state" where
  "collect_window max_in_flight inputs s =
     fold (\<lambda>d s. snd (store_forward_pipeline_input (Inr ()) d s)) inputs (snd (begin_forward_pipeline max_in_flight (Inr ()) s))"

section \<open>A prepared window\<close>

definition window_size :: "'s forward_sun_state \<Rightarrow> nat" where
  "window_size s = length (fr_pipeline_inputs (fs_runtime s))"

definition window_ok :: "'s forward_sun_state \<Rightarrow> u32 \<Rightarrow> bool" where
  "window_ok s sink \<longleftrightarrow>
     (let t = fs_topology s; r = fs_runtime s; n = window_size s in
      topology_wf t \<and> ports_ok t \<and> flow_graph t sink \<and> resolved_edges t (sg_incoming t) (sg_outgoing t)
      \<and> fr_sink_id r = Some sink \<and> 0 < n \<and> fr_pipeline_target_completions r = length (vertex_ids t) * n
      \<and> length (fr_pipeline_input_ids r) = n \<and> length (fr_pipeline_output_ids r) = n
      \<and> (\<forall>k < n. \<forall>p \<in> fst ` set (sg_port_vertices t). map_of (fr_pipeline_input_ids r ! k) p \<noteq> None)
      \<and> (\<forall>k < n. \<forall>v \<in> flow_vertices t. map_of (fr_pipeline_output_ids r ! k) v \<noteq> None)
      \<and> (\<forall>p \<in> fst ` set (sg_port_vertices t). map_of (fr_next_inputs r) p \<noteq> None))"

lemma update_known: "map_of (AList.update k v m) j \<noteq> None \<longleftrightarrow> j = k \<or> map_of m j \<noteq> None"
  by (simp add: amap_simps)

lemma nth_update_enumerated:
  "i < length ms \<Longrightarrow> map (\<lambda>(i, m). AList.update k (f i) m) (List.enumerate 0 ms) ! i = AList.update k (f i) (ms ! i)"
  by (simp add: nth_enumerate_eq)

lemma prepare_ports_step:
  assumes "prepare_port_mailboxes fresh n k ports r = (Inr (), r')"
  shows "length (fr_pipeline_input_ids r') = length (fr_pipeline_input_ids r)
    \<and> (\<forall>i < length (fr_pipeline_input_ids r). \<forall>p.
        map_of (fr_pipeline_input_ids r' ! i) p \<noteq> None \<longleftrightarrow> p \<in> set ports \<or> map_of (fr_pipeline_input_ids r ! i) p \<noteq> None)
    \<and> (\<forall>p. map_of (fr_next_inputs r') p \<noteq> None \<longleftrightarrow> p \<in> set ports \<or> map_of (fr_next_inputs r) p \<noteq> None)
    \<and> r' = r\<lparr>fr_pipeline_input_ids := fr_pipeline_input_ids r', fr_next_inputs := fr_next_inputs r'\<rparr>"
  using assms
proof (induction ports arbitrary: k r)
  case (Cons port ports)
  obtain initial where initial: "map_of (fr_inputs r) port = Some initial"
    using Cons.prems by (cases "map_of (fr_inputs r) port") auto
  let ?r = "r\<lparr>fr_pipeline_input_ids := map (\<lambda>(i, m). AList.update port (if i = 0 then initial else fresh (k * n + i - 1)) m)
      (List.enumerate 0 (fr_pipeline_input_ids r)),
    fr_next_inputs := AList.update port (fresh (k * n + n - 1)) (fr_next_inputs r)\<rparr>"
  have run: "prepare_port_mailboxes fresh n (Suc k) ports ?r = (Inr (), r')" using Cons.prems initial by simp
  from Cons.IH [OF run] have IH: "length (fr_pipeline_input_ids r') = length (fr_pipeline_input_ids r)"
    "\<And>i p. i < length (fr_pipeline_input_ids r) \<Longrightarrow>
      map_of (fr_pipeline_input_ids r' ! i) p \<noteq> None \<longleftrightarrow> p \<in> set ports \<or> map_of (fr_pipeline_input_ids ?r ! i) p \<noteq> None"
    "\<And>p. map_of (fr_next_inputs r') p \<noteq> None \<longleftrightarrow> p \<in> set ports \<or> map_of (fr_next_inputs ?r) p \<noteq> None"
    "r' = ?r\<lparr>fr_pipeline_input_ids := fr_pipeline_input_ids r', fr_next_inputs := fr_next_inputs r'\<rparr>"
    by simp_all
  have "r' = r\<lparr>fr_pipeline_input_ids := fr_pipeline_input_ids r', fr_next_inputs := fr_next_inputs r'\<rparr>"
    by (rule trans [OF IH(4)]) simp
  moreover have "\<forall>i < length (fr_pipeline_input_ids r). \<forall>p.
      map_of (fr_pipeline_input_ids r' ! i) p \<noteq> None \<longleftrightarrow> p \<in> set (port # ports) \<or> map_of (fr_pipeline_input_ids r ! i) p \<noteq> None"
    using IH(2) by (auto simp: nth_enumerate_eq amap_simps)
  moreover have "\<forall>p. map_of (fr_next_inputs r') p \<noteq> None \<longleftrightarrow> p \<in> set (port # ports) \<or> map_of (fr_next_inputs r) p \<noteq> None"
    using IH(3) by (auto simp: amap_simps)
  ultimately show ?case using IH(1) by blast
qed simp_all

lemmas prepare_ports = prepare_ports_step [THEN conjunct1]
  prepare_ports_step [THEN conjunct2, THEN conjunct1, rule_format]
  prepare_ports_step [THEN conjunct2, THEN conjunct2, THEN conjunct1, rule_format]
  prepare_ports_step [THEN conjunct2, THEN conjunct2, THEN conjunct2]

lemma prepare_nodes:
  "length (prepare_node_mailboxes fresh n first nodes tables) = length tables
    \<and> (\<forall>i < length tables. \<forall>v. map_of (prepare_node_mailboxes fresh n first nodes tables ! i) v \<noteq> None \<longleftrightarrow>
        v \<in> set nodes \<or> map_of (tables ! i) v \<noteq> None)"
proof (induction nodes arbitrary: first tables)
  case (Cons node nodes)
  let ?tables = "map (\<lambda>(i, m). AList.update node (fresh (first + i)) m) (List.enumerate 0 tables)"
  have "map_of (?tables ! i) v \<noteq> None \<longleftrightarrow> v = node \<or> map_of (tables ! i) v \<noteq> None" if "i < length tables" for i v
    using that by (simp add: nth_enumerate_eq amap_simps)
  with Cons.IH [of "first + n" ?tables] show ?case by auto
qed simp

lemma store_all:
  "fold (\<lambda>d s. snd (store_forward_pipeline_input (Inr ()) d s)) inputs s =
    s\<lparr>fs_runtime := (fs_runtime s)\<lparr>fr_pipeline_inputs := fr_pipeline_inputs (fs_runtime s) @ inputs\<rparr>\<rparr>"
  by (induction inputs arbitrary: s) (simp_all add: store_forward_pipeline_input_def)

lemma collect_window_facts:
  "fs_topology (collect_window m inputs s) = fs_topology s"
  "fs_runtime (collect_window m inputs s) = (fs_runtime s)\<lparr>fr_pipeline_inputs := inputs, fr_completed_outputs := [], fr_pipeline_window := max m 1\<rparr>"
  by (simp_all add: collect_window_def store_all begin_forward_pipeline_def)

lemma collect_serving: "serving_ok (collect_window m inputs s) sink = serving_ok s sink"
  by (simp add: serving_ok_def collect_window_facts)

lemma root_vertices:
  assumes "resolved_edges t (sg_incoming t) outgoing"
  shows "set (root_vertex_ids t) = {v \<in> flow_vertices t. lookup_or [] (sg_incoming t) v = []}"
proof -
  have wf: "amap_wf (sg_incoming t)" and keys: "fst ` set (sg_incoming t) = flow_vertices t"
    using assms by (simp_all add: resolved_edges_def)
  have mem: "map_of (sg_incoming t) v = Some us \<Longrightarrow> v \<in> fst ` set (sg_incoming t)" for v us by (force dest: map_of_SomeD)
  have entry: "(v, us) \<in> set (sg_incoming t) \<longleftrightarrow> v \<in> flow_vertices t \<and> lookup_or [] (sg_incoming t) v = us" for v us
    unfolding keys [symmetric] amap_mem_iff [OF wf] using lookup_known [of v "sg_incoming t" "[]"]
    by (auto simp: lookup_or_def dest: mem)
  show ?thesis by (auto simp: root_vertex_ids_def entry image_iff)
qed

lemma prepare_window:
  assumes "serving_ok s sink" and "prepare_forward_pipeline fresh (Inr ()) s = (Inr (), s1)"
  shows "window_ok s1 sink" and "graph_of (fs_topology s1) = graph_of (fs_topology s)"
    and "fr_pipeline_inputs (fs_runtime s1) = fr_pipeline_inputs (fs_runtime s)"
    and "fr_completed_outputs (fs_runtime s1) = fr_completed_outputs (fs_runtime s)"
    and "fr_node_completed (fs_runtime s1) = map (\<lambda>i. (i, 0)) (sort (vertex_ids (fs_topology s)))"
    and "fr_root_sent (fs_runtime s1) = map (\<lambda>i. (i, 0)) (root_vertex_ids (fs_topology s))"
    and "fr_pipeline_completions (fs_runtime s1) = 0"
proof -
  let ?t = "fs_topology s" and ?n = "length (fr_pipeline_inputs (fs_runtime s))"
  let ?r0 = "(fs_runtime s)\<lparr>fr_pipeline_input_ids := replicate ?n [], fr_pipeline_output_ids := replicate ?n [], fr_next_inputs := []\<rparr>"
  have n: "?n \<noteq> 0" using assms(2) by (auto simp: prepare_forward_pipeline_def Let_def)
  have sink: "fr_sink_id (fs_runtime s) = Some sink" using assms(1) by (simp add: serving_ok_def Let_def)
  obtain r where ports: "prepare_port_mailboxes fresh ?n 0 (sort (port_ids ?t)) ?r0 = (Inr (), r)"
    using assms(2) n sink by (auto simp: prepare_forward_pipeline_def Let_def split: prod.splits sum.splits)
  let ?out = "prepare_node_mailboxes fresh ?n (length (port_ids ?t) * ?n) (sort (vertex_ids ?t)) (fr_pipeline_output_ids r)"
  have s1: "fs_topology s1 = fold queue_node (sort (vertex_ids ?t)) ?t"
    "fs_runtime s1 = r\<lparr>fr_pipeline_output_ids := ?out, fr_node_completed := map (\<lambda>i. (i, 0)) (sort (vertex_ids ?t)),
       fr_root_sent := map (\<lambda>i. (i, 0)) (root_vertex_ids ?t), fr_pipeline_completions := 0,
       fr_pipeline_target_completions := length (vertex_ids ?t) * ?n, fr_sink_id := Some sink\<rparr>"
    using assms(2) n sink ports by (auto simp: prepare_forward_pipeline_def Let_def)
  note p = prepare_ports [OF ports]
  have r: "fr_pipeline_inputs r = fr_pipeline_inputs (fs_runtime s)" "fr_pipeline_output_ids r = replicate ?n []"
    "fr_completed_outputs r = fr_completed_outputs (fs_runtime s)"
    by (subst p(4), simp)+
  show g: "graph_of (fs_topology s1) = graph_of ?t" by (simp add: s1)
  note facts = graph_of_facts [OF g]
  have lens: "length (fr_pipeline_input_ids r) = ?n" using p(1) by simp
  have inputs: "\<forall>k < ?n. \<forall>q \<in> fst ` set (sg_port_vertices ?t). map_of (fr_pipeline_input_ids r ! k) q \<noteq> None"
    using p(2) by (simp add: port_ids_def)
  have outputs: "length ?out = ?n" "\<forall>k < ?n. \<forall>v \<in> flow_vertices ?t. map_of (?out ! k) v \<noteq> None"
    using prepare_nodes [of fresh ?n "length (port_ids ?t) * ?n" "sort (vertex_ids ?t)" "fr_pipeline_output_ids r"] by (simp_all add: r(2))
  have next_ids: "\<forall>q \<in> fst ` set (sg_port_vertices ?t). map_of (fr_next_inputs r) q \<noteq> None" using p(3) by (simp add: port_ids_def)
  show "fr_pipeline_inputs (fs_runtime s1) = fr_pipeline_inputs (fs_runtime s)"
    "fr_completed_outputs (fs_runtime s1) = fr_completed_outputs (fs_runtime s)"
    "fr_node_completed (fs_runtime s1) = map (\<lambda>i. (i, 0)) (sort (vertex_ids ?t))"
    "fr_root_sent (fs_runtime s1) = map (\<lambda>i. (i, 0)) (root_vertex_ids ?t)" "fr_pipeline_completions (fs_runtime s1) = 0"
    by (simp_all add: s1 r)
  show "window_ok s1 sink"
    using assms(1) n lens inputs outputs next_ids
    by (simp add: window_ok_def Let_def window_size_def facts s1(2) r serving_ok_def)
qed

section \<open>The invariant of a window\<close>

abbreviation finished :: "scheduler_delivery list \<Rightarrow> u32 \<Rightarrow> nat" where
  "finished cs v \<equiv> count_list (map sd_node_id cs) v"

text \<open>
  Every completion of a vertex is one of at most \<open>n\<close>, and comes after as many completions of
  each predecessor.
\<close>

definition window_order :: "(u32 \<Rightarrow> u32 list) \<Rightarrow> u32 set \<Rightarrow> nat \<Rightarrow> u32 list \<Rightarrow> bool" where
  "window_order succ V n vs \<longleftrightarrow> (\<forall>ys v zs. vs = ys @ v # zs \<longrightarrow>
     count_list ys v < n \<and> (\<forall>u \<in> V. v \<in> set (succ u) \<longrightarrow> count_list ys v < count_list ys u))"

lemma window_order_Nil: "window_order succ V n []"
  by (simp add: window_order_def)

lemma window_order_snoc:
  "window_order succ V n (vs @ [v]) \<longleftrightarrow> window_order succ V n vs \<and> count_list vs v < n
     \<and> (\<forall>u \<in> V. v \<in> set (succ u) \<longrightarrow> count_list vs v < count_list vs u)"
proof -
  have split: "vs @ [v] = ys @ w # zs \<longleftrightarrow> (\<exists>zs'. zs = zs' @ [v] \<and> vs = ys @ w # zs') \<or> (zs = [] \<and> w = v \<and> ys = vs)" for ys w zs
    by (cases zs rule: rev_cases) auto
  show ?thesis unfolding window_order_def split by blast
qed

lemma window_order_counts:
  assumes "window_order succ V n vs"
  shows "count_list vs v \<le> n" and "u \<in> V \<Longrightarrow> v \<in> set (succ u) \<Longrightarrow> count_list vs v \<le> count_list vs u"
  using assms
proof (induction vs rule: rev_induct)
  case (snoc w vs)
  { case 1 then show ?case using snoc.IH(1) by (auto simp: window_order_snoc) }
  { case 2 then show ?case using snoc.IH(2) by (force simp: window_order_snoc) }
qed simp_all

definition window_inv :: "'s forward_sun_state \<Rightarrow> scheduler_delivery list \<Rightarrow> 's forward_sun_state \<Rightarrow> bool" where
  "window_inv s cs s' \<longleftrightarrow>
     (let t = fs_topology s; r = fs_runtime s; r' = fs_runtime s'; target = fr_pipeline_target_completions r in
      graph_of (fs_topology s') = graph_of t \<and> fr_pipeline_inputs r' = fr_pipeline_inputs r
      \<and> fr_pipeline_input_ids r' = fr_pipeline_input_ids r \<and> fr_pipeline_output_ids r' = fr_pipeline_output_ids r
      \<and> fr_sink_id r' = fr_sink_id r \<and> fr_pipeline_target_completions r' = target
      \<and> (length cs < target \<longrightarrow> fr_next_inputs r' = fr_next_inputs r)
      \<and> (length cs = target \<longrightarrow> fr_inputs r' = fr_next_inputs r)
      \<and> fr_pipeline_completions r' = length cs
      \<and> fr_completed_outputs r' = map sd_delivery (filter (\<lambda>c. Some (sd_node_id c) = fr_sink_id r) cs)
      \<and> set (map sd_node_id cs) \<subseteq> flow_vertices t
      \<and> (\<forall>v \<in> flow_vertices t. map_of (fr_node_completed r') v = Some (finished cs v))
      \<and> (\<forall>v \<in> set (root_vertex_ids t). finished cs v \<le> lookup_or 0 (fr_root_sent r') v
            \<and> lookup_or 0 (fr_root_sent r') v \<le> finished cs v + 1)
      \<and> window_order (flow_succ t) (flow_vertices t) (window_size s) (map sd_node_id cs))"

lemma lookup_or_zero_map: "lookup_or 0 (map (\<lambda>i. (i, 0)) is) v = (0 :: nat)"
  by (induction "is") (auto simp: lookup_or_def)

lemma map_of_zero_map: "v \<in> set is \<Longrightarrow> map_of (map (\<lambda>i. (i, 0 :: nat)) is) v = Some 0"
  by (induction "is") auto

lemma prepared_window_inv:
  assumes "serving_ok s sink" and "fr_completed_outputs (fs_runtime s) = []"
    and "prepare_forward_pipeline fresh (Inr ()) s = (Inr (), s1)"
  shows "window_inv s1 [] s1"
proof -
  note p = prepare_window [OF assms(1,3)]
  note g = graph_of_facts [OF p(2)]
  have target: "fr_pipeline_target_completions (fs_runtime s1) \<noteq> 0"
  proof -
    have "vertex_ids (fs_topology s1) \<noteq> []" using p(1) by (auto simp: window_ok_def Let_def flow_graph_def)
    then show ?thesis using p(1) by (simp add: window_ok_def Let_def)
  qed
  have counters: "\<forall>v \<in> flow_vertices (fs_topology s1). map_of (fr_node_completed (fs_runtime s1)) v = Some 0"
    "\<And>v. lookup_or 0 (fr_root_sent (fs_runtime s1)) v = 0"
    using map_of_zero_map [of _ "sort (vertex_ids (fs_topology s))"] by (simp_all add: p(5,6) g lookup_or_zero_map)
  show ?thesis using p assms(2) target counters by (simp add: window_inv_def Let_def window_order_Nil)
qed

section \<open>What a tick emits\<close>

lemma pipeline_target_total:
  assumes "window_ok s sink" and "window_inv s cs s'" and "length cs < fr_pipeline_target_completions (fs_runtime s)"
    and "k < window_size s" and "map_of (sg_port_vertices (fs_topology s)) p = Some v"
  shows "\<exists>target. pipeline_target (fs_runtime s') (fs_topology s') k p = Inr target \<and> pg_node_id target = v"
proof -
  let ?t = "fs_topology s" and ?r = "fs_runtime s" and ?r' = "fs_runtime s'"
  have g: "graph_of (fs_topology s') = graph_of ?t" and same: "fr_pipeline_input_ids ?r' = fr_pipeline_input_ids ?r"
    "fr_pipeline_output_ids ?r' = fr_pipeline_output_ids ?r" "fr_next_inputs ?r' = fr_next_inputs ?r"
    using assms(2,3) by (simp_all add: window_inv_def Let_def)
  have ok: "length (fr_pipeline_input_ids ?r) = window_size s" "length (fr_pipeline_output_ids ?r) = window_size s"
    "\<And>k q. k < window_size s \<Longrightarrow> q \<in> fst ` set (sg_port_vertices ?t) \<Longrightarrow> map_of (fr_pipeline_input_ids ?r ! k) q \<noteq> None"
    "\<And>k v. k < window_size s \<Longrightarrow> v \<in> flow_vertices ?t \<Longrightarrow> map_of (fr_pipeline_output_ids ?r ! k) v \<noteq> None"
    "\<And>q. q \<in> fst ` set (sg_port_vertices ?t) \<Longrightarrow> map_of (fr_next_inputs ?r) q \<noteq> None" "topology_wf ?t"
    using assms(1) unfolding window_ok_def Let_def by blast+
  have mem: "p \<in> fst ` set (sg_port_vertices ?t)" "v \<in> snd ` set (sg_port_vertices ?t)"
    using assms(5) by (force dest: map_of_SomeD)+
  have v: "v \<in> flow_vertices ?t" using mem(2) ok(6) by (auto simp: topology_wf_def vertex_ids_def)
  obtain i where i: "mailbox_at (fr_pipeline_input_ids ?r) k p = Some i"
    using ok(3) [OF assms(4) mem(1)] assms(4) by (auto simp: mailbox_at_def ok(1))
  obtain out where out: "mailbox_at (fr_pipeline_output_ids ?r) k v = Some out"
    using ok(4) [OF assms(4) v] assms(4) by (auto simp: mailbox_at_def ok(2))
  obtain nx where nx: "(case mailbox_at (fr_pipeline_input_ids ?r) (k + 1) p of Some i \<Rightarrow> Some i | None \<Rightarrow> map_of (fr_next_inputs ?r') p) = Some nx"
    using ok(5) [OF mem(1)] unfolding same by (cases "mailbox_at (fr_pipeline_input_ids ?r) (k + 1) p") auto
  show ?thesis
    using assms(5) i out nx
    by (simp add: pipeline_target_def pipeline_input_id_def same(1,2) graph_of_facts(4) [OF g])
qed

lemma pipeline_targets_total:
  assumes "window_ok s sink" and "window_inv s cs s'" and "length cs < fr_pipeline_target_completions (fs_runtime s)"
    and "k < window_size s" and "\<forall>p \<in> set ports. map_of (sg_port_vertices (fs_topology s)) p = Some (owner p)"
  shows "\<exists>targets. pipeline_targets (fs_runtime s') (fs_topology s') k ports = Inr targets \<and> map pg_node_id targets = map owner ports"
proof -
  have "\<exists>targets. try_fold (\<lambda>port acc. and_then (pipeline_target (fs_runtime s') (fs_topology s') k port) (\<lambda>target. Inr (acc @ [target])))
      ports acc = Inr (acc @ targets) \<and> map pg_node_id targets = map owner ports" for acc
    using assms(5)
  proof (induction ports arbitrary: acc)
    case (Cons p ports)
    obtain target where target: "pipeline_target (fs_runtime s') (fs_topology s') k p = Inr target" "pg_node_id target = owner p"
      using pipeline_target_total [OF assms(1-4), of p "owner p"] Cons.prems by auto
    obtain targets where "try_fold (\<lambda>port acc. and_then (pipeline_target (fs_runtime s') (fs_topology s') k port) (\<lambda>target. Inr (acc @ [target])))
        ports (acc @ [target]) = Inr ((acc @ [target]) @ targets) \<and> map pg_node_id targets = map owner ports"
      using Cons.IH [of "acc @ [target]"] Cons.prems by auto
    then show ?case using target by (intro exI [of _ "target # targets"]) simp
  qed simp
  from this [of "[]"] show ?thesis by (simp add: pipeline_targets_def)
qed

lemma window_graph:
  assumes "window_ok s sink"
  defines "t \<equiv> fs_topology s"
  shows "finite (flow_vertices t)" and "acyclic (graph_edges (flow_succ t) (flow_vertices t))"
    and "distinct (vertex_ids t)" and "set (lookup_or [] (sg_incoming t) v) \<subseteq> flow_vertices t"
    and "u \<in> set (lookup_or [] (sg_incoming t) v) \<longleftrightarrow> v \<in> set (flow_succ t u)"
    and "set (flow_succ t u) \<subseteq> flow_vertices t"
    and "set (root_vertex_ids t) = {v \<in> flow_vertices t. lookup_or [] (sg_incoming t) v = []}"
    and "p \<in> set (lookup_or [] (sg_vertex_ports t) v) \<Longrightarrow> map_of (sg_port_vertices t) p = Some v"
    and "v \<in> flow_vertices t \<Longrightarrow> lookup_or [] (sg_vertex_ports t) v \<noteq> []"
    and "lookup_or [] (sg_outgoing t) v = map (target_of t) (outputs_of t v)"
    and "q \<in> set (outputs_of t v) \<Longrightarrow> map_of (sg_port_vertices t) q = Some (lookup_or 0 (sg_port_vertices t) q)"
proof -
  have ok: "topology_wf t" "ports_ok t" "flow_graph t sink" "resolved_edges t (sg_incoming t) (sg_outgoing t)"
    using assms(1) unfolding window_ok_def Let_def t_def by blast+
  have dup: "sg_duplicate_ports t = []" using ok(3) by (simp add: flow_graph_def)
  show "finite (flow_vertices t)" by simp
  show "acyclic (graph_edges (flow_succ t) (flow_vertices t))" using ok(3) by (simp add: flow_graph_def)
  show "distinct (vertex_ids t)" using ok(1) by (simp add: topology_wf_def amap_wf_def vertex_ids_def)
  show "set (lookup_or [] (sg_incoming t) v) \<subseteq> flow_vertices t" "set (flow_succ t u) \<subseteq> flow_vertices t"
    "lookup_or [] (sg_outgoing t) v = map (target_of t) (outputs_of t v)"
    using ok(4) unfolding resolved_edges_def by blast+
  have "count_list (lookup_or [] (sg_incoming t) v) u = count_list (flow_succ t u) v" using ok(4) unfolding resolved_edges_def by blast
  then show "u \<in> set (lookup_or [] (sg_incoming t) v) \<longleftrightarrow> v \<in> set (flow_succ t u)" by (metis count_list_0)
  show "set (root_vertex_ids t) = {v \<in> flow_vertices t. lookup_or [] (sg_incoming t) v = []}" by (rule root_vertices [OF ok(4)])
  show "p \<in> set (lookup_or [] (sg_vertex_ports t) v) \<Longrightarrow> map_of (sg_port_vertices t) p = Some v"
    using ok(2) dup unfolding ports_ok_def by blast
  show "v \<in> flow_vertices t \<Longrightarrow> lookup_or [] (sg_vertex_ports t) v \<noteq> []"
    using ok(2) dup unfolding ports_ok_def vertex_ids_def by (metis empty_iff list.set(1) set_map)
  show "map_of (sg_port_vertices t) q = Some (lookup_or 0 (sg_port_vertices t) q)" if q: "q \<in> set (outputs_of t v)"
  proof -
    have "v \<in> fst ` set (sg_declared_outputs t)" using lookup_or_mem [of q] q unfolding outputs_of_def by metis
    then have "v \<in> flow_vertices t" using ok(1) by (simp add: topology_wf_def vertex_ids_def)
    then have "valid_edge t v q" using ok(3) q unfolding flow_graph_def by blast
    then show ?thesis by (auto simp: valid_edge_def lookup_or_def)
  qed
qed

lemma window_counter:
  assumes "window_inv s cs s'" and "v \<in> flow_vertices (fs_topology s)"
  shows "lookup_or 0 (fr_node_completed (fs_runtime s')) v = finished cs v"
    and "pipeline_task_for_node (fs_runtime s') v = (if finished cs v < window_size s then Some (finished cs v) else None)"
proof -
  have "map_of (fr_node_completed (fs_runtime s')) v = Some (finished cs v)" and same: "fr_pipeline_inputs (fs_runtime s') = fr_pipeline_inputs (fs_runtime s)"
    using assms unfolding window_inv_def Let_def by blast+
  then show c: "lookup_or 0 (fr_node_completed (fs_runtime s')) v = finished cs v" by (simp add: lookup_or_def)
  show "pipeline_task_for_node (fs_runtime s') v = (if finished cs v < window_size s then Some (finished cs v) else None)"
    by (simp add: pipeline_task_for_node_def c same window_size_def Let_def)
qed

definition root_due :: "'s forward_sun_state \<Rightarrow> scheduler_delivery list \<Rightarrow> 's forward_sun_state \<Rightarrow> u32 \<Rightarrow> bool" where
  "root_due s cs s' v \<longleftrightarrow> finished cs v < window_size s \<and> lookup_or 0 (fr_root_sent (fs_runtime s')) v \<le> finished cs v"

lemma root_sends:
  assumes "window_ok s sink" and "window_inv s cs s'" and "length cs < fr_pipeline_target_completions (fs_runtime s)"
    and "v \<in> set (root_vertex_ids (fs_topology s))"
  shows "\<exists>sends. ready_root_sends (fs_runtime s') (fs_topology s') v = Inr sends
    \<and> (pg_node_id \<circ> fst) ` set sends = (if root_due s cs s' v then {v} else {})"
proof -
  let ?t = "fs_topology s" and ?ports = "lookup_or [] (sg_vertex_ports (fs_topology s)) v"
  note w = window_graph [OF assms(1)]
  have v: "v \<in> flow_vertices ?t" using assms(4) w(7) by blast
  have g: "graph_of (fs_topology s') = graph_of ?t" using assms(2) by (simp add: window_inv_def Let_def)
  note task = window_counter(2) [OF assms(2) v]
  show ?thesis
  proof (cases "root_due s cs s' v")
    case True
    then have k: "finished cs v < window_size s" by (simp add: root_due_def)
    obtain targets where targets: "pipeline_targets (fs_runtime s') (fs_topology s') (finished cs v) ?ports = Inr targets"
      "map pg_node_id targets = map (\<lambda>_. v) ?ports"
      using pipeline_targets_total [OF assms(1-3) k, of ?ports "\<lambda>_. v"] w(8) by blast
    have "pg_node_id ` set targets = (\<lambda>_. v) ` set ?ports" using targets(2) by (metis list.set_map)
    also have "\<dots> = {v}" using w(9) [OF v] by (simp add: image_constant_conv)
    finally have "(pg_node_id \<circ> fst) ` set (map (\<lambda>target. (target, fr_pipeline_inputs (fs_runtime s') ! finished cs v)) targets) = {v}"
      by (simp add: image_image)
    then show ?thesis
      using True k targets(1) by (simp add: ready_root_sends_def task root_due_def graph_of_facts(3) [OF g] not_less)
  next
    case False
    then show ?thesis by (auto simp: ready_root_sends_def task root_due_def)
  qed
qed

lemma emit_roots_total:
  assumes "window_ok s sink" and "window_inv s cs s'" and "length cs < fr_pipeline_target_completions (fs_runtime s)"
  shows "\<exists>sends. emit_ready_roots s' = Inr sends
    \<and> set (sent_nodes sends) = {v \<in> set (root_vertex_ids (fs_topology s)). root_due s cs s' v}"
proof -
  have collect: "\<exists>sends. try_fold (\<lambda>root acc. and_then (ready_root_sends (fs_runtime s') (fs_topology s') root) (\<lambda>sends. Inr (acc @ sends))) vs acc
      = Inr (acc @ sends) \<and> (pg_node_id \<circ> fst) ` set sends = {v \<in> set vs. root_due s cs s' v}"
    if "set vs \<subseteq> set (root_vertex_ids (fs_topology s))" for vs acc
    using that
  proof (induction vs arbitrary: acc)
    case (Cons v vs)
    obtain sends where sends: "ready_root_sends (fs_runtime s') (fs_topology s') v = Inr sends"
      "(pg_node_id \<circ> fst) ` set sends = (if root_due s cs s' v then {v} else {})"
      using root_sends [OF assms, of v] Cons.prems by auto
    obtain more where more: "try_fold (\<lambda>root acc. and_then (ready_root_sends (fs_runtime s') (fs_topology s') root) (\<lambda>sends. Inr (acc @ sends))) vs (acc @ sends)
        = Inr ((acc @ sends) @ more)" "(pg_node_id \<circ> fst) ` set more = {v \<in> set vs. root_due s cs s' v}"
      using Cons.IH [of "acc @ sends"] Cons.prems by auto
    have "(pg_node_id \<circ> fst) ` set (sends @ more) = {w \<in> set (v # vs). root_due s cs s' w}"
      unfolding set_append image_Un sends(2) more(2) by auto
    then show ?case using sends(1) more(1) by (intro exI [of _ "sends @ more"]) simp
  qed simp
  have g: "graph_of (fs_topology s') = graph_of (fs_topology s)" using assms(2) by (simp add: window_inv_def Let_def)
  have "root_vertex_ids (fs_topology s') = root_vertex_ids (fs_topology s)" by (simp add: root_vertex_ids_def graph_of_facts(2) [OF g])
  then show ?thesis
    using collect [OF order_refl, of "[]"] by (simp add: emit_ready_roots_def sent_nodes_facts(1))
qed

section \<open>A tick\<close>

text \<open>All roots that still have inputs have been sent the next one.\<close>

definition roots_ahead :: "'s forward_sun_state \<Rightarrow> scheduler_delivery list \<Rightarrow> 's forward_sun_state \<Rightarrow> bool" where
  "roots_ahead s cs s' \<longleftrightarrow> (\<forall>v \<in> set (root_vertex_ids (fs_topology s)).
     finished cs v < window_size s \<longrightarrow> lookup_or 0 (fr_root_sent (fs_runtime s')) v = finished cs v + 1)"

lemma lookup_fold_bump: "lookup_or 0 (fold bump ks m) v = (lookup_or 0 m v + count_list ks v :: nat)"
  by (induction ks arbitrary: m) (simp_all add: amap_simps)

lemma absorb_roots_total:
  assumes "window_ok s sink" and "window_inv s cs s'" and "length cs < fr_pipeline_target_completions (fs_runtime s)"
    and "emit_ready_roots s' = Inr sends"
  shows "\<exists>s''. absorb_ready_roots (Inr (sent_nodes sends)) s' = (Inr (), s'') \<and> window_inv s cs s'' \<and> roots_ahead s cs s''"
proof -
  let ?sent = "sent_nodes sends" and ?t = "fs_topology s"
  let ?s = "s'\<lparr>fs_runtime := (fs_runtime s')\<lparr>fr_root_sent := fold bump ?sent (fr_root_sent (fs_runtime s'))\<rparr>,
      fs_topology := record_forward_started ?sent (fs_topology s')\<rparr>"
  have due: "set ?sent = {v \<in> set (root_vertex_ids ?t). root_due s cs s' v}"
    using emit_roots_total [OF assms(1-3)] assms(4) by auto
  have count: "count_list ?sent v = (if v \<in> set ?sent then 1 else 0)" for v
    using sent_nodes_facts(2) by (rule distinct_count)
  have roots: "finished cs v \<le> lookup_or 0 (fr_root_sent (fs_runtime s')) v"
      "lookup_or 0 (fr_root_sent (fs_runtime s')) v \<le> finished cs v + 1" if "v \<in> set (root_vertex_ids ?t)" for v
    using assms(2) that unfolding window_inv_def Let_def by blast+
  have sent: "lookup_or 0 (fr_root_sent (fs_runtime ?s)) v
      = lookup_or 0 (fr_root_sent (fs_runtime s')) v + (if root_due s cs s' v then 1 else 0)" if "v \<in> set (root_vertex_ids ?t)" for v
    using that by (simp add: lookup_fold_bump count due)
  have bound: "finished cs v \<le> lookup_or 0 (fr_root_sent (fs_runtime ?s)) v \<and> lookup_or 0 (fr_root_sent (fs_runtime ?s)) v \<le> finished cs v + 1"
    if "v \<in> set (root_vertex_ids ?t)" for v
    unfolding sent [OF that] using roots [OF that] by (auto simp: root_due_def)
  have "window_inv s cs ?s" using assms(2) bound by (simp add: window_inv_def Let_def)
  moreover have "roots_ahead s cs ?s"
    unfolding roots_ahead_def
  proof (intro ballI impI)
    fix v assume v: "v \<in> set (root_vertex_ids ?t)" and "finished cs v < window_size s"
    then show "lookup_or 0 (fr_root_sent (fs_runtime ?s)) v = finished cs v + 1"
      unfolding sent [OF v] using roots [OF v] by (auto simp: root_due_def)
  qed
  ultimately show ?thesis by (auto simp: absorb_ready_roots_def)
qed

lemma ready_iff:
  assumes "window_ok s sink" and "window_inv s cs s'" and "roots_ahead s cs s'"
  shows "v \<in> set (pipeline_ready_nodes (fs_runtime s') (fs_topology s')) \<longleftrightarrow>
    v \<in> flow_vertices (fs_topology s) \<and> finished cs v < window_size s
    \<and> (\<forall>u \<in> flow_vertices (fs_topology s). v \<in> set (flow_succ (fs_topology s) u) \<longrightarrow> finished cs v < finished cs u)"
proof (cases "v \<in> flow_vertices (fs_topology s) \<and> finished cs v < window_size s")
  case True
  let ?t = "fs_topology s"
  let ?sources = "lookup_or [] (sg_incoming ?t) v"
  note w = window_graph [OF assms(1)]
  have g: "graph_of (fs_topology s') = graph_of ?t" using assms(2) by (simp add: window_inv_def Let_def)
  note facts = graph_of_facts [OF g]
  have "dependencies_ready (fs_runtime s') (fs_topology s') v (finished cs v) \<longleftrightarrow> (\<forall>u \<in> set ?sources. finished cs v < finished cs u)"
  proof (cases "?sources = []")
    case root: True
    then have "v \<in> set (root_vertex_ids ?t)" using True w(7) by blast
    then have "lookup_or 0 (fr_root_sent (fs_runtime s')) v = finished cs v + 1" using assms(3) True by (simp add: roots_ahead_def)
    then show ?thesis by (simp add: dependencies_ready_def facts root)
  next
    case False
    have "lookup_or 0 (fr_node_completed (fs_runtime s')) u = finished cs u" if "u \<in> set ?sources" for u
      using window_counter(1) [OF assms(2)] w(4) that by blast
    then show ?thesis using False by (simp add: dependencies_ready_def facts list_all_iff)
  qed
  also have "\<dots> \<longleftrightarrow> (\<forall>u \<in> flow_vertices ?t. v \<in> set (flow_succ ?t u) \<longrightarrow> finished cs v < finished cs u)"
    using w(4) [of v] w(5) [of _ v] by blast
  finally show ?thesis
    using True window_counter(2) [OF assms(2), of v] by (simp add: pipeline_ready_nodes_def facts)
next
  case False
  have g: "graph_of (fs_topology s') = graph_of (fs_topology s)" using assms(2) by (simp add: window_inv_def Let_def)
  from False show ?thesis
    using window_counter(2) [OF assms(2), of v] by (auto simp: pipeline_ready_nodes_def graph_of_facts(5) [OF g])
qed

text \<open>The vertices with the fewest completed inputs have one that does not wait for any other.\<close>

lemma some_ready:
  assumes "window_ok s sink" and "window_inv s cs s'" and "roots_ahead s cs s'"
    and "v \<in> flow_vertices (fs_topology s)" and "finished cs v < window_size s"
  shows "pipeline_ready_nodes (fs_runtime s') (fs_topology s') \<noteq> []"
proof -
  let ?V = "flow_vertices (fs_topology s)" and ?succ = "flow_succ (fs_topology s)"
  note w = window_graph [OF assms(1)]
  define m where "m = Min (finished cs ` ?V)"
  have m: "m \<in> finished cs ` ?V" unfolding m_def by (rule Min_in) (use assms(4) in auto)
  have least: "m \<le> finished cs u" if "u \<in> ?V" for u unfolding m_def using that by (intro Min_le) auto
  let ?A = "{u \<in> ?V. finished cs u = m}"
  obtain u where u: "u \<in> ?A" and none: "edges_into ?succ ?A u = 0"
  proof (rule graph_progress [OF w(1,2), of ?A])
    show "?A \<subseteq> ?V" by blast
    show "?A \<noteq> {}" using m by blast
  qed
  have "finished cs u < finished cs x" if x: "x \<in> ?V" "u \<in> set (?succ x)" for x
  proof -
    have "x \<notin> ?A" using none x(2) by (auto simp: edges_into_0)
    then show ?thesis using x(1) least [OF x(1)] u by auto
  qed
  moreover have "finished cs u < window_size s" using u least [OF assms(4)] assms(5) by auto
  ultimately have "u \<in> set (pipeline_ready_nodes (fs_runtime s') (fs_topology s'))"
    using u by (simp add: ready_iff [OF assms(1-3)])
  then show ?thesis by auto
qed

lemma node_downstream_total:
  assumes "window_ok s sink" and "window_inv s cs s'" and "length cs < fr_pipeline_target_completions (fs_runtime s)"
    and "v \<in> flow_vertices (fs_topology s)" and "finished cs v < window_size s"
  shows "\<exists>out targets. ready_node_downstream (fs_runtime s') (fs_topology s') v = Inr ([(v, out)], (v, targets))"
proof -
  let ?t = "fs_topology s"
  note w = window_graph [OF assms(1)]
  have g: "graph_of (fs_topology s') = graph_of ?t" and same: "fr_pipeline_output_ids (fs_runtime s') = fr_pipeline_output_ids (fs_runtime s)"
    using assms(2) by (simp_all add: window_inv_def Let_def)
  note task = window_counter(2) [OF assms(2,4)]
  have ports: "map pt_port_id (lookup_or [] (sg_outgoing (fs_topology s')) v) = outputs_of ?t v"
    unfolding graph_of_facts(1) [OF g] w(10) by (simp add: target_of_def comp_def)
  have known: "\<forall>p \<in> set (outputs_of ?t v). map_of (sg_port_vertices ?t) p = Some (lookup_or 0 (sg_port_vertices ?t) p)"
    using w(11) by blast
  obtain targets where targets: "pipeline_targets (fs_runtime s') (fs_topology s') (finished cs v) (outputs_of ?t v) = Inr targets"
    using pipeline_targets_total [OF assms(1-3,5) known] by blast
  have "map_of (fr_pipeline_output_ids (fs_runtime s) ! finished cs v) v \<noteq> None" "length (fr_pipeline_output_ids (fs_runtime s)) = window_size s"
    using assms(1,4,5) unfolding window_ok_def Let_def by blast+
  then obtain out where "mailbox_at (fr_pipeline_output_ids (fs_runtime s')) (finished cs v) v = Some out"
    using assms(5) by (auto simp: mailbox_at_def same)
  then show ?thesis using targets assms(5) by (simp add: ready_node_downstream_def task ports)
qed

lemma emit_nodes_total:
  assumes "window_ok s sink" and "window_inv s cs s'" and "length cs < fr_pipeline_target_completions (fs_runtime s)"
    and "roots_ahead s cs s'"
  shows "\<exists>endpoints downstream. emit_pipeline_node s' = Inr (endpoints, downstream)
    \<and> map fst endpoints = pipeline_ready_nodes (fs_runtime s') (fs_topology s')"
proof -
  let ?ready = "pipeline_ready_nodes (fs_runtime s') (fs_topology s')"
  let ?f = "\<lambda>node (endpoints, downstream).
      and_then (ready_node_downstream (fs_runtime s') (fs_topology s') node) (\<lambda>(endpoint, targets).
      Inr (endpoints @ endpoint, downstream @ [targets]))"
  have "\<exists>es ds. try_fold ?f vs (endpoints, downstream) = Inr (endpoints @ es, downstream @ ds) \<and> map fst es = vs"
    if "set vs \<subseteq> set ?ready" for vs endpoints downstream
    using that
  proof (induction vs arbitrary: endpoints downstream)
    case (Cons v vs)
    have "v \<in> flow_vertices (fs_topology s)" "finished cs v < window_size s"
      using Cons.prems ready_iff [OF assms(1,2,4), of v] by auto
    from node_downstream_total [OF assms(1-3) this] obtain out targets
      where v: "ready_node_downstream (fs_runtime s') (fs_topology s') v = Inr ([(v, out)], (v, targets))" by blast
    obtain es ds where "try_fold ?f vs (endpoints @ [(v, out)], downstream @ [(v, targets)])
        = Inr ((endpoints @ [(v, out)]) @ es, (downstream @ [(v, targets)]) @ ds) \<and> map fst es = vs"
      using Cons.IH [of "endpoints @ [(v, out)]" "downstream @ [(v, targets)]"] Cons.prems by auto
    then show ?case using v by (intro exI [of _ "(v, out) # es"] exI [of _ "(v, targets) # ds"]) simp
  qed simp
  from this [OF order_refl, of "[]" "[]"] show ?thesis by (simp add: emit_pipeline_node_def)
qed

definition same_window :: "'s forward_runtime \<Rightarrow> 's forward_runtime \<Rightarrow> bool" where
  "same_window r r' \<longleftrightarrow> fr_pipeline_inputs r' = fr_pipeline_inputs r \<and> fr_pipeline_input_ids r' = fr_pipeline_input_ids r
     \<and> fr_pipeline_output_ids r' = fr_pipeline_output_ids r \<and> fr_sink_id r' = fr_sink_id r
     \<and> fr_pipeline_target_completions r' = fr_pipeline_target_completions r \<and> fr_root_sent r' = fr_root_sent r"

lemma graph_of_annotated [simp]: "graph_of (t\<lparr>sg_node_phase_annotations := x\<rparr>) = graph_of t"
  by (simp add: graph_of_def)

lemma absorb_node_effect:
  assumes "pipeline_task_for_node (fs_runtime s) (sd_node_id c) = Some k"
    and "map_of (fr_node_completed (fs_runtime s)) (sd_node_id c) = Some m"
  obtains s'' where "absorb_pipeline_node (Inr c) s = (Inr (), s'')" and "graph_of (fs_topology s'') = graph_of (fs_topology s)"
    and "same_window (fs_runtime s) (fs_runtime s'')"
    and "fr_pipeline_completions (fs_runtime s'') = Suc (fr_pipeline_completions (fs_runtime s))"
    and "fr_node_completed (fs_runtime s'') = AList.update (sd_node_id c) (Suc m) (fr_node_completed (fs_runtime s))"
    and "fr_completed_outputs (fs_runtime s'') = fr_completed_outputs (fs_runtime s)
      @ (if Some (sd_node_id c) = fr_sink_id (fs_runtime s) then [sd_delivery c] else [])"
    and "Suc (fr_pipeline_completions (fs_runtime s)) \<noteq> fr_pipeline_target_completions (fs_runtime s) \<Longrightarrow>
      fr_next_inputs (fs_runtime s'') = fr_next_inputs (fs_runtime s)"
    and "Suc (fr_pipeline_completions (fs_runtime s)) = fr_pipeline_target_completions (fs_runtime s) \<Longrightarrow>
      fr_inputs (fs_runtime s'') = fr_next_inputs (fs_runtime s)"
proof (rule that)
  show "absorb_pipeline_node (Inr c) s = (Inr (), snd (absorb_pipeline_node (Inr c) s))"
    by (simp add: absorb_pipeline_node_def assms Let_def)
qed (simp_all add: absorb_pipeline_node_def assms Let_def same_window_def)

lemma absorb_node_total:
  assumes "window_ok s sink" and inv: "window_inv s cs s'" and "length cs < fr_pipeline_target_completions (fs_runtime s)"
    and "roots_ahead s cs s'" and "sd_node_id c \<in> set (pipeline_ready_nodes (fs_runtime s') (fs_topology s'))"
  shows "\<exists>s''. absorb_pipeline_node (Inr c) s' = (Inr (), s'') \<and> window_inv s (cs @ [c]) s''"
proof -
  let ?t = "fs_topology s" and ?r = "fs_runtime s" and ?r' = "fs_runtime s'" and ?v = "sd_node_id c"
  have v: "?v \<in> flow_vertices ?t" "finished cs ?v < window_size s"
    "\<forall>u \<in> flow_vertices ?t. ?v \<in> set (flow_succ ?t u) \<longrightarrow> finished cs ?v < finished cs u"
    using assms(5) unfolding ready_iff [OF assms(1,2,4)] by blast+
  note task = window_counter(2) [OF inv v(1)]
  have old: "graph_of (fs_topology s') = graph_of ?t" "fr_pipeline_inputs ?r' = fr_pipeline_inputs ?r"
    "fr_pipeline_input_ids ?r' = fr_pipeline_input_ids ?r" "fr_pipeline_output_ids ?r' = fr_pipeline_output_ids ?r"
    "fr_sink_id ?r' = fr_sink_id ?r" "fr_pipeline_target_completions ?r' = fr_pipeline_target_completions ?r"
    "fr_next_inputs ?r' = fr_next_inputs ?r" "fr_pipeline_completions ?r' = length cs"
    "fr_completed_outputs ?r' = map sd_delivery (filter (\<lambda>c. Some (sd_node_id c) = fr_sink_id ?r) cs)"
    "set (map sd_node_id cs) \<subseteq> flow_vertices ?t"
    "\<forall>v \<in> flow_vertices ?t. map_of (fr_node_completed ?r') v = Some (finished cs v)"
    "\<forall>v \<in> set (root_vertex_ids ?t). finished cs v \<le> lookup_or 0 (fr_root_sent ?r') v \<and> lookup_or 0 (fr_root_sent ?r') v \<le> finished cs v + 1"
    "window_order (flow_succ ?t) (flow_vertices ?t) (window_size s) (map sd_node_id cs)"
    using inv assms(3) unfolding window_inv_def Let_def by blast+
  have counter: "map_of (fr_node_completed ?r') ?v = Some (finished cs ?v)" using old(11) v(1) by blast
  have ahead: "?v \<in> set (root_vertex_ids ?t) \<Longrightarrow> lookup_or 0 (fr_root_sent ?r') ?v = finished cs ?v + 1"
    using assms(4) v(2) unfolding roots_ahead_def by blast
  have order: "window_order (flow_succ ?t) (flow_vertices ?t) (window_size s) (map sd_node_id (cs @ [c]))"
    using old(13) v(2,3) by (simp add: window_order_snoc)
  obtain s'' where run: "absorb_pipeline_node (Inr c) s' = (Inr (), s'')" and t: "graph_of (fs_topology s'') = graph_of (fs_topology s')"
    and e: "same_window (fs_runtime s') (fs_runtime s'')"
      "fr_pipeline_completions (fs_runtime s'') = Suc (fr_pipeline_completions ?r')"
      "fr_node_completed (fs_runtime s'') = AList.update ?v (Suc (finished cs ?v)) (fr_node_completed ?r')"
      "fr_completed_outputs (fs_runtime s'') = fr_completed_outputs ?r' @ (if Some ?v = fr_sink_id ?r' then [sd_delivery c] else [])"
      "Suc (fr_pipeline_completions ?r') \<noteq> fr_pipeline_target_completions ?r' \<Longrightarrow> fr_next_inputs (fs_runtime s'') = fr_next_inputs ?r'"
      "Suc (fr_pipeline_completions ?r') = fr_pipeline_target_completions ?r' \<Longrightarrow> fr_inputs (fs_runtime s'') = fr_next_inputs ?r'"
    using absorb_node_effect [OF _ counter] v(2) by (auto simp: task)
  let ?r3 = "fs_runtime s''"
  have fields: "fr_pipeline_inputs ?r3 = fr_pipeline_inputs ?r" "fr_pipeline_input_ids ?r3 = fr_pipeline_input_ids ?r"
    "fr_pipeline_output_ids ?r3 = fr_pipeline_output_ids ?r" "fr_sink_id ?r3 = fr_sink_id ?r"
    "fr_pipeline_target_completions ?r3 = fr_pipeline_target_completions ?r" "fr_root_sent ?r3 = fr_root_sent ?r'"
    using e(1) old(2-6) by (simp_all add: same_window_def)
  have counts: "fr_pipeline_completions ?r3 = length (cs @ [c])"
    "fr_completed_outputs ?r3 = map sd_delivery (filter (\<lambda>c. Some (sd_node_id c) = fr_sink_id ?r) (cs @ [c]))"
    "length (cs @ [c]) < fr_pipeline_target_completions ?r \<longrightarrow> fr_next_inputs ?r3 = fr_next_inputs ?r"
    "length (cs @ [c]) = fr_pipeline_target_completions ?r \<longrightarrow> fr_inputs ?r3 = fr_next_inputs ?r"
    using e(2,4,5,6) by (simp_all add: old(5-9))
  have counters: "\<forall>w \<in> flow_vertices ?t. map_of (fr_node_completed ?r3) w = Some (finished (cs @ [c]) w)"
    unfolding e(3) using old(11) by (simp add: amap_simps)
  have roots: "finished (cs @ [c]) w \<le> lookup_or 0 (fr_root_sent ?r3) w \<and> lookup_or 0 (fr_root_sent ?r3) w \<le> finished (cs @ [c]) w + 1"
    if w: "w \<in> set (root_vertex_ids ?t)" for w
  proof (cases "w = ?v")
    case True
    then show ?thesis unfolding fields(6) using ahead w by simp
  next
    case False
    then show ?thesis unfolding fields(6) using old(12) w by simp
  qed
  have vs: "set (map sd_node_id (cs @ [c])) \<subseteq> flow_vertices ?t" using old(10) v(1) by simp
  have graph: "graph_of (fs_topology s'') = graph_of ?t" using t old(1) by simp
  have all_roots: "\<forall>w \<in> set (root_vertex_ids ?t). finished (cs @ [c]) w \<le> lookup_or 0 (fr_root_sent ?r3) w
      \<and> lookup_or 0 (fr_root_sent ?r3) w \<le> finished (cs @ [c]) w + 1" using roots by blast
  have "window_inv s (cs @ [c]) s''"
    unfolding window_inv_def Let_def
    by (intro conjI) (fact graph fields counts vs counters all_roots order)+
  with run show ?thesis by blast
qed

section \<open>Whole windows\<close>

lemma tick_total:
  assumes "window_ok s sink" and "window_inv s cs s'" and "length cs < fr_pipeline_target_completions (fs_runtime s)"
  shows "\<exists>sends s'' endpoints downstream. emit_ready_roots s' = Inr sends
    \<and> absorb_ready_roots (Inr (sent_nodes sends)) s' = (Inr (), s'') \<and> emit_pipeline_node s'' = Inr (endpoints, downstream)
    \<and> window_inv s cs s'' \<and> roots_ahead s cs s''
    \<and> map fst endpoints = pipeline_ready_nodes (fs_runtime s'') (fs_topology s'')"
proof -
  obtain sends where sends: "emit_ready_roots s' = Inr sends" using emit_roots_total [OF assms] by blast
  obtain s'' where s'': "absorb_ready_roots (Inr (sent_nodes sends)) s' = (Inr (), s'')" "window_inv s cs s''" "roots_ahead s cs s''"
    using absorb_roots_total [OF assms sends] by blast
  from emit_nodes_total [OF assms(1) s''(2) assms(3) s''(3)] sends s'' show ?thesis by blast
qed

lemma window_pending: "window_inv s cs s' \<Longrightarrow>
    pending_forward_pipeline_work s' \<longleftrightarrow> length cs < fr_pipeline_target_completions (fs_runtime s)"
  by (simp add: window_inv_def Let_def pending_forward_pipeline_work_def)

lemma pipe_loop_inv:
  assumes "pipe_loop s cs s'" and "window_ok s sink" and "window_inv s [] s"
  shows "window_inv s cs s'"
  using assms
proof (induction rule: pipe_loop.induct)
  case (pipe_tick s cs s1 sends s2 endpoints downstream c s3)
  have inv: "window_inv s cs s1" using pipe_tick.IH pipe_tick.prems by blast
  have more: "length cs < fr_pipeline_target_completions (fs_runtime s)" using window_pending [OF inv] pipe_tick.hyps(2) by blast
  from tick_total [OF pipe_tick.prems(1) inv more] pipe_tick.hyps(3-5)
  have s2: "window_inv s cs s2" "roots_ahead s cs s2" and ready: "map fst endpoints = pipeline_ready_nodes (fs_runtime s2) (fs_topology s2)"
    by auto
  have "sd_node_id c \<in> set (pipeline_ready_nodes (fs_runtime s2) (fs_topology s2))"
    using pipe_tick.hyps(6) unfolding ready [symmetric] by simp
  from absorb_node_total [OF pipe_tick.prems(1) s2(1) more s2(2) this] pipe_tick.hyps(7) show ?case by auto
qed

lemma window_counts:
  assumes "window_ok s sink" and "window_inv s cs s'"
  shows "length cs = (\<Sum>v\<in>flow_vertices (fs_topology s). finished cs v)"
    and "length cs \<le> fr_pipeline_target_completions (fs_runtime s)"
    and "length cs < fr_pipeline_target_completions (fs_runtime s) \<Longrightarrow>
      \<exists>v \<in> flow_vertices (fs_topology s). finished cs v < window_size s"
    and "length cs = fr_pipeline_target_completions (fs_runtime s) \<Longrightarrow>
      v \<in> flow_vertices (fs_topology s) \<Longrightarrow> finished cs v = window_size s"
proof -
  let ?V = "flow_vertices (fs_topology s)" and ?n = "window_size s"
  have sub: "set (map sd_node_id cs) \<subseteq> ?V"
    and order: "window_order (flow_succ (fs_topology s)) ?V ?n (map sd_node_id cs)"
    using assms(2) unfolding window_inv_def Let_def by blast+
  have target: "fr_pipeline_target_completions (fs_runtime s) = card ?V * ?n"
    using assms(1) window_graph(3) [OF assms(1)] by (simp add: window_ok_def Let_def distinct_card)
  have le: "finished cs v \<le> ?n" for v by (rule window_order_counts(1) [OF order])
  show total: "length cs = (\<Sum>v\<in>?V. finished cs v)" using length_count_sum [OF _ sub] by simp
  have bound: "(\<Sum>v\<in>?V. finished cs v) \<le> (\<Sum>v\<in>?V. ?n)" using le by (intro sum_mono)
  then show "length cs \<le> fr_pipeline_target_completions (fs_runtime s)" using total target by simp
  show "\<exists>v \<in> ?V. finished cs v < ?n" if "length cs < fr_pipeline_target_completions (fs_runtime s)"
  proof (rule ccontr)
    assume "\<not> (\<exists>v \<in> ?V. finished cs v < ?n)"
    then have "(\<Sum>v\<in>?V. finished cs v) = (\<Sum>v\<in>?V. ?n)" using le by (intro sum.cong) (auto simp: not_less intro: antisym)
    then show False using that total target by simp
  qed
  show "finished cs v = ?n" if all: "length cs = fr_pipeline_target_completions (fs_runtime s)" and v: "v \<in> ?V"
  proof (rule ccontr)
    assume "finished cs v \<noteq> ?n"
    then have "finished cs v < ?n" using le [of v] by simp
    then have "(\<Sum>v\<in>?V. finished cs v) < (\<Sum>v\<in>?V. ?n)" using le v by (intro sum_strict_mono_ex1) auto
    then show False using all total target by simp
  qed
qed

text \<open>A program that has served passes may serve windows, one after the other, and take outputs.\<close>

inductive pipelining :: "'s forward_sun_state \<Rightarrow> u32 \<Rightarrow> bool" where
  pipelining_start: "serving s sink \<Longrightarrow> pipelining s sink"
| pipelining_window: "pipelining s sink \<Longrightarrow>
    prepare_forward_pipeline fresh (Inr ()) (collect_window m inputs s) = (Inr (), s1) \<Longrightarrow>
    pipe_loop s1 cs s2 \<Longrightarrow> \<not> pending_forward_pipeline_work s2 \<Longrightarrow> pipelining s2 sink"
| pipelining_output: "pipelining s sink \<Longrightarrow> emit_pipeline_output s = Inr d \<Longrightarrow>
    absorb_pipeline_output (Inr ()) d s = (Inr d', s') \<Longrightarrow> pipelining s' sink"

lemma prepared_next_inputs:
  assumes "prepare_port_mailboxes fresh n k ports r = (Inr (), r')" and "amap_wf (fr_next_inputs r)"
  shows "amap_wf (fr_next_inputs r')"
  using assms
proof (induction ports arbitrary: k r)
  case (Cons port ports)
  then show ?case by (cases "map_of (fr_inputs r) port") (simp, fastforce)
qed simp

lemma prepared_next_wf:
  assumes "serving_ok s sink" and "prepare_forward_pipeline fresh (Inr ()) s = (Inr (), s1)"
  shows "amap_wf (fr_next_inputs (fs_runtime s1))"
    and "fst ` set (fr_next_inputs (fs_runtime s1)) = fst ` set (sg_port_vertices (fs_topology s))"
proof -
  let ?t = "fs_topology s" and ?n = "length (fr_pipeline_inputs (fs_runtime s))"
  let ?r0 = "(fs_runtime s)\<lparr>fr_pipeline_input_ids := replicate ?n [], fr_pipeline_output_ids := replicate ?n [], fr_next_inputs := []\<rparr>"
  have n: "?n \<noteq> 0" using assms(2) by (auto simp: prepare_forward_pipeline_def Let_def)
  have sink: "fr_sink_id (fs_runtime s) = Some sink" using assms(1) by (simp add: serving_ok_def Let_def)
  obtain r where ports: "prepare_port_mailboxes fresh ?n 0 (sort (port_ids ?t)) ?r0 = (Inr (), r)"
    using assms(2) n sink by (auto simp: prepare_forward_pipeline_def Let_def split: prod.splits sum.splits)
  then have s1: "fr_next_inputs (fs_runtime s1) = fr_next_inputs r"
    using assms(2) n sink by (auto simp: prepare_forward_pipeline_def Let_def)
  show "amap_wf (fr_next_inputs (fs_runtime s1))" unfolding s1 by (rule prepared_next_inputs [OF ports]) simp
  have "q \<in> fst ` set (fr_next_inputs r) \<longleftrightarrow> q \<in> fst ` set (sg_port_vertices ?t)" for q
    using prepare_ports(3) [OF ports, of q] by (simp add: amap_dom port_ids_def)
  then show "fst ` set (fr_next_inputs (fs_runtime s1)) = fst ` set (sg_port_vertices ?t)" unfolding s1 by blast
qed

lemma window_facts:
  assumes "serving_ok s sink" and "prepare_forward_pipeline fresh (Inr ()) (collect_window m inputs s) = (Inr (), s1)"
    and "pipe_loop s1 cs s2"
  shows "window_ok s1 sink" and "window_inv s1 cs s2" and "window_size s1 = length inputs"
    and "graph_of (fs_topology s1) = graph_of (fs_topology s)"
    and "fr_pipeline_target_completions (fs_runtime s1) = length (vertex_ids (fs_topology s)) * length inputs"
proof -
  have ok: "serving_ok (collect_window m inputs s) sink" using assms(1) by (simp add: collect_serving)
  have none: "fr_completed_outputs (fs_runtime (collect_window m inputs s)) = []" by (simp add: collect_window_facts)
  note p = prepare_window [OF ok assms(2)]
  show win: "window_ok s1 sink" by (rule p(1))
  show "window_inv s1 cs s2" by (rule pipe_loop_inv [OF assms(3) win prepared_window_inv [OF ok none assms(2)]])
  show size: "window_size s1 = length inputs" using p(3) by (simp add: window_size_def collect_window_facts)
  show g: "graph_of (fs_topology s1) = graph_of (fs_topology s)" using p(2) by (simp add: collect_window_facts)
  show "fr_pipeline_target_completions (fs_runtime s1) = length (vertex_ids (fs_topology s)) * length inputs"
    using win size by (simp add: window_ok_def Let_def graph_of_facts [OF g])
qed

lemma window_serves_again:
  assumes "serving_ok s sink" and "prepare_forward_pipeline fresh (Inr ()) (collect_window m inputs s) = (Inr (), s1)"
    and "pipe_loop s1 cs s2" and "\<not> pending_forward_pipeline_work s2"
  shows "serving_ok s2 sink" and "fr_inputs (fs_runtime s2) = fr_next_inputs (fs_runtime s1)"
proof -
  note w = window_facts [OF assms(1-3)]
  have ok: "serving_ok (collect_window m inputs s) sink" using assms(1) by (simp add: collect_serving)
  have full: "length cs = fr_pipeline_target_completions (fs_runtime s1)"
    using window_pending [OF w(2)] assms(4) window_counts(2) [OF w(1,2)] by simp
  have s2: "graph_of (fs_topology s2) = graph_of (fs_topology s1)" "fr_sink_id (fs_runtime s2) = fr_sink_id (fs_runtime s1)"
    using w(2) unfolding window_inv_def Let_def by blast+
  show inputs: "fr_inputs (fs_runtime s2) = fr_next_inputs (fs_runtime s1)"
    using w(2) full unfolding window_inv_def Let_def by blast
  note g1 = graph_of_facts [OF w(4)]
  note g2 = graph_of_facts [OF s2(1)]
  have next_ok: "amap_wf (fr_next_inputs (fs_runtime s1))"
    "fst ` set (fr_next_inputs (fs_runtime s1)) = fst ` set (sg_port_vertices (fs_topology s1))"
    using prepared_next_wf [OF ok assms(2)] by (simp_all add: collect_window_facts g1)
  show "serving_ok s2 sink"
    using w(1) next_ok s2(2) by (simp add: serving_ok_def window_ok_def Let_def g2 inputs)
qed

lemma pipelining_invariant: "pipelining s sink \<Longrightarrow> serving_ok s sink"
proof (induction rule: pipelining.induct)
  case (pipelining_window s sink fresh m inputs s1 cs s2)
  show ?case by (rule window_serves_again(1) [OF pipelining_window.IH pipelining_window.hyps(2-4)])
next
  case (pipelining_output s sink d d' s')
  obtain ds where "s' = s\<lparr>fs_runtime := (fs_runtime s)\<lparr>fr_completed_outputs := ds\<rparr>\<rparr>"
    using pipelining_output.hyps(3) by (auto simp: absorb_pipeline_output_def split: list.splits)
  then show ?case using pipelining_output.IH by (simp add: serving_ok_def)
qed (rule serving_invariant)

text \<open>
  C33: A window of the pipeline cannot get stuck or fail on its own account. At any point of its
  loop no vertex has completed more inputs than there are, and every completion of an input came
  after those of the same input at all predecessors; while work is pending the next tick emits
  without a panic, has an endpoint to wait for, and absorbs a completion of any endpoint; there
  are exactly as many ticks as vertices times inputs, and then every vertex has completed every
  input, the outputs are those of the sink in order, one for each input, and the program is
  ready for the next window.
\<close>

theorem pipeline_window_completes:
  assumes "pipelining s sink" and "prepare_forward_pipeline fresh (Inr ()) (collect_window m inputs s) = (Inr (), s1)"
    and "pipe_loop s1 cs s2"
  shows "window_order (flow_succ (fs_topology s)) (flow_vertices (fs_topology s)) (length inputs) (map sd_node_id cs)
    \<and> length cs \<le> length (vertex_ids (fs_topology s)) * length inputs
    \<and> (pending_forward_pipeline_work s2 \<longleftrightarrow> length cs < length (vertex_ids (fs_topology s)) * length inputs)
    \<and> (pending_forward_pipeline_work s2 \<longrightarrow> (\<exists>sends s3 endpoints downstream.
          emit_ready_roots s2 = Inr sends \<and> absorb_ready_roots (Inr (sent_nodes sends)) s2 = (Inr (), s3)
          \<and> emit_pipeline_node s3 = Inr (endpoints, downstream) \<and> endpoints \<noteq> []
          \<and> (\<forall>c. sd_node_id c \<in> fst ` set endpoints \<longrightarrow> (\<exists>s4. absorb_pipeline_node (Inr c) s3 = (Inr (), s4)))))
    \<and> (\<not> pending_forward_pipeline_work s2 \<longrightarrow>
          (\<forall>v \<in> flow_vertices (fs_topology s). finished cs v = length inputs)
          \<and> fr_completed_outputs (fs_runtime s2) = map sd_delivery (filter (\<lambda>c. sd_node_id c = sink) cs)
          \<and> length (fr_completed_outputs (fs_runtime s2)) = length inputs \<and> serving_ok s2 sink)"
proof -
  have ok: "serving_ok s sink" by (rule pipelining_invariant [OF assms(1)])
  note w = window_facts [OF ok assms(2,3)]
  note g = graph_of_facts [OF w(4)]
  note counts = window_counts [OF w(1,2)]
  note pending = window_pending [OF w(2)]
  have order: "window_order (flow_succ (fs_topology s)) (flow_vertices (fs_topology s)) (length inputs) (map sd_node_id cs)"
    using w(2) unfolding window_inv_def Let_def g w(3) by blast
  have live: "\<exists>sends s3 endpoints downstream. emit_ready_roots s2 = Inr sends
      \<and> absorb_ready_roots (Inr (sent_nodes sends)) s2 = (Inr (), s3) \<and> emit_pipeline_node s3 = Inr (endpoints, downstream)
      \<and> endpoints \<noteq> [] \<and> (\<forall>c. sd_node_id c \<in> fst ` set endpoints \<longrightarrow> (\<exists>s4. absorb_pipeline_node (Inr c) s3 = (Inr (), s4)))"
    if "pending_forward_pipeline_work s2"
  proof -
    have more: "length cs < fr_pipeline_target_completions (fs_runtime s1)" using pending that by blast
    obtain sends s3 endpoints downstream where tick: "emit_ready_roots s2 = Inr sends"
      "absorb_ready_roots (Inr (sent_nodes sends)) s2 = (Inr (), s3)" "emit_pipeline_node s3 = Inr (endpoints, downstream)"
      "window_inv s1 cs s3" "roots_ahead s1 cs s3" and ready: "map fst endpoints = pipeline_ready_nodes (fs_runtime s3) (fs_topology s3)"
      using tick_total [OF w(1,2) more] by blast
    obtain v where "v \<in> flow_vertices (fs_topology s1)" "finished cs v < window_size s1" using counts(3) [OF more] by blast
    from some_ready [OF w(1) tick(4,5) this] have "endpoints \<noteq> []" unfolding ready [symmetric] by simp
    moreover have "\<exists>s4. absorb_pipeline_node (Inr c) s3 = (Inr (), s4)" if "sd_node_id c \<in> fst ` set endpoints" for c
      using absorb_node_total [OF w(1) tick(4) more tick(5), of c] that unfolding ready [symmetric] by auto
    ultimately show ?thesis using tick(1-3) by blast
  qed
  have finish: "(\<forall>v \<in> flow_vertices (fs_topology s). finished cs v = length inputs)
      \<and> fr_completed_outputs (fs_runtime s2) = map sd_delivery (filter (\<lambda>c. sd_node_id c = sink) cs)
      \<and> length (fr_completed_outputs (fs_runtime s2)) = length inputs \<and> serving_ok s2 sink"
    if finished: "\<not> pending_forward_pipeline_work s2"
  proof -
    have full: "length cs = fr_pipeline_target_completions (fs_runtime s1)" using pending finished counts(2) by simp
    have all: "finished cs v = length inputs" if "v \<in> flow_vertices (fs_topology s)" for v
      using counts(4) [OF full, of v] that by (simp add: g w(3))
    have sink: "fr_sink_id (fs_runtime s1) = Some sink" "sink \<in> flow_vertices (fs_topology s1)"
      using w(1) by (auto simp: window_ok_def Let_def flow_graph_def)
    have outs: "fr_completed_outputs (fs_runtime s2) = map sd_delivery (filter (\<lambda>c. sd_node_id c = sink) cs)"
      using w(2) by (simp add: window_inv_def Let_def sink(1))
    have "length (filter (\<lambda>c. sd_node_id c = sink) cs) = finished cs sink" by (induction cs) auto
    then show ?thesis using all sink(2) outs window_serves_again(1) [OF ok assms(2,3) finished] by (simp add: g)
  qed
  show ?thesis using order counts(2) pending live finish unfolding w(5) by blast
qed

end
