(* ===== verification/Flux_Witness.thy ===== *)
theory Flux_Witness
  imports Flux_Window "HOL-Library.Code_Target_Nat"
begin

text \<open>
  A concrete deployment: a root that feeds a middle vertex and one port of a binary sink, whose
  other port the middle vertex feeds. It is finalized and run through one pass, and it serves a
  window of two inputs in the pipeline.
\<close>

definition plain_contract :: contract_descriptor where
  "plain_contract = \<lparr>cd_id = ContractId [1], cd_version = 1, cd_inputs = [], cd_outputs = []\<rparr>"

definition plain_edges :: "u32 list \<Rightarrow> declared_edge list" where
  "plain_edges ports = declared_edges_of plain_contract (map (\<lambda>p. (p, plain_contract)) ports)"

abbreviation unit_program :: "(unit forward_sun_state, cell_init, fusion_seed, boundary_init) sun_program" where
  "unit_program \<equiv> forward_program"

definition with_root :: "unit forward_sun_state" where
  "with_root = projr (spawn_unary forward_program 0 ''toys::Root'' plain_contract (plain_edges [1, 2]) (Inr 50)
     (sp_unary_seed unit_program 10) (empty_forward_state ()))"

definition with_middle :: "unit forward_sun_state" where
  "with_middle = projr (spawn_unary forward_program 1 ''toys::Middle'' plain_contract (plain_edges [3]) (Inr 51)
     (sp_unary_seed unit_program 11) with_root)"

definition with_sink :: "unit forward_sun_state" where
  "with_sink = projr (spawn_binary forward_program 2 3 ''toys::Sink'' plain_contract [] (Inr 52)
     (sp_binary_seed unit_program (12, 13)) with_middle)"

definition served :: "unit forward_sun_state" where
  "served = snd (finalize_forward_graph (Inr ()) with_sink)"

lemma spawn_Inr:
  "spawn_unary P p n c es (Inr j) u s = Inr (projr (spawn_unary P p n c es (Inr j) u s))"
  "spawn_binary P p q n c es (Inr j) b s = Inr (projr (spawn_binary P p q n c es (Inr j) b s))"
  by (simp_all add: spawn_unary_def spawn_binary_def split: prod.split)

lemma deployed_with_sink: "deployed with_sink"
  unfolding with_sink_def with_middle_def with_root_def
  by (intro deployed_binary [OF deployed_unary [OF deployed_unary [OF deployed_empty spawn_Inr(1)] spawn_Inr(1)] spawn_Inr(2)])

lemma served_finalized:
  "fst (finalize_forward_graph (Inr ()) with_sink) = Inr ()" "fr_sink_id (fs_runtime served) = Some 2"
  by code_simp+

lemma serving_served: "serving served 2"
proof (rule serving_start [OF deployed_with_sink _ served_finalized(2)])
  show "finalize_forward_graph (Inr ()) with_sink = (Inr (), served)"
    using served_finalized(1) unfolding served_def by (metis prod.collapse)
qed

definition a_delivery :: artifact_delivery where
  "a_delivery = \<lparr>ad_emission_id = 7, ad_recv = 0, ad_send = 0\<rparr>"

definition completes :: "u32 \<Rightarrow> u32 list \<Rightarrow> scheduler_delivery" where
  "completes i sent = \<lparr>sd_node_id = i, sd_delivery = a_delivery, sd_sent_node_ids = sent\<rparr>"

definition pass_0 :: "unit forward_sun_state" where
  "pass_0 = snd (prepare_forward_pass (\<lambda>n. of_nat (100 + n)) (Inr ()) a_delivery served)"
definition pass_1 :: "unit forward_sun_state" where
  "pass_1 = snd (absorb_forward_roots (Inr [0]) a_delivery pass_0)"
definition pass_2 :: "unit forward_sun_state" where
  "pass_2 = snd (absorb_forward_node (Inr (completes 0 [1, 2])) pass_1)"
definition pass_3 :: "unit forward_sun_state" where
  "pass_3 = snd (absorb_forward_node (Inr (completes 1 [2])) pass_2)"
definition pass_4 :: "unit forward_sun_state" where
  "pass_4 = snd (absorb_forward_node (Inr (completes 2 [])) pass_3)"

text \<open>The whole pass, evaluated once.\<close>

lemma pass_evaluated:
  "let s = served; s0 = snd (prepare_forward_pass (\<lambda>n. of_nat (100 + n)) (Inr ()) a_delivery s);
       s1 = snd (absorb_forward_roots (Inr [0]) a_delivery s0);
       r2 = absorb_forward_node (Inr (completes 0 [1, 2])) s1;
       r3 = absorb_forward_node (Inr (completes 1 [2])) (snd r2);
       r4 = absorb_forward_node (Inr (completes 2 [])) (snd r3) in
   [fst (prepare_forward_pass (\<lambda>n. of_nat (100 + n)) (Inr ()) a_delivery s), fst (absorb_forward_roots (Inr [0]) a_delivery s0),
    fst r2, fst r3, fst r4] = replicate 5 (Inr a_delivery)
   \<and> [pending_forward_work s1, pending_forward_work (snd r2), pending_forward_work (snd r3), pending_forward_work (snd r4)]
     = [True, True, True, False]
   \<and> [map fst (fst (emit_forward_node s1)), map fst (fst (emit_forward_node (snd r2))), map fst (fst (emit_forward_node (snd r3)))]
     = [[0], [1], [2]]
   \<and> (map_of (sg_port_vertices (fs_topology s)) 3, map_of (fr_inputs (fs_runtime s)) 3, map_of (fr_outputs (fs_runtime s0)) 2)
     = (Some 2, Some 13, Some 106)"
  by code_simp

lemma pass_results:
  "fst (prepare_forward_pass (\<lambda>n. of_nat (100 + n)) (Inr ()) a_delivery served) = Inr a_delivery"
  "fst (absorb_forward_roots (Inr [0]) a_delivery pass_0) = Inr a_delivery"
  "fst (absorb_forward_node (Inr (completes 0 [1, 2])) pass_1) = Inr a_delivery"
  "fst (absorb_forward_node (Inr (completes 1 [2])) pass_2) = Inr a_delivery"
  "fst (absorb_forward_node (Inr (completes 2 [])) pass_3) = Inr a_delivery"
  using pass_evaluated
  by (simp_all only: Let_def pass_0_def [symmetric] pass_1_def [symmetric] pass_2_def [symmetric] pass_3_def [symmetric]
      pass_4_def [symmetric]) (simp_all add: eval_nat_numeral)

lemma pass_points:
  "pending_forward_work pass_1" "pending_forward_work pass_2" "pending_forward_work pass_3" "\<not> pending_forward_work pass_4"
  "map fst (fst (emit_forward_node pass_1)) = [0]" "map fst (fst (emit_forward_node pass_2)) = [1]"
  "map fst (fst (emit_forward_node pass_3)) = [2]"
  "map_of (sg_port_vertices (fs_topology served)) 3 = Some 2" "map_of (fr_inputs (fs_runtime served)) 3 = Some 13"
  "map_of (fr_outputs (fs_runtime pass_0)) 2 = Some 106"
  using pass_evaluated
  by (simp_all only: Let_def pass_0_def [symmetric] pass_1_def [symmetric] pass_2_def [symmetric] pass_3_def [symmetric]
      pass_4_def [symmetric]) simp_all

lemma pass_endpoints:
  "0 \<in> fst ` set (fst (emit_forward_node pass_1))" "1 \<in> fst ` set (fst (emit_forward_node pass_2))"
  "2 \<in> fst ` set (fst (emit_forward_node pass_3))"
  using keys_of_map_fst [OF pass_points(5)] keys_of_map_fst [OF pass_points(6)] keys_of_map_fst [OF pass_points(7)]
  by simp_all

lemma demo_pass:
  "\<exists>ms. pass_run served pass_0 [completes 0 [1, 2], completes 1 [2], completes 2 []] ms pass_4"
proof -
  have step: "pass_loop pass_1 cs ms s \<Longrightarrow> pending_forward_work s \<Longrightarrow>
      i \<in> fst ` set (fst (emit_forward_node s)) \<Longrightarrow> fst (absorb_forward_node (Inr (completes i sent)) s) = Inr d \<Longrightarrow>
      \<exists>ms. pass_loop pass_1 (cs @ [completes i sent]) ms (snd (absorb_forward_node (Inr (completes i sent)) s))"
    for cs ms i sent d and s :: "unit forward_sun_state"
    using pass_next [of pass_1 cs ms s "completes i sent" d] by (metis completes_def prod.collapse scheduler_delivery.select_convs(1))
  obtain ms1 where "pass_loop pass_1 ([] @ [completes 0 [1, 2]]) ms1 pass_2"
    using step [OF pass_start pass_points(1) pass_endpoints(1) pass_results(3)] unfolding pass_2_def by blast
  from step [OF this pass_points(2) pass_endpoints(2) pass_results(4)] obtain ms2 where
    "pass_loop pass_1 (([] @ [completes 0 [1, 2]]) @ [completes 1 [2]]) ms2 pass_3" unfolding pass_3_def by blast
  from step [OF this pass_points(3) pass_endpoints(3) pass_results(5)] obtain ms3 where
    "pass_loop pass_1 ((([] @ [completes 0 [1, 2]]) @ [completes 1 [2]]) @ [completes 2 []]) ms3 pass_4"
    unfolding pass_4_def by blast
  moreover have "prepare_forward_pass (\<lambda>n. of_nat (100 + n)) (Inr ()) a_delivery served = (Inr a_delivery, pass_0)"
    "absorb_forward_roots (Inr [0]) a_delivery pass_0 = (Inr a_delivery, pass_1)"
    using pass_results(1,2) unfolding pass_0_def pass_1_def by (metis prod.collapse)+
  ultimately show ?thesis unfolding pass_run_def by fastforce
qed

lemma forward_pass_completes_witness:
  "\<exists>ms. pass_run served pass_0 [completes 0 [1, 2], completes 1 [2], completes 2 []] ms pass_4
    \<and> set (map sd_node_id [completes 0 [1, 2], completes 1 [2], completes 2 []]) = flow_vertices (fs_topology served)"
  using demo_pass forward_pass_completes [OF serving_served] pass_points(4) by blast

lemma each_port_fed_once_witness:
  "\<exists>ms next. map_of (fr_inputs (fs_runtime (snd (complete_forward_pass (Inr ()) a_delivery pass_4)))) 3 = Some next
    \<and> filter (\<lambda>m. pg_port_id m = 3) (emit_forward_roots pass_0 @ ms)
      = [\<lparr>pg_node_id = 2, pg_port_id = 3, pg_input_id = 13, pg_next_input_id = next, pg_output_id = 106\<rparr>]"
proof -
  obtain ms where run: "pass_run served pass_0 [completes 0 [1, 2], completes 1 [2], completes 2 []] ms pass_4"
    using demo_pass by blast
  have complete: "complete_forward_pass (Inr ()) a_delivery pass_4
      = (Inr a_delivery, snd (complete_forward_pass (Inr ()) a_delivery pass_4))"
    by (simp add: complete_forward_pass_def)
  from pass_points(8-10) each_port_fed_once [OF serving_served run pass_points(4) complete, of 3 2] show ?thesis by auto
qed

lemma resolve_accepts_flow_graphs_witness:
  "flow_graph (fs_topology with_sink) 2"
proof -
  have "fst (resolve_neutral_topology (fs_topology with_sink)) = Inr 2" by code_simp
  with resolve_accepts_flow_graphs [OF deployed_with_sink, of 2] show ?thesis by simp
qed

text \<open>A window of two inputs, with the second input entering while the first is under way.\<close>

definition window_0 :: "unit forward_sun_state" where
  "window_0 = snd (prepare_forward_pipeline (\<lambda>n. of_nat (200 + n)) (Inr ()) (collect_window 2 [a_delivery, a_delivery] served))"

definition sent_roots :: "unit forward_sun_state \<Rightarrow> unit forward_sun_state" where
  "sent_roots s = snd (absorb_ready_roots (Inr (sent_nodes (projr (emit_ready_roots s)))) s)"

definition tick :: "scheduler_delivery \<Rightarrow> unit forward_sun_state \<Rightarrow> unit forward_sun_state" where
  "tick c s = snd (absorb_pipeline_node (Inr c) (sent_roots s))"

definition tick_ok :: "scheduler_delivery \<Rightarrow> unit forward_sun_state \<Rightarrow> bool" where
  "tick_ok c s \<longleftrightarrow> pending_forward_pipeline_work s \<and> \<not> isl (emit_ready_roots s)
    \<and> fst (absorb_ready_roots (Inr (sent_nodes (projr (emit_ready_roots s)))) s) = Inr ()
    \<and> \<not> isl (emit_pipeline_node (sent_roots s))
    \<and> sd_node_id c \<in> set (map fst (fst (projr (emit_pipeline_node (sent_roots s)))))
    \<and> fst (absorb_pipeline_node (Inr c) (sent_roots s)) = Inr ()"

primrec ticks_ok :: "scheduler_delivery list \<Rightarrow> unit forward_sun_state \<Rightarrow> bool" where
  "ticks_ok [] s \<longleftrightarrow> \<not> pending_forward_pipeline_work s"
| "ticks_ok (c # cs) s \<longleftrightarrow> tick_ok c s \<and> ticks_ok cs (tick c s)"

lemma tick_loop:
  assumes "pipe_loop s0 cs s" and "tick_ok c s"
  shows "pipe_loop s0 (cs @ [c]) (tick c s)"
proof -
  from assms(2) obtain sends endpoints downstream where
    "emit_ready_roots s = Inr sends" "emit_pipeline_node (sent_roots s) = Inr (endpoints, downstream)"
    unfolding tick_ok_def by (metis prod.collapse sum.collapse(2))
  moreover from this have "absorb_ready_roots (Inr (sent_nodes sends)) s = (Inr (), sent_roots s)"
    "absorb_pipeline_node (Inr c) (sent_roots s) = (Inr (), tick c s)" "sd_node_id c \<in> fst ` set endpoints"
    using assms(2) by (auto simp: tick_ok_def tick_def sent_roots_def prod_eq_iff)
  ultimately show ?thesis using pipe_tick [OF assms(1)] assms(2) unfolding tick_ok_def by blast
qed

lemma ticks_loop: "pipe_loop s0 cs s \<Longrightarrow> ticks_ok ds s \<Longrightarrow>
    pipe_loop s0 (cs @ ds) (fold tick ds s) \<and> \<not> pending_forward_pipeline_work (fold tick ds s)"
proof (induction ds arbitrary: cs s)
  case (Cons d ds)
  from Cons.IH [OF tick_loop [OF Cons.prems(1)]] Cons.prems(2) show ?case by simp
qed simp

abbreviation interleaved :: "scheduler_delivery list" where
  "interleaved \<equiv> [completes 0 [1, 2], completes 1 [2], completes 0 [1, 2], completes 2 [], completes 1 [2], completes 2 []]"

lemma window_prepared:
  "prepare_forward_pipeline (\<lambda>n. of_nat (200 + n)) (Inr ()) (collect_window 2 [a_delivery, a_delivery] served) = (Inr (), window_0)"
proof -
  have "fst (prepare_forward_pipeline (\<lambda>n. of_nat (200 + n)) (Inr ()) (collect_window 2 [a_delivery, a_delivery] served)) = Inr ()"
    by code_simp
  then show ?thesis unfolding window_0_def by (metis prod.collapse)
qed

lemma window_served: "ticks_ok interleaved window_0"
  by code_simp

lemma pipeline_window_completes_witness:
  "\<exists>s. pipe_loop window_0 interleaved s \<and> (\<forall>v \<in> flow_vertices (fs_topology served). finished interleaved v = 2)
    \<and> length (fr_completed_outputs (fs_runtime s)) = 2"
proof -
  have loop: "pipe_loop window_0 interleaved (fold tick interleaved window_0)"
    and done_all: "\<not> pending_forward_pipeline_work (fold tick interleaved window_0)"
    using ticks_loop [OF pipe_start window_served] by simp_all
  note * = pipeline_window_completes [OF pipelining_start [OF serving_served] window_prepared loop]
  from * done_all have "\<forall>v \<in> flow_vertices (fs_topology served). finished interleaved v = length [a_delivery, a_delivery]"
    "length (fr_completed_outputs (fs_runtime (fold tick interleaved window_0))) = length [a_delivery, a_delivery]"
    by blast+
  with loop show ?thesis by (intro exI [of _ "fold tick interleaved window_0"]) simp
qed

end
