(* ===== verification/Score_Lexer.thy ===== *)
theory Score_Lexer
  imports Sun_Prelude
begin

text \<open>
  The string operations of the standard library that the score parser uses, on texts whose
  characters are below 256: a \<open>char\<close> stands for the code point of its value. From 128 on a
  character takes two bytes of the UTF-8 encoding, which matters where the code indexes bytes.
  The second half is about texts that were written line by line and word by word.
\<close>

section \<open>Characters and slices\<close>

definition newline :: char where "newline = CHR 0x0A"

definition is_whitespace :: "char \<Rightarrow> bool" where
  "is_whitespace c \<longleftrightarrow> (let n = of_char c in (9 \<le> n \<and> n \<le> 13) \<or> n = 32 \<or> n = 133 \<or> n = (160 :: nat))"

definition ascii_upper :: "char \<Rightarrow> char" where
  "ascii_upper c = (let n = of_char c :: nat in if 97 \<le> n \<and> n \<le> 122 then char_of (n - 32) else c)"

definition utf8_length :: "string \<Rightarrow> nat" where
  "utf8_length t = (\<Sum>c\<leftarrow>t. if of_char c < (128 :: nat) then 1 else 2)"

definition trim_text :: "string \<Rightarrow> string" where
  "trim_text t = dropWhile is_whitespace (rev (dropWhile is_whitespace (rev t)))"

definition strip_prefix_str :: "string \<Rightarrow> string \<Rightarrow> string option" where
  "strip_prefix_str p t = (if take (length p) t = p then Some (drop (length p) t) else None)"

definition strip_suffix_char :: "char \<Rightarrow> string \<Rightarrow> string option" where
  "strip_suffix_char c t = (if t \<noteq> [] \<and> last t = c then Some (butlast t) else None)"

section \<open>Lines and words\<close>

text \<open>\<open>str::lines\<close>; the first argument is the line read so far.\<close>

fun lines_from :: "string \<Rightarrow> string \<Rightarrow> string list" where
  "lines_from cur [] = (if cur = [] then [] else [cur])"
| "lines_from cur (c # cs) =
     (if c = newline
      then (case strip_suffix_char (CHR 0x0D) cur of Some l \<Rightarrow> l | None \<Rightarrow> cur) # lines_from [] cs
      else lines_from (cur @ [c]) cs)"

definition text_lines :: "string \<Rightarrow> string list" where
  "text_lines t = lines_from [] t"

text \<open>\<open>str::split_whitespace\<close>\<close>

fun words_from :: "string \<Rightarrow> string \<Rightarrow> string list" where
  "words_from cur [] = (if cur = [] then [] else [cur])"
| "words_from cur (c # cs) =
     (if is_whitespace c then (if cur = [] then words_from [] cs else cur # words_from [] cs)
      else words_from (cur @ [c]) cs)"

definition split_whitespace :: "string \<Rightarrow> string list" where
  "split_whitespace t = words_from [] t"

section \<open>Unsigned integers\<close>

text \<open>\<open>parse::<u8>\<close> and its siblings: decimal digits after an optional plus sign.\<close>

definition digit_value :: "char \<Rightarrow> nat option" where
  "digit_value c = (let n = of_char c :: nat in if 48 \<le> n \<and> n \<le> 57 then Some (n - 48) else None)"

fun digits_value :: "nat \<Rightarrow> string \<Rightarrow> nat option" where
  "digits_value n [] = Some n"
| "digits_value n (c # cs) = (case digit_value c of None \<Rightarrow> None | Some d \<Rightarrow> digits_value (10 * n + d) cs)"

definition parse_nat :: "string \<Rightarrow> nat option" where
  "parse_nat t =
     (let ds = (case t of c # d # ds \<Rightarrow> if c = CHR ''+'' then d # ds else t | _ \<Rightarrow> t) in
      if ds = [] then None else digits_value 0 ds)"

definition parse_unsigned :: "string \<Rightarrow> 'a::len word option" where
  "parse_unsigned t =
     (case parse_nat t of
        None \<Rightarrow> None
      | Some n \<Rightarrow> if n < 2 ^ LENGTH('a) then Some (of_nat n) else None)"

section \<open>Texts written line by line\<close>

definition plain_line :: "string \<Rightarrow> bool" where
  "plain_line l \<longleftrightarrow> newline \<notin> set l \<and> (l \<noteq> [] \<longrightarrow> last l \<noteq> CHR 0x0D)"

lemma lines_from_line:
  "plain_line (cur @ l) \<Longrightarrow> lines_from cur (l @ newline # t) = (cur @ l) # text_lines t"
proof (induction l arbitrary: cur)
  case Nil
  then show ?case by (auto simp: plain_line_def strip_suffix_char_def text_lines_def)
next
  case (Cons c l)
  from Cons.IH [of "cur @ [c]"] Cons.prems show ?case by (auto simp: plain_line_def)
qed

lemma text_lines_written:
  "\<forall>l \<in> set ls. plain_line l \<Longrightarrow> text_lines (concat (map (\<lambda>l. l @ [newline]) ls)) = ls"
proof (induction ls)
  case (Cons l ls)
  then show ?case using lines_from_line [of "[]" l] by (simp add: text_lines_def)
qed (simp add: text_lines_def)

section \<open>Lines written word by word\<close>

definition plain_word :: "string \<Rightarrow> bool" where
  "plain_word w \<longleftrightarrow> w \<noteq> [] \<and> list_all (\<lambda>c. \<not> is_whitespace c \<and> c \<noteq> CHR '';'') w"

fun unwords :: "string list \<Rightarrow> string" where
  "unwords [] = []"
| "unwords [w] = w"
| "unwords (w # ws) = w @ CHR '' '' # unwords ws"

lemma words_from_word:
  "list_all (\<lambda>c. \<not> is_whitespace c) w \<Longrightarrow> words_from cur (w @ t) = words_from (cur @ w) t"
  by (induction w arbitrary: cur) auto

lemma space_is_whitespace: "is_whitespace (CHR '' '')" "is_whitespace newline" "is_whitespace (CHR 0x0D)"
  by (simp_all add: is_whitespace_def newline_def)

lemma plain_word_solid: "plain_word w \<Longrightarrow> list_all (\<lambda>c. \<not> is_whitespace c) w"
  by (simp add: plain_word_def list_all_iff)

lemma split_unwords: "list_all plain_word ws \<Longrightarrow> split_whitespace (unwords ws) = ws"
proof (induction ws rule: unwords.induct)
  case (2 w)
  then show ?case using words_from_word [of w "[]" "[]"]
    by (simp add: split_whitespace_def plain_word_solid) (simp add: plain_word_def)
next
  case (3 w v ws)
  then have "words_from [] (w @ CHR '' '' # unwords (v # ws)) = w # words_from [] (unwords (v # ws))"
    using words_from_word [of w "[]" "CHR '' '' # unwords (v # ws)"]
    by (simp add: plain_word_solid space_is_whitespace) (simp add: plain_word_def)
  with 3 show ?case by (simp add: split_whitespace_def)
qed (simp add: split_whitespace_def)

lemma unwords_ends:
  "list_all plain_word ws \<Longrightarrow> ws \<noteq> [] \<Longrightarrow>
    unwords ws \<noteq> [] \<and> \<not> is_whitespace (hd (unwords ws)) \<and> \<not> is_whitespace (last (unwords ws))"
  by (induction ws rule: unwords.induct) (auto simp: plain_word_def list_all_iff)

lemma unwords_chars:
  "list_all plain_word ws \<Longrightarrow> c \<in> set (unwords ws) \<Longrightarrow> c = CHR '' '' \<or> (\<not> is_whitespace c \<and> c \<noteq> CHR '';'')"
  by (induction ws rule: unwords.induct) (auto simp: plain_word_def list_all_iff)

lemma dropWhile_solid: "xs \<noteq> [] \<Longrightarrow> \<not> P (hd xs) \<Longrightarrow> dropWhile P xs = xs"
  by (cases xs) auto

lemma trim_solid: "t \<noteq> [] \<Longrightarrow> \<not> is_whitespace (hd t) \<Longrightarrow> \<not> is_whitespace (last t) \<Longrightarrow> trim_text t = t"
  by (simp add: trim_text_def dropWhile_solid hd_rev)

lemma trim_unwords: "list_all plain_word ws \<Longrightarrow> trim_text (unwords ws) = unwords ws"
  by (cases "ws = []") (simp add: trim_text_def, simp add: trim_solid unwords_ends)

lemma plain_line_unwords: "list_all plain_word ws \<Longrightarrow> plain_line (unwords ws)"
  using unwords_ends [of ws] unwords_chars [of ws newline] space_is_whitespace
  by (cases "ws = []") (auto simp: plain_line_def newline_def)

section \<open>Decimal numbers are read back\<close>

lemma digits_value_append:
  "digits_value n (xs @ ys) = (case digits_value n xs of None \<Rightarrow> None | Some m \<Rightarrow> digits_value m ys)"
  by (induction xs arbitrary: n) (auto split: option.splits)

lemma digit_value_char: "d < 10 \<Longrightarrow> digit_value (digit_char d) = Some d"
  by (simp add: digit_value_def)

declare digit_char.simps [simp del]

lemma show_nat_value: "digits_value 0 (show_nat n) = Some n"
proof (induction n rule: show_nat.induct)
  case (1 n)
  show ?case
  proof (cases "n < 10")
    case True
    then show ?thesis by (simp add: show_nat.simps [of n] digit_value_char)
  next
    case False
    with 1 show ?thesis by (simp add: show_nat.simps [of n] digits_value_append digit_value_char)
  qed
qed

lemma digit_char_plain:
  "d < 10 \<Longrightarrow> \<not> is_whitespace (digit_char d) \<and> digit_char d \<noteq> CHR '';'' \<and> digit_char d \<noteq> CHR ''+''" for d :: nat
proof -
  assume d: "d < 10"
  have c: "of_char (digit_char d) = 48 + d" using d by (simp add: digit_char.simps)
  have "of_char (CHR '';'') = (59 :: nat)" "of_char (CHR ''+'') = (43 :: nat)" by simp_all
  with c d have "digit_char d \<noteq> CHR '';''" "digit_char d \<noteq> CHR ''+''"
    by auto
  then show ?thesis using c d by (simp add: is_whitespace_def)
qed

lemma show_nat_plain: "plain_word (show_nat n)"
  using show_nat_digits digit_char_plain show_nat_nonempty by (fastforce simp: plain_word_def list_all_iff)

lemma parse_show_nat: "parse_nat (show_nat n) = Some n"
proof -
  have "\<forall>c \<in> set (show_nat n). c \<noteq> CHR ''+''" using show_nat_digits digit_char_plain by metis
  then have "(case show_nat n of c # d # ds \<Rightarrow> if c = CHR ''+'' then d # ds else show_nat n | _ \<Rightarrow> show_nat n) = show_nat n"
    by (auto split: list.splits)
  then show ?thesis by (simp add: parse_nat_def show_nat_nonempty show_nat_value)
qed

lemma parse_show_word: "parse_unsigned (show_nat (unat w)) = Some w" for w :: "'a::len word"
  by (simp add: parse_unsigned_def parse_show_nat)

end
