(* ===== verification/Score_Text.thy ===== *)
theory Score_Text
  imports Score_Lexer "HOL-Library.Product_Lexorder"
begin

text \<open>
  The piano score format \<open>bhs-score-v1\<close> (\<open>_black_hole_beam/src/piano/score_text.rs\<close>): the
  document, its parser, its canonical text and its diagnostics. An error message is the
  template of the source with its arguments. The text of a quotient of ticks with a number of
  decimals, which only appears in comments, is a parameter.
\<close>

section \<open>Documents\<close>

datatype score_failure =
    Refused string "string list"
  | Panic string

record score_note_pair =
  sn_start_tick :: u64
  sn_duration_ticks :: u64
  sn_midi_note :: u8
  sn_velocity :: u8
  sn_release_velocity :: "u8 option"

record annotated_pair =
  an_pair :: score_note_pair
  an_comments :: "string list"

record bhs_score =
  sc_ticks_per_second :: u64
  sc_measure_ticks :: "u64 option"
  sc_loop_ticks :: "u64 option"
  sc_pairs :: "annotated_pair list"
  sc_leading :: "string list"
  sc_trailing :: "string list"
  sc_anchors :: "(u64 \<times> u64) list"

definition first_midi_note :: u8 where "first_midi_note = 21"
definition last_midi_note :: u8 where "last_midi_note = 108"
definition max_velocity :: u8 where "max_velocity = 127"
definition format_name :: string where "format_name = ''bhs-score-v1''"
definition title_comment :: string where "title_comment = ''; black-hole-beam piano score''"
definition legend_comment :: string where
  "legend_comment = ''; start duration note velocity [release_velocity]''"
definition anchor_prefix :: string where "anchor_prefix = ''; --- measure ''"

definition end_tick :: "score_note_pair \<Rightarrow> u64" where
  "end_tick p = sn_start_tick p + sn_duration_ticks p"

definition new_score :: "u64 \<Rightarrow> u64 option \<Rightarrow> u64 option \<Rightarrow> score_note_pair list \<Rightarrow> bhs_score" where
  "new_score tps measure_ticks loop_ticks pairs =
     \<lparr>sc_ticks_per_second = tps, sc_measure_ticks = measure_ticks, sc_loop_ticks = loop_ticks,
      sc_pairs = map (\<lambda>p. \<lparr>an_pair = p, an_comments = []\<rparr>) pairs,
      sc_leading = [], sc_trailing = [], sc_anchors = []\<rparr>"

definition score_pairs :: "bhs_score \<Rightarrow> score_note_pair list" where
  "score_pairs s = map an_pair (sc_pairs s)"

definition canonical_pair_order_key :: "score_note_pair \<Rightarrow> u64 \<times> u8 \<times> u8" where
  "canonical_pair_order_key p = (sn_start_tick p, sn_midi_note p, sn_velocity p)"

definition sorted_pairs :: "bhs_score \<Rightarrow> score_note_pair list" where
  "sorted_pairs s = sort_key canonical_pair_order_key (score_pairs s)"

definition sorted_pairs_with_comments :: "bhs_score \<Rightarrow> annotated_pair list" where
  "sorted_pairs_with_comments s = sort_key (canonical_pair_order_key \<circ> an_pair) (sc_pairs s)"

definition last_release_tick :: "bhs_score \<Rightarrow> score_failure + u64" where
  "last_release_tick s =
     (if sc_pairs s = [] then Inl (Panic ''at least one pair'')
      else Inr (Max (set (map end_tick (score_pairs s)))))"

definition effective_loop_ticks :: "bhs_score \<Rightarrow> score_failure + u64" where
  "effective_loop_ticks s = (case sc_loop_ticks s of Some l \<Rightarrow> Inr l | None \<Rightarrow> last_release_tick s)"

section \<open>Note names\<close>

definition pitch_class_spellings :: "(u8 \<times> string list) list" where
  "pitch_class_spellings =
     [(0, [''C'']), (1, [''C#'', ''Db'']), (2, [''D'']), (3, [''Eb'', ''D#'']), (4, [''E'']),
      (5, [''F'']), (6, [''F#'', ''Gb'']), (7, [''G'']), (8, [''Ab'']), (9, [''A'']),
      (10, [''Bb'', ''A#'']), (11, [''B''])]"

definition note_name :: "u8 \<Rightarrow> string" where
  "note_name n =
     hd (snd (pitch_class_spellings ! (unat n mod 12))) @
     (if unat n div 12 = 0 then ''-1'' else show_nat (unat n div 12 - 1))"

definition outside_keys :: string where
  "outside_keys = ''{} is outside the 88-key range 21..=108''"

definition validate_midi_note :: "u8 \<Rightarrow> score_failure + u8" where
  "validate_midi_note n =
     (if first_midi_note \<le> n \<and> n \<le> last_midi_note then Inr n
      else Inl (Refused (''MIDI note '' @ outside_keys) [show_nat (unat n)]))"

text \<open>
  The slices of the upper-case text end one byte before its end, which is not a character
  boundary when the last character takes two bytes.
\<close>

definition parse_note :: "string \<Rightarrow> score_failure + u8" where
  "parse_note text =
     (case parse_unsigned text of
        Some number \<Rightarrow> validate_midi_note number
      | None \<Rightarrow>
          let upper = map ascii_upper text in
          if utf8_length upper < 2 \<or> utf8_length upper > 3
          then Inl (Refused ''note {:?} is not a MIDI number or a note name like C4 or F#3'' [text])
          else if utf8_length [last upper] \<noteq> 1
          then Inl (Panic ''byte index is not a char boundary'')
          else (case parse_unsigned [last upper] of
              None \<Rightarrow> Inl (Refused ''note {:?} has no octave digit (try C4 or F#3)'' [text])
            | Some octave \<Rightarrow>
                if octave > (8 :: u8) then Inl (Refused (''note '' @ outside_keys) [text])
                else (case find (\<lambda>(_, spellings). \<exists>candidate \<in> set spellings.
                           map ascii_upper candidate = map ascii_upper (butlast upper)) pitch_class_spellings of
                    None \<Rightarrow> Inl (Refused ''note {:?} is not a note name like C4 or F#3 (try A-G with an optional # or b)'' [text])
                  | Some (pitch_class, _) \<Rightarrow> validate_midi_note (octave * 12 + pitch_class + 12))))"

section \<open>Comments\<close>

definition split_comment :: "string \<Rightarrow> string \<times> string option" where
  "split_comment line =
     (if CHR '';'' \<in> set line
      then (takeWhile (\<lambda>c. c \<noteq> CHR '';'') line, Some (dropWhile (\<lambda>c. c \<noteq> CHR '';'') line))
      else (line, None))"

datatype comment_kind = Structural | Anchor u64 u64 | User

fun anchor_tick :: "string list \<Rightarrow> u64 option" where
  "anchor_tick [] = None"
| "anchor_tick (token # tokens) =
     (case strip_suffix_char (CHR '','') token of
        None \<Rightarrow> anchor_tick tokens
      | Some tick_text \<Rightarrow> (case parse_unsigned tick_text of None \<Rightarrow> anchor_tick tokens | Some tick \<Rightarrow> Some tick))"

definition classify_comment :: "string \<Rightarrow> comment_kind" where
  "classify_comment line =
     (if line = title_comment \<or> strip_prefix_str ''; loop '' line \<noteq> None \<or> line = legend_comment then Structural
      else case strip_prefix_str anchor_prefix line of
        None \<Rightarrow> User
      | Some rest \<Rightarrow>
          (case split_whitespace rest of
             [] \<Rightarrow> User
           | measure_text # parts \<Rightarrow>
               (case parse_unsigned measure_text of
                  None \<Rightarrow> User
                | Some measure_no \<Rightarrow> (case anchor_tick parts of None \<Rightarrow> User | Some tick \<Rightarrow> Anchor measure_no tick))))"

section \<open>The parser\<close>

definition at_line :: "nat \<Rightarrow> string \<Rightarrow> string list \<Rightarrow> score_failure" where
  "at_line line template args = Refused (''line {}: '' @ template) (show_nat line # args)"

definition reject_extra_fields :: "string list \<Rightarrow> nat \<Rightarrow> string \<Rightarrow> score_failure + unit" where
  "reject_extra_fields args line what = ensure (args = []) (at_line line ''{} has extra fields'' [what])"

definition parse_header_value :: "string list \<Rightarrow> nat \<Rightarrow> string \<Rightarrow> score_failure + u64" where
  "parse_header_value args line keyword =
     (case args of
        [] \<Rightarrow> Inl (at_line line ''the {} header needs a value'' [keyword])
      | text # args \<Rightarrow>
          and_then (ok_or (at_line line ''the {} value {:?} is not a non-negative integer'' [keyword, text]) (parse_unsigned text)) (\<lambda>value.
          and_then (reject_extra_fields args line (''the '' @ keyword @ '' header'')) (\<lambda>_. Inr value)))"

definition parse_u64 :: "string \<Rightarrow> nat \<Rightarrow> string \<Rightarrow> score_failure + u64" where
  "parse_u64 text line what =
     ok_or (at_line line ''the {} {:?} is not a non-negative integer'' [what, text]) (parse_unsigned text)"

definition parse_velocity :: "string \<Rightarrow> nat \<Rightarrow> string \<Rightarrow> score_failure + u8" where
  "parse_velocity text line what =
     and_then (ok_or (at_line line ''the {} {:?} is not an integer'' [what, text]) (parse_unsigned text)) (\<lambda>value :: u32.
     if value > ucast max_velocity
     then Inl (at_line line ''the {} {} is outside 0..=127'' [what, show_nat (unat value)])
     else Inr (ucast value))"

definition next_field :: "string list \<Rightarrow> score_failure \<Rightarrow> score_failure + string \<times> string list" where
  "next_field args e = (case args of [] \<Rightarrow> Inl e | field # args \<Rightarrow> Inr (field, args))"

definition parse_release_velocity :: "string list \<Rightarrow> nat \<Rightarrow> score_failure + u8 option \<times> string list" where
  "parse_release_velocity args line =
     (case args of
        [] \<Rightarrow> Inr (None, [])
      | text # args \<Rightarrow> and_then (parse_velocity text line ''release velocity'') (\<lambda>v. Inr (Some v, args)))"

text \<open>\<open>parse_note(..).map_err(..)\<close>\<close>

definition parse_note_field :: "string \<Rightarrow> nat \<Rightarrow> score_failure + u8" where
  "parse_note_field text line =
     (case parse_note text of
        Inl (Refused template args) \<Rightarrow> Inl (at_line line template args)
      | Inl (Panic m) \<Rightarrow> Inl (Panic m)
      | Inr note \<Rightarrow> Inr note)"

definition parse_pair_fields :: "string \<Rightarrow> string list \<Rightarrow> nat \<Rightarrow> score_failure + score_note_pair" where
  "parse_pair_fields first args line =
     and_then (parse_u64 first line ''start tick'') (\<lambda>start_tick.
     and_then (next_field args (at_line line ''the note pair needs a duration'' [])) (\<lambda>(text, args).
     and_then (parse_u64 text line ''duration'') (\<lambda>duration_ticks.
     and_then (ensure (duration_ticks \<noteq> 0) (at_line line ''the duration must be at least one tick'' [])) (\<lambda>_.
     and_then (next_field args (at_line line ''the note pair needs a note name'' [])) (\<lambda>(note_text, args).
     and_then (parse_note_field note_text line) (\<lambda>midi_note.
     and_then (next_field args (at_line line ''the note pair needs a velocity'' [])) (\<lambda>(velocity_text, args).
     and_then (parse_velocity velocity_text line ''velocity'') (\<lambda>velocity.
     and_then (parse_release_velocity args line) (\<lambda>(release_velocity, args).
     and_then (reject_extra_fields args line ''the note pair'') (\<lambda>_.
     Inr \<lparr>sn_start_tick = start_tick, sn_duration_ticks = duration_ticks, sn_midi_note = midi_note,
          sn_velocity = velocity, sn_release_velocity = release_velocity\<rparr>))))))))))"

text \<open>The local variables of the loop over the lines.\<close>

record parse_state =
  ps_ticks_per_second :: "u64 option"
  ps_measure_ticks :: "u64 option"
  ps_loop_ticks :: "u64 option"
  ps_pairs :: "annotated_pair list"
  ps_leading :: "string list"
  ps_pending :: "string list"
  ps_anchors :: "(u64 \<times> u64) list"
  ps_saw_structural :: bool

definition parse_start :: parse_state where
  "parse_start = \<lparr>ps_ticks_per_second = None, ps_measure_ticks = None, ps_loop_ticks = None, ps_pairs = [],
     ps_leading = [], ps_pending = [], ps_anchors = [], ps_saw_structural = False\<rparr>"

definition parse_comment_line :: "string \<Rightarrow> parse_state \<Rightarrow> parse_state" where
  "parse_comment_line raw_trimmed st =
     (if raw_trimmed = [] then st
      else case classify_comment raw_trimmed of
        Structural \<Rightarrow> st
      | Anchor measure_no tick \<Rightarrow> st\<lparr>ps_anchors := ps_anchors st @ [(measure_no, tick)]\<rparr>
      | User \<Rightarrow> if ps_pairs st = [] then st\<lparr>ps_leading := ps_leading st @ [raw_trimmed]\<rparr>
               else st\<lparr>ps_pending := ps_pending st @ [raw_trimmed]\<rparr>)"

definition parse_format_line :: "string list \<Rightarrow> nat \<Rightarrow> parse_state \<Rightarrow> score_failure + parse_state" where
  "parse_format_line args line st =
     and_then (ensure (\<not> ps_saw_structural st) (at_line line ''the format line must be the first structural line'' [])) (\<lambda>_.
     and_then (next_field args (at_line line ''the format line needs a format name'' [])) (\<lambda>(name, args).
     and_then (ensure (name = format_name) (at_line line ''unknown format {:?}; expected bhs-score-v1'' [name])) (\<lambda>_.
     and_then (reject_extra_fields args line ''the format line'') (\<lambda>_. Inr st))))"

definition parse_header_line :: "string \<Rightarrow> string list \<Rightarrow> nat \<Rightarrow> parse_state \<Rightarrow> score_failure + parse_state" where
  "parse_header_line keyword args line st =
     and_then (ensure (ps_pairs st = []) (at_line line ''the {} header must precede the note pairs'' [keyword])) (\<lambda>_.
     and_then (parse_header_value args line keyword) (\<lambda>value.
     Inr (if keyword = ''ticks_per_second'' then st\<lparr>ps_ticks_per_second := Some value\<rparr>
          else if keyword = ''measure_ticks'' then st\<lparr>ps_measure_ticks := Some value\<rparr>
          else st\<lparr>ps_loop_ticks := Some value\<rparr>)))"

definition parse_pair_line :: "string \<Rightarrow> string list \<Rightarrow> string option \<Rightarrow> nat \<Rightarrow> parse_state \<Rightarrow> score_failure + parse_state" where
  "parse_pair_line first args trailing_comment line st =
     and_then (ensure (ps_ticks_per_second st \<noteq> None) (at_line line ''note pair before the ticks_per_second header'' [])) (\<lambda>_.
     and_then (parse_pair_fields first args line) (\<lambda>pair.
     Inr (st\<lparr>ps_pairs := ps_pairs st @ [\<lparr>an_pair = pair,
                an_comments = ps_pending st @ (case trailing_comment of None \<Rightarrow> [] | Some c \<Rightarrow> [c])\<rparr>],
             ps_pending := []\<rparr>)))"

definition parse_line :: "nat \<Rightarrow> string \<Rightarrow> parse_state \<Rightarrow> score_failure + parse_state" where
  "parse_line line raw_line st =
     (let (content, trailing_comment) = split_comment raw_line; content = trim_text content in
      if content = [] then Inr (parse_comment_line (trim_text raw_line) st)
      else
        (case split_whitespace content of
           [] \<Rightarrow> Inl (Panic ''content is non-empty'')
         | keyword # args \<Rightarrow>
             and_then
               (if keyword = ''format'' then parse_format_line args line st
                else if keyword \<in> {''ticks_per_second'', ''measure_ticks'', ''loop_ticks''}
                then parse_header_line keyword args line st
                else parse_pair_line keyword args trailing_comment line st)
               (\<lambda>st. Inr (st\<lparr>ps_saw_structural := True\<rparr>))))"

fun parse_lines :: "nat \<Rightarrow> string list \<Rightarrow> parse_state \<Rightarrow> score_failure + parse_state" where
  "parse_lines line [] st = Inr st"
| "parse_lines line (raw_line # rest) st = and_then (parse_line line raw_line st) (parse_lines (line + 1) rest)"

definition parse_finish :: "parse_state \<Rightarrow> score_failure + bhs_score" where
  "parse_finish st =
     (case ps_ticks_per_second st of
        None \<Rightarrow> Inl (Refused ''the score is missing a positive ticks_per_second header'' [])
      | Some tps \<Rightarrow>
          if tps = 0 then Inl (Refused ''the score is missing a positive ticks_per_second header'' [])
          else if ps_pairs st = [] then Inl (Refused ''the score has no notes'' [])
          else Inr \<lparr>sc_ticks_per_second = tps, sc_measure_ticks = ps_measure_ticks st, sc_loop_ticks = ps_loop_ticks st,
                    sc_pairs = ps_pairs st, sc_leading = ps_leading st, sc_trailing = ps_pending st,
                    sc_anchors = ps_anchors st\<rparr>)"

definition parse_score :: "string \<Rightarrow> score_failure + bhs_score" where
  "parse_score text = and_then (parse_lines 1 (text_lines text) parse_start) parse_finish"

section \<open>The canonical text\<close>

text \<open>
  The lines of the text, without their line ends. The parameter writes the quotient of two tick
  counts with the given number of decimals.
\<close>

definition pair_line :: "score_note_pair \<Rightarrow> string" where
  "pair_line p =
     show_nat (unat (sn_start_tick p)) @ '' '' @ show_nat (unat (sn_duration_ticks p)) @ '' '' @
     note_name (sn_midi_note p) @ '' '' @ show_nat (unat (sn_velocity p)) @
     (case sn_release_velocity p of None \<Rightarrow> [] | Some v \<Rightarrow> '' '' @ show_nat (unat v))"

definition anchor_line :: "(nat \<Rightarrow> u64 \<Rightarrow> u64 \<Rightarrow> string) \<Rightarrow> u64 \<Rightarrow> u64 \<Rightarrow> u64 \<Rightarrow> string" where
  "anchor_line decimals tps measure_no start_tick =
     anchor_prefix @ show_nat (unat measure_no) @ ''  (tick '' @ show_nat (unat start_tick) @ '', t='' @
     decimals 2 start_tick tps @ ''s) ---''"

fun body_lines :: "(nat \<Rightarrow> u64 \<Rightarrow> u64 \<Rightarrow> string) \<Rightarrow> u64 \<Rightarrow> u64 option \<Rightarrow> u64 \<Rightarrow> annotated_pair list \<Rightarrow>
    score_failure + string list" where
  "body_lines decimals tps measure_ticks current [] = Inr []"
| "body_lines decimals tps measure_ticks current (a # as) =
     and_then
       (case measure_ticks of
          None \<Rightarrow> Inr ([], current)
        | Some ticks \<Rightarrow>
            if ticks = 0 then Inl (Panic ''attempt to divide by zero'')
            else let measure_no = sn_start_tick (an_pair a) div ticks + 1 in
              if measure_no \<noteq> current then Inr ([anchor_line decimals tps measure_no ((measure_no - 1) * ticks)], measure_no)
              else Inr ([], current))
       (\<lambda>(anchor, current).
     and_then (body_lines decimals tps measure_ticks current as) (\<lambda>rest.
     Inr (anchor @ an_comments a @ [pair_line (an_pair a)] @ rest)))"

definition stats_line :: "(nat \<Rightarrow> u64 \<Rightarrow> u64 \<Rightarrow> string) \<Rightarrow> u64 \<Rightarrow> u64 \<Rightarrow> score_note_pair list \<Rightarrow> string" where
  "stats_line decimals tps loop_ticks pairs =
     ''; loop '' @ decimals 1 loop_ticks tps @ ''s | '' @ show_nat (length pairs) @ '' notes | range '' @
     note_name (Min (set (map sn_midi_note pairs))) @ ''..'' @ note_name (Max (set (map sn_midi_note pairs)))"

definition format_lines :: "(nat \<Rightarrow> u64 \<Rightarrow> u64 \<Rightarrow> string) \<Rightarrow> bhs_score \<Rightarrow> score_failure + string list" where
  "format_lines decimals s =
     and_then (effective_loop_ticks s) (\<lambda>loop_ticks.
     and_then (ensure (sc_pairs s \<noteq> []) (Panic ''at least one pair'')) (\<lambda>_.
     and_then (body_lines decimals (sc_ticks_per_second s) (sc_measure_ticks s) 0 (sorted_pairs_with_comments s)) (\<lambda>body.
     Inr (sc_leading s @
       [title_comment, stats_line decimals (sc_ticks_per_second s) loop_ticks (map an_pair (sorted_pairs_with_comments s)),
        ''format '' @ format_name, ''ticks_per_second '' @ show_nat (unat (sc_ticks_per_second s))] @
       (case sc_measure_ticks s of None \<Rightarrow> [] | Some m \<Rightarrow> [''measure_ticks '' @ show_nat (unat m)]) @
       [''loop_ticks '' @ show_nat (unat loop_ticks), legend_comment] @
       body @ sc_trailing s))))"

definition format_score :: "(nat \<Rightarrow> u64 \<Rightarrow> u64 \<Rightarrow> string) \<Rightarrow> bhs_score \<Rightarrow> score_failure + string" where
  "format_score decimals s =
     and_then (format_lines decimals s) (\<lambda>ls. Inr (concat (map (\<lambda>l. l @ [newline]) ls)))"

section \<open>Diagnostics\<close>

datatype diagnostic_level = DiagnosticError | DiagnosticWarning

record diagnostic =
  dg_level :: diagnostic_level
  dg_line :: "nat option"
  dg_message :: "string \<times> string list"

definition duplicate_findings :: "score_note_pair list \<Rightarrow> diagnostic list" where
  "duplicate_findings ps =
     List.map_filter (\<lambda>(p, q).
       if p = q then Some \<lparr>dg_level = DiagnosticWarning, dg_line = None,
         dg_message = (''duplicate note pair: {} at tick {} for {} ticks'',
           [note_name (sn_midi_note p), show_nat (unat (sn_start_tick p)), show_nat (unat (sn_duration_ticks p))])\<rparr>
       else None) (zip ps (tl ps))"

fun expected_anchors :: "u64 \<Rightarrow> u64 \<Rightarrow> score_note_pair list \<Rightarrow> (u64 \<times> u64) list" where
  "expected_anchors ticks current [] = []"
| "expected_anchors ticks current (p # ps) =
     (let measure_no = sn_start_tick p div ticks + 1 in
      if measure_no \<noteq> current then (measure_no, (measure_no - 1) * ticks) # expected_anchors ticks measure_no ps
      else expected_anchors ticks current ps)"

definition order_findings :: "bhs_score \<Rightarrow> diagnostic list" where
  "order_findings s =
     (if list_all (\<lambda>(p, q). p = q) (zip (score_pairs s) (sorted_pairs s)) then []
      else [\<lparr>dg_level = DiagnosticWarning, dg_line = None,
             dg_message = (''note pairs are out of canonical order (start tick, note, velocity); re-emit to sort'', [])\<rparr>])"

definition anchor_findings :: "bhs_score \<Rightarrow> score_failure + diagnostic list" where
  "anchor_findings s =
     (case sc_measure_ticks s of
        None \<Rightarrow> Inr []
      | Some ticks \<Rightarrow>
          if ticks = 0 \<and> sc_pairs s \<noteq> [] then Inl (Panic ''attempt to divide by zero'')
          else let expected = expected_anchors ticks 0 (sorted_pairs s) in
            Inr (if sc_anchors s \<noteq> expected
                 then [\<lparr>dg_level = DiagnosticWarning, dg_line = None,
                        dg_message = (''measure anchors are stale ({} in file, {} expected); re-emit to refresh'',
                          [show_nat (length (sc_anchors s)), show_nat (length expected)])\<rparr>]
                 else []))"

definition loop_error :: "u64 \<Rightarrow> u64 \<Rightarrow> string \<times> string list" where
  "loop_error loop_ticks last_release =
     (''loop_ticks ({}) precedes the last release (tick {})'',
      [show_nat (unat loop_ticks), show_nat (unat last_release)])"

definition loop_findings :: "bhs_score \<Rightarrow> score_failure + diagnostic list" where
  "loop_findings s =
     (case sc_loop_ticks s of
        None \<Rightarrow> Inr []
      | Some loop_ticks \<Rightarrow>
          and_then (last_release_tick s) (\<lambda>last_release.
          Inr (if loop_ticks < last_release
               then [\<lparr>dg_level = DiagnosticError, dg_line = None, dg_message = loop_error loop_ticks last_release\<rparr>]
               else [])))"

definition diagnostics :: "bhs_score \<Rightarrow> score_failure + diagnostic list" where
  "diagnostics s =
     and_then (anchor_findings s) (\<lambda>anchors.
     and_then (loop_findings s) (\<lambda>loop.
     Inr (duplicate_findings (sorted_pairs s) @ order_findings s @ anchors @ loop)))"

end
