(* ===== verification/Score_Edit.thy ===== *)
theory Score_Edit
  imports Score_Text
begin

text \<open>
  The editing operations of a score document and its random mutations
  (\<open>_black_hole_beam/src/piano/score_text.rs\<close>). An operation that changes the document in place
  returns the document as it leaves it, also when it fails. Floating point arithmetic and the
  random number generator are parameters.
\<close>

section \<open>Pairs in file order\<close>

definition sat_mul :: "'a::len word \<Rightarrow> 'a word \<Rightarrow> 'a word" where
  "sat_mul a b = (if unat a * unat b < 2 ^ LENGTH('a) then a * b else - 1)"

fun map_ok :: "('a \<Rightarrow> 'e + 'b) \<Rightarrow> 'a list \<Rightarrow> 'e + 'b list" where
  "map_ok f [] = Inr []"
| "map_ok f (x # xs) = and_then (f x) (\<lambda>y. and_then (map_ok f xs) (\<lambda>ys. Inr (y # ys)))"

definition remove_at :: "nat \<Rightarrow> 'a list \<Rightarrow> 'a list" where
  "remove_at i xs = take i xs @ drop (Suc i) xs"

definition insert_at :: "nat \<Rightarrow> 'a \<Rightarrow> 'a list \<Rightarrow> 'a list" where
  "insert_at i x xs = take i xs @ x # drop i xs"

definition map_pairs :: "(score_note_pair \<Rightarrow> score_note_pair) \<Rightarrow> bhs_score \<Rightarrow> bhs_score" where
  "map_pairs f s = s\<lparr>sc_pairs := map (\<lambda>a. a\<lparr>an_pair := f (an_pair a)\<rparr>) (sc_pairs s)\<rparr>"

definition remove_pair_at :: "nat \<Rightarrow> bhs_score \<Rightarrow> (score_failure + unit) \<times> bhs_score" where
  "remove_pair_at index s =
     (if index < length (sc_pairs s) then (Inr (), s\<lparr>sc_pairs := remove_at index (sc_pairs s)\<rparr>)
      else (Inl (Panic ''removal index out of range''), s))"

definition insert_pair_after :: "nat \<Rightarrow> score_note_pair \<Rightarrow> bhs_score \<Rightarrow> (score_failure + unit) \<times> bhs_score" where
  "insert_pair_after index pair s =
     (if index + 1 \<le> length (sc_pairs s)
      then (Inr (), s\<lparr>sc_pairs := insert_at (index + 1) \<lparr>an_pair = pair, an_comments = []\<rparr> (sc_pairs s)\<rparr>)
      else (Inl (Panic ''insertion index out of range''), s))"

text \<open>The loop that drops early pairs walks down from the end of the list.\<close>

fun drop_starting_before :: "nat \<Rightarrow> u64 \<Rightarrow> annotated_pair list \<Rightarrow> annotated_pair list" where
  "drop_starting_before 0 tick as = as"
| "drop_starting_before (Suc index) tick as =
     drop_starting_before index tick
       (if sn_start_tick (an_pair (as ! index)) < tick then remove_at index as else as)"

section \<open>Moving and stretching\<close>

definition clamp_int :: "int \<Rightarrow> int \<Rightarrow> int \<Rightarrow> int" where
  "clamp_int lo hi x = max lo (min hi x)"

text \<open>The number of semitones is an \<open>i32\<close>, read with \<open>sint\<close>.\<close>

definition transpose_note :: "u32 \<Rightarrow> u8 \<Rightarrow> u8" where
  "transpose_note semitones n =
     (let shifted = clamp_int (- (2 ^ 31)) (2 ^ 31 - 1) (uint n + sint semitones) in
      of_int (clamp_int (uint first_midi_note) (uint last_midi_note) shifted))"

definition transpose_score :: "u32 \<Rightarrow> bhs_score \<Rightarrow> bhs_score" where
  "transpose_score semitones s =
     (if semitones = 0 then s
      else map_pairs (\<lambda>p. p\<lparr>sn_midi_note := transpose_note semitones (sn_midi_note p)\<rparr>) s)"

definition skip_seconds :: "u64 \<Rightarrow> bhs_score \<Rightarrow> (score_failure + unit) \<times> bhs_score" where
  "skip_seconds seconds s =
     (let skip_ticks = sat_mul seconds (sc_ticks_per_second s) in
      if skip_ticks = 0 then (Inr (), s)
      else
        let s = s\<lparr>sc_pairs := drop_starting_before (length (sc_pairs s)) skip_ticks (sc_pairs s)\<rparr> in
        if sc_pairs s = [] then (Inl (Refused ''skipping {}s leaves no notes in the score'' [show_nat (unat seconds)]), s)
        else
          let s = map_pairs (\<lambda>p. p\<lparr>sn_start_tick := sn_start_tick p - skip_ticks\<rparr>) s in
          (Inr (), s\<lparr>sc_loop_ticks := map_option (\<lambda>loop_ticks. sat_sub loop_ticks skip_ticks) (sc_loop_ticks s)\<rparr>))"

text \<open>The product and the rounding are computed in \<open>u128\<close>, where they cannot overflow.\<close>

definition rescale_ticks :: "u64 \<Rightarrow> u64 \<Rightarrow> u64 \<Rightarrow> score_failure + u64" where
  "rescale_ticks ticks from_tps to_tps =
     (if from_tps = 0 then Inl (Panic ''attempt to divide by zero'')
      else
        let rounded = (unat ticks * unat to_tps + unat from_tps div 2) div unat from_tps in
        Inr (if rounded < 2 ^ 64 then of_nat rounded else - 1))"

record 'f float_ops =
  fo_positive_finite :: "'f \<Rightarrow> bool"
  fo_finite :: "'f \<Rightarrow> bool"
  fo_text :: "'f \<Rightarrow> string"
  fo_ticks :: "'f \<Rightarrow> u64 \<Rightarrow> u64"
  fo_shift_ticks :: "'f \<Rightarrow> u64 \<Rightarrow> u64 option"

definition rescale_pair :: "u64 \<Rightarrow> u64 \<Rightarrow> score_note_pair \<Rightarrow> score_failure + score_note_pair" where
  "rescale_pair old_loop new_loop p =
     and_then (rescale_ticks (sn_start_tick p) old_loop new_loop) (\<lambda>start.
     and_then (rescale_ticks (sn_duration_ticks p) old_loop new_loop) (\<lambda>duration.
     let duration = max duration 1 in
     Inr (if sat_add start duration > new_loop
          then p\<lparr>sn_start_tick := new_loop - 1, sn_duration_ticks := 1\<rparr>
          else p\<lparr>sn_start_tick := start, sn_duration_ticks := duration\<rparr>)))"

text \<open>
  \<open>fo_ticks\<close> is the product with the rate, rounded and converted to \<open>u64\<close>. A panic leaves
  the document behind, so its result does not matter.
\<close>

definition rescale_to_duration :: "'f float_ops \<Rightarrow> 'f \<Rightarrow> bhs_score \<Rightarrow> score_failure + bhs_score" where
  "rescale_to_duration F new_seconds s =
     and_then (ensure (fo_positive_finite F new_seconds)
       (Refused ''the new duration must be a finite number of seconds greater than zero'' [])) (\<lambda>_.
     and_then (effective_loop_ticks s) (\<lambda>old_loop.
     let new_loop = fo_ticks F new_seconds (sc_ticks_per_second s) in
     and_then (ensure (1 \<le> new_loop) (Refused ''a duration of {}s is shorter than one tick at {} ticks/second''
       [fo_text F new_seconds, show_nat (unat (sc_ticks_per_second s))])) (\<lambda>_.
     and_then (map_ok (\<lambda>a. and_then (rescale_pair old_loop new_loop (an_pair a)) (\<lambda>p. Inr (a\<lparr>an_pair := p\<rparr>))) (sc_pairs s)) (\<lambda>pairs.
     and_then (case sc_measure_ticks s of
         None \<Rightarrow> Inr None
       | Some ticks \<Rightarrow> and_then (rescale_ticks ticks old_loop new_loop) (\<lambda>t. Inr (Some (max t 1)))) (\<lambda>measure_ticks.
     Inr (s\<lparr>sc_pairs := pairs, sc_measure_ticks := measure_ticks, sc_loop_ticks := Some new_loop\<rparr>))))))"

text \<open>The shift is an \<open>i64\<close>; sums and differences of ticks wrap as in a release build.\<close>

definition shift_ticks :: "u64 \<Rightarrow> bhs_score \<Rightarrow> (score_failure + unit) \<times> bhs_score" where
  "shift_ticks delta s =
     (if delta = 0 then (Inr (), s)
      else
        let s = (if sint delta < 0
                 then s\<lparr>sc_pairs := drop_starting_before (length (sc_pairs s)) (- delta) (sc_pairs s)\<rparr> else s) in
        if sint delta < 0 \<and> sc_pairs s = []
        then (Inl (Refused ''shifting by {} ticks leaves no notes in the score'' [''-'' @ show_nat (unat (- delta))]), s)
        else
          let s = map_pairs (\<lambda>p. p\<lparr>sn_start_tick :=
                (if sint delta > 0 then sn_start_tick p + delta else sn_start_tick p - (- delta))\<rparr>) s in
          (Inr (), s\<lparr>sc_loop_ticks := map_option (\<lambda>loop_ticks.
                if sint delta > 0 then sat_add loop_ticks delta else loop_ticks - (- delta)) (sc_loop_ticks s)\<rparr>))"

definition shift_seconds :: "'f float_ops \<Rightarrow> 'f \<Rightarrow> bhs_score \<Rightarrow> (score_failure + unit) \<times> bhs_score" where
  "shift_seconds F seconds s =
     (if \<not> fo_finite F seconds then (Inl (Refused ''the shift must be a finite number of seconds'' []), s)
      else (case fo_shift_ticks F seconds (sc_ticks_per_second s) of
          None \<Rightarrow> (Inl (Refused ''a shift of {}s overflows the tick count'' [fo_text F seconds]), s)
        | Some delta \<Rightarrow> shift_ticks delta s))"

definition merge_pair :: "u64 \<Rightarrow> u64 \<Rightarrow> annotated_pair \<Rightarrow> score_failure + annotated_pair" where
  "merge_pair other_tps this_tps a =
     and_then (rescale_ticks (sn_start_tick (an_pair a)) other_tps this_tps) (\<lambda>start.
     and_then (rescale_ticks (sn_duration_ticks (an_pair a)) other_tps this_tps) (\<lambda>duration.
     Inr (a\<lparr>an_pair := (an_pair a)\<lparr>sn_start_tick := start, sn_duration_ticks := max duration 1\<rparr>\<rparr>)))"

definition merge_with :: "bhs_score \<Rightarrow> bhs_score \<Rightarrow> score_failure + bhs_score" where
  "merge_with s other =
     (let this_tps = sc_ticks_per_second s; other_tps = sc_ticks_per_second other in
     and_then (effective_loop_ticks s) (\<lambda>this_loop.
     and_then (effective_loop_ticks other) (\<lambda>other_loop.
     and_then (rescale_ticks other_loop other_tps this_tps) (\<lambda>other_loop.
     and_then (map_ok (merge_pair other_tps this_tps) (sc_pairs other)) (\<lambda>pairs.
     Inr (s\<lparr>sc_pairs := sc_pairs s @ pairs, sc_loop_ticks := Some (max this_loop other_loop)\<rparr>))))))"

section \<open>Mutation\<close>

text \<open>
  The draws of \<open>random_range\<close> and \<open>random\<close>, and what the mutations compute from a draw of a
  floating point number: the weight of a note, the sum and the difference of weights, a length
  in ticks, and the number of mutations for a level of noise.
\<close>

record ('f, 'r) random_ops =
  rn_index :: "nat \<Rightarrow> 'r \<Rightarrow> nat \<times> 'r"
  rn_tick :: "u64 \<Rightarrow> u64 \<Rightarrow> 'r \<Rightarrow> u64 \<times> 'r"
  rn_byte :: "u8 \<Rightarrow> u8 \<Rightarrow> 'r \<Rightarrow> u8 \<times> 'r"
  rn_unit :: "'r \<Rightarrow> 'f \<times> 'r"
  rn_weight :: "u8 \<Rightarrow> 'f"
  rn_sum :: "'f list \<Rightarrow> 'f"
  rn_times :: "'f \<Rightarrow> 'f \<Rightarrow> 'f"
  rn_minus :: "'f \<Rightarrow> 'f \<Rightarrow> 'f"
  rn_not_positive :: "'f \<Rightarrow> bool"
  rn_duration :: "'f \<Rightarrow> u64 \<Rightarrow> u64"
  rn_mutations :: "nat \<Rightarrow> 'f \<Rightarrow> nat"

definition key_range :: "u8 list" where
  "key_range = map of_nat [unat first_midi_note..<unat last_midi_note + 1]"

fun walk_weights :: "('f, 'r) random_ops \<Rightarrow> 'f \<Rightarrow> u8 list \<Rightarrow> u8" where
  "walk_weights R remaining [] = last_midi_note"
| "walk_weights R remaining (note # notes) =
     (let remaining = rn_minus R remaining (rn_weight R note) in
      if rn_not_positive R remaining then note else walk_weights R remaining notes)"

definition random_note :: "('f, 'r) random_ops \<Rightarrow> 'r \<Rightarrow> u8 \<times> 'r" where
  "random_note R rng =
     (let total = rn_sum R (map (rn_weight R) key_range); (u, rng) = rn_unit R rng in
      (walk_weights R (rn_times R u total) key_range, rng))"

definition random_velocity :: "('f, 'r) random_ops \<Rightarrow> 'r \<Rightarrow> u8 \<times> 'r" where
  "random_velocity R rng = rn_byte R 0 max_velocity rng"

definition random_duration_ticks :: "('f, 'r) random_ops \<Rightarrow> u64 \<Rightarrow> 'r \<Rightarrow> u64 \<times> 'r" where
  "random_duration_ticks R tps rng = (let (u, rng) = rn_unit R rng in (max (rn_duration R u tps) 1, rng))"

record 'r mutant_score =
  mu_inner :: bhs_score
  mu_rng :: 'r

definition truncate_pairs :: "nat \<Rightarrow> 'r mutant_score \<Rightarrow> 'r mutant_score" where
  "truncate_pairs len m = m\<lparr>mu_inner := (mu_inner m)\<lparr>sc_pairs := take len (sc_pairs (mu_inner m)), sc_loop_ticks := None\<rparr>\<rparr>"

definition delete_random_pair :: "('f, 'r) random_ops \<Rightarrow> 'r mutant_score \<Rightarrow>
    score_note_pair option \<times> 'r mutant_score" where
  "delete_random_pair R m =
     (let s = mu_inner m in
      if sc_pairs s = [] then (None, m)
      else let (index, rng) = rn_index R (length (sc_pairs s)) (mu_rng m) in
        (Some (an_pair (sc_pairs s ! index)),
         \<lparr>mu_inner = s\<lparr>sc_pairs := remove_at index (sc_pairs s)\<rparr>, mu_rng = rng\<rparr>))"

definition substitute_random_pair :: "('f, 'r) random_ops \<Rightarrow> 'r mutant_score \<Rightarrow>
    score_note_pair option \<times> 'r mutant_score" where
  "substitute_random_pair R m =
     (let s = mu_inner m in
      if sc_pairs s = [] then (None, m)
      else
        let (index, rng) = rn_index R (length (sc_pairs s)) (mu_rng m);
            (note, rng) = random_note R rng;
            (duration, rng) = random_duration_ticks R (sc_ticks_per_second s) rng;
            (velocity, rng) = random_velocity R rng;
            a = sc_pairs s ! index in
        (Some (an_pair a),
         \<lparr>mu_inner = s\<lparr>sc_pairs := (sc_pairs s)[index := a\<lparr>an_pair := (an_pair a)
              \<lparr>sn_midi_note := note, sn_duration_ticks := duration, sn_velocity := velocity\<rparr>\<rparr>]\<rparr>, mu_rng = rng\<rparr>))"

text \<open>The loop length of a document with pairs is always known.\<close>

definition insertion_window_end :: "bhs_score \<Rightarrow> nat \<Rightarrow> u64" where
  "insertion_window_end s index =
     max (if index + 1 < length (sc_pairs s) then sn_start_tick (an_pair (sc_pairs s ! (index + 1)))
          else (case effective_loop_ticks s of Inr l \<Rightarrow> l | Inl _ \<Rightarrow> 0))
       (sn_start_tick (an_pair (sc_pairs s ! index)))"

definition insert_after_random_pair :: "('f, 'r) random_ops \<Rightarrow> 'r mutant_score \<Rightarrow> nat option \<times> 'r mutant_score" where
  "insert_after_random_pair R m =
     (let s = mu_inner m in
      if sc_pairs s = [] then (None, m)
      else
        let (index, rng) = rn_index R (length (sc_pairs s)) (mu_rng m);
            (start, rng) = rn_tick R (sn_start_tick (an_pair (sc_pairs s ! index))) (insertion_window_end s index) rng;
            (duration, rng) = random_duration_ticks R (sc_ticks_per_second s) rng;
            (note, rng) = random_note R rng;
            (velocity, rng) = random_velocity R rng;
            pair = \<lparr>sn_start_tick = start, sn_duration_ticks = duration, sn_midi_note = note,
                    sn_velocity = velocity, sn_release_velocity = None\<rparr> in
        (Some (index + 1),
         \<lparr>mu_inner = s\<lparr>sc_pairs := insert_at (index + 1) \<lparr>an_pair = pair, an_comments = []\<rparr> (sc_pairs s)\<rparr>,
          mu_rng = rng\<rparr>))"

definition mutate_once :: "('f, 'r) random_ops \<Rightarrow> 'r mutant_score \<Rightarrow> 'r mutant_score" where
  "mutate_once R m =
     (let (choice, rng) = rn_index R 3 (mu_rng m); m = m\<lparr>mu_rng := rng\<rparr> in
      if choice = 0 then snd (delete_random_pair R m)
      else if choice = 1 then snd (substitute_random_pair R m)
      else snd (insert_after_random_pair R m))"

fun mutate_loop :: "('f, 'r) random_ops \<Rightarrow> nat \<Rightarrow> nat \<Rightarrow> 'r mutant_score \<Rightarrow> nat \<times> 'r mutant_score" where
  "mutate_loop R 0 applied m = (applied, m)"
| "mutate_loop R (Suc n) applied m =
     (if sc_pairs (mu_inner m) = [] then (applied, m)
      else mutate_loop R n (applied + 1) (mutate_once R m))"

definition mutate_score :: "('f, 'r) random_ops \<Rightarrow> 'f \<Rightarrow> 'r mutant_score \<Rightarrow> nat \<times> 'r mutant_score" where
  "mutate_score R noise m = mutate_loop R (rn_mutations R (length (sc_pairs (mu_inner m))) noise) 0 m"

end
