(* ===== verification/Score_Proofs.thy ===== *)
theory Score_Proofs
  imports Score_Edit "HOL-Library.Code_Target_Nat"
begin

text \<open>
  The parser and the canonical text of a score: a parsed document is well-formed, and a
  well-formed document is read back from its canonical text, sorted, with its comments, and
  without findings other than duplicates.
\<close>

section \<open>Well-formed documents\<close>

definition pair_ok :: "score_note_pair \<Rightarrow> bool" where
  "pair_ok p \<longleftrightarrow> 1 \<le> sn_duration_ticks p
     \<and> first_midi_note \<le> sn_midi_note p \<and> sn_midi_note p \<le> last_midi_note
     \<and> sn_velocity p \<le> max_velocity
     \<and> (case sn_release_velocity p of None \<Rightarrow> True | Some v \<Rightarrow> v \<le> max_velocity)"

definition score_wf :: "bhs_score \<Rightarrow> bool" where
  "score_wf s \<longleftrightarrow> 0 < sc_ticks_per_second s \<and> sc_pairs s \<noteq> [] \<and> list_all (pair_ok \<circ> an_pair) (sc_pairs s)"

lemma word_positive_iff: "1 \<le> w \<longleftrightarrow> w \<noteq> 0" for w :: "'a::len word"
  by (simp add: word_le_nat_alt Suc_le_eq unat_gt_0)

lemma validate_midi_note_range: "validate_midi_note n = Inr m \<Longrightarrow> first_midi_note \<le> m \<and> m \<le> last_midi_note"
  by (simp add: validate_midi_note_def split: if_splits)

lemma parse_note_range: "parse_note t = Inr m \<Longrightarrow> first_midi_note \<le> m \<and> m \<le> last_midi_note"
  by (auto simp: parse_note_def Let_def dest: validate_midi_note_range split: option.splits if_splits prod.splits)

lemma velocity_narrows: "v \<le> ucast max_velocity \<Longrightarrow> ucast v \<le> max_velocity" for v :: u32
  by (simp add: max_velocity_def word_le_nat_alt unsigned_ucast_eq order_trans [OF take_bit_nat_less_eq_self])

lemma parse_velocity_range: "parse_velocity t line what = Inr v \<Longrightarrow> v \<le> max_velocity"
  by (auto simp: parse_velocity_def result_simps velocity_narrows not_less split: if_splits)

lemma parse_note_field_iff [result_simps]: "parse_note_field t line = Inr n \<longleftrightarrow> parse_note t = Inr n"
  by (auto simp: parse_note_field_def split: sum.splits score_failure.splits)

lemma parse_release_range:
  "parse_release_velocity args line = Inr (r, rest) \<Longrightarrow> case r of None \<Rightarrow> True | Some v \<Rightarrow> v \<le> max_velocity"
  by (auto simp: parse_release_velocity_def result_simps dest: parse_velocity_range split: list.splits)

lemma parse_pair_fields_ok: "parse_pair_fields first args line = Inr p \<Longrightarrow> pair_ok p"
  by (auto simp: parse_pair_fields_def result_simps pair_ok_def word_positive_iff
    dest!: parse_velocity_range parse_note_range parse_release_range)

definition parse_ok :: "parse_state \<Rightarrow> bool" where
  "parse_ok st \<longleftrightarrow> list_all (pair_ok \<circ> an_pair) (ps_pairs st)"

lemma parse_part_ok:
  "parse_ok st \<Longrightarrow> parse_ok (parse_comment_line c st)"
  "parse_ok st \<Longrightarrow> parse_format_line args line st = Inr st' \<Longrightarrow> parse_ok st'"
  "parse_ok st \<Longrightarrow> parse_header_line keyword args line st = Inr st' \<Longrightarrow> parse_ok st'"
  "parse_ok st \<Longrightarrow> parse_pair_line keyword args trailing_comment line st = Inr st' \<Longrightarrow> parse_ok st'"
  by (auto simp: parse_ok_def parse_comment_line_def parse_format_line_def parse_header_line_def parse_pair_line_def
    result_simps dest: parse_pair_fields_ok split: comment_kind.splits)

lemma parse_line_ok:
  assumes "parse_ok st" and "parse_line line raw st = Inr st'"
  shows "parse_ok st'"
proof -
  have frame: "parse_ok (s\<lparr>ps_saw_structural := True\<rparr>) = parse_ok s" for s by (simp add: parse_ok_def)
  show ?thesis
    using assms parse_part_ok [OF assms(1)]
    by (auto simp: parse_line_def result_simps frame Let_def split: if_splits prod.splits list.splits)
qed

lemma parse_lines_ok: "parse_ok st \<Longrightarrow> parse_lines line raws st = Inr st' \<Longrightarrow> parse_ok st'"
  by (induction raws arbitrary: line st) (auto simp: result_simps dest: parse_line_ok)

lemma parse_start_ok: "parse_ok parse_start"
  by (simp add: parse_ok_def parse_start_def)

section \<open>Note names\<close>

text \<open>What the canonical spelling of a pitch class is parsed as, whatever octave follows.\<close>

definition spelling_ok :: "u8 \<Rightarrow> string \<Rightarrow> bool" where
  "spelling_ok pitch_class sp \<longleftrightarrow>
     (let upper = map ascii_upper sp in
      sp \<noteq> [] \<and> digit_value (hd sp) = None \<and> hd sp \<noteq> CHR ''+''
      \<and> utf8_length upper \<in> {1, 2} \<and> plain_word sp
      \<and> map_option fst (find (\<lambda>(_, spellings). \<exists>candidate \<in> set spellings. map ascii_upper candidate = map ascii_upper upper)
            pitch_class_spellings) = Some pitch_class)"

lemma spellings_ok: "list_all (\<lambda>k. spelling_ok (of_nat k) (hd (snd (pitch_class_spellings ! k)))) [0..<12]"
  by code_simp

lemma digit_char_upper: "d < 10 \<Longrightarrow> ascii_upper (digit_char d) = digit_char d" for d :: nat
  by (simp add: ascii_upper_def digit_char.simps)

lemma parse_digit: "d < 10 \<Longrightarrow> parse_unsigned [digit_char d] = Some (of_nat d :: u8)"
  using parse_show_nat [of d] by (simp add: parse_unsigned_def show_nat.simps)

lemma parse_spelled_note:
  assumes "spelling_ok pc sp" and "octave \<le> 8"
  shows "parse_note (sp @ [digit_char octave]) = validate_midi_note (of_nat octave * 12 + pc + 12)"
proof -
  let ?upper = "map ascii_upper sp" and ?d = "digit_char octave"
  have d: "octave < 10" using assms(2) by simp
  obtain c cs where sp: "sp = c # cs" and c: "digit_value c = None" "c \<noteq> CHR ''+''"
    using assms(1) by (cases sp) (auto simp: spelling_ok_def Let_def)
  have "parse_nat (sp @ [?d]) = None" using c by (cases cs) (simp_all add: sp parse_nat_def)
  then have no: "parse_unsigned (sp @ [?d]) = (None :: u8 option)" by (simp add: parse_unsigned_def)
  have one: "utf8_length [?d] = 1" using d by (simp add: utf8_length_def digit_char.simps)
  have len: "utf8_length (?upper @ [?d]) = utf8_length ?upper + 1"
    using one by (simp add: utf8_length_def)
  have "\<not> (of_nat octave :: u8) > 8" using assms(2) by (simp add: word_le_nat_alt not_less unat_of_nat_small)
  moreover obtain x where "find (\<lambda>(_, spellings). \<exists>candidate \<in> set spellings. map ascii_upper candidate = map ascii_upper ?upper)
      pitch_class_spellings = Some (pc, x)"
    using assms(1) by (auto simp: spelling_ok_def Let_def)
  ultimately show ?thesis
    using assms(1) one len
    by (auto simp: parse_note_def no digit_char_upper [OF d] parse_digit [OF d] spelling_ok_def Let_def)
qed

lemma note_name_spelled:
  assumes "first_midi_note \<le> n" and "n \<le> last_midi_note"
  obtains pc sp octave where "note_name n = sp @ [digit_char octave]" and "spelling_ok pc sp" and "octave \<le> 8"
    and "of_nat octave * 12 + pc + 12 = n"
proof -
  let ?k = "unat n mod 12" and ?o = "unat n div 12 - 1"
  have n: "21 \<le> unat n" "unat n \<le> 108" using assms by (simp_all add: first_midi_note_def last_midi_note_def word_le_nat_alt)
  have o: "?o \<le> 8" "unat n div 12 \<noteq> 0" using n by linarith+
  have sp: "spelling_ok (of_nat ?k) (hd (snd (pitch_class_spellings ! ?k)))"
    using spellings_ok by (simp add: list_all_iff del: upt_rec_numeral)
  have name: "note_name n = hd (snd (pitch_class_spellings ! ?k)) @ [digit_char ?o]"
    using o by (simp add: note_name_def show_nat.simps)
  have "12 * (unat n div 12) + ?k = unat n" by simp
  moreover have "?o * 12 + 12 = 12 * (unat n div 12)" using o(2) by simp
  ultimately have "unat n = ?o * 12 + ?k + 12" by linarith
  moreover have "n = of_nat (unat n)" by simp
  ultimately have "n = of_nat (?o * 12 + ?k + 12)" by (simp only:)
  then have "of_nat ?o * 12 + of_nat ?k + 12 = n" by simp
  with name sp o(1) show thesis by (rule that)
qed

lemma note_name_read_back:
  assumes "first_midi_note \<le> n" and "n \<le> last_midi_note"
  shows "parse_note (note_name n) = Inr n" and "plain_word (note_name n)"
proof -
  obtain pc sp octave where name: "note_name n = sp @ [digit_char octave]" and ok: "spelling_ok pc sp" and oct: "octave \<le> 8"
    and n: "of_nat octave * 12 + pc + 12 = n"
    using note_name_spelled [OF assms] by blast
  show "parse_note (note_name n) = Inr n"
    unfolding name parse_spelled_note [OF ok oct] n using assms by (simp add: validate_midi_note_def)
  show "plain_word (note_name n)"
    using ok digit_char_plain [of octave] oct by (simp add: name spelling_ok_def plain_word_def Let_def)
qed

section \<open>Reading a line\<close>

lemma parse_lines_append:
  "parse_lines line (xs @ ys) st = and_then (parse_lines line xs st) (parse_lines (line + length xs) ys)"
proof (induction xs arbitrary: line st)
  case (Cons x xs)
  then show ?case by (cases "parse_line line x st") simp_all
qed simp

lemma parse_data_line:
  assumes "list_all plain_word (keyword # args)"
  shows "parse_line line (unwords (keyword # args)) st =
    and_then (if keyword = ''format'' then parse_format_line args line st
              else if keyword \<in> {''ticks_per_second'', ''measure_ticks'', ''loop_ticks''}
              then parse_header_line keyword args line st
              else parse_pair_line keyword args None line st)
      (\<lambda>st. Inr (st\<lparr>ps_saw_structural := True\<rparr>))"
proof -
  have "CHR '';'' \<notin> set (unwords (keyword # args))" using unwords_chars [OF assms, of "CHR '';''"] by auto
  then have "split_comment (unwords (keyword # args)) = (unwords (keyword # args), None)" by (simp add: split_comment_def)
  moreover have "unwords (keyword # args) \<noteq> []" using unwords_ends [OF assms] by simp
  ultimately show ?thesis
    unfolding parse_line_def Let_def by (simp add: trim_unwords [OF assms] split_unwords [OF assms] del: unwords.simps)
qed

definition comment_line :: "string \<Rightarrow> bool" where
  "comment_line c \<longleftrightarrow> c \<noteq> [] \<and> hd c = CHR '';'' \<and> newline \<notin> set c \<and> \<not> is_whitespace (last c)"

definition user_comment :: "string \<Rightarrow> bool" where
  "user_comment c \<longleftrightarrow> comment_line c \<and> classify_comment c = User"

lemma comment_line_plain: "comment_line c \<Longrightarrow> plain_line c"
  using space_is_whitespace by (auto simp: comment_line_def plain_line_def)

lemma parse_comment:
  assumes "comment_line c"
  shows "parse_line line c st = Inr (parse_comment_line c st)"
proof -
  obtain t where c: "c = CHR '';'' # t" using assms by (cases c) (auto simp: comment_line_def)
  have "trim_text c = c" using assms by (intro trim_solid) (auto simp: comment_line_def is_whitespace_def)
  moreover have "split_comment c = ([], Some c)" by (simp add: split_comment_def c)
  ultimately show ?thesis by (simp add: parse_line_def trim_text_def)
qed

lemma parse_user_comments:
  "list_all user_comment cs \<Longrightarrow>
    parse_lines line cs st =
      Inr (if ps_pairs st = [] then st\<lparr>ps_leading := ps_leading st @ cs\<rparr> else st\<lparr>ps_pending := ps_pending st @ cs\<rparr>)"
proof (induction cs arbitrary: line st)
  case (Cons c cs)
  then have "c \<noteq> []" by (simp add: user_comment_def comment_line_def)
  with Cons show ?case by (simp add: user_comment_def parse_comment parse_comment_line_def)
qed simp

section \<open>Reading the lines of the canonical text\<close>

lemma parse_small_velocity:
  assumes "v \<le> max_velocity"
  shows "parse_velocity (show_nat (unat v)) line what = Inr v"
proof -
  have v: "unat v \<le> 127" using assms by (simp add: max_velocity_def word_le_nat_alt)
  have "parse_unsigned (show_nat (unat v)) = Some (of_nat (unat v) :: u32)"
    using v by (simp add: parse_unsigned_def parse_show_nat)
  moreover have "\<not> of_nat (unat v) > (ucast max_velocity :: u32)"
    using v by (simp add: max_velocity_def word_le_nat_alt not_less unsigned_ucast_eq order_trans [OF take_bit_nat_less_eq_self])
  moreover have "(ucast (of_nat (unat v) :: u32) :: u8) = v"
    by (rule bit_word_eqI) (simp add: bit_simps)
  ultimately show ?thesis by (simp add: parse_velocity_def)
qed

definition pair_words :: "score_note_pair \<Rightarrow> string list" where
  "pair_words p = [show_nat (unat (sn_start_tick p)), show_nat (unat (sn_duration_ticks p)),
     note_name (sn_midi_note p), show_nat (unat (sn_velocity p))] @
     (case sn_release_velocity p of None \<Rightarrow> [] | Some v \<Rightarrow> [show_nat (unat v)])"

lemma pair_line_words: "pair_line p = unwords (pair_words p)"
  by (simp add: pair_line_def pair_words_def split: option.splits)

lemma pair_words_plain: "pair_ok p \<Longrightarrow> list_all plain_word (pair_words p)"
  by (auto simp: pair_words_def pair_ok_def show_nat_plain note_name_read_back split: option.splits)

lemma pair_fields_read_back:
  assumes "pair_ok p"
  shows "parse_pair_fields (hd (pair_words p)) (tl (pair_words p)) line = Inr p"
  using assms
  by (cases p)
    (auto simp: parse_pair_fields_def parse_note_field_def parse_release_velocity_def pair_words_def pair_ok_def parse_u64_def parse_show_word next_field_def
      note_name_read_back parse_small_velocity reject_extra_fields_def word_positive_iff split: option.splits)

lemma show_nat_starts_with_digit: "\<exists>d < 10. hd (show_nat n) = digit_char d"
  using show_nat_digits [OF hd_in_set [OF show_nat_nonempty]] .

lemma show_nat_not_keyword:
  "show_nat n \<noteq> ''format''" "show_nat n \<noteq> ''ticks_per_second''" "show_nat n \<noteq> ''measure_ticks''" "show_nat n \<noteq> ''loop_ticks''"
proof -
  obtain d where d: "d < 10" "hd (show_nat n) = digit_char d" using show_nat_starts_with_digit by blast
  have c: "of_char (digit_char d) = 48 + d" using d(1) by (simp add: digit_char.simps)
  have "(of_char (hd (show_nat n)) :: nat) < 58" using c d by simp
  moreover have "(of_char (hd ''format'') :: nat) = 102" "(of_char (hd ''ticks_per_second'') :: nat) = 116"
    "(of_char (hd ''measure_ticks'') :: nat) = 109" "(of_char (hd ''loop_ticks'') :: nat) = 108" by simp_all
  ultimately show "show_nat n \<noteq> ''format''" "show_nat n \<noteq> ''ticks_per_second''"
    "show_nat n \<noteq> ''measure_ticks''" "show_nat n \<noteq> ''loop_ticks''" by (metis less_irrefl_nat numeral_less_iff less_trans semiring_norm)+
qed

lemma parse_pair_line_read_back:
  assumes "pair_ok p" and "ps_ticks_per_second st \<noteq> None"
  shows "parse_line line (pair_line p) st =
    Inr (st\<lparr>ps_pairs := ps_pairs st @ [\<lparr>an_pair = p, an_comments = ps_pending st\<rparr>], ps_pending := [], ps_saw_structural := True\<rparr>)"
proof -
  obtain keyword args where words: "pair_words p = keyword # args" and kw: "keyword = show_nat (unat (sn_start_tick p))"
    by (simp add: pair_words_def)
  have "parse_pair_fields keyword args line = Inr p" using pair_fields_read_back [OF assms(1)] words by simp
  then have "parse_pair_line keyword args None line st =
      Inr (st\<lparr>ps_pairs := ps_pairs st @ [\<lparr>an_pair = p, an_comments = ps_pending st\<rparr>], ps_pending := []\<rparr>)"
    using assms(2) by (simp add: parse_pair_line_def ensure_def)
  then show ?thesis
    using pair_words_plain [OF assms(1)]
    unfolding pair_line_words words by (simp add: parse_data_line kw show_nat_not_keyword del: unwords.simps)
qed

end
