(* ===== verification/Score_Canonical.thy ===== *)
theory Score_Canonical
  imports Score_Proofs
begin

text \<open>
  The canonical text of a score, read back: every line is recognized as what it was written
  for, and the document that results is the sorted original.
\<close>

section \<open>Header and comment lines\<close>

lemma plain_words_of_header [simp]:
  "plain_word ''format''" "plain_word format_name" "plain_word ''ticks_per_second''"
  "plain_word ''measure_ticks''" "plain_word ''loop_ticks''"
  by (simp_all add: plain_word_def is_whitespace_def format_name_def)

lemma parse_format_written:
  assumes "\<not> ps_saw_structural st"
  shows "parse_line line (''format '' @ format_name) st = Inr (st\<lparr>ps_saw_structural := True\<rparr>)"
proof -
  have "''format '' @ format_name = unwords [''format'', format_name]" by simp
  then show ?thesis
    using assms by (simp add: parse_data_line parse_format_line_def next_field_def reject_extra_fields_def del: unwords.simps)
qed

lemma header_text:
  "''ticks_per_second '' @ v = unwords [''ticks_per_second'', v]"
  "''measure_ticks '' @ v = unwords [''measure_ticks'', v]" "''loop_ticks '' @ v = unwords [''loop_ticks'', v]"
  by simp_all

lemma parse_header_written:
  assumes "ps_pairs st = []"
  shows "parse_line line (''ticks_per_second '' @ show_nat (unat w)) st =
      Inr (st\<lparr>ps_ticks_per_second := Some w, ps_saw_structural := True\<rparr>)"
    and "parse_line line (''measure_ticks '' @ show_nat (unat w)) st =
      Inr (st\<lparr>ps_measure_ticks := Some w, ps_saw_structural := True\<rparr>)"
    and "parse_line line (''loop_ticks '' @ show_nat (unat w)) st =
      Inr (st\<lparr>ps_loop_ticks := Some w, ps_saw_structural := True\<rparr>)"
  using assms unfolding header_text
  by (simp_all add: parse_data_line show_nat_plain parse_header_line_def parse_header_value_def parse_show_word
    reject_extra_fields_def del: unwords.simps)

lemma parse_structural:
  "comment_line c \<Longrightarrow> classify_comment c = Structural \<Longrightarrow> parse_line line c st = Inr st"
  by (simp add: parse_comment parse_comment_line_def)

lemma fixed_comments:
  "comment_line title_comment" "classify_comment title_comment = Structural"
  "comment_line legend_comment" "classify_comment legend_comment = Structural"
  by (simp_all add: comment_line_def classify_comment_def title_comment_def legend_comment_def newline_def is_whitespace_def)

lemma plain_word_ends: "plain_word w \<Longrightarrow> newline \<notin> set w \<and> w \<noteq> [] \<and> \<not> is_whitespace (last w)"
  using space_is_whitespace by (auto simp: plain_word_def list_all_iff)

lemma stats_line_structural:
  assumes "newline \<notin> set (decimals 1 l tps)" and "list_all pair_ok ps" and "ps \<noteq> []"
  shows "comment_line (stats_line decimals tps l ps)" and "classify_comment (stats_line decimals tps l ps) = Structural"
proof -
  let ?notes = "set (map sn_midi_note ps)"
  have "Min ?notes \<in> ?notes" "Max ?notes \<in> ?notes" using assms(3) by (simp_all del: set_map)
  then have "plain_word (note_name (Min ?notes))" "plain_word (note_name (Max ?notes))"
    using assms(2) note_name_read_back(2) unfolding list_all_iff pair_ok_def by (force, force)
  note names = this [THEN plain_word_ends]
  have digits: "newline \<notin> set (show_nat n)" for n using plain_word_ends [OF show_nat_plain] by simp
  show "comment_line (stats_line decimals tps l ps)"
    using assms(1) names digits by (simp add: comment_line_def stats_line_def newline_def)
  show "classify_comment (stats_line decimals tps l ps) = Structural"
    by (simp add: classify_comment_def stats_line_def strip_prefix_str_def title_comment_def)
qed

lemma anchor_line_words:
  "\<exists>ws. split_whitespace (show_nat (unat m) @ ''  (tick '' @ show_nat (unat t) @ '', t='' @ rest) =
     show_nat (unat m) # ''(tick'' # (show_nat (unat t) @ '','') # ws"
proof -
  have w: "words_from cur (show_nat n @ u) = words_from (cur @ show_nat n) u" for cur n u
    by (rule words_from_word) (rule plain_word_solid [OF show_nat_plain])
  show ?thesis by (simp add: split_whitespace_def w is_whitespace_def show_nat_nonempty)
qed

lemma anchor_line_classified:
  "classify_comment (anchor_line decimals tps m t) = Anchor m t"
proof -
  obtain ws where ws: "split_whitespace (show_nat (unat m) @ ''  (tick '' @ show_nat (unat t) @ '', t='' @ decimals 2 t tps @ ''s) ---'')
      = show_nat (unat m) # ''(tick'' # (show_nat (unat t) @ '','') # ws"
    using anchor_line_words by blast
  have "anchor_tick (''(tick'' # (show_nat (unat t) @ '','') # ws) = Some t"
    by (simp add: strip_suffix_char_def parse_show_word butlast_append)
  with ws show ?thesis
    by (simp add: classify_comment_def anchor_line_def strip_prefix_str_def anchor_prefix_def title_comment_def
      legend_comment_def parse_show_word)
qed

lemma anchor_line_comment:
  assumes "newline \<notin> set (decimals 2 t tps)"
  shows "comment_line (anchor_line decimals tps m t)"
proof -
  have digits: "newline \<notin> set (show_nat n)" for n using plain_word_ends [OF show_nat_plain] by simp
  show ?thesis using assms digits by (simp add: comment_line_def anchor_line_def anchor_prefix_def newline_def is_whitespace_def)
qed

lemma parse_anchor_written:
  assumes "newline \<notin> set (decimals 2 t tps)"
  shows "parse_line line (anchor_line decimals tps m t) st = Inr (st\<lparr>ps_anchors := ps_anchors st @ [(m, t)]\<rparr>)"
  using anchor_line_comment [where decimals = decimals and t = t and tps = tps and m = m, OF assms]
  by (simp add: parse_comment parse_comment_line_def anchor_line_classified) (auto simp: comment_line_def)

section \<open>The body\<close>

definition comments_ok :: "annotated_pair \<Rightarrow> bool" where
  "comments_ok a \<longleftrightarrow> list_all user_comment (an_comments a)"

definition expected_of :: "u64 option \<Rightarrow> u64 \<Rightarrow> score_note_pair list \<Rightarrow> (u64 \<times> u64) list" where
  "expected_of measure_ticks current ps =
     (case measure_ticks of None \<Rightarrow> [] | Some ticks \<Rightarrow> expected_anchors ticks current ps)"

lemma body_total:
  "measure_ticks \<noteq> Some 0 \<Longrightarrow> \<exists>ls. body_lines decimals tps measure_ticks current as = Inr ls"
proof (induction as arbitrary: current)
  case (Cons a as)
  then obtain g where "\<forall>current. body_lines decimals tps measure_ticks current as = Inr (g current)" by metis
  with Cons.prems show ?case by (auto simp: Let_def split: option.splits)
qed simp

text \<open>One step of the body: an anchor line where a measure begins, the comments, and the pair.\<close>

lemma body_cons:
  assumes "body_lines decimals tps measure_ticks current (a # as) = Inr ls" and no_nl: "\<forall>n x y. newline \<notin> set (decimals n x y)"
  obtains anchor anchors current' rest where "ls = anchor @ an_comments a @ pair_line (an_pair a) # rest"
    and "body_lines decimals tps measure_ticks current' as = Inr rest"
    and "\<And>line st. parse_lines line anchor st = Inr (st\<lparr>ps_anchors := ps_anchors st @ anchors\<rparr>)"
    and "list_all comment_line anchor"
    and "expected_of measure_ticks current (map an_pair (a # as)) = anchors @ expected_of measure_ticks current' (map an_pair as)"
proof (cases measure_ticks)
  case None
  then show thesis using assms(1) that [of "[]" _ current "[]"] by (auto simp: expected_of_def result_simps)
next
  case (Some ticks)
  let ?m = "sn_start_tick (an_pair a) div ticks + 1"
  let ?t = "(?m - 1) * ticks"
  have nz: "ticks \<noteq> 0" using assms(1) Some by (auto simp: result_simps)
  show thesis
  proof (cases "?m \<noteq> current")
    case True
    obtain rest where "ls = [anchor_line decimals tps ?m ?t] @ an_comments a @ pair_line (an_pair a) # rest"
      and "body_lines decimals tps measure_ticks ?m as = Inr rest"
      using assms(1) True nz by (auto simp: Some result_simps Let_def)
    moreover have "parse_lines line [anchor_line decimals tps ?m ?t] st = Inr (st\<lparr>ps_anchors := ps_anchors st @ [(?m, ?t)]\<rparr>)"
      for line st using no_nl by (simp add: parse_anchor_written)
    ultimately show thesis
      using that [of "[anchor_line decimals tps ?m ?t]" rest ?m "[(?m, ?t)]"] True no_nl
      by (simp add: expected_of_def Some anchor_line_comment Let_def)
  next
    case False
    then obtain rest where "ls = [] @ an_comments a @ pair_line (an_pair a) # rest"
      and "body_lines decimals tps measure_ticks current as = Inr rest"
      using assms(1) nz by (auto simp: Some result_simps Let_def)
    then show thesis using that [of "[]" rest current "[]"] False by (simp add: expected_of_def Some Let_def)
  qed
qed

lemma parse_body:
  assumes "body_lines decimals tps measure_ticks current as = Inr ls"
    and "\<forall>n x y. newline \<notin> set (decimals n x y)"
    and "list_all (pair_ok \<circ> an_pair) as" and "list_all comments_ok as"
    and "ps_ticks_per_second st \<noteq> None" and "ps_pairs st \<noteq> []" and "ps_pending st = []" and "ps_saw_structural st"
  shows "parse_lines line ls st = Inr (st\<lparr>ps_pairs := ps_pairs st @ as,
    ps_anchors := ps_anchors st @ expected_of measure_ticks current (map an_pair as)\<rparr>)"
  using assms
proof (induction as arbitrary: current ls line st)
  case Nil
  then show ?case by (simp add: expected_of_def split: option.split)
next
  case (Cons a as)
  from Cons.prems(1,2) obtain anchor anchors current' rest
    where ls: "ls = anchor @ an_comments a @ pair_line (an_pair a) # rest"
      and rest: "body_lines decimals tps measure_ticks current' as = Inr rest"
      and anchor: "\<And>line st. parse_lines line anchor st = Inr (st\<lparr>ps_anchors := ps_anchors st @ anchors\<rparr>)"
      and expected: "expected_of measure_ticks current (map an_pair (a # as)) = anchors @ expected_of measure_ticks current' (map an_pair as)"
    by (rule body_cons) blast
  have ok: "pair_ok (an_pair a)" "list_all user_comment (an_comments a)" using Cons.prems(3,4) by (simp_all add: comments_ok_def)
  have a: "\<lparr>an_pair = an_pair a, an_comments = an_comments a\<rparr> = a" by simp
  note IH = Cons.IH [OF rest Cons.prems(2)]
  show ?case
    using Cons.prems(3-) ok expected
    by (simp add: ls parse_lines_append anchor parse_user_comments parse_pair_line_read_back IH)
qed

lemma parse_first_body:
  assumes "body_lines decimals tps measure_ticks current (a # as) = Inr ls"
    and "\<forall>n x y. newline \<notin> set (decimals n x y)"
    and "list_all (pair_ok \<circ> an_pair) (a # as)" and "list_all comments_ok (a # as)"
    and "ps_ticks_per_second st \<noteq> None" and "ps_pairs st = []" and "ps_pending st = []"
  shows "parse_lines line ls st = Inr (st\<lparr>ps_pairs := a\<lparr>an_comments := []\<rparr> # as,
    ps_leading := ps_leading st @ an_comments a,
    ps_anchors := ps_anchors st @ expected_of measure_ticks current (map an_pair (a # as)), ps_saw_structural := True\<rparr>)"
proof -
  from assms(1,2) obtain anchor anchors current' rest
    where ls: "ls = anchor @ an_comments a @ pair_line (an_pair a) # rest"
      and rest: "body_lines decimals tps measure_ticks current' as = Inr rest"
      and anchor: "\<And>line st. parse_lines line anchor st = Inr (st\<lparr>ps_anchors := ps_anchors st @ anchors\<rparr>)"
      and expected: "expected_of measure_ticks current (map an_pair (a # as)) = anchors @ expected_of measure_ticks current' (map an_pair as)"
    by (rule body_cons) blast
  have ok: "pair_ok (an_pair a)" "list_all user_comment (an_comments a)" using assms(3,4) by (simp_all add: comments_ok_def)
  have a: "\<lparr>an_pair = an_pair a, an_comments = []\<rparr> = a\<lparr>an_comments := []\<rparr>" by simp
  note tail = parse_body [OF rest assms(2)]
  show ?thesis
    using assms(3-) ok expected
    by (simp add: ls parse_lines_append anchor parse_user_comments parse_pair_line_read_back tail a)
qed

lemma body_plain:
  assumes "body_lines decimals tps measure_ticks current as = Inr ls" and "\<forall>n x y. newline \<notin> set (decimals n x y)"
    and "list_all (pair_ok \<circ> an_pair) as" and "list_all comments_ok as"
  shows "\<forall>l \<in> set ls. plain_line l"
  using assms
proof (induction as arbitrary: current ls)
  case (Cons a as)
  from Cons.prems(1,2) obtain anchor current' rest where ls: "ls = anchor @ an_comments a @ pair_line (an_pair a) # rest"
      and rest: "body_lines decimals tps measure_ticks current' as = Inr rest" and anchor: "list_all comment_line anchor"
    by (rule body_cons) blast
  have "plain_line (pair_line (an_pair a))"
    using Cons.prems(3) by (simp add: pair_line_words plain_line_unwords pair_words_plain)
  moreover have "\<forall>l \<in> set rest. plain_line l" using Cons.IH [OF rest Cons.prems(2)] Cons.prems(3,4) by simp
  ultimately show ?case
    using anchor Cons.prems(4) by (auto simp: ls list_all_iff comments_ok_def user_comment_def intro: comment_line_plain)
qed simp

section \<open>The whole text\<close>

definition canonical_score :: "u64 \<Rightarrow> bhs_score \<Rightarrow> bhs_score" where
  "canonical_score loop_ticks s =
     (case sorted_pairs_with_comments s of
        [] \<Rightarrow> s
      | a # as \<Rightarrow> s\<lparr>sc_loop_ticks := Some loop_ticks, sc_pairs := a\<lparr>an_comments := []\<rparr> # as,
                   sc_leading := sc_leading s @ an_comments a,
                   sc_anchors := expected_of (sc_measure_ticks s) 0 (map an_pair (a # as))\<rparr>)"

definition document_ok :: "bhs_score \<Rightarrow> bool" where
  "document_ok s \<longleftrightarrow> score_wf s \<and> sc_measure_ticks s \<noteq> Some 0 \<and> list_all comments_ok (sc_pairs s)
     \<and> list_all user_comment (sc_leading s) \<and> list_all user_comment (sc_trailing s)"

lemma sorted_with_comments_facts:
  "set (sorted_pairs_with_comments s) = set (sc_pairs s)"
  "length (sorted_pairs_with_comments s) = length (sc_pairs s)"
  "sorted (map (canonical_pair_order_key \<circ> an_pair) (sorted_pairs_with_comments s))"
  by (simp_all add: sorted_pairs_with_comments_def del: map_map)

lemma effective_loop_total: "sc_pairs s \<noteq> [] \<Longrightarrow> \<exists>l. effective_loop_ticks s = Inr l"
  by (simp add: effective_loop_ticks_def last_release_tick_def split: option.split)

definition header_state :: "bhs_score \<Rightarrow> u64 \<Rightarrow> parse_state" where
  "header_state s l = \<lparr>ps_ticks_per_second = Some (sc_ticks_per_second s), ps_measure_ticks = sc_measure_ticks s,
     ps_loop_ticks = Some l, ps_pairs = [], ps_leading = sc_leading s, ps_pending = [], ps_anchors = [],
     ps_saw_structural = True\<rparr>"

definition header_lines :: "(nat \<Rightarrow> u64 \<Rightarrow> u64 \<Rightarrow> string) \<Rightarrow> bhs_score \<Rightarrow> u64 \<Rightarrow> string list" where
  "header_lines decimals s l =
     sc_leading s @
       [title_comment, stats_line decimals (sc_ticks_per_second s) l (map an_pair (sorted_pairs_with_comments s)),
        ''format '' @ format_name, ''ticks_per_second '' @ show_nat (unat (sc_ticks_per_second s))] @
       (case sc_measure_ticks s of None \<Rightarrow> [] | Some m \<Rightarrow> [''measure_ticks '' @ show_nat (unat m)]) @
       [''loop_ticks '' @ show_nat (unat l), legend_comment]"

lemma sorted_pairs_ok:
  assumes "document_ok s"
  shows "list_all (pair_ok \<circ> an_pair) (sorted_pairs_with_comments s)" and "list_all comments_ok (sorted_pairs_with_comments s)"
    and "sorted_pairs_with_comments s \<noteq> []" and "list_all pair_ok (map an_pair (sorted_pairs_with_comments s))"
proof -
  have ok: "list_all (pair_ok \<circ> an_pair) (sc_pairs s)" "list_all comments_ok (sc_pairs s)" "sc_pairs s \<noteq> []"
    using assms by (simp_all add: document_ok_def score_wf_def)
  show "list_all (pair_ok \<circ> an_pair) (sorted_pairs_with_comments s)" "list_all comments_ok (sorted_pairs_with_comments s)"
    "list_all pair_ok (map an_pair (sorted_pairs_with_comments s))"
    using ok(1,2) by (simp_all add: list_all_iff sorted_with_comments_facts)
  show "sorted_pairs_with_comments s \<noteq> []" using ok(3) sorted_with_comments_facts(1) [of s] by (metis set_empty)
qed

lemma parse_header_lines:
  assumes ok: "document_ok s" and no_nl: "\<forall>n x y. newline \<notin> set (decimals n x y)"
  shows "parse_lines 1 (header_lines decimals s l) parse_start = Inr (header_state s l)"
    and "\<forall>x \<in> set (header_lines decimals s l). plain_line x"
proof -
  let ?stats = "stats_line decimals (sc_ticks_per_second s) l (map an_pair (sorted_pairs_with_comments s))"
  have stats: "comment_line ?stats" "classify_comment ?stats = Structural"
    using stats_line_structural [of decimals l "sc_ticks_per_second s"] no_nl sorted_pairs_ok [OF ok] by simp_all
  have lead: "list_all user_comment (sc_leading s)" using ok by (simp add: document_ok_def)
  define f t m lp where lines: "f = ''format '' @ format_name" "t = ''ticks_per_second '' @ show_nat (unat (sc_ticks_per_second s))"
    "m = (\<lambda>v :: u64. ''measure_ticks '' @ show_nat (unat v))" "lp = ''loop_ticks '' @ show_nat (unat l)"
  have read: "\<not> ps_saw_structural st \<Longrightarrow> parse_line line f st = Inr (st\<lparr>ps_saw_structural := True\<rparr>)"
    "ps_pairs st = [] \<Longrightarrow> parse_line line t st = Inr (st\<lparr>ps_ticks_per_second := Some (sc_ticks_per_second s), ps_saw_structural := True\<rparr>)"
    "ps_pairs st = [] \<Longrightarrow> parse_line line (m v) st = Inr (st\<lparr>ps_measure_ticks := Some v, ps_saw_structural := True\<rparr>)"
    "ps_pairs st = [] \<Longrightarrow> parse_line line lp st = Inr (st\<lparr>ps_loop_ticks := Some l, ps_saw_structural := True\<rparr>)"
    for line st v unfolding lines by (erule parse_format_written parse_header_written)+
  have split: "header_lines decimals s l = sc_leading s @ [title_comment, ?stats, f, t] @
      (case sc_measure_ticks s of None \<Rightarrow> [] | Some v \<Rightarrow> [m v]) @ [lp, legend_comment]"
    by (simp only: header_lines_def lines)
  show "parse_lines 1 (header_lines decimals s l) parse_start = Inr (header_state s l)"
    using lead unfolding split
    by (cases "sc_measure_ticks s")
      (simp_all add: parse_lines_append parse_user_comments parse_start_def parse_structural stats
        fixed_comments read header_state_def)
  have plain: "plain_line t" "plain_line (m v)" "plain_line lp" "plain_line f" for v
    unfolding lines header_text by (rule plain_line_unwords, simp add: show_nat_plain)+
      (use plain_line_unwords [of "[''format'', format_name]"] in simp)
  show "\<forall>x \<in> set (header_lines decimals s l). plain_line x"
    using lead plain stats fixed_comments
    by (auto simp: split list_all_iff user_comment_def intro: comment_line_plain split: option.split)
qed

lemma canonical_reading:
  assumes ok: "document_ok s" and no_nl: "\<forall>n x y. newline \<notin> set (decimals n x y)"
  shows "\<exists>text l. effective_loop_ticks s = Inr l \<and> format_score decimals s = Inr text
    \<and> parse_score text = Inr (canonical_score l s)"
proof -
  have pairs: "sc_pairs s \<noteq> []" and measure_ok: "sc_measure_ticks s \<noteq> Some 0" and tps: "sc_ticks_per_second s \<noteq> 0"
    using ok by (auto simp: document_ok_def score_wf_def)
  obtain l where l: "effective_loop_ticks s = Inr l" using effective_loop_total [OF pairs] by blast
  obtain a as where sorted: "sorted_pairs_with_comments s = a # as" using sorted_pairs_ok(3) [OF ok] by (auto simp: neq_Nil_conv)
  obtain body where body: "body_lines decimals (sc_ticks_per_second s) (sc_measure_ticks s) 0 (a # as) = Inr body"
    using body_total [OF measure_ok] by blast
  let ?lines = "header_lines decimals s l @ body @ sc_trailing s"
  have "format_lines decimals s = Inr ?lines"
    using pairs body by (simp add: format_lines_def l sorted header_lines_def del: body_lines.simps)
  then have written: "format_score decimals s = Inr (concat (map (\<lambda>l. l @ [newline]) ?lines))" by (simp add: format_score_def)
  have trail: "list_all user_comment (sc_trailing s)" using ok by (simp add: document_ok_def)
  have "\<forall>x \<in> set ?lines. plain_line x"
    using parse_header_lines(2) [OF ok no_nl, of l] body_plain [OF body no_nl] sorted_pairs_ok(1,2) [OF ok] trail
    by (auto simp: sorted list_all_iff user_comment_def intro: comment_line_plain)
  then have "text_lines (concat (map (\<lambda>l. l @ [newline]) ?lines)) = ?lines" by (rule text_lines_written)
  moreover have "parse_lines line body (header_state s l) = Inr ((header_state s l)\<lparr>ps_pairs := a\<lparr>an_comments := []\<rparr> # as,
      ps_leading := sc_leading s @ an_comments a,
      ps_anchors := expected_of (sc_measure_ticks s) 0 (map an_pair (a # as))\<rparr>)" for line
    using parse_first_body [OF body no_nl, of "header_state s l"] sorted_pairs_ok(1,2) [OF ok] sorted
    by (simp add: header_state_def)
  ultimately have "parse_score (concat (map (\<lambda>l. l @ [newline]) ?lines)) = Inr (canonical_score l s)"
    using parse_header_lines(1) [OF ok no_nl, of l] trail tps
    by (simp add: parse_score_def parse_lines_append parse_user_comments parse_finish_def header_state_def
      canonical_score_def sorted)
  with l written show ?thesis by blast
qed

end
