(* ===== verification/Score_Changes.thy ===== *)
theory Score_Changes
  imports Score_Proofs
begin

text \<open>
  What the editing operations keep: stretching a score to a duration gives a playable score, a
  rounded tick count is the nearest one, and random mutations keep the pairs well-formed. The
  random source enters through a locale; a linear congruential generator is an instance.
\<close>

section \<open>Dropping early pairs\<close>

lemma filter_remove_at:
  assumes "i < length xs" and "\<not> P (xs ! i)"
  shows "filter P (remove_at i xs) = filter P xs"
proof -
  have "xs = take i xs @ xs ! i # drop (Suc i) xs" using assms(1) by (simp add: id_take_nth_drop)
  then have "filter P xs = filter P (take i xs @ xs ! i # drop (Suc i) xs)" by simp
  with assms(2) show ?thesis by (simp add: remove_at_def)
qed

text \<open>The loop from the end is a filter.\<close>

lemma drop_starting_before_step:
  "i \<le> length as \<Longrightarrow> list_all (\<lambda>a. t \<le> sn_start_tick (an_pair a)) (drop i as) \<Longrightarrow>
    drop_starting_before i t as = filter (\<lambda>a. t \<le> sn_start_tick (an_pair a)) as"
proof (induction i arbitrary: as)
  case 0
  then show ?case by (simp add: list_all_iff)
next
  case (Suc i)
  have i: "i < length as" using Suc.prems(1) by simp
  have drop: "drop i as = as ! i # drop (Suc i) as" using i by (simp add: Cons_nth_drop_Suc)
  show ?case
  proof (cases "sn_start_tick (an_pair (as ! i)) < t")
    case True
    have "drop i (remove_at i as) = drop (Suc i) as" using i by (simp add: remove_at_def)
    then have "drop_starting_before i t (remove_at i as) = filter (\<lambda>a. t \<le> sn_start_tick (an_pair a)) (remove_at i as)"
      using Suc.prems i by (intro Suc.IH) (simp_all add: remove_at_def)
    then show ?thesis using True filter_remove_at [OF i, of "\<lambda>a. t \<le> sn_start_tick (an_pair a)"] by simp
  next
    case False
    then have "drop_starting_before i t as = filter (\<lambda>a. t \<le> sn_start_tick (an_pair a)) as"
      using Suc.prems drop by (intro Suc.IH) simp_all
    then show ?thesis using False by simp
  qed
qed

lemma drop_starting_before_filter:
  "drop_starting_before (length as) t as = filter (\<lambda>a. t \<le> sn_start_tick (an_pair a)) as"
  by (rule drop_starting_before_step) simp_all

section \<open>Stretching\<close>

lemma map_ok_total:
  assumes "\<And>x. x \<in> set xs \<Longrightarrow> \<exists>y. f x = Inr y \<and> R x y"
  shows "\<exists>ys. map_ok f xs = Inr ys \<and> list_all2 R xs ys"
  using assms
proof (induction xs)
  case (Cons x xs)
  obtain y where "f x = Inr y" "R x y" using Cons.prems [of x] by auto
  moreover obtain ys where "map_ok f xs = Inr ys" "list_all2 R xs ys" using Cons.IH Cons.prems by auto
  ultimately show ?case by simp
qed simp

lemma rescale_total: "from_tps \<noteq> 0 \<Longrightarrow> \<exists>t. rescale_ticks ticks from_tps to_tps = Inr t"
  by (simp add: rescale_ticks_def Let_def)

text \<open>Twice the distance of a rounded quotient to the exact one is at most the divisor.\<close>

lemma rescale_nearest:
  assumes "rescale_ticks ticks from_tps to_tps = Inr t" and "t \<noteq> - 1"
  shows "2 * (unat t * unat from_tps) \<le> 2 * (unat ticks * unat to_tps) + unat from_tps"
    and "2 * (unat ticks * unat to_tps) \<le> 2 * (unat t * unat from_tps) + unat from_tps"
proof -
  let ?a = "unat ticks * unat to_tps" and ?d = "unat from_tps"
  let ?q = "(?a + ?d div 2) div ?d"
  have d: "0 < ?d" using assms(1) by (cases "from_tps = 0") (simp_all add: rescale_ticks_def unat_gt_0)
  have t: "unat t = ?q" using assms by (auto simp: rescale_ticks_def Let_def unat_of_nat_small split: if_splits)
  have "?q * ?d + (?a + ?d div 2) mod ?d = ?a + ?d div 2" by simp
  moreover have "(?a + ?d div 2) mod ?d < ?d" using d by simp
  moreover have "2 * (?d div 2) \<le> ?d" "?d \<le> 2 * (?d div 2) + 1" by simp_all
  ultimately show "2 * (unat t * ?d) \<le> 2 * ?a + ?d" "2 * ?a \<le> 2 * (unat t * ?d) + ?d"
    unfolding t by linarith+
qed

definition fits_loop :: "u64 \<Rightarrow> score_note_pair \<Rightarrow> bool" where
  "fits_loop l p \<longleftrightarrow> unat (sn_start_tick p) + unat (sn_duration_ticks p) \<le> unat l"

definition same_note :: "score_note_pair \<Rightarrow> score_note_pair \<Rightarrow> bool" where
  "same_note p q \<longleftrightarrow> sn_midi_note p = sn_midi_note q \<and> sn_velocity p = sn_velocity q
     \<and> sn_release_velocity p = sn_release_velocity q"

lemma word_max_positive: "1 \<le> max d (1 :: 'a::len word)"
  by (rule max.cobounded2)

lemma rescale_pair_fits:
  assumes "pair_ok p" and "old_loop \<noteq> 0" and "1 \<le> new_loop" and "new_loop \<noteq> - 1"
  shows "\<exists>q. rescale_pair old_loop new_loop p = Inr q \<and> (pair_ok q \<and> fits_loop new_loop q \<and> same_note p q)"
proof -
  obtain start duration where r: "rescale_ticks (sn_start_tick p) old_loop new_loop = Inr start"
    "rescale_ticks (sn_duration_ticks p) old_loop new_loop = Inr duration"
    using rescale_total [OF assms(2)] by metis
  let ?d = "max duration 1"
  let ?q = "if sat_add start ?d > new_loop then p\<lparr>sn_start_tick := new_loop - 1, sn_duration_ticks := 1\<rparr>
      else p\<lparr>sn_start_tick := start, sn_duration_ticks := ?d\<rparr>"
  have q: "rescale_pair old_loop new_loop p = Inr ?q" by (simp add: rescale_pair_def r Let_def)
  have ok: "pair_ok ?q" using assms(1) word_max_positive [of duration] by (simp add: pair_ok_def)
  have "new_loop < - 1" using assms(4) by (simp add: order_less_le)
  then have bound: "unat new_loop < 2 ^ 64 - 1"
    by (simp add: word_less_nat_alt unsigned_minus_1_eq_mask mask_eq_exp_minus_1)
  have "fits_loop new_loop ?q"
  proof (cases "sat_add start ?d > new_loop")
    case True
    have "unat (new_loop - 1) = unat new_loop - 1" using assms(3) by (simp add: unat_sub)
    moreover have "1 \<le> unat new_loop" using assms(3) by (simp add: word_le_nat_alt)
    ultimately show ?thesis using True by (simp add: fits_loop_def)
  next
    case False
    then have "min (unat start + unat ?d) (2 ^ 64 - 1) \<le> unat new_loop"
      by (simp add: not_less word_le_nat_alt unat_sat_add)
    then show ?thesis using False bound by (simp add: fits_loop_def min_le_iff_disj)
  qed
  moreover have "same_note p ?q" by (simp add: same_note_def)
  ultimately show ?thesis using q ok by blast
qed

lemma fits_loop_end: "fits_loop l p \<Longrightarrow> end_tick p \<le> l"
  using unsigned_less [of l] by (simp add: fits_loop_def end_tick_def word_le_nat_alt unat_word_ariths)

section \<open>Random sources\<close>

locale random_source =
  fixes R :: "('f, 'r) random_ops"
  assumes index_in_range: "0 < n \<Longrightarrow> fst (rn_index R n r) < n"
    and byte_in_range: "lo \<le> hi \<Longrightarrow> lo \<le> fst (rn_byte R lo hi r) \<and> fst (rn_byte R lo hi r) \<le> hi"
begin

lemma walk_in_keys: "fst (random_note R r) = n \<Longrightarrow> first_midi_note \<le> n \<and> n \<le> last_midi_note"
proof -
  have walk: "walk_weights R x ns \<in> insert last_midi_note (set ns)" for x ns
    by (induction ns arbitrary: x) (auto simp: Let_def)
  have keys: "first_midi_note \<le> m \<and> m \<le> last_midi_note" if key: "m \<in> set key_range" for m
  proof -
    obtain k where "21 \<le> k" "k < 109" "m = of_nat k"
      using key by (auto simp: key_range_def first_midi_note_def last_midi_note_def simp del: upt.simps upt_rec_numeral)
    then show ?thesis by (simp add: first_midi_note_def last_midi_note_def word_le_nat_alt unat_of_nat_small)
  qed
  assume "fst (random_note R r) = n"
  then have "n \<in> insert last_midi_note (set key_range)" using walk by (auto simp: random_note_def Let_def split: prod.splits)
  then show ?thesis using keys by (auto simp: first_midi_note_def last_midi_note_def)
qed

lemma velocity_in_range: "fst (random_velocity R r) \<le> max_velocity"
  using byte_in_range [of 0 max_velocity r] by (simp add: random_velocity_def)

lemma duration_positive: "1 \<le> fst (random_duration_ticks R tps r)"
  by (simp add: random_duration_ticks_def word_max_positive split: prod.split)

lemma pairs_of_remove: "list_all P xs \<Longrightarrow> list_all P (remove_at i xs)"
  by (auto simp: remove_at_def list_all_iff dest: in_set_takeD in_set_dropD)

lemma pairs_of_insert: "list_all P xs \<Longrightarrow> P x \<Longrightarrow> list_all P (insert_at i x xs)"
  by (auto simp: insert_at_def list_all_iff dest: in_set_takeD in_set_dropD)

end

definition same_header :: "bhs_score \<Rightarrow> bhs_score \<Rightarrow> bool" where
  "same_header s s' \<longleftrightarrow> s'\<lparr>sc_pairs := []\<rparr> = s\<lparr>sc_pairs := []\<rparr>"

context random_source begin

lemma delete_keeps:
  assumes "list_all (pair_ok \<circ> an_pair) (sc_pairs (mu_inner m))"
  shows "list_all (pair_ok \<circ> an_pair) (sc_pairs (mu_inner (snd (delete_random_pair R m))))"
    and "same_header (mu_inner m) (mu_inner (snd (delete_random_pair R m)))"
  using assms by (auto simp: delete_random_pair_def same_header_def Let_def pairs_of_remove split: prod.split)

lemma substitute_keeps:
  assumes "list_all (pair_ok \<circ> an_pair) (sc_pairs (mu_inner m))"
  shows "list_all (pair_ok \<circ> an_pair) (sc_pairs (mu_inner (snd (substitute_random_pair R m))))"
    and "same_header (mu_inner m) (mu_inner (snd (substitute_random_pair R m)))"
proof -
  let ?s = "mu_inner m"
  show "same_header ?s (mu_inner (snd (substitute_random_pair R m)))"
    by (simp add: substitute_random_pair_def same_header_def Let_def split: prod.split)
  show "list_all (pair_ok \<circ> an_pair) (sc_pairs (mu_inner (snd (substitute_random_pair R m))))"
  proof (cases "sc_pairs ?s = []")
    case False
    obtain i r1 where i: "rn_index R (length (sc_pairs ?s)) (mu_rng m) = (i, r1)" by fastforce
    obtain n r2 where n: "random_note R r1 = (n, r2)" by fastforce
    obtain d r3 where d: "random_duration_ticks R (sc_ticks_per_second ?s) r2 = (d, r3)" by fastforce
    obtain v r4 where v: "random_velocity R r3 = (v, r4)" by fastforce
    have "i < length (sc_pairs ?s)" using index_in_range [of "length (sc_pairs ?s)" "mu_rng m"] False i by simp
    then have "pair_ok (an_pair (sc_pairs ?s ! i))" using assms by (simp add: list_all_length)
    then have "pair_ok ((an_pair (sc_pairs ?s ! i))\<lparr>sn_midi_note := n, sn_duration_ticks := d, sn_velocity := v\<rparr>)"
      using walk_in_keys [of r1 n] duration_positive [of "sc_ticks_per_second ?s" r2] velocity_in_range [of r3]
      by (simp add: pair_ok_def n d v)
    then show ?thesis
      using assms False set_update_subset_insert
      by (fastforce simp: substitute_random_pair_def Let_def i n d v list_all_iff)
  qed (simp add: substitute_random_pair_def)
qed

lemma insert_keeps:
  assumes "list_all (pair_ok \<circ> an_pair) (sc_pairs (mu_inner m))"
  shows "list_all (pair_ok \<circ> an_pair) (sc_pairs (mu_inner (snd (insert_after_random_pair R m))))"
    and "same_header (mu_inner m) (mu_inner (snd (insert_after_random_pair R m)))"
proof -
  let ?s = "mu_inner m"
  show "same_header ?s (mu_inner (snd (insert_after_random_pair R m)))"
    by (simp add: insert_after_random_pair_def same_header_def Let_def split: prod.split)
  show "list_all (pair_ok \<circ> an_pair) (sc_pairs (mu_inner (snd (insert_after_random_pair R m))))"
  proof (cases "sc_pairs ?s = []")
    case False
    obtain i r1 where i: "rn_index R (length (sc_pairs ?s)) (mu_rng m) = (i, r1)" by fastforce
    obtain t r2 where t: "rn_tick R (sn_start_tick (an_pair (sc_pairs ?s ! i))) (insertion_window_end ?s i) r1 = (t, r2)" by fastforce
    obtain d r3 where d: "random_duration_ticks R (sc_ticks_per_second ?s) r2 = (d, r3)" by fastforce
    obtain n r4 where n: "random_note R r3 = (n, r4)" by fastforce
    obtain v r5 where v: "random_velocity R r4 = (v, r5)" by fastforce
    have "pair_ok \<lparr>sn_start_tick = t, sn_duration_ticks = d, sn_midi_note = n, sn_velocity = v, sn_release_velocity = None\<rparr>"
      using walk_in_keys [of r3 n] duration_positive [of "sc_ticks_per_second ?s" r2] velocity_in_range [of r4]
      by (simp add: pair_ok_def n d v)
    then show ?thesis
      using assms False by (simp add: insert_after_random_pair_def Let_def i t d n v pairs_of_insert)
  qed (simp add: insert_after_random_pair_def)
qed

lemma mutate_once_keeps:
  assumes "list_all (pair_ok \<circ> an_pair) (sc_pairs (mu_inner m))"
  shows "list_all (pair_ok \<circ> an_pair) (sc_pairs (mu_inner (mutate_once R m)))" and "same_header (mu_inner m) (mu_inner (mutate_once R m))"
proof -
  obtain c r where c: "rn_index R 3 (mu_rng m) = (c, r)" by fastforce
  have "list_all (pair_ok \<circ> an_pair) (sc_pairs (mu_inner (m\<lparr>mu_rng := r\<rparr>)))" using assms by simp
  note keeps = delete_keeps [OF this] substitute_keeps [OF this] insert_keeps [OF this]
  show "list_all (pair_ok \<circ> an_pair) (sc_pairs (mu_inner (mutate_once R m)))" "same_header (mu_inner m) (mu_inner (mutate_once R m))"
    using keeps by (simp_all add: mutate_once_def c Let_def)
qed

lemma mutate_loop_keeps:
  assumes "list_all (pair_ok \<circ> an_pair) (sc_pairs (mu_inner m))" and "mutate_loop R n applied m = (applied', m')"
  shows "list_all (pair_ok \<circ> an_pair) (sc_pairs (mu_inner m')) \<and> same_header (mu_inner m) (mu_inner m')
    \<and> applied' \<le> applied + n \<and> (applied' < applied + n \<longrightarrow> sc_pairs (mu_inner m') = [])"
  using assms
proof (induction n arbitrary: applied m)
  case (Suc n)
  show ?case
  proof (cases "sc_pairs (mu_inner m) = []")
    case False
    with Suc.prems have "mutate_loop R n (applied + 1) (mutate_once R m) = (applied', m')" by simp
    from Suc.IH [OF mutate_once_keeps(1) [OF Suc.prems(1)] this] mutate_once_keeps(2) [OF Suc.prems(1)]
    show ?thesis by (auto simp: same_header_def)
  qed (use Suc.prems in \<open>auto simp: same_header_def\<close>)
qed (simp add: same_header_def)

end

text \<open>A linear congruential generator; its floating point numbers are rationals scaled to integers.\<close>

definition lcg_step :: "nat \<Rightarrow> nat" where
  "lcg_step r = (r * 1103515245 + 12345) mod 2 ^ 31"

definition lcg_ops :: "(int, nat) random_ops" where
  "lcg_ops = \<lparr>rn_index = (\<lambda>n r. (r div 65536 mod n, lcg_step r)),
     rn_tick = (\<lambda>lo hi r. (lo + of_nat (r div 65536 mod (unat (hi - lo) + 1)), lcg_step r)),
     rn_byte = (\<lambda>lo hi r. (lo + of_nat (r div 65536 mod (unat (hi - lo) + 1)), lcg_step r)),
     rn_unit = (\<lambda>r. (int (r mod 1000), lcg_step r)),
     rn_weight = (\<lambda>n. if n < 64 then int (unat n) - 20 else 109 - int (unat n)),
     rn_sum = sum_list, rn_times = (\<lambda>u total. u * total div 1000), rn_minus = (-), rn_not_positive = (\<lambda>x. x \<le> 0),
     rn_duration = (\<lambda>u tps. tps div 10 + of_int u), rn_mutations = (\<lambda>n noise. n * nat noise div 1000)\<rparr>"

lemma word_offset_in_range:
  fixes lo hi :: "'a::len word"
  assumes "lo \<le> hi" and "k \<le> unat (hi - lo)"
  shows "lo \<le> lo + of_nat k \<and> lo + of_nat k \<le> hi"
proof -
  have diff: "unat (hi - lo) = unat hi - unat lo" "unat lo \<le> unat hi" using assms(1) by (simp_all add: unat_sub word_le_nat_alt)
  have "unat hi < 2 ^ LENGTH('a)" by (rule unsigned_less)
  then have "unat lo + k < 2 ^ LENGTH('a)" using assms(2) diff by linarith
  then have "unat (lo + of_nat k) = unat lo + k" by (subst unat_word_ariths) (simp add: unat_of_nat_small)
  then show ?thesis using assms(2) diff by (simp add: word_le_nat_alt)
qed

interpretation lcg: random_source lcg_ops
  by unfold_locales (auto simp: lcg_ops_def less_Suc_eq_le [symmetric] intro!: word_offset_in_range)

end
