(* ===== verification/Score_Playback.thy ===== *)
theory Score_Playback
  imports Score_Edit
begin

text \<open>
  Performing a score: the events of a document (\<open>to_events\<close> in
  \<open>_black_hole_beam/src/piano/score_text.rs\<close>) and the looping playback
  (\<open>_black_hole_beam/src/piano/piano_score.rs\<close>). A \<open>Duration\<close> and an \<open>Instant\<close> are numbers of
  nanoseconds; a duration saturates where its seconds would leave 64 bits.
\<close>

section \<open>Events\<close>

type_synonym duration = nat

definition nanos_per_sec :: nat where "nanos_per_sec = 1000000000"

definition max_duration :: duration where "max_duration = 2 ^ 64 * nanos_per_sec - 1"

definition ticks_to_duration :: "u64 \<Rightarrow> u64 \<Rightarrow> score_failure + duration" where
  "ticks_to_duration ticks tps =
     (if tps = 0 then Inl (Panic ''attempt to divide by zero'')
      else Inr (unat (ticks div tps) * nanos_per_sec + unat (ticks mod tps) * nanos_per_sec div unat tps))"

datatype piano_input_source = ComputerKeyboard char | Mouse | Touch u64 | Score

datatype 'f piano_action = Attack 'f "'f option" | Release 'f duration

record 'f piano_note =
  no_midi_note :: u8
  no_frequency_hz :: 'f

record 'f piano_event =
  ev_sequence :: u64
  ev_timestamp :: duration
  ev_voice_id :: u64
  ev_note :: "'f piano_note"
  ev_action :: "'f piano_action"
  ev_source :: piano_input_source

text \<open>The frequency of a note, and a velocity as a share of the highest one.\<close>

record 'f pitch_ops =
  po_frequency :: "u8 \<Rightarrow> 'f"
  po_unit :: "u8 \<Rightarrow> 'f"

definition note_from_midi :: "'f pitch_ops \<Rightarrow> u8 \<Rightarrow> 'f piano_note" where
  "note_from_midi P n = \<lparr>no_midi_note = n, no_frequency_hz = po_frequency P n\<rparr>"

definition action_rank :: "'f piano_action \<Rightarrow> u8" where
  "action_rank a = (case a of Attack _ _ \<Rightarrow> 0 | Release _ _ \<Rightarrow> 1)"

definition pair_events :: "'f pitch_ops \<Rightarrow> u64 \<Rightarrow> nat \<Rightarrow> score_note_pair \<Rightarrow> score_failure + 'f piano_event list" where
  "pair_events P tps index p =
     and_then (ticks_to_duration (sn_start_tick p) tps) (\<lambda>attack_at.
     and_then (ticks_to_duration (end_tick p) tps) (\<lambda>release_at.
     and_then (ticks_to_duration (sn_duration_ticks p) tps) (\<lambda>held_for.
     Inr [\<lparr>ev_sequence = 0, ev_timestamp = attack_at, ev_voice_id = of_nat index + 1,
           ev_note = note_from_midi P (sn_midi_note p), ev_action = Attack (po_unit P (sn_velocity p)) None, ev_source = Score\<rparr>,
          \<lparr>ev_sequence = 0, ev_timestamp = release_at, ev_voice_id = of_nat index + 1,
           ev_note = note_from_midi P (sn_midi_note p),
           ev_action = Release (po_unit P (case sn_release_velocity p of Some v \<Rightarrow> v | None \<Rightarrow> sn_velocity p)) held_for,
           ev_source = Score\<rparr>])))"

fun voice_events :: "'f pitch_ops \<Rightarrow> u64 \<Rightarrow> nat \<Rightarrow> score_note_pair list \<Rightarrow> score_failure + 'f piano_event list" where
  "voice_events P tps index [] = Inr []"
| "voice_events P tps index (p # ps) =
     and_then (pair_events P tps index p) (\<lambda>es.
     and_then (voice_events P tps (Suc index) ps) (\<lambda>rest. Inr (es @ rest)))"

definition event_order_key :: "'f piano_event \<Rightarrow> duration \<times> u8 \<times> u8" where
  "event_order_key e = (ev_timestamp e, action_rank (ev_action e), no_midi_note (ev_note e))"

definition number_events :: "'f piano_event list \<Rightarrow> 'f piano_event list" where
  "number_events es = map (\<lambda>(index, e). e\<lparr>ev_sequence := of_nat index + 1\<rparr>) (List.enumerate 0 es)"

definition check_loop_end :: "bhs_score \<Rightarrow> score_failure + unit" where
  "check_loop_end s =
     (case sc_loop_ticks s of
        None \<Rightarrow> Inr ()
      | Some loop_ticks \<Rightarrow>
          and_then (last_release_tick s) (\<lambda>last_release.
          ensure (last_release \<le> loop_ticks)
            (Refused (fst (loop_error loop_ticks last_release)) (snd (loop_error loop_ticks last_release)))))"

definition to_events :: "'f pitch_ops \<Rightarrow> bhs_score \<Rightarrow> score_failure + 'f piano_event list" where
  "to_events P s =
     and_then (check_loop_end s) (\<lambda>_.
     and_then (voice_events P (sc_ticks_per_second s) 0 (sorted_pairs s)) (\<lambda>events.
     Inr (number_events (sort_key event_order_key events))))"

section \<open>Playback\<close>

definition max_events_per_tick :: nat where "max_events_per_tick = 4096"

record 'f due_score_event =
  du_cycle :: u64
  du_event :: "'f piano_event"

record 'f piano_playback =
  pb_events :: "'f piano_event list"
  pb_loop_duration :: duration
  pb_started_at :: nat
  pb_event_index :: nat
  pb_cycle :: u64

definition loaded_from_document :: "'f pitch_ops \<Rightarrow> bhs_score \<Rightarrow> score_failure + 'f piano_event list \<times> duration" where
  "loaded_from_document P s =
     and_then (to_events P s) (\<lambda>events.
     and_then (effective_loop_ticks s) (\<lambda>loop_ticks.
     and_then (ticks_to_duration loop_ticks (sc_ticks_per_second s)) (\<lambda>loop_duration.
     and_then (ensure (loop_duration \<noteq> 0)
       (Refused ''the inferred loop duration is zero; add a later event or loop_duration'' [])) (\<lambda>_.
     Inr (events, loop_duration)))))"

definition playback_from_score :: "'f pitch_ops \<Rightarrow> nat \<Rightarrow> bhs_score \<Rightarrow> score_failure + 'f piano_playback" where
  "playback_from_score P started_at s =
     and_then (loaded_from_document P s) (\<lambda>(events, loop_duration).
     Inr \<lparr>pb_events = events, pb_loop_duration = loop_duration, pb_started_at = started_at,
          pb_event_index = 0, pb_cycle = 0\<rparr>)"

definition duration_mul :: "duration \<Rightarrow> u32 \<Rightarrow> duration" where
  "duration_mul d k = min (d * unat k) max_duration"

definition duration_add :: "duration \<Rightarrow> duration \<Rightarrow> duration" where
  "duration_add d e = min (d + e) max_duration"

text \<open>The loop of \<open>take_due\<close>; the first argument is the number of events that may still be taken.\<close>

fun take_due_loop :: "nat \<Rightarrow> duration \<Rightarrow> 'f due_score_event list \<Rightarrow> 'f piano_playback \<Rightarrow>
    (score_failure + 'f due_score_event list) \<times> 'f piano_playback" where
  "take_due_loop 0 elapsed due p = (Inr due, p)"
| "take_due_loop (Suc room) elapsed due p =
     (if pb_event_index p \<ge> length (pb_events p) then (Inl (Panic ''index out of bounds''), p)
      else
        let event = pb_events p ! pb_event_index p;
            scheduled = duration_add (duration_mul (pb_loop_duration p) (ucast (pb_cycle p))) (ev_timestamp event) in
        if scheduled > elapsed then (Inr due, p)
        else
          let due = due @ [\<lparr>du_cycle = pb_cycle p, du_event = event\<rparr>]; index = pb_event_index p + 1 in
          take_due_loop room elapsed due
            (if index = length (pb_events p) then p\<lparr>pb_event_index := 0, pb_cycle := pb_cycle p + 1\<rparr>
             else p\<lparr>pb_event_index := index\<rparr>))"

definition take_due :: "nat \<Rightarrow> 'f piano_playback \<Rightarrow> (score_failure + 'f due_score_event list) \<times> 'f piano_playback" where
  "take_due now p = take_due_loop max_events_per_tick (now - pb_started_at p) [] p"

end
