(* ===== verification/Score_Performance.thy ===== *)
theory Score_Performance
  imports Score_Changes Score_Playback
begin

text \<open>
  A performance of a score: the events of a document are numbered in the order of their times,
  every voice is attacked before it is released, and the playback is the endless repetition of
  the events, cut into pieces at the times of its calls.
\<close>

section \<open>Times\<close>

definition exact_duration :: "u64 \<Rightarrow> u64 \<Rightarrow> duration" where
  "exact_duration ticks tps = unat ticks * nanos_per_sec div unat tps"

text \<open>The two parts of a duration together are the rounded-down quotient.\<close>

lemma ticks_to_duration_exact:
  assumes "tps \<noteq> 0"
  shows "ticks_to_duration ticks tps = Inr (exact_duration ticks tps)"
proof -
  let ?t = "unat ticks" and ?p = "unat tps"
  have p: "0 < ?p" using assms by (simp add: unat_gt_0)
  have "?t * nanos_per_sec = ?t div ?p * nanos_per_sec * ?p + ?t mod ?p * nanos_per_sec"
    using div_mult_mod_eq [of ?t ?p, THEN arg_cong [where f = "\<lambda>x. x * nanos_per_sec"]]
    by (simp only: distrib_right mult.assoc mult.commute [of ?p])
  then have "exact_duration ticks tps = ?t div ?p * nanos_per_sec + ?t mod ?p * nanos_per_sec div ?p"
    using p by (simp add: exact_duration_def)
  then show ?thesis using assms by (simp add: ticks_to_duration_def unat_div unat_mod)
qed

lemma exact_duration_mono: "a \<le> b \<Longrightarrow> exact_duration a tps \<le> exact_duration b tps"
  by (simp add: exact_duration_def word_le_nat_alt div_le_mono)

section \<open>Voices\<close>

definition ends_in_time :: "bhs_score \<Rightarrow> bool" where
  "ends_in_time s \<longleftrightarrow> list_all (\<lambda>a. unat (sn_start_tick (an_pair a)) + unat (sn_duration_ticks (an_pair a)) < 2 ^ 64) (sc_pairs s)"

definition attack_event :: "'f pitch_ops \<Rightarrow> u64 \<Rightarrow> nat \<Rightarrow> score_note_pair \<Rightarrow> 'f piano_event" where
  "attack_event P tps index p =
     \<lparr>ev_sequence = 0, ev_timestamp = exact_duration (sn_start_tick p) tps, ev_voice_id = of_nat index + 1,
      ev_note = note_from_midi P (sn_midi_note p), ev_action = Attack (po_unit P (sn_velocity p)) None, ev_source = Score\<rparr>"

definition release_event :: "'f pitch_ops \<Rightarrow> u64 \<Rightarrow> nat \<Rightarrow> score_note_pair \<Rightarrow> 'f piano_event" where
  "release_event P tps index p =
     \<lparr>ev_sequence = 0, ev_timestamp = exact_duration (end_tick p) tps, ev_voice_id = of_nat index + 1,
      ev_note = note_from_midi P (sn_midi_note p),
      ev_action = Release (po_unit P (case sn_release_velocity p of Some v \<Rightarrow> v | None \<Rightarrow> sn_velocity p))
        (exact_duration (sn_duration_ticks p) tps), ev_source = Score\<rparr>"

fun all_voices :: "'f pitch_ops \<Rightarrow> u64 \<Rightarrow> nat \<Rightarrow> score_note_pair list \<Rightarrow> 'f piano_event list" where
  "all_voices P tps index [] = []"
| "all_voices P tps index (p # ps) =
     attack_event P tps index p # release_event P tps index p # all_voices P tps (Suc index) ps"

lemma voice_events_exact:
  assumes "tps \<noteq> 0"
  shows "voice_events P tps index ps = Inr (all_voices P tps index ps)"
  by (induction ps arbitrary: index)
    (simp_all add: pair_events_def ticks_to_duration_exact [OF assms] attack_event_def release_event_def)

lemma voice_id_inj:
  assumes "i < 2 ^ 64" and "j < 2 ^ 64"
  shows "(of_nat i + 1 :: u64) = of_nat j + 1 \<longleftrightarrow> i = j"
proof -
  have "unat (of_nat i :: u64) = i" "unat (of_nat j :: u64) = j" using assms by (simp_all add: unat_of_nat_small)
  then show ?thesis by (metis add_right_cancel)
qed

lemma filter_voice:
  "index + length ps < 2 ^ 64 \<Longrightarrow> index \<le> i \<Longrightarrow> i < index + length ps \<Longrightarrow>
    filter (\<lambda>e. ev_voice_id e = of_nat i + 1) (all_voices P tps index ps) =
      [attack_event P tps i (ps ! (i - index)), release_event P tps i (ps ! (i - index))]"
proof (induction ps arbitrary: index)
  case (Cons p ps)
  have none: "filter (\<lambda>e. ev_voice_id e = of_nat i + 1) (all_voices P tps k qs) = []" if "i < k" "k + length qs < 2 ^ 64" for k qs
    using that
  proof (induction qs arbitrary: k)
    case (Cons q qs)
    then show ?case using voice_id_inj [of k i] by (simp add: attack_event_def release_event_def)
  qed simp
  show ?case
  proof (cases "i = index")
    case True
    then show ?thesis using none [of "Suc index" ps] Cons.prems by (simp add: attack_event_def release_event_def)
  next
    case False
    then have "ev_voice_id (attack_event P tps index p) \<noteq> of_nat i + 1" "ev_voice_id (release_event P tps index p) \<noteq> of_nat i + 1"
      using voice_id_inj [of index i] Cons.prems by (simp_all add: attack_event_def release_event_def)
    moreover have "(p # ps) ! (i - index) = ps ! (i - Suc index)" using False Cons.prems by (simp add: nth_Cons')
    ultimately show ?thesis using Cons.IH [of "Suc index"] Cons.prems False by simp
  qed
qed simp

lemma length_all_voices: "length (all_voices P tps index ps) = 2 * length ps"
  by (induction ps arbitrary: index) simp_all

lemma all_voices_times:
  "e \<in> set (all_voices P tps index ps) \<Longrightarrow>
    \<exists>p \<in> set ps. ev_timestamp e = exact_duration (sn_start_tick p) tps \<or> ev_timestamp e = exact_duration (end_tick p) tps"
  by (induction ps arbitrary: index) (auto simp: attack_event_def release_event_def)

lemma number_events_facts:
  "length (number_events es) = length es"
  "map ev_sequence (number_events es) = map (\<lambda>i. of_nat i + 1) [0..<length es]"
  "map ev_timestamp (number_events es) = map ev_timestamp es"
  "map (\<lambda>e. e\<lparr>ev_sequence := 0\<rparr>) (number_events es) = map (\<lambda>e. e\<lparr>ev_sequence := 0\<rparr>) es"
proof -
  have zip: "number_events es = map (\<lambda>(i, e). e\<lparr>ev_sequence := of_nat i + 1\<rparr>) (zip [0..<length es] es)"
    by (simp add: number_events_def enumerate_eq_zip)
  show "length (number_events es) = length es" by (simp add: zip)
  show "map ev_sequence (number_events es) = map (\<lambda>i. of_nat i + 1) [0..<length es]"
    "map ev_timestamp (number_events es) = map ev_timestamp es"
    "map (\<lambda>e. e\<lparr>ev_sequence := 0\<rparr>) (number_events es) = map (\<lambda>e. e\<lparr>ev_sequence := 0\<rparr>) es"
    by (rule nth_equalityI; simp add: zip case_prod_beta)+
qed

lemma start_before_end:
  "unat (sn_start_tick p) + unat (sn_duration_ticks p) < 2 ^ 64 \<Longrightarrow> sn_start_tick p \<le> end_tick p"
  by (simp add: end_tick_def word_le_nat_alt unat_word_ariths)

definition sorted_voices :: "'f pitch_ops \<Rightarrow> bhs_score \<Rightarrow> 'f piano_event list" where
  "sorted_voices P s = sort_key event_order_key (all_voices P (sc_ticks_per_second s) 0 (sorted_pairs s))"

lemma to_events_exact:
  "sc_ticks_per_second s \<noteq> 0 \<Longrightarrow> check_loop_end s = Inr () \<Longrightarrow> to_events P s = Inr (number_events (sorted_voices P s))"
  by (simp add: to_events_def voice_events_exact sorted_voices_def)

lemma sorted_pairs_facts: "set (sorted_pairs s) = set (score_pairs s)" "length (sorted_pairs s) = length (sc_pairs s)"
  by (simp_all add: sorted_pairs_def score_pairs_def)

lemma sorted_voices_timestamps: "sorted (map ev_timestamp (sorted_voices P s))"
proof -
  have "sorted (map event_order_key (sorted_voices P s))" by (simp add: sorted_voices_def)
  then show ?thesis
    unfolding sorted_map by (rule sorted_wrt_mono_rel [rotated]) (auto simp: event_order_key_def less_eq_prod_def)
qed

lemma voice_in_order:
  assumes "ends_in_time s" and "length (sc_pairs s) < 2 ^ 64" and "i < length (sc_pairs s)"
  shows "filter (\<lambda>e. ev_voice_id e = of_nat i + 1) (sorted_voices P s) =
    [attack_event P (sc_ticks_per_second s) i (sorted_pairs s ! i), release_event P (sc_ticks_per_second s) i (sorted_pairs s ! i)]"
proof -
  let ?tps = "sc_ticks_per_second s" and ?p = "sorted_pairs s ! i"
  have "?p \<in> set (score_pairs s)" using assms(3) sorted_pairs_facts [of s] by (metis nth_mem)
  then have "sn_start_tick ?p \<le> end_tick ?p"
    using assms(1) by (auto simp: ends_in_time_def score_pairs_def list_all_iff intro: start_before_end)
  then have "event_order_key (attack_event P ?tps i ?p) \<le> event_order_key (release_event P ?tps i ?p)"
    using exact_duration_mono [of "sn_start_tick ?p" "end_tick ?p" ?tps]
    by (auto simp: event_order_key_def attack_event_def release_event_def action_rank_def less_eq_prod_def)
  moreover have "filter (\<lambda>e. ev_voice_id e = of_nat i + 1) (all_voices P ?tps 0 (sorted_pairs s)) =
      [attack_event P ?tps i ?p, release_event P ?tps i ?p]"
    using filter_voice [of 0 "sorted_pairs s" i P ?tps] assms(2,3) by (simp add: sorted_pairs_facts)
  ultimately show ?thesis by (simp add: sorted_voices_def filter_sort)
qed

section \<open>Playback\<close>

definition performance :: "'f piano_playback \<Rightarrow> nat \<Rightarrow> 'f due_score_event" where
  "performance p k = \<lparr>du_cycle = of_nat (k div length (pb_events p)), du_event = pb_events p ! (k mod length (pb_events p))\<rparr>"

definition scheduled_at :: "'f piano_playback \<Rightarrow> nat \<Rightarrow> duration" where
  "scheduled_at p k =
     min (pb_loop_duration p * (k div length (pb_events p)) + ev_timestamp (pb_events p ! (k mod length (pb_events p)))) max_duration"

definition play_position :: "'f piano_playback \<Rightarrow> nat" where
  "play_position p = unat (pb_cycle p) * length (pb_events p) + pb_event_index p"

definition playable :: "'f piano_playback \<Rightarrow> bool" where
  "playable p \<longleftrightarrow> pb_event_index p < length (pb_events p) \<and> sorted (map ev_timestamp (pb_events p))
     \<and> list_all (\<lambda>e. ev_timestamp e \<le> pb_loop_duration p) (pb_events p)"

definition same_score :: "'f piano_playback \<Rightarrow> 'f piano_playback \<Rightarrow> bool" where
  "same_score p q \<longleftrightarrow> pb_events p = pb_events q \<and> pb_loop_duration p = pb_loop_duration q \<and> pb_started_at p = pb_started_at q"

lemma same_score_facts:
  "same_score p q \<Longrightarrow> performance p = performance q" "same_score p q \<Longrightarrow> scheduled_at p = scheduled_at q"
  "same_score p q \<Longrightarrow> length (pb_events p) = length (pb_events q)"
  by (simp_all add: same_score_def performance_def scheduled_at_def fun_eq_iff)

lemma same_score_trans: "same_score p q \<Longrightarrow> same_score q r \<Longrightarrow> same_score p r"
  by (simp add: same_score_def)

lemma scheduled_at_mono:
  assumes "playable p" and "j \<le> k"
  shows "scheduled_at p j \<le> scheduled_at p k"
proof -
  let ?n = "length (pb_events p)" and ?L = "pb_loop_duration p"
  let ?t = "\<lambda>k. ev_timestamp (pb_events p ! (k mod ?n))"
  have n: "0 < ?n" using assms(1) by (auto simp: playable_def)
  have "?L * (j div ?n) + ?t j \<le> ?L * (k div ?n) + ?t k"
  proof (cases "j div ?n = k div ?n")
    case True
    have "j mod ?n \<le> k mod ?n" using assms(2) div_mult_mod_eq [of j ?n] div_mult_mod_eq [of k ?n] unfolding True by linarith
    then have "?t j \<le> ?t k"
      using assms(1) n sorted_nth_mono [of "map ev_timestamp (pb_events p)" "j mod ?n" "k mod ?n"] by (simp add: playable_def)
    then show ?thesis by (simp add: True)
  next
    case False
    then have "j div ?n + 1 \<le> k div ?n" using div_le_mono [OF assms(2), of ?n] by simp
    then have "?L * (j div ?n + 1) \<le> ?L * (k div ?n)" by (rule mult_le_mono2)
    moreover have "?t j \<le> ?L" using assms(1) n by (simp add: playable_def list_all_length)
    ultimately show ?thesis by simp
  qed
  then show ?thesis by (simp add: scheduled_at_def min.coboundedI1)
qed

lemma position_parts:
  fixes a i n :: nat
  assumes "i < n"
  shows "(a * n + i) div n = a" and "(a * n + i) mod n = i"
proof -
  have "n \<noteq> 0" using assms by simp
  then show "(a * n + i) div n = a" "(a * n + i) mod n = i" using assms by simp_all
qed

lemma take_due_step:
  assumes "playable p" and "play_position p < length (pb_events p) * 2 ^ 32"
  shows "duration_add (duration_mul (pb_loop_duration p) (ucast (pb_cycle p))) (ev_timestamp (pb_events p ! pb_event_index p))
      = scheduled_at p (play_position p)"
    and "\<lparr>du_cycle = pb_cycle p, du_event = pb_events p ! pb_event_index p\<rparr> = performance p (play_position p)"
    and "q = (if pb_event_index p + 1 = length (pb_events p) then p\<lparr>pb_event_index := 0, pb_cycle := pb_cycle p + 1\<rparr>
        else p\<lparr>pb_event_index := pb_event_index p + 1\<rparr>) \<Longrightarrow>
      playable q \<and> same_score p q \<and> play_position q = play_position p + 1"
proof -
  let ?n = "length (pb_events p)"
  have index: "pb_event_index p < ?n" using assms(1) by (simp add: playable_def)
  have split: "play_position p div ?n = unat (pb_cycle p)" "play_position p mod ?n = pb_event_index p"
    using index unfolding play_position_def by (simp_all only: position_parts)
  have cycle: "unat (pb_cycle p) < 2 ^ 32"
    using less_mult_imp_div_less [of "play_position p" "2 ^ 32" ?n] assms(2) by (simp add: split(1) mult.commute)
  have "unat (ucast (pb_cycle p) :: u32) = unat (pb_cycle p)"
    using cycle by (simp add: unsigned_ucast_eq take_bit_nat_eq_self_iff)
  then show "duration_add (duration_mul (pb_loop_duration p) (ucast (pb_cycle p))) (ev_timestamp (pb_events p ! pb_event_index p))
      = scheduled_at p (play_position p)"
    by (simp add: duration_add_def duration_mul_def scheduled_at_def split)
  show "\<lparr>du_cycle = pb_cycle p, du_event = pb_events p ! pb_event_index p\<rparr> = performance p (play_position p)"
    by (simp add: performance_def split)
  have "unat (pb_cycle p + 1) = unat (pb_cycle p) + 1" using cycle by (simp add: unat_word_ariths)
  then show "playable q \<and> same_score p q \<and> play_position q = play_position p + 1"
    if "q = (if pb_event_index p + 1 = length (pb_events p) then p\<lparr>pb_event_index := 0, pb_cycle := pb_cycle p + 1\<rparr>
        else p\<lparr>pb_event_index := pb_event_index p + 1\<rparr>)"
    using assms(1) index that by (auto simp: playable_def same_score_def play_position_def)
qed

lemma take_due_loop_exact:
  assumes "take_due_loop room elapsed due p = (r, q)" and "playable p" and "play_position p + room \<le> length (pb_events p) * 2 ^ 32"
  shows "\<exists>j \<le> room. r = Inr (due @ map (performance p) [play_position p..<play_position p + j])
    \<and> playable q \<and> same_score p q \<and> play_position q = play_position p + j
    \<and> (\<forall>k \<in> {play_position p..<play_position p + j}. scheduled_at p k \<le> elapsed)
    \<and> (j < room \<longrightarrow> elapsed < scheduled_at p (play_position p + j))"
  using assms
proof (induction room arbitrary: due p)
  case 0
  then show ?case by (auto simp: same_score_def)
next
  case (Suc room)
  let ?k = "play_position p"
  let ?p = "if pb_event_index p + 1 = length (pb_events p) then p\<lparr>pb_event_index := 0, pb_cycle := pb_cycle p + 1\<rparr>
      else p\<lparr>pb_event_index := pb_event_index p + 1\<rparr>"
  have pos: "?k < length (pb_events p) * 2 ^ 32" using Suc.prems(3) by simp
  note step = take_due_step [OF Suc.prems(2) pos]
  have index: "\<not> length (pb_events p) \<le> pb_event_index p" using Suc.prems(2) by (simp add: playable_def)
  show ?case
  proof (cases "elapsed < scheduled_at p ?k")
    case True
    then have "r = Inr due" "q = p" using Suc.prems(1) index by (simp_all add: step(1) Let_def)
    then show ?thesis using True Suc.prems(2) by (intro exI [of _ 0]) (simp add: same_score_def)
  next
    case False
    then have rest: "take_due_loop room elapsed (due @ [performance p ?k]) ?p = (r, q)"
      using Suc.prems(1) by (simp only: take_due_loop.simps(2) Let_def index False step(1,2) if_False)
    have p': "playable ?p" "same_score p ?p" "play_position ?p = ?k + 1" using step(3) [OF refl] by blast+
    have "play_position ?p + room \<le> length (pb_events ?p) * 2 ^ 32"
      using Suc.prems(3) p'(3) same_score_facts(3) [OF p'(2)] by simp
    from Suc.IH [OF rest p'(1) this] obtain j where j: "j \<le> room"
        "r = Inr ((due @ [performance p ?k]) @ map (performance p) [?k + 1..<?k + 1 + j])"
        "playable q" "same_score ?p q" "play_position q = ?k + 1 + j"
        "\<forall>k \<in> {?k + 1..<?k + 1 + j}. scheduled_at p k \<le> elapsed" "j < room \<longrightarrow> elapsed < scheduled_at p (?k + 1 + j)"
      unfolding p'(3) same_score_facts(1,2) [OF p'(2), symmetric] by blast
    have r: "r = Inr (due @ map (performance p) [?k..<?k + Suc j])"
      using j(2) upt_conv_Cons [of ?k "?k + Suc j"] by (simp del: upt.simps)
    have "{?k..<?k + Suc j} = insert ?k {?k + 1..<?k + 1 + j}" by auto
    then have early: "\<forall>k \<in> {?k..<?k + Suc j}. scheduled_at p k \<le> elapsed" using j(6) False by (simp add: not_less)
    have "same_score p q" by (rule same_score_trans [OF p'(2) j(4)])
    moreover have "Suc j \<le> Suc room" "play_position q = ?k + Suc j" "Suc j < Suc room \<longrightarrow> elapsed < scheduled_at p (?k + Suc j)"
      using j(1,5,7) by simp_all
    ultimately show ?thesis using r early j(3) by blast
  qed
qed

text \<open>A playback under a sequence of calls, with the events it has played.\<close>

inductive played :: "'f piano_playback \<Rightarrow> 'f due_score_event list \<Rightarrow> 'f piano_playback \<Rightarrow> bool" where
  played_start: "played p [] p"
| played_call: "played p es q \<Longrightarrow> take_due now q = (Inr due, q') \<Longrightarrow> played p (es @ due) q'"

lemma take_due_exact:
  assumes "take_due now p = (r, q)" and "playable p" and "play_position p + max_events_per_tick \<le> length (pb_events p) * 2 ^ 32"
  shows "\<exists>j \<le> max_events_per_tick. r = Inr (map (performance p) [play_position p..<play_position p + j])
    \<and> playable q \<and> same_score p q \<and> play_position q = play_position p + j
    \<and> (\<forall>k \<in> {play_position p..<play_position p + j}. scheduled_at p k \<le> now - pb_started_at p)
    \<and> (j < max_events_per_tick \<longrightarrow> now - pb_started_at p < scheduled_at p (play_position p + j))"
  using take_due_loop_exact [of max_events_per_tick "now - pb_started_at p" "[]" p r q] assms
  by (simp add: take_due_def)

lemma played_exact:
  assumes "played p es q" and "playable p" and "play_position p = 0"
    and "length es + max_events_per_tick \<le> length (pb_events p) * 2 ^ 32"
  shows "es = map (performance p) [0..<length es] \<and> playable q \<and> same_score p q \<and> play_position q = length es"
  using assms
proof (induction rule: played.induct)
  case (played_call p es q now due q')
  have IH: "es = map (performance p) [0..<length es]" "playable q" "same_score p q" "play_position q = length es"
    using played_call by auto
  have "play_position q + max_events_per_tick \<le> length (pb_events q) * 2 ^ 32"
    using played_call.prems(3) IH(4) same_score_facts(3) [OF IH(3)] by simp
  from take_due_exact [OF played_call.hyps(2) IH(2) this] obtain j where
    j: "due = map (performance p) [length es..<length es + j]" "playable q'" "same_score q q'" "play_position q' = length es + j"
    unfolding IH(4) same_score_facts(1) [OF IH(3), symmetric] by auto
  have "es @ due = map (performance p) [0..<length es + j]"
    using IH(1) j(1) by (metis map_append upt_add_eq_append zero_le)
  moreover have "same_score p q'" by (rule same_score_trans [OF IH(3) j(3)])
  ultimately show ?case using j by simp
qed (simp_all add: same_score_def)

lemma sorted_voices_bounded:
  assumes "check_loop_end s = Inr ()" and "effective_loop_ticks s = Inr l" and "ends_in_time s" and "e \<in> set (sorted_voices P s)"
  shows "ev_timestamp e \<le> exact_duration l (sc_ticks_per_second s)"
proof -
  have "e \<in> set (all_voices P (sc_ticks_per_second s) 0 (sorted_pairs s))" using assms(4) by (simp add: sorted_voices_def)
  from all_voices_times [OF this] obtain p where p: "p \<in> set (score_pairs s)"
    and e: "ev_timestamp e = exact_duration (sn_start_tick p) (sc_ticks_per_second s)
      \<or> ev_timestamp e = exact_duration (end_tick p) (sc_ticks_per_second s)"
    by (auto simp: sorted_pairs_facts)
  have pairs: "sc_pairs s \<noteq> []" using p by (auto simp: score_pairs_def)
  have "end_tick p \<le> Max (set (map end_tick (score_pairs s)))" using p by simp
  then have "end_tick p \<le> l"
    using assms(1,2) pairs
    by (auto simp: check_loop_end_def effective_loop_ticks_def last_release_tick_def result_simps split: option.splits)
  moreover have "sn_start_tick p \<le> end_tick p"
    using p assms(3) by (auto simp: ends_in_time_def score_pairs_def list_all_iff intro: start_before_end)
  ultimately show ?thesis using e exact_duration_mono by (metis order_trans)
qed

lemma playback_playable:
  assumes "playback_from_score P started_at s = Inr p" and "score_wf s" and "ends_in_time s"
  shows "playable p" and "play_position p = 0" and "pb_started_at p = started_at" and "to_events P s = Inr (pb_events p)"
    and "length (pb_events p) = 2 * length (sc_pairs s)"
proof -
  have tps: "sc_ticks_per_second s \<noteq> 0" and pairs: "sc_pairs s \<noteq> []" using assms(2) by (auto simp: score_wf_def)
  obtain events l where ev: "to_events P s = Inr events" and l: "effective_loop_ticks s = Inr l"
    and p: "p = \<lparr>pb_events = events, pb_loop_duration = exact_duration l (sc_ticks_per_second s), pb_started_at = started_at,
        pb_event_index = 0, pb_cycle = 0\<rparr>"
    using assms(1) by (auto simp: playback_from_score_def loaded_from_document_def result_simps ticks_to_duration_exact [OF tps])
  have check: "check_loop_end s = Inr ()" using ev by (auto simp: to_events_def result_simps)
  have events: "events = number_events (sorted_voices P s)" using ev to_events_exact [OF tps check, of P] by simp
  have times: "map ev_timestamp events = map ev_timestamp (sorted_voices P s)" by (simp add: events number_events_facts)
  have len: "length events = 2 * length (sc_pairs s)"
    by (simp add: events number_events_facts sorted_voices_def length_all_voices sorted_pairs_facts)
  have "\<forall>t \<in> set (map ev_timestamp events). t \<le> exact_duration l (sc_ticks_per_second s)"
    unfolding times using sorted_voices_bounded [OF check l assms(3)] by auto
  moreover have "sorted (map ev_timestamp events)" unfolding times by (rule sorted_voices_timestamps)
  ultimately show "playable p" using len pairs by (simp add: p playable_def list_all_iff)
  show "play_position p = 0" "pb_started_at p = started_at" "to_events P s = Inr (pb_events p)"
    "length (pb_events p) = 2 * length (sc_pairs s)"
    using ev len by (simp_all add: p play_position_def)
qed

end
