(* ===== verification/Score_Properties.thy ===== *)
theory Score_Properties
  imports Score_Canonical Score_Performance
begin

text \<open>
  The properties of score documents, with instances: what the parser returns, the canonical
  text, stretching to a duration, and random mutations; and concrete documents on which the code
  does not do what its comments say.
\<close>

section \<open>Sorting and findings\<close>

lemma map_sort_key: "map f (sort_key (g \<circ> f) xs) = sort_key g (map f xs)"
proof -
  have "map f (insort_key (g \<circ> f) x xs) = insort_key g (f x) (map f xs)" for x xs by (induction xs) auto
  then show ?thesis by (induction xs) auto
qed

lemma sorted_pairs_map: "sorted_pairs s = map an_pair (sorted_pairs_with_comments s)"
  by (simp add: sorted_pairs_def sorted_pairs_with_comments_def score_pairs_def map_sort_key)

lemma list_all_zip_same: "list_all (\<lambda>(x, y). x = y) (zip xs xs)"
  by (induction xs) auto

lemma canonical_facts:
  assumes "sc_pairs s \<noteq> []"
  shows "score_pairs (canonical_score l s) = sorted_pairs s" and "sorted_pairs (canonical_score l s) = sorted_pairs s"
    and "sc_ticks_per_second (canonical_score l s) = sc_ticks_per_second s"
    and "sc_measure_ticks (canonical_score l s) = sc_measure_ticks s" and "sc_loop_ticks (canonical_score l s) = Some l"
    and "sc_anchors (canonical_score l s) = expected_of (sc_measure_ticks s) 0 (sorted_pairs s)"
proof -
  obtain a as where sorted: "sorted_pairs_with_comments s = a # as"
    using assms sorted_with_comments_facts(1) [of s] by (metis list.exhaust set_empty)
  show pairs: "score_pairs (canonical_score l s) = sorted_pairs s"
    by (simp add: sorted_pairs_map score_pairs_def canonical_score_def sorted)
  have "sorted (map canonical_pair_order_key (sorted_pairs s))" by (simp add: sorted_pairs_def)
  then show "sorted_pairs (canonical_score l s) = sorted_pairs s"
    unfolding sorted_pairs_def [of "canonical_score l s"] pairs by (rule sort_key_id_if_sorted)
  show "sc_ticks_per_second (canonical_score l s) = sc_ticks_per_second s"
    "sc_measure_ticks (canonical_score l s) = sc_measure_ticks s" "sc_loop_ticks (canonical_score l s) = Some l"
    "sc_anchors (canonical_score l s) = expected_of (sc_measure_ticks s) 0 (sorted_pairs s)"
    by (simp_all add: canonical_score_def sorted sorted_pairs_map)
qed

lemma canonical_findings:
  assumes "document_ok s"
  shows "order_findings (canonical_score l s) = []" and "anchor_findings (canonical_score l s) = Inr []"
proof -
  have s: "sc_pairs s \<noteq> []" "sc_measure_ticks s \<noteq> Some 0" using assms by (simp_all add: document_ok_def score_wf_def)
  note facts = canonical_facts [OF s(1), of l]
  show "order_findings (canonical_score l s) = []" by (simp add: order_findings_def facts list_all_zip_same)
  show "anchor_findings (canonical_score l s) = Inr []"
    using s(2) by (auto simp: anchor_findings_def facts expected_of_def Let_def split: option.split)
qed

lemma canonical_fixpoint:
  assumes "document_ok s" and "effective_loop_ticks s = Inr l" and "an_comments (hd (sorted_pairs_with_comments s)) = []"
  shows "format_score decimals (canonical_score l s) = format_score decimals s"
proof -
  obtain a as where sorted: "sorted_pairs_with_comments s = a # as"
    using sorted_pairs_ok(3) [OF assms(1)] by (auto simp: neq_Nil_conv)
  have none: "an_comments a = []" using assms(3) by (simp add: sorted)
  then have "a\<lparr>an_comments := []\<rparr> = a" by simp
  then have c: "sc_pairs (canonical_score l s) = sorted_pairs_with_comments s" "sc_leading (canonical_score l s) = sc_leading s"
    "sc_trailing (canonical_score l s) = sc_trailing s"
    using none by (simp_all add: canonical_score_def sorted)
  have "sorted_pairs_with_comments (canonical_score l s) = sorted_pairs_with_comments s"
    unfolding sorted_pairs_with_comments_def [of "canonical_score l s"] c(1)
    by (rule sort_key_id_if_sorted) (rule sorted_with_comments_facts(3))
  moreover have "sc_pairs s \<noteq> []" using assms(1) by (simp add: document_ok_def score_wf_def)
  moreover have "effective_loop_ticks (canonical_score l s) = Inr l"
    using canonical_facts(5) [OF \<open>sc_pairs s \<noteq> []\<close>] by (simp add: effective_loop_ticks_def)
  ultimately show ?thesis
    using canonical_facts [of s l] by (simp add: format_score_def format_lines_def c assms(2) sorted)
qed

section \<open>Concrete documents\<close>

definition written_lines :: "string list \<Rightarrow> string" where
  "written_lines ls = concat (map (\<lambda>l. l @ [newline]) ls)"

definition demo_text :: string where
  "demo_text = written_lines [''; by hand'', ''format bhs-score-v1'', ''ticks_per_second 10'', ''measure_ticks 40'',
     ''loop_ticks 90'', ''50 20 c#4 64 ; late'', ''0 40 A2 127 30'']"

definition demo_score :: bhs_score where
  "demo_score = \<lparr>sc_ticks_per_second = 10, sc_measure_ticks = Some 40, sc_loop_ticks = Some 90,
     sc_pairs = [\<lparr>an_pair = \<lparr>sn_start_tick = 50, sn_duration_ticks = 20, sn_midi_note = 61, sn_velocity = 64, sn_release_velocity = None\<rparr>,
                  an_comments = [''; late'']\<rparr>,
                 \<lparr>an_pair = \<lparr>sn_start_tick = 0, sn_duration_ticks = 40, sn_midi_note = 45, sn_velocity = 127, sn_release_velocity = Some 30\<rparr>,
                  an_comments = []\<rparr>],
     sc_leading = [''; by hand''], sc_trailing = [], sc_anchors = []\<rparr>"

definition sample_decimals :: "nat \<Rightarrow> u64 \<Rightarrow> u64 \<Rightarrow> string" where
  "sample_decimals n a b = show_nat (unat a div unat b)"

definition sample_floats :: "nat float_ops" where
  "sample_floats = \<lparr>fo_positive_finite = (\<lambda>x. 0 < x), fo_finite = (\<lambda>_. True), fo_text = show_nat,
     fo_ticks = (\<lambda>x tps. of_nat x * tps), fo_shift_ticks = (\<lambda>x tps. Some (of_nat x * tps))\<rparr>"

definition sample_pitch :: "nat pitch_ops" where
  "sample_pitch = \<lparr>po_frequency = unat, po_unit = unat\<rparr>"

lemma demo_parsed: "parse_score demo_text = Inr demo_score"
  by code_simp

lemma demo_document: "document_ok demo_score"
  by code_simp

lemma sample_decimals_plain: "\<forall>n x y. newline \<notin> set (sample_decimals n x y)"
  using plain_word_ends [OF show_nat_plain] by (simp add: sample_decimals_def)

section \<open>Properties\<close>

text \<open>
  C35: A document that the parser returns is well-formed: its rate is positive, it has at least
  one pair, and every pair lasts at least one tick, is on the 88 keys and has velocities up to 127.
\<close>

lemma parse_returns_well_formed:
  assumes "parse_score text = Inr s"
  shows "score_wf s"
proof -
  obtain st where st: "parse_lines 1 (text_lines text) parse_start = Inr st" "parse_finish st = Inr s"
    using assms by (auto simp: parse_score_def result_simps)
  then show ?thesis
    using parse_lines_ok [OF parse_start_ok st(1)]
    by (auto simp: parse_finish_def parse_ok_def score_wf_def word_neq_0_conv split: option.splits if_splits)
qed

lemma parse_returns_well_formed_witness: "parse_score demo_text = Inr demo_score \<and> score_wf demo_score"
  using parse_returns_well_formed [OF demo_parsed] demo_parsed by blast



text \<open>
  C37: A score stretched to a duration of at least one tick keeps its notes in order, is
  well-formed, has exactly the requested loop length, and plays: every note ends within the loop
  and the expansion into events succeeds.
\<close>

lemma stretched_score_plays:
  assumes "score_wf s" and "effective_loop_ticks s = Inr old_loop" and "old_loop \<noteq> 0"
    and "fo_positive_finite F seconds" and "fo_ticks F seconds (sc_ticks_per_second s) = new_loop"
    and "1 \<le> new_loop" and "new_loop \<noteq> - 1"
  shows "\<exists>s' events. rescale_to_duration F seconds s = Inr s' \<and> score_wf s' \<and> sc_loop_ticks s' = Some new_loop
    \<and> list_all2 same_note (score_pairs s) (score_pairs s') \<and> list_all (fits_loop new_loop) (score_pairs s')
    \<and> to_events P s' = Inr events"
proof -
  have ok: "pair_ok (an_pair a)" if "a \<in> set (sc_pairs s)" for a using assms(1) that by (auto simp: score_wf_def list_all_iff)
  let ?R = "\<lambda>a b. pair_ok (an_pair b) \<and> fits_loop new_loop (an_pair b) \<and> same_note (an_pair a) (an_pair b)"
  let ?f = "\<lambda>a. and_then (rescale_pair old_loop new_loop (an_pair a)) (\<lambda>p. Inr (a\<lparr>an_pair := p\<rparr>))"
  have "\<exists>b. ?f a = Inr b \<and> ?R a b" if "a \<in> set (sc_pairs s)" for a
    using rescale_pair_fits [OF ok [OF that] assms(3,6,7)] by auto
  from map_ok_total [of "sc_pairs s" ?f ?R, OF this] obtain as where as: "map_ok ?f (sc_pairs s) = Inr as" "list_all2 ?R (sc_pairs s) as" by blast
  obtain m where m: "(case sc_measure_ticks s of None \<Rightarrow> Inr None
      | Some ticks \<Rightarrow> and_then (rescale_ticks ticks old_loop new_loop) (\<lambda>t. Inr (Some (max t 1)))) = Inr m"
    using rescale_total [OF assms(3)] by (cases "sc_measure_ticks s") (auto, metis and_then_simps(2))
  let ?s = "s\<lparr>sc_pairs := as, sc_measure_ticks := m, sc_loop_ticks := Some new_loop\<rparr>"
  have result: "rescale_to_duration F seconds s = Inr ?s"
    using assms(2,4-6) as(1) m by (simp add: rescale_to_duration_def Let_def)
  have all: "list_all (\<lambda>b. pair_ok (an_pair b) \<and> fits_loop new_loop (an_pair b)) as"
    using as(2) by (auto simp: list_all2_conv_all_nth list_all_length)
  have nonempty: "as \<noteq> []" using assms(1) as(2) by (auto simp: score_wf_def)
  have wf: "score_wf ?s" using assms(1) all nonempty by (auto simp: score_wf_def list_all_iff)
  have "\<forall>p \<in> set (score_pairs ?s). end_tick p \<le> new_loop"
    using all by (auto simp: score_pairs_def list_all_iff intro: fits_loop_end)
  then have "check_loop_end ?s = Inr ()"
    using nonempty by (simp add: check_loop_end_def last_release_tick_def score_pairs_def)
  moreover have "sc_ticks_per_second ?s \<noteq> 0" using assms(1) by (simp add: score_wf_def word_neq_0_conv)
  ultimately have "to_events P ?s = Inr (number_events (sorted_voices P ?s))" by (intro to_events_exact)
  moreover have "list_all2 same_note (score_pairs s) (score_pairs ?s)" "list_all (fits_loop new_loop) (score_pairs ?s)"
    using as(2) all by (simp_all add: score_pairs_def list_all2_conv_all_nth list_all_length)
  ultimately show ?thesis using result wf by auto
qed

lemma stretched_score_plays_witness:
  "\<exists>s' events. rescale_to_duration sample_floats 3 demo_score = Inr s' \<and> sc_loop_ticks s' = Some 30
    \<and> to_events sample_pitch s' = Inr events"
proof -
  have "score_wf demo_score" using demo_document by (simp add: document_ok_def)
  moreover have "effective_loop_ticks demo_score = Inr 90" by code_simp
  moreover have "fo_ticks sample_floats 3 (sc_ticks_per_second demo_score) = 30" by (simp add: sample_floats_def demo_score_def)
  moreover have "fo_positive_finite sample_floats 3" by (simp add: sample_floats_def)
  ultimately show ?thesis using stretched_score_plays [of demo_score 90 sample_floats 3 30 sample_pitch] by auto
qed

text \<open>
  C38: The events of a score are numbered from one in the order of their times, two for each note,
  and the events of a voice are the attack of its note followed by the release.
\<close>

lemma score_events_in_order:
  assumes "score_wf s" and "ends_in_time s" and "check_loop_end s = Inr ()" and "length (sc_pairs s) < 2 ^ 63"
  shows "\<exists>events. to_events P s = Inr events \<and> sorted (map ev_timestamp events)
    \<and> map ev_sequence events = map (\<lambda>i. of_nat i + 1) [0..<2 * length (sc_pairs s)]
    \<and> (\<forall>i < length (sc_pairs s).
         pair_events P (sc_ticks_per_second s) i (sorted_pairs s ! i) =
           Inr (map (\<lambda>e. e\<lparr>ev_sequence := 0\<rparr>) (filter (\<lambda>e. ev_voice_id e = of_nat i + 1) events)))"
proof -
  have tps: "sc_ticks_per_second s \<noteq> 0" using assms(1) by (simp add: score_wf_def word_neq_0_conv)
  let ?es = "sorted_voices P s"
  let ?zero = "map (\<lambda>e. e\<lparr>ev_sequence := 0\<rparr>)"
  have filter_zero: "?zero (filter (\<lambda>e. ev_voice_id e = v) xs) = filter (\<lambda>e. ev_voice_id e = v) (?zero xs)" for v and xs :: "'a piano_event list"
    by (induction xs) auto
  have "pair_events P (sc_ticks_per_second s) i (sorted_pairs s ! i) =
      Inr (?zero (filter (\<lambda>e. ev_voice_id e = of_nat i + 1) (number_events ?es)))" if i: "i < length (sc_pairs s)" for i
  proof -
    have "?zero (filter (\<lambda>e. ev_voice_id e = of_nat i + 1) (number_events ?es)) =
        ?zero (filter (\<lambda>e. ev_voice_id e = of_nat i + 1) ?es)"
      by (simp only: filter_zero number_events_facts(4))
    also have "\<dots> = [attack_event P (sc_ticks_per_second s) i (sorted_pairs s ! i), release_event P (sc_ticks_per_second s) i (sorted_pairs s ! i)]"
      using assms(4) by (simp add: voice_in_order [OF assms(2) _ i]) (simp add: attack_event_def release_event_def)
    finally show ?thesis
      by (simp add: pair_events_def ticks_to_duration_exact [OF tps] attack_event_def release_event_def)
  qed
  moreover have "length ?es = 2 * length (sc_pairs s)"
    by (simp add: sorted_voices_def length_all_voices sorted_pairs_facts)
  ultimately show ?thesis
    using to_events_exact [OF tps assms(3), of P] sorted_voices_timestamps [of P s]
    by (intro exI [of _ "number_events ?es"]) (simp add: number_events_facts)
qed

lemma score_events_in_order_witness:
  "\<exists>events. to_events sample_pitch demo_score = Inr events \<and> sorted (map ev_timestamp events) \<and> length events = 4"
proof -
  have wf: "score_wf demo_score" and ends: "ends_in_time demo_score" and check: "check_loop_end demo_score = Inr ()"
    and two: "length (sc_pairs demo_score) = 2"
    using demo_document by (simp add: document_ok_def, code_simp, code_simp, code_simp)
  have few: "length (sc_pairs demo_score) < 2 ^ 63" by (simp add: two)
  from score_events_in_order [OF wf ends check few, of sample_pitch]
  obtain events where "to_events sample_pitch demo_score = Inr events" "sorted (map ev_timestamp events)"
    and "map ev_sequence events = map (\<lambda>i. of_nat i + 1) [0..<2 * length (sc_pairs demo_score)]" by blast
  moreover from this(3) have "length (map ev_sequence events) = 2 * length (sc_pairs demo_score)" by simp
  then have "length events = 4" by (simp add: two)
  ultimately show ?thesis by blast
qed

text \<open>
  C36: A playback refines the endless repetition of the events of its score: whatever the times of
  its calls, the events it returns are the next ones of that performance, none before its time,
  and a call that returns fewer than 4096 events leaves no event behind that is due.
\<close>

lemma playback_follows_performance:
  assumes "playback_from_score P started_at s = Inr p" and "score_wf s" and "ends_in_time s"
    and "played p es q" and "length es + max_events_per_tick \<le> 2 * length (sc_pairs s) * 2 ^ 32"
    and "take_due now q = (r, q')"
  shows "\<exists>due. r = Inr due \<and> es @ due = map (performance p) [0..<length es + length due]
    \<and> (\<forall>k \<in> {length es..<length es + length due}. scheduled_at p k \<le> now - started_at)
    \<and> (length due < max_events_per_tick \<longrightarrow> (\<forall>k \<ge> length es + length due. now - started_at < scheduled_at p k))"
proof -
  note p = playback_playable [OF assms(1-3)]
  have es: "es = map (performance p) [0..<length es]" "playable q" "same_score p q" "play_position q = length es"
    using played_exact [OF assms(4) p(1,2)] assms(5) p(5) by simp_all
  note same = same_score_facts [OF es(3), symmetric]
  have "play_position q + max_events_per_tick \<le> length (pb_events q) * 2 ^ 32" using assms(5) p(5) es(4) same(3) by simp
  from take_due_exact [OF assms(6) es(2) this] obtain j where
    j: "r = Inr (map (performance p) [length es..<length es + j])"
      "\<forall>k \<in> {length es..<length es + j}. scheduled_at p k \<le> now - pb_started_at q"
      "j < max_events_per_tick \<longrightarrow> now - pb_started_at q < scheduled_at p (length es + j)"
    unfolding es(4) same(1,2) by blast
  have start: "pb_started_at q = started_at" using es(3) p(3) by (simp add: same_score_def)
  let ?due = "map (performance p) [length es..<length es + j]"
  have "es @ ?due = map (performance p) [0..<length es + j]" using es(1) by (metis map_append upt_add_eq_append zero_le)
  moreover have "j < max_events_per_tick \<longrightarrow> (\<forall>k \<ge> length es + j. now - started_at < scheduled_at p k)"
    using j(3) scheduled_at_mono [OF p(1)] unfolding start by (meson less_le_trans)
  ultimately show ?thesis using j(1,2) unfolding start by (intro exI [of _ ?due]) simp
qed

lemma playback_follows_performance_witness:
  "\<exists>p due q. playback_from_score sample_pitch 100 demo_score = Inr p \<and> take_due 100 p = (Inr due, q)
    \<and> due = map (performance p) [0..<length due]"
proof -
  have wf: "score_wf demo_score" and ends: "ends_in_time demo_score" and two: "length (sc_pairs demo_score) = 2"
    using demo_document by (simp add: document_ok_def, code_simp, code_simp)
  have "isl (playback_from_score sample_pitch 100 demo_score) = False" by code_simp
  then obtain p where p: "playback_from_score sample_pitch 100 demo_score = Inr p" by (metis isl_def sumE)
  obtain r q where call: "take_due 100 p = (r, q)" by fastforce
  have "length ([] :: nat due_score_event list) + max_events_per_tick \<le> 2 * length (sc_pairs demo_score) * 2 ^ 32"
    by (simp add: two max_events_per_tick_def)
  from playback_follows_performance [OF p wf ends played_start this call] obtain due where
    "r = Inr due" "[] @ due = map (performance p) [0..<length ([] :: nat due_score_event list) + length due]" by blast
  then show ?thesis using p call by auto
qed

text \<open>
  C39: Random mutations keep every pair of a score well-formed, whatever is drawn, and change
  nothing but the pairs; fewer than the planned number are applied only when no pair is left.
\<close>

lemma mutation_keeps_pairs:
  assumes "\<And>n r. 0 < n \<Longrightarrow> fst (rn_index R n r) < n"
    and "\<And>lo hi r. lo \<le> hi \<Longrightarrow> lo \<le> fst (rn_byte R lo hi r) \<and> fst (rn_byte R lo hi r) \<le> hi"
    and "score_wf (mu_inner m)" and "mutate_score R noise m = (applied, m')"
  shows "list_all (pair_ok \<circ> an_pair) (sc_pairs (mu_inner m')) \<and> same_header (mu_inner m) (mu_inner m')
    \<and> applied \<le> rn_mutations R (length (sc_pairs (mu_inner m))) noise
    \<and> (applied < rn_mutations R (length (sc_pairs (mu_inner m))) noise \<longrightarrow> sc_pairs (mu_inner m') = [])"
proof -
  have "random_source R" using assms(1,2) by unfold_locales blast+
  then show ?thesis
    using random_source.mutate_loop_keeps [of R m _ 0 applied m'] assms(3,4)
    by (simp add: score_wf_def mutate_score_def)
qed

lemma mutation_keeps_pairs_witness:
  "\<exists>applied m'. mutate_score lcg_ops 1000 \<lparr>mu_inner = demo_score, mu_rng = 7\<rparr> = (applied, m')
    \<and> list_all (pair_ok \<circ> an_pair) (sc_pairs (mu_inner m')) \<and> same_header demo_score (mu_inner m')"
proof -
  obtain applied m' where run: "mutate_score lcg_ops 1000 \<lparr>mu_inner = demo_score, mu_rng = 7\<rparr> = (applied, m')" by fastforce
  have "score_wf (mu_inner \<lparr>mu_inner = demo_score, mu_rng = 7 :: nat\<rparr>)" using demo_document by (simp add: document_ok_def)
  from mutation_keeps_pairs [OF lcg.index_in_range lcg.byte_in_range this run] run show ?thesis by auto
qed

section \<open>Where the code and its comments disagree\<close>

text \<open>The sharp spelling of A flat is missing from the table, so it is not a note name.\<close>

lemma sharp_g_refused:
  "parse_note ''G#4'' = Inl (Refused ''note {:?} is not a note name like C4 or F#3 (try A-G with an optional # or b)'' [''G#4''])"
  by code_simp

text \<open>A note name of one character that takes two bytes is cut in the middle of the character.\<close>

lemma wide_note_panics: "parse_note [char_of (233 :: nat)] = Inl (Panic ''byte index is not a char boundary'')"
  by code_simp

text \<open>A document without the format line is accepted.\<close>

lemma format_line_optional:
  "\<exists>s. parse_score (written_lines [''ticks_per_second 10'', ''0 5 C4 60'']) = Inr s"
proof -
  have "isl (parse_score (written_lines [''ticks_per_second 10'', ''0 5 C4 60''])) = False" by code_simp
  then show ?thesis by (metis isl_def sumE)
qed

text \<open>A measure of zero ticks is accepted by the parser and panics when the score is formatted.\<close>

lemma zero_measure_panics:
  "and_then (parse_score (written_lines [''ticks_per_second 10'', ''measure_ticks 0'', ''0 5 C4 60''])) (format_score sample_decimals) =
    Inl (Panic ''attempt to divide by zero'')"
  by code_simp

text \<open>A comment on the line of the first pair moves to the top when the text is formatted twice.\<close>

definition annotated_score :: bhs_score where
  "annotated_score = \<lparr>sc_ticks_per_second = 10, sc_measure_ticks = None, sc_loop_ticks = None,
     sc_pairs = [\<lparr>an_pair = \<lparr>sn_start_tick = 0, sn_duration_ticks = 5, sn_midi_note = 60, sn_velocity = 60, sn_release_velocity = None\<rparr>,
                  an_comments = [''; first'']\<rparr>],
     sc_leading = [], sc_trailing = [], sc_anchors = []\<rparr>"

definition text_start :: "score_failure + string \<Rightarrow> string" where
  "text_start r = (case r of Inr t \<Rightarrow> take 3 t | Inl _ \<Rightarrow> [])"

lemma formatting_not_idempotent:
  "\<exists>once s'. parse_score (written_lines [''ticks_per_second 10'', ''0 5 C4 60 ; first'']) = Inr annotated_score
    \<and> format_score sample_decimals annotated_score = Inr once \<and> parse_score once = Inr s'
    \<and> format_score sample_decimals s' \<noteq> Inr once"
proof -
  have "document_ok annotated_score" by code_simp
  from canonical_reading [OF this sample_decimals_plain] obtain once l where
    once: "effective_loop_ticks annotated_score = Inr l" "format_score sample_decimals annotated_score = Inr once"
      "parse_score once = Inr (canonical_score l annotated_score)" by blast
  have "effective_loop_ticks annotated_score = Inr 5" by code_simp
  then have l: "l = 5" using once(1) by simp
  have "text_start (format_score sample_decimals annotated_score) = ''; b''"
    "text_start (format_score sample_decimals (canonical_score 5 annotated_score)) = ''; f''" by code_simp+
  then have "format_score sample_decimals (canonical_score 5 annotated_score) \<noteq> Inr once" using once(2) by auto
  moreover have "parse_score (written_lines [''ticks_per_second 10'', ''0 5 C4 60 ; first'']) = Inr annotated_score" by code_simp
  ultimately show ?thesis using once(2,3) l by blast
qed

text \<open>Two scores that play are merged into one that does not: two roundings exceed the rounded loop.\<close>

definition half_second_score :: bhs_score where
  "half_second_score = new_score 1 None None [\<lparr>sn_start_tick = 0, sn_duration_ticks = 1, sn_midi_note = 60, sn_velocity = 60, sn_release_velocity = None\<rparr>]"

definition fine_score :: bhs_score where
  "fine_score = new_score 2 None None [\<lparr>sn_start_tick = 1, sn_duration_ticks = 1, sn_midi_note = 62, sn_velocity = 60, sn_release_velocity = None\<rparr>]"

lemma merge_breaks_loop:
  "check_loop_end half_second_score = Inr ()" "check_loop_end fine_score = Inr ()"
  "and_then (merge_with half_second_score fine_score) check_loop_end =
    Inl (Refused ''loop_ticks ({}) precedes the last release (tick {})'' [''1'', ''2''])"
  by code_simp+

text \<open>An explicit loop length below the shift wraps around, although the comment excludes it.\<close>

lemma shift_wraps_loop:
  "sc_loop_ticks (snd (shift_ticks (- 7) (new_score 10 None (Some 5)
     [\<lparr>sn_start_tick = 10, sn_duration_ticks = 1, sn_midi_note = 60, sn_velocity = 60, sn_release_velocity = None\<rparr>]))) = Some (- 2)"
  by code_simp

text \<open>A loop length of zero is accepted by the parser and panics when the score is stretched.\<close>

lemma zero_loop_panics:
  "and_then (parse_score (written_lines [''ticks_per_second 10'', ''loop_ticks 0'', ''0 5 C4 60''])) (rescale_to_duration sample_floats 3) =
    Inl (Panic ''attempt to divide by zero'')"
  by code_simp

text \<open>A mutation can remove the only pair; the text of the result cannot be written.\<close>

lemma mutation_empties_score:
  "format_score sample_decimals (mu_inner (snd (mutate_score lcg_ops 1000 \<lparr>mu_inner = half_second_score, mu_rng = 0\<rparr>))) =
    Inl (Panic ''at least one pair'')"
  by code_simp

end
