(* ===== verification/Spec2Isabelle.thy ===== *)
theory Spec2Isabelle
  imports Stream_Proofs Tensor_Sample Qwen_Proofs Mass_Inference Mass_Schedule Host_Witness Flux_Witness Score_Properties
begin

text \<open>
  Verification library of the Black Hole Sun workspace.

  The workspace is a distributed machine-learning system in Rust. A Void server stores objects
  for the others. A Mass server hosts model instances and forwards requests to worker servers.
  A Sun is a client that deploys a flow graph of typed operations over such servers and drives
  it. All of them exchange the wire types of \<open>_black_hole_type\<close>, and their payloads are tensor
  frames (\<open>_black_hole_spec\<close>).

  Conventions. Machine integers are words of their width (\<open>u8\<close> to \<open>u64\<close>; \<open>usize\<close> is 64 bits
  wide), structures are records, enumerations are datatypes, a hash map is an association list
  with at most one entry per key. Every operation returns a sum of an error and a value next to
  the new state, and a panic of the source is an error of its own, so that a theorem that excludes it says
  that the code does not panic. Loops over data are structural recursion. The
  few loops that wait are given the list of the states they observe (the events of a waiting
  download, the polls of a client), so their length is a parameter of the statement and no
  fuel can run out unnoticed; the loops of the scheduler are inductive relations with separate
  theorems that they can always go on and must end.

  Packages are parameters, gathered in environment records: postcard and JSON (an encoder and
  a decoder), the hash, the uuid generator, the clock, safetensors, the network between Mass
  servers, the model engine and the file system operations of the Mass server. What the code
  needs of them is stated in locales, and each locale is interpreted on concrete functions:
  \<open>Sample_Codec\<close> is a byte format with a verified decoder which stands for postcard in these
  instances, \<open>Mass_Demo\<close> an engine and a network.

  \<^bold>\<open>Void\<close> (\<open>_black_hole_void/src\<close>).
  \<^item> \<open>Object_Store\<close>, \<open>Meta_Store\<close>: the traits \<open>ObjectStore\<close> and \<open>VoidStore\<close> as records of
    operations, the in-memory implementations, and their contracts as locales
    (\<open>object_store_spec\<close>, \<open>void_store_spec\<close>, and the versions without faults).
  \<^item> \<open>Void_Server\<close>: the handlers of plain objects (\<open>lib.rs\<close>: upload, multipart upload,
    download, ranged download, waiting download, delete, list). \<open>Void_Backend\<close> proves them
    against the map from identifiers to bytes, once for a backend that may fail and once for a
    reliable one; \<open>Void_Objects\<close> has the results for the in-memory backend (C1 to C5).
  \<^item> \<open>Void_Transfer\<close>: the progressive transfer protocol (manifest, chunks, commit, abort,
    ticket, expiry). \<open>Transfer_Model\<close> is the abstract state machine of one transfer,
    \<open>Transfer_Proofs\<close> the simulation of it by the handlers, \<open>Void_Protocol\<close> the theorems over
    all reachable states (C6 to C10).
  \<^item> \<open>Transfer_Stream\<close>, \<open>Stream_Receiver\<close>, \<open>Stream_Proofs\<close>: the streaming upload and download
    loops of the server, the client of the Mass server that chunks, receives and polls, and
    their composition end to end (C11 to C15).

  \<^bold>\<open>Tensors\<close> (\<open>_black_hole_spec/src/lib.rs\<close>).
  \<^item> \<open>Tensor_Codec\<close>: contracts, the check of a bundle, the frame codec, the header of a live
    stream. \<open>Tensor_Proofs\<close> shows the check equivalent to a declarative reading of the
    contract, \<open>Tensor_Frames\<close> and \<open>Tensor_Sample\<close> the round trip and what validation
    guarantees.
  \<^item> \<open>Qwen_Bridge\<close>, \<open>Qwen_Proofs\<close>: the contract of the language model, its dense bundles, and
    the adapter of the Mass server between bundles and engine calls.

  \<^bold>\<open>Mass\<close> (\<open>_black_hole_mass/src/lib.rs\<close>).
  \<^item> \<open>Mass_Session\<close>, \<open>Mass_Types\<close>, \<open>Mass_Qwen\<close>: the session of a model instance (perturbation
    up and down, update, inference, fusion), its oscillation schedule, the slots of the
    adapter, start and shutdown. \<open>Session_Proofs\<close> is the step relation of a session,
    \<open>Slot_Proofs\<close> the refinement of the handlers to it; \<open>Mass_Training\<close>, \<open>Mass_Inference\<close> and
    \<open>Mass_Schedule\<close> hold the properties.
  \<^item> \<open>Mass_Host\<close>, \<open>Mass_Dispatch\<close>, \<open>Mass_Routing\<close>: registration of workers, placement,
    routing, the tunnel and the entry points. \<open>Host_Frame\<close> and \<open>Host_Proofs\<close> hold the
    invariant of the registry, \<open>Host_Network\<close> composes a root with a worker, and
    \<open>Placement_Proofs\<close> compares the selection with a reference definition.

  \<^bold>\<open>Flow graphs\<close> (\<open>_black_hole_flux/src\<close>).
  \<^item> \<open>Flux_Topology\<close> and \<open>Flux_Compile\<close>: the neutral topology, the registration of spawned
    vertices and the resolution with Kahn's algorithm (\<open>topology\<close>, \<open>compile\<close>).
    \<open>Flux_Graph\<close>, \<open>Flux_Kahn\<close>, \<open>Flux_Resolve\<close>: the resolution never panics and accepts exactly
    the well-formed flow graphs.
  \<^item> \<open>Flux_Forward\<close>, \<open>Flux_Pipeline\<close>, \<open>Flux_Programs\<close>: the actions and effects of forward
    passes and of the serving pipeline, and the two serving programs as instances of
    \<open>SunProgram\<close> (locale \<open>sun_program_spec\<close>).
  \<^item> \<open>Flux_Frontier\<close>, \<open>Flux_Pass\<close>, \<open>Flux_Serving\<close>: the invariant of a pass, and that it cannot
    get stuck, respects the edges and feeds each port once.
  \<^item> \<open>Flux_Window\<close>: a window of the serving pipeline with several inputs in flight cannot get
    stuck either, completes every input at every vertex in the order of the edges, and leaves
    the program ready for the next window. \<open>Flux_Witness\<close> runs a deployment of three vertices,
    through a pass and through a window of two inputs.

  \<^bold>\<open>Piano scores\<close> (\<open>_black_hole_beam/src/piano\<close>).
  \<^item> \<open>Score_Lexer\<close>, \<open>Score_Text\<close>: the document of \<open>score_text.rs\<close> with its parser, canonical text
    and diagnostics, over texts whose characters are below 256. \<open>Score_Edit\<close>: the editing
    operations and the random mutations. \<open>Score_Playback\<close>: the expansion into events and the
    looping playback of \<open>piano_score.rs\<close>.
  \<^item> \<open>Score_Proofs\<close>, \<open>Score_Canonical\<close>: what the parser returns is well-formed, and the canonical
    text is read back line by line. \<open>Score_Changes\<close>: stretching and mutation (locale
    \<open>random_source\<close>). \<open>Score_Performance\<close>: the order of the events and the playback as the
    endless repetition of them, for the \<open>2 ^ 32\<close> cycles that the code counts without wrapping.
    \<open>Score_Properties\<close>: the theorems, their instances, and the documents on which code and
    comments disagree.

  \<open>Sun_Prelude\<close> holds the shared vocabulary (words, errors, folds that stop at an error,
  association lists), \<open>Wire_Types\<close> the messages and records.

  Not modelled.
  \<^item> Sockets, TLS, QUIC sessions, accept loops and server start-up; the stores backed by a file
    system, S3 or Postgres. They are input and output against external services.
  \<^item> Real concurrency. A handler runs to its end before the next one, except where the code
    waits: there the states that other requests produce in between are a parameter.
  \<^item> Floating point arithmetic and the tensor kernels of the engine: the values of the engine
    are a type parameter.
  \<^item> The training programs of the flow runtime (\<open>two_sided_zo\<close>, \<open>pipeline_backward\<close>) and the
    flow nodes, which repeat the scheduling of the forward pipeline with more phases over
    clients of the servers; the client library \<open>black-hole-sun\<close>, which is mostly connection
    handling.
  \<^item> The graphical front end, the audio synthesis and the command lines of \<open>_black_hole_beam\<close>, the
    test programs and the examples.
\<close>

end
